(* ===== verification/Go_Float.thy ===== *)
theory Go_Float
  imports Complex_Main Prelude
begin

text \<open>
  Go's \<open>float64\<close> arithmetic, as far as the program uses it: every operation is the exact rational
  result rounded to 53 significant bits, ties to even. The exponent range is not bounded: no
  value of the program is small enough to be subnormal, and the one computation that can
  overflow (the restart delay) is compared with a finite cap straight away, so that infinity and
  a huge finite value take the same branch. The locale \<open>rounding\<close> states what the component
  proofs rely on, and the rounding \<open>f64\<close> below is shown to provide it.
\<close>

section \<open>Rounding to nearest, ties to even\<close>

definition rhe :: "rat \<Rightarrow> int" where
  "rhe x = (let k = \<lfloor>x\<rfloor>; d = x - of_int k in
     if d < 1 / 2 then k else if 1 / 2 < d then k + 1 else if even k then k else k + 1)"

lemma rhe_of_int [simp]: "rhe (of_int k) = k"
  by (simp add: rhe_def)

lemma rhe_bounds: "\<lfloor>x\<rfloor> \<le> rhe x" "rhe x \<le> \<lfloor>x\<rfloor> + 1"
  by (auto simp: rhe_def Let_def)

lemma rhe_mono:
  assumes "x \<le> y"
  shows "rhe x \<le> rhe y"
proof (cases "\<lfloor>x\<rfloor> = \<lfloor>y\<rfloor>")
  case True
  then show ?thesis using assms by (auto simp: rhe_def Let_def)
next
  case False
  with assms have "\<lfloor>x\<rfloor> + 1 \<le> \<lfloor>y\<rfloor>"
    using floor_mono [OF assms] by linarith
  with rhe_bounds [of x] rhe_bounds [of y] show ?thesis by linarith
qed

text \<open>
  \<open>rnd53 x\<close> scales a positive \<open>x\<close> by powers of two until its integer part has 53 bits, rounds
  there, and scales back.
\<close>

function rnd53 :: "rat \<Rightarrow> rat" where
  "rnd53 x =
     (if x \<le> 0 then 0
      else if x < 4503599627370496 then rnd53 (2 * x) / 2
      else if 9007199254740992 \<le> x then 2 * rnd53 (x / 2)
      else of_int (rhe x))"
  by pat_completeness auto
termination
proof (relation "measure (\<lambda>x. if x < 4503599627370496 then nat \<lceil>4503599627370496 / x\<rceil>
    else if 9007199254740992 \<le> x then nat \<lfloor>x\<rfloor> else 0)")
  show "wf (measure (\<lambda>x::rat. if x < 4503599627370496 then nat \<lceil>4503599627370496 / x\<rceil>
    else if 9007199254740992 \<le> x then nat \<lfloor>x\<rfloor> else 0))" by simp
next
  fix x :: rat
  assume x: "\<not> x \<le> 0" "x < 4503599627370496"
  have a: "4503599627370496 / (2 * x) \<le> 4503599627370496 / x - 1 / 2"
    if "2 * x < 4503599627370496"
    using x that by (simp add: field_simps)
  have b: "1 < 4503599627370496 / x" using x by (simp add: field_simps)
  have c: "\<lceil>4503599627370496 / (2 * x)\<rceil> < \<lceil>4503599627370496 / x\<rceil>"
    if "2 * x < 4503599627370496"
  proof -
    have "2 < 4503599627370496 / x" using x that by (simp add: field_simps)
    then have "4503599627370496 / (2 * x) + 1 < 4503599627370496 / x"
      using x that by (simp add: field_simps)
    then show ?thesis by linarith
  qed
  show "(2 * x, x) \<in> measure (\<lambda>x. if x < 4503599627370496 then nat \<lceil>4503599627370496 / x\<rceil>
    else if 9007199254740992 \<le> x then nat \<lfloor>x\<rfloor> else 0)"
    using x b c by (auto simp: not_le)
next
  fix x :: rat
  assume x: "\<not> x \<le> 0" "\<not> x < 4503599627370496" "9007199254740992 \<le> x"
  then have "\<lfloor>x / 2\<rfloor> < \<lfloor>x\<rfloor>" by linarith
  with x show "(x / 2, x) \<in> measure (\<lambda>x. if x < 4503599627370496 then nat \<lceil>4503599627370496 / x\<rceil>
    else if 9007199254740992 \<le> x then nat \<lfloor>x\<rfloor> else 0)"
    by (auto simp: not_le)
qed

declare rnd53.simps [simp del]

definition f64 :: "rat \<Rightarrow> rat" where
  "f64 x = (if x < 0 then - rnd53 (- x) else rnd53 x)"


section \<open>Monotone, exact on small integers, idempotent, relative error\<close>

lemma rnd53_nonpos [simp]: "x \<le> 0 \<Longrightarrow> rnd53 x = 0"
  by (simp add: rnd53.simps)

lemma rnd53_scale: "rnd53 (2 * x) = 2 * rnd53 x"
proof -
  consider "x \<le> 0" | "0 < x" "x < 4503599627370496" | "4503599627370496 \<le> x" by linarith
  then show ?thesis
  proof cases
    case 2
    then show ?thesis by (simp add: rnd53.simps [of x])
  next
    case 3
    then show ?thesis by (simp add: rnd53.simps [of "2 * x"])
  qed simp
qed

lemma rnd53_half: "rnd53 (x / 2) = rnd53 x / 2"
  using rnd53_scale [of "x / 2"] by simp

lemma rnd53_scale_pow: "rnd53 (2 ^ n * x) = 2 ^ n * rnd53 x"
  by (induction n arbitrary: x) (simp_all add: rnd53_scale mult.assoc)

lemma rnd53_base:
  "4503599627370496 \<le> x \<Longrightarrow> x < 9007199254740992 \<Longrightarrow> rnd53 x = of_int (rhe x)"
  by (simp add: rnd53.simps)

lemma rnd53_lower: "4503599627370496 \<le> x \<Longrightarrow> 4503599627370496 \<le> rnd53 x"
proof (induction x rule: rnd53.induct)
  case (1 x)
  show ?case
  proof (cases "9007199254740992 \<le> x")
    case True
    with "1.IH"(2) have "4503599627370496 \<le> rnd53 (x / 2)" by simp
    then show ?thesis by (simp add: rnd53_half)
  next
    case False
    have "rhe (of_int 4503599627370496) \<le> rhe x" using "1.prems" by (intro rhe_mono) simp
    then have "(4503599627370496::int) \<le> rhe x" by (simp only: rhe_of_int)
    then have "of_int 4503599627370496 \<le> (of_int (rhe x) :: rat)" by (simp only: of_int_le_iff)
    with False "1.prems" show ?thesis by (simp add: rnd53_base)
  qed
qed

lemma rnd53_mono_large:
  "4503599627370496 \<le> x \<Longrightarrow> x \<le> y \<Longrightarrow> rnd53 x \<le> rnd53 y"
proof (induction y arbitrary: x rule: rnd53.induct)
  case (1 y)
  consider "y < 9007199254740992" | "9007199254740992 \<le> x" | "9007199254740992 \<le> y" "x < 9007199254740992"
    by linarith
  then show ?case
  proof cases
    case 1
    with "1.prems" show ?thesis by (simp add: rnd53_base rhe_mono)
  next
    case 2
    with "1.prems" have "rnd53 (x / 2) \<le> rnd53 (y / 2)" by (intro "1.IH"(2)) auto
    then show ?thesis by (simp add: rnd53_half)
  next
    case 3
    have "rhe x \<le> rhe (of_int 9007199254740992)" using 3 by (intro rhe_mono) simp
    then have "rhe x \<le> 9007199254740992" by (simp only: rhe_of_int)
    then have "(of_int (rhe x) :: rat) \<le> of_int 9007199254740992" by (simp only: of_int_le_iff)
    then have "rnd53 x \<le> 9007199254740992" using 3 "1.prems" by (simp add: rnd53_base)
    moreover have "4503599627370496 \<le> rnd53 (y / 2)" using 3 by (intro rnd53_lower) simp
    ultimately show ?thesis by (simp add: rnd53_half)
  qed
qed

lemma pow2_unbounded:
  fixes x :: rat
  assumes "0 < x"
  obtains n :: nat where "4503599627370496 \<le> 2 ^ n * x"
proof -
  obtain n :: nat where "4503599627370496 / x < 2 ^ n"
    using real_arch_pow [of 2 "of_rat (4503599627370496 / x)"]
    by (metis of_rat_less of_rat_numeral_eq of_rat_power one_less_numeral_iff semiring_norm(76))
  then have "4503599627370496 \<le> 2 ^ n * x" using assms by (simp add: field_simps)
  then show thesis by (rule that)
qed

lemma rnd53_mono: assumes "x \<le> y" shows "rnd53 x \<le> rnd53 y"
proof (cases "x \<le> 0")
  case True
  have "0 \<le> rnd53 y"
  proof (cases "y \<le> 0")
    case False
    then have "0 < y" by simp
    then obtain n where n: "4503599627370496 \<le> 2 ^ n * y" by (rule pow2_unbounded)
    have "0 \<le> rnd53 (2 ^ n * y)" using rnd53_lower [OF n] by linarith
    moreover have "(0::rat) < 2 ^ n" by simp
    ultimately show ?thesis by (simp only: rnd53_scale_pow zero_le_mult_iff) linarith
  qed simp
  with True show ?thesis by simp
next
  case False
  then have "0 < x" by simp
  then obtain n where n: "4503599627370496 \<le> 2 ^ n * x" by (rule pow2_unbounded)
  have "rnd53 (2 ^ n * x) \<le> rnd53 (2 ^ n * y)"
    using assms n by (intro rnd53_mono_large) auto
  then show ?thesis by (simp add: rnd53_scale_pow)
qed

lemma rnd53_int: "0 \<le> n \<Longrightarrow> n \<le> 9007199254740992 \<Longrightarrow> rnd53 (of_int n) = of_int n"
proof (induction "of_int n :: rat" arbitrary: n rule: rnd53.induct)
  case 1
  consider "n = 0" | "0 < n" "n < 4503599627370496" | "4503599627370496 \<le> n" "n < 9007199254740992"
    | "n = 9007199254740992"
    using "1.prems" by linarith
  then show ?case
  proof cases
    case 1
    then show ?thesis by simp
  next
    case 2
    then have "(of_int n :: rat) < of_int 4503599627370496" by (simp only: of_int_less_iff)
    then have lt: "(of_int n :: rat) < 4503599627370496" by simp
    have "rnd53 (of_int (2 * n)) = of_int (2 * n)" using 2 lt by (intro "1.hyps"(1)) auto
    then show ?thesis using 2 lt by (simp add: rnd53.simps [of "of_int n"])
  next
    case 3
    then have "of_int 4503599627370496 \<le> (of_int n :: rat)" "(of_int n :: rat) < of_int 9007199254740992"
      by (simp_all only: of_int_le_iff of_int_less_iff)
    then show ?thesis by (simp add: rnd53_base)
  next
    case 4
    have "rnd53 4503599627370496 = 4503599627370496"
      using rnd53_base [of "of_int 4503599627370496"] by (simp only: rhe_of_int) simp
    then show ?thesis using rnd53_scale [of 4503599627370496] 4 by simp
  qed
qed

lemma rhe_le_pow53: "4503599627370496 \<le> x \<Longrightarrow> x < 9007199254740992 \<Longrightarrow>
  0 \<le> rhe x \<and> rhe x \<le> 9007199254740992"
  using rhe_mono [of "of_int 4503599627370496" x] rhe_mono [of x "of_int 9007199254740992"]
  unfolding rhe_of_int by auto

lemma rnd53_idem: "rnd53 (rnd53 x) = rnd53 x"
proof (induction x rule: rnd53.induct)
  case (1 x)
  consider "x \<le> 0" | "0 < x" "x < 4503599627370496" | "9007199254740992 \<le> x"
    | "4503599627370496 \<le> x" "x < 9007199254740992" by linarith
  then show ?case
  proof cases
    case 2
    with "1.IH"(1) show ?thesis by (simp add: rnd53_scale)
  next
    case 3
    with "1.IH"(2) show ?thesis by (simp add: rnd53_half)
  next
    case 4
    with rhe_le_pow53 [OF 4] show ?thesis by (simp add: rnd53_base [OF 4] rnd53_int)
  qed simp
qed

lemma rhe_err: "\<bar>of_int (rhe x) - x\<bar> \<le> 1 / 2"
proof -
  have "of_int \<lfloor>x\<rfloor> \<le> x" "x < of_int \<lfloor>x\<rfloor> + 1" by linarith+
  then show ?thesis unfolding rhe_def Let_def by (simp add: abs_le_iff)
qed

lemma rnd53_err: "0 \<le> x \<Longrightarrow> \<bar>rnd53 x - x\<bar> \<le> x / 9007199254740992"
proof (induction x rule: rnd53.induct)
  case (1 x)
  consider "x \<le> 0" | "0 < x" "x < 4503599627370496" | "9007199254740992 \<le> x"
    | "4503599627370496 \<le> x" "x < 9007199254740992" by linarith
  then show ?case
  proof cases
    case 1
    with "1.prems" show ?thesis by simp
  next
    case 2
    with "1.IH"(1) "1.prems" have "\<bar>2 * rnd53 x - 2 * x\<bar> \<le> 2 * x / 9007199254740992"
      by (simp add: rnd53_scale)
    then show ?thesis unfolding abs_le_iff by linarith
  next
    case 3
    with "1.IH"(2) "1.prems" have "\<bar>rnd53 x / 2 - x / 2\<bar> \<le> x / 2 / 9007199254740992"
      by (simp add: rnd53_half)
    then show ?thesis unfolding abs_le_iff by linarith
  next
    case 4
    then show ?thesis using rhe_err [of x] by (simp add: rnd53_base [OF 4])
  qed
qed

section \<open>The interface the components use\<close>

text \<open>
  \<open>fl_mono\<close>, \<open>fl_int\<close> and \<open>fl_idem\<close> are what IEEE 754 promises of the correctly rounded
  operations; the lemmas of the locale are what bounded counters need of them.
\<close>

locale rounding =
  fixes fl :: "rat \<Rightarrow> rat"
  assumes fl_mono: "x \<le> y \<Longrightarrow> fl x \<le> fl y"
    and fl_int: "\<bar>n\<bar> \<le> 9007199254740992 \<Longrightarrow> fl (of_int n) = of_int n"
    and fl_idem: "fl (fl x) = fl x"
begin

lemma fl_zero [simp]: "fl 0 = 0"
  using fl_int [of 0] by simp

lemma fl_one [simp]: "fl 1 = 1"
  using fl_int [of 1] by simp

lemma fl_nonneg: "0 \<le> x \<Longrightarrow> 0 \<le> fl x"
  using fl_mono [of 0 x] by simp

lemma fl_le_int: "x \<le> of_int n \<Longrightarrow> \<bar>n\<bar> \<le> 9007199254740992 \<Longrightarrow> fl x \<le> of_int n"
  using fl_mono [of x "of_int n"] by (simp add: fl_int)

lemma int_le_fl: "of_int n \<le> x \<Longrightarrow> \<bar>n\<bar> \<le> 9007199254740992 \<Longrightarrow> of_int n \<le> fl x"
  using fl_mono [of "of_int n" x] by (simp add: fl_int)

lemma fl_add_ge: "fl x = x \<Longrightarrow> 0 \<le> r \<Longrightarrow> x \<le> fl (x + r)"
  using fl_mono [of x "x + r"] by simp

lemma fl_sub_le: "fl x = x \<Longrightarrow> 0 \<le> r \<Longrightarrow> fl (x - r) \<le> x"
  using fl_mono [of "x - r" x] by simp

end

lemma f64_nonneg_eq: "0 \<le> x \<Longrightarrow> f64 x = rnd53 x"
  by (simp add: f64_def)

lemma rnd53_nonneg: "0 \<le> rnd53 x"
  using rnd53_mono [of "min 0 x" x] by (simp add: min_def)

lemma f64_mono: "x \<le> y \<Longrightarrow> f64 x \<le> f64 y"
  using rnd53_mono [of x y] rnd53_mono [of "- y" "- x"] rnd53_nonneg [of y] rnd53_nonneg [of "- x"]
  by (auto simp: f64_def)

lemma f64_int: "\<bar>n\<bar> \<le> 9007199254740992 \<Longrightarrow> f64 (of_int n) = of_int n"
  using rnd53_int [of n] rnd53_int [of "- n"] by (auto simp: f64_def abs_if split: if_splits)

lemma f64_idem: "f64 (f64 x) = f64 x"
  using rnd53_nonneg [of x] rnd53_nonneg [of "- x"]
  by (auto simp: f64_def rnd53_idem not_less)

interpretation f64: rounding f64
  by unfold_locales (auto intro: f64_mono f64_int f64_idem)

lemma f64_err: "\<bar>f64 x - x\<bar> \<le> \<bar>x\<bar> / 9007199254740992"
  using rnd53_err [of x] rnd53_err [of "- x"] by (auto simp: f64_def abs_if split: if_splits)

lemma f64_scale_pow: "0 \<le> x \<Longrightarrow> f64 (2 ^ n * x) = 2 ^ n * f64 x"
  by (simp add: f64_nonneg_eq rnd53_scale_pow)

lemma f64_numeral: "numeral k \<le> (9007199254740992 :: int) \<Longrightarrow> f64 (numeral k) = numeral k"
  using f64_int [of "numeral k"] by simp

section \<open>Conversion to a 64-bit integer\<close>

text \<open>
  Go truncates towards zero. The language leaves the result open when the value does not fit
  (amd64 gives the smallest integer, arm64 the largest), so that result is the parameter \<open>oob\<close>.
\<close>

definition max_int64 :: int where "max_int64 = 9223372036854775807"

definition min_int64 :: int where "min_int64 = - 9223372036854775808"

definition trunc_rat :: "rat \<Rightarrow> int" where
  "trunc_rat x = (if x < 0 then - \<lfloor>- x\<rfloor> else \<lfloor>x\<rfloor>)"

definition to_int64 :: "int \<Rightarrow> rat \<Rightarrow> int" where
  "to_int64 oob x =
     (let k = trunc_rat x in if min_int64 \<le> k \<and> k \<le> max_int64 then k else oob)"

lemma trunc_of_int [simp]: "trunc_rat (of_int k) = k"
  unfolding trunc_rat_def by (simp flip: of_int_minus)

lemma trunc_rat_mono:
  assumes "x \<le> y"
  shows "trunc_rat x \<le> trunc_rat y"
proof (cases "x < 0 \<and> \<not> y < 0")
  case True
  then have "0 \<le> \<lfloor>- x\<rfloor>" "0 \<le> \<lfloor>y\<rfloor>" by simp_all
  then have "- \<lfloor>- x\<rfloor> \<le> \<lfloor>y\<rfloor>" by linarith
  with True show ?thesis unfolding trunc_rat_def by (simp only: if_True if_False simp_thms)
next
  case False
  with assms show ?thesis
    using floor_mono [of x y] floor_mono [of "- y" "- x"] by (auto simp: trunc_rat_def)
qed

lemma to_int64_small:
  assumes "0 \<le> x" "x \<le> of_int k" "k \<le> max_int64"
  shows "0 \<le> to_int64 oob x" "to_int64 oob x \<le> k" "to_int64 oob x = trunc_rat x"
proof -
  have "trunc_rat (of_int 0) \<le> trunc_rat x" using assms(1) by (intro trunc_rat_mono) simp
  moreover note trunc_rat_mono [OF assms(2)]
  ultimately have "0 \<le> trunc_rat x" "trunc_rat x \<le> k" by (simp_all only: trunc_of_int)
  then show "0 \<le> to_int64 oob x" "to_int64 oob x \<le> k" "to_int64 oob x = trunc_rat x"
    using assms(3) by (simp_all add: to_int64_def Let_def min_int64_def)
qed

lemma f64_max_int64: "f64 (of_int max_int64) = 9223372036854775808"
proof -
  have "\<lfloor>9223372036854775807 / 1024 :: rat\<rfloor> = 9007199254740991" by (simp add: floor_eq_iff)
  then show ?thesis by (simp add: max_int64_def f64_def rnd53.simps rhe_def Let_def)
qed

end
