(* ===== verification/Go_Time.thy ===== *)
theory Go_Time
  imports Go_Float
begin

text \<open>
  Go's \<open>time\<close> package as the program uses it. A \<open>time.Time\<close> is its distance from the Unix epoch
  in nanoseconds, an unbounded \<open>int\<close>, as the type covers many thousands of years; the zero value
  is the first of January of year 1. A \<open>time.Duration\<close> is a signed 64-bit count of nanoseconds;
  \<open>Time.Sub\<close> saturates at its bounds.
\<close>

type_synonym go_time = int
type_synonym duration = int

definition millisecond :: duration where "millisecond = 1000000"
definition second :: duration where "second = 1000000000"
definition minute :: duration where "minute = 60000000000"
definition hour :: duration where "hour = 3600000000000"

lemmas duration_defs = millisecond_def second_def minute_def hour_def

definition zero_time :: go_time where
  "zero_time = - 62135596800 * 1000000000"

definition is_zero_time :: "go_time \<Rightarrow> bool" where
  "is_zero_time t \<longleftrightarrow> t = zero_time"

definition time_sub :: "go_time \<Rightarrow> go_time \<Rightarrow> duration" where
  "time_sub t u = max min_int64 (min max_int64 (t - u))"

lemma time_sub_exact: "min_int64 \<le> t - u \<Longrightarrow> t - u \<le> max_int64 \<Longrightarrow> time_sub t u = t - u"
  by (simp add: time_sub_def)

lemma time_sub_nonneg: "u \<le> t \<Longrightarrow> 0 \<le> time_sub t u"
  by (simp add: time_sub_def max_int64_def)

lemma time_sub_self [simp]: "time_sub t t = 0"
  by (simp add: time_sub_def max_int64_def min_int64_def)

lemma time_sub_ge_iff: "k \<le> max_int64 \<Longrightarrow> min_int64 < k \<Longrightarrow> k \<le> time_sub t u \<longleftrightarrow> k \<le> t - u"
  by (auto simp: time_sub_def)

text \<open>Integer division of Go truncates towards zero.\<close>

definition go_div :: "int \<Rightarrow> int \<Rightarrow> int" where
  "go_div a b = sgn a * sgn b * (\<bar>a\<bar> div \<bar>b\<bar>)"

definition go_rem :: "int \<Rightarrow> int \<Rightarrow> int" where
  "go_rem a b = a - go_div a b * b"

lemma go_div_pos: "0 \<le> a \<Longrightarrow> 0 < b \<Longrightarrow> go_div a b = a div b"
  by (cases "a = 0") (simp_all add: go_div_def)

lemma go_rem_pos: "0 \<le> a \<Longrightarrow> 0 < b \<Longrightarrow> go_rem a b = a mod b"
  by (simp add: go_rem_def go_div_pos minus_div_mult_eq_mod)

text \<open>\<open>Duration.Seconds\<close>: whole seconds and the remaining nanoseconds, each rounded, then added.\<close>

definition dur_seconds :: "duration \<Rightarrow> rat" where
  "dur_seconds d =
     f64 (f64 (of_int (go_div d second)) + f64 (f64 (of_int (go_rem d second)) / 1000000000))"

lemma dur_seconds_nonneg: "0 \<le> d \<Longrightarrow> 0 \<le> dur_seconds d"
  by (simp add: dur_seconds_def go_div_pos go_rem_pos second_def f64.fl_nonneg
      pos_imp_zdiv_nonneg_iff)

lemma dur_seconds_zero [simp]: "dur_seconds 0 = 0"
  by (simp add: dur_seconds_def go_div_def go_rem_def)

end
