(* ===== verification/Supervisor_Backoff.thy ===== *)
theory Supervisor_Backoff
  imports Go_Time
begin

text \<open>
  \<open>internal/supervisor/supervisor.go\<close>, type \<open>Backoff\<close>: how restarts of the supervised process are
  spaced. The delay is computed in \<open>float64\<close> and converted to a duration, so it is modelled with
  the rounding of theory \<open>Go_Float\<close>.
\<close>

record backoff =
  bo_initial :: duration
  bo_max :: duration
  bo_factor :: rat
  bo_max_restarts :: int
  bo_reset_after :: duration
  bo_max_per_window :: int
  bo_window :: duration

definition default_backoff :: backoff where
  "default_backoff = \<lparr>
     bo_initial = 5 * second,
     bo_max = 80 * second,
     bo_factor = 2,
     bo_max_restarts = 5,
     bo_reset_after = minute,
     bo_max_per_window = 10,
     bo_window = hour \<rparr>"

text \<open>\<open>math.Pow\<close> at a whole exponent, correctly rounded (exact for powers of two).\<close>

definition go_pow :: "rat \<Rightarrow> nat \<Rightarrow> rat" where
  "go_pow x n = f64 (x ^ n)"

definition backoff_delay :: "int \<Rightarrow> backoff \<Rightarrow> int \<Rightarrow> duration" where
  "backoff_delay oob b attempt =
     (let attempt = (if attempt < 1 then 1 else attempt)
      in if bo_initial b \<le> 0 then 0
         else
           let factor = (if bo_factor b < 1 then 1 else bo_factor b);
               d = f64 (f64 (of_int (bo_initial b)) * go_pow factor (nat (attempt - 1)))
           in if 0 < bo_max b \<and> f64 (of_int (bo_max b)) < d then bo_max b
              else if f64 (of_int max_int64) < d then max_int64
              else to_int64 oob d)"

text \<open>The exact product before the caps, and its monotonicity in the attempt.\<close>

definition raw_delay :: "backoff \<Rightarrow> int \<Rightarrow> rat" where
  "raw_delay b attempt =
     f64 (f64 (of_int (bo_initial b)) *
       go_pow (if bo_factor b < 1 then 1 else bo_factor b)
         (nat ((if attempt < 1 then 1 else attempt) - 1)))"

lemma backoff_delay_raw:
  "backoff_delay oob b attempt =
     (if bo_initial b \<le> 0 then 0
      else if 0 < bo_max b \<and> f64 (of_int (bo_max b)) < raw_delay b attempt then bo_max b
      else if f64 (of_int max_int64) < raw_delay b attempt then max_int64
      else to_int64 oob (raw_delay b attempt))"
  by (simp add: backoff_delay_def raw_delay_def Let_def)

lemma go_pow_ge_one: "1 \<le> x \<Longrightarrow> 1 \<le> go_pow x n"
  using f64.int_le_fl [of 1 "x ^ n"] by (simp add: go_pow_def one_le_power)

lemma go_pow_mono: "1 \<le> x \<Longrightarrow> m \<le> n \<Longrightarrow> go_pow x m \<le> go_pow x n"
  unfolding go_pow_def by (intro f64.fl_mono power_increasing)

lemma raw_delay_nonneg: "0 \<le> bo_initial b \<Longrightarrow> 0 \<le> raw_delay b n"
proof -
  assume "0 \<le> bo_initial b"
  then have "0 \<le> f64 (of_int (bo_initial b))" by (intro f64.fl_nonneg) simp
  moreover have "1 \<le> go_pow (if bo_factor b < 1 then 1 else bo_factor b) k" for k
    by (rule go_pow_ge_one) simp
  then have "0 \<le> go_pow (if bo_factor b < 1 then 1 else bo_factor b) k" for k
    by (rule order_trans [rotated]) simp
  ultimately show ?thesis unfolding raw_delay_def by (blast intro: f64.fl_nonneg mult_nonneg_nonneg)
qed

lemma raw_delay_mono: "0 \<le> bo_initial b \<Longrightarrow> m \<le> n \<Longrightarrow> raw_delay b m \<le> raw_delay b n"
  unfolding raw_delay_def
  by (intro f64.fl_mono mult_left_mono go_pow_mono f64.fl_nonneg) (auto intro: nat_mono)

text \<open>With a cap of at most \<open>2 ^ 53\<close> nanoseconds (104 days) the conversion never overflows.\<close>

lemma backoff_delay_capped:
  assumes "0 < bo_max b" "bo_max b \<le> 9007199254740992" "0 < bo_initial b"
  shows "backoff_delay oob b n =
    (if of_int (bo_max b) < raw_delay b n then bo_max b else trunc_rat (raw_delay b n))"
proof -
  have fm: "f64 (of_int (bo_max b)) = of_int (bo_max b)" using assms by (intro f64_int) simp
  have "\<not> f64 (of_int max_int64) < raw_delay b n" if "\<not> of_int (bo_max b) < raw_delay b n"
  proof -
    have "(of_int (bo_max b) :: rat) \<le> of_int 9007199254740992" using assms(2) by (simp only: of_int_le_iff)
    then show ?thesis using that by (simp add: f64_max_int64)
  qed
  moreover have "to_int64 oob (raw_delay b n) = trunc_rat (raw_delay b n)"
    if "\<not> of_int (bo_max b) < raw_delay b n"
    using that assms by (intro to_int64_small(3) [where k = "bo_max b"])
      (auto simp: raw_delay_nonneg max_int64_def)
  ultimately show ?thesis using assms fm by (simp add: backoff_delay_raw)
qed

section \<open>Properties\<close>

text \<open>
  With a cap of at most 104 days, every delay lies between 0 and the cap, whatever the
  factor, the initial delay and the attempt, and whatever the platform does on overflow.
\<close>

theorem backoff_delay_within_cap:
  assumes "0 < bo_max b" "bo_max b \<le> 9007199254740992"
  shows "0 \<le> backoff_delay oob b n \<and> backoff_delay oob b n \<le> bo_max b"
proof (cases "0 < bo_initial b")
  case True
  have "trunc_rat (of_int 0) \<le> trunc_rat (raw_delay b n)"
    using True by (intro trunc_rat_mono) (simp add: raw_delay_nonneg)
  moreover have "trunc_rat (raw_delay b n) \<le> trunc_rat (of_int (bo_max b))"
    if "raw_delay b n \<le> of_int (bo_max b)" using that by (rule trunc_rat_mono)
  ultimately show ?thesis
    using assms True unfolding backoff_delay_capped [OF assms True] trunc_of_int by auto
next
  case False
  with assms show ?thesis by (simp add: backoff_delay_raw)
qed

theorem backoff_delay_within_cap_witness:
  "0 \<le> backoff_delay 0 default_backoff 9 \<and> backoff_delay 0 default_backoff 9 \<le> bo_max default_backoff"
  by (rule backoff_delay_within_cap) (simp_all add: default_backoff_def duration_defs)

text \<open>
  A later attempt never waits less than an earlier one, under the same bound on the cap.
\<close>

theorem backoff_delay_mono:
  assumes "0 < bo_max b" "bo_max b \<le> 9007199254740992" "m \<le> n"
  shows "backoff_delay oob b m \<le> backoff_delay oob b n"
proof (cases "0 < bo_initial b")
  case True
  have le: "raw_delay b m \<le> raw_delay b n" using True assms(3) by (intro raw_delay_mono) simp
  have "trunc_rat (raw_delay b m) \<le> trunc_rat (raw_delay b n)" using le by (rule trunc_rat_mono)
  moreover have "trunc_rat (raw_delay b m) \<le> trunc_rat (of_int (bo_max b))"
    if "raw_delay b m \<le> of_int (bo_max b)" using that by (rule trunc_rat_mono)
  ultimately show ?thesis
    using le unfolding backoff_delay_capped [OF assms(1,2) True] trunc_of_int by auto
next
  case False
  then show ?thesis by (simp add: backoff_delay_raw)
qed

theorem backoff_delay_mono_witness:
  "backoff_delay 0 default_backoff 2 \<le> backoff_delay 0 default_backoff 4"
  by (rule backoff_delay_mono) (simp_all add: default_backoff_def duration_defs)

text \<open>The default policy, evaluated.\<close>

lemma f64_int_num: "\<lbrakk>n = of_int k; \<bar>k\<bar> \<le> 9007199254740992\<rbrakk> \<Longrightarrow> f64 n = n"
  by (simp add: f64_int)

lemma default_raw_delay:
  "1 \<le> n \<Longrightarrow> n \<le> 6 \<Longrightarrow> raw_delay default_backoff n = 5000000000 * 2 ^ nat (n - 1)"
proof -
  assume n: "1 \<le> n" "n \<le> 6"
  then consider "n = 1" | "n = 2" | "n = 3" | "n = 4" | "n = 5" | "n = 6" by linarith
  then show ?thesis
    by cases (simp_all add: raw_delay_def default_backoff_def go_pow_def duration_defs
        f64_numeral nat_numeral_diff_1 eval_nat_numeral)
qed

end
