(* ===== verification/Supervisor.thy ===== *)
theory Supervisor
  imports Supervisor_Backoff
begin

text \<open>
  \<open>internal/supervisor/supervisor.go\<close>: the loop that keeps GitHub's runner process alive.

  The loop is a state machine. A phase is a point where the goroutine of \<open>Run\<close> blocks or where
  another goroutine can act between two critical sections; an input is what the environment
  supplies there: the outcome of launching the process, its exit, the clock, the cancellation of
  the context, and calls of \<open>Restart\<close>, which may come at any point. One step runs the code from
  one such point to the next. The events passed to \<open>OnEvent\<close> are collected in \<open>su_trace\<close>.
\<close>

section \<open>Events, options, state\<close>

datatype event_kind =
    EventStarting | EventStarted | EventExited | EventRestarting | EventHealthy
  | EventGaveUp | EventStopping | EventKilled | EventStopped | EventCompleted

text \<open>
  An error of \<open>Wait\<close>: an \<open>*exec.ExitError\<close> with its exit code (-1 for a signal), or anything else.
\<close>

datatype proc_error = ExitError int | OtherError string

record event =
  ev_kind :: event_kind
  ev_attempt :: int
  ev_pid :: int
  ev_exit_code :: int
  ev_uptime :: duration
  ev_delay :: duration
  ev_err :: "proc_error option"

definition no_event :: "event_kind \<Rightarrow> event" where
  "no_event k = \<lparr> ev_kind = k, ev_attempt = 0, ev_pid = 0, ev_exit_code = 0,
     ev_uptime = 0, ev_delay = 0, ev_err = None \<rparr>"

definition exit_code :: "proc_error option \<Rightarrow> int" where
  "exit_code e = (case e of None \<Rightarrow> 0 | Some (ExitError c) \<Rightarrow> c | Some (OtherError _) \<Rightarrow> -1)"

definition stop_timeout :: duration where
  "stop_timeout = 30 * second"

text \<open>
  \<open>so_done\<close> says whether the caller supplied \<open>EphemeralDone\<close>; what it answers is an input of the step
  that calls it. \<open>so_oob\<close> is the platform's result of an overflowing conversion in \<open>Delay\<close>.
\<close>

record sup_opts =
  so_command :: string
  so_backoff :: backoff
  so_ephemeral :: bool
  so_done :: bool
  so_stop_timeout :: duration
  so_oob :: int

definition new_supervisor :: "sup_opts \<Rightarrow> string + sup_opts" where
  "new_supervisor opts =
     (if so_command opts = '''' then Inl ''supervisor: no command to run''
      else
        let o1 = (if so_stop_timeout opts \<le> 0 then opts\<lparr>so_stop_timeout := stop_timeout\<rparr> else opts);
            o2 = (if bo_factor (so_backoff o1) = 0 \<and> bo_initial (so_backoff o1) = 0
                  then o1\<lparr>so_backoff := default_backoff\<rparr> else o1)
        in Inr o2)"

datatype sup_error = GaveUpRestarts int | GaveUpWindow int int

datatype phase =
    PTop                                       \<comment> \<open>about to launch\<close>
  | PRunning int go_time                       \<comment> \<open>\<open>awaitExit\<close>: pid, started at\<close>
  | PStopping int go_time                      \<comment> \<open>canceled, stop requested\<close>
  | PKilling int go_time                       \<comment> \<open>canceled, killed, waiting for the exit\<close>
  | PExited int "proc_error option" bool duration        \<comment> \<open>exit error, shutdown, uptime\<close>
  | PTaken int "proc_error option" bool duration bool    \<comment> \<open>the restart flag has been read\<close>
  | PBackoff                                   \<comment> \<open>waiting out the delay\<close>
  | PReturned "sup_error option"

record sup =
  su_phase :: phase
  su_attempt :: int
  su_current :: "int option"
  su_restarting :: bool
  su_recent :: "go_time list"
  su_trace :: "event list"

definition init_sup :: sup where
  "init_sup = \<lparr> su_phase = PTop, su_attempt = 0, su_current = None, su_restarting = False,
     su_recent = [], su_trace = [] \<rparr>"

datatype input =
    LaunchFails proc_error
  | Launched int go_time
  | ProcessExits "proc_error option" go_time
  | Canceled "proc_error option"               \<comment> \<open>the error of \<open>proc.Stop\<close>, if any\<close>
  | StopTimerFires
  | TakeFlag
  | Proceed bool go_time                       \<comment> \<open>what \<open>EphemeralDone\<close> answers, the clock\<close>
  | BackoffTimerFires
  | RestartCalled "proc_error option"          \<comment> \<open>the error of \<open>proc.Stop\<close>, if any\<close>

section \<open>The operations\<close>

definition emit :: "event \<Rightarrow> sup \<Rightarrow> sup" where
  "emit e s = s\<lparr>su_trace := su_trace s @ [e]\<rparr>"

definition set_current :: "int option \<Rightarrow> sup \<Rightarrow> sup" where
  "set_current p s =
     (let s = s\<lparr>su_current := p\<rparr>
      in if p \<noteq> None then s\<lparr>su_restarting := False\<rparr> else s)"

definition take_restart_flag :: "sup \<Rightarrow> bool \<times> sup" where
  "take_restart_flag s = (su_restarting s, s\<lparr>su_restarting := False\<rparr>)"

text \<open>\<open>Restart\<close>: its result, and the state after it.\<close>

definition restart :: "proc_error option \<Rightarrow> sup \<Rightarrow> bool \<times> sup" where
  "restart stop_err s =
     (case su_current s of
        None \<Rightarrow> (False, s)
      | Some pid \<Rightarrow>
          let s = s\<lparr>su_restarting := True\<rparr>
          in (True, if stop_err \<noteq> None
                    then emit ((no_event EventStopping)\<lparr>ev_pid := pid, ev_err := stop_err\<rparr>) s
                    else s))"

definition spend_restart :: "sup_opts \<Rightarrow> go_time \<Rightarrow> sup \<Rightarrow> int \<times> int \<times> sup" where
  "spend_restart opts now s =
     (let limit = bo_max_per_window (so_backoff opts); window = bo_window (so_backoff opts)
      in if limit \<le> 0 \<or> window \<le> 0 then (0, 0, s)
         else
           let cutoff = now - window;
               kept = filter (\<lambda>t. cutoff < t) (su_recent s);
               s = s\<lparr>su_recent := kept @ [now]\<rparr>
           in (int (length (su_recent s)), limit, s))"

definition wait_before_retry :: "sup_opts \<Rightarrow> sup \<Rightarrow> sup" where
  "wait_before_retry opts s =
     (let b = so_backoff opts; attempt = su_attempt s
      in if 0 < bo_max_restarts b \<and> bo_max_restarts b < attempt
         then (emit ((no_event EventGaveUp)\<lparr>ev_attempt := attempt - 1\<rparr>) s)
                \<lparr>su_phase := PReturned (Some (GaveUpRestarts (attempt - 1)))\<rparr>
         else (emit ((no_event EventRestarting)
                  \<lparr>ev_attempt := attempt, ev_delay := backoff_delay (so_oob opts) b attempt\<rparr>) s)
                \<lparr>su_phase := PBackoff\<rparr>)"

definition ephemeral_finished :: "sup_opts \<Rightarrow> bool \<Rightarrow> bool" where
  "ephemeral_finished opts answer \<longleftrightarrow> (if \<not> so_done opts then True else answer)"

text \<open>The top of the loop: the event, the launch, and the failed launch's share of the backoff.\<close>

definition launch :: "sup_opts \<Rightarrow> proc_error + int \<times> go_time \<Rightarrow> sup \<Rightarrow> sup" where
  "launch opts r s =
     (let s = emit ((no_event EventStarting)\<lparr>ev_attempt := su_attempt s\<rparr>) s
      in case r of
           Inl err \<Rightarrow>
             let s = emit ((no_event EventExited)
                       \<lparr>ev_attempt := su_attempt s, ev_err := Some err, ev_exit_code := -1\<rparr>) s;
                 s = s\<lparr>su_attempt := su_attempt s + 1\<rparr>
             in wait_before_retry opts s
         | Inr (pid, now) \<Rightarrow>
             let s = set_current (Some pid) s;
                 s = emit ((no_event EventStarted)\<lparr>ev_attempt := su_attempt s, ev_pid := pid\<rparr>) s
             in s\<lparr>su_phase := PRunning pid now\<rparr>)"

text \<open>\<open>awaitExit\<close> when the context is canceled: the stop is requested, and its error reported.\<close>

definition request_stop :: "proc_error option \<Rightarrow> int \<Rightarrow> go_time \<Rightarrow> sup \<Rightarrow> sup" where
  "request_stop stop_err pid started s =
     (let s = emit ((no_event EventStopping)\<lparr>ev_pid := pid\<rparr>) s;
          s = (if stop_err \<noteq> None
               then emit ((no_event EventStopping)\<lparr>ev_pid := pid, ev_err := stop_err\<rparr>) s else s)
      in s\<lparr>su_phase := PStopping pid started\<rparr>)"

text \<open>The rest of the loop body, once the process is gone and the restart flag has been read.\<close>

definition after_exit ::
  "sup_opts \<Rightarrow> bool \<Rightarrow> go_time \<Rightarrow> int \<Rightarrow> proc_error option \<Rightarrow> bool \<Rightarrow> duration \<Rightarrow> bool \<Rightarrow> sup \<Rightarrow> sup"
where
  "after_exit opts answer now pid exit_err shutdown uptime asked s =
     (let s = set_current None s
      in if shutdown
         then (emit ((no_event EventStopped)\<lparr>ev_pid := pid, ev_uptime := uptime\<rparr>) s)
                \<lparr>su_phase := PReturned None\<rparr>
         else
           let s = emit ((no_event EventExited)
                     \<lparr>ev_attempt := su_attempt s, ev_pid := pid, ev_exit_code := exit_code exit_err,
                      ev_uptime := uptime, ev_err := exit_err\<rparr>) s
           in if asked
              then (emit ((no_event EventRestarting)\<lparr>ev_attempt := su_attempt s, ev_delay := 0\<rparr>) s)
                     \<lparr>su_phase := PTop\<rparr>
              else if so_ephemeral opts \<and> exit_err = None \<and> ephemeral_finished opts answer
              then (emit ((no_event EventCompleted)\<lparr>ev_uptime := uptime\<rparr>) s)
                     \<lparr>su_phase := PReturned None\<rparr>
              else
                let healthy = 0 < bo_reset_after (so_backoff opts) \<and> bo_reset_after (so_backoff opts) \<le> uptime;
                    s = (if healthy \<and> 0 < su_attempt s
                         then emit ((no_event EventHealthy)\<lparr>ev_uptime := uptime\<rparr>) s else s);
                    s = (if healthy then s\<lparr>su_attempt := 0\<rparr> else s);
                    (spent, limit, s) = spend_restart opts now s
                in if 0 < limit \<and> limit < spent
                   then (emit ((no_event EventGaveUp)\<lparr>ev_attempt := spent\<rparr>) s)
                          \<lparr>su_phase := PReturned (Some (GaveUpWindow spent limit))\<rparr>
                   else
                     let s = s\<lparr>su_attempt := su_attempt s + 1\<rparr>
                     in wait_before_retry opts s)"

text \<open>One step: \<open>None\<close> when the input cannot occur in the phase.\<close>

fun sup_step :: "sup_opts \<Rightarrow> sup \<Rightarrow> input \<Rightarrow> sup option" where
  "sup_step opts s (RestartCalled err) = Some (snd (restart err s))"
| "sup_step opts s i =
     (case (su_phase s, i) of
        (PTop, LaunchFails err) \<Rightarrow> Some (launch opts (Inl err) s)
      | (PTop, Launched pid now) \<Rightarrow> Some (launch opts (Inr (pid, now)) s)
      | (PRunning pid t0, ProcessExits err now) \<Rightarrow>
          Some (s\<lparr>su_phase := PExited pid err False (time_sub now t0)\<rparr>)
      | (PRunning pid t0, Canceled stop_err) \<Rightarrow> Some (request_stop stop_err pid t0 s)
      | (PStopping pid t0, ProcessExits _ now) \<Rightarrow>
          Some (s\<lparr>su_phase := PExited pid None True (time_sub now t0)\<rparr>)
      | (PStopping pid t0, StopTimerFires) \<Rightarrow>
          Some ((emit ((no_event EventKilled)\<lparr>ev_pid := pid, ev_delay := so_stop_timeout opts\<rparr>) s)
                  \<lparr>su_phase := PKilling pid t0\<rparr>)
      | (PKilling pid t0, ProcessExits _ now) \<Rightarrow>
          Some (s\<lparr>su_phase := PExited pid None True (time_sub now t0)\<rparr>)
      | (PExited pid err shutdown uptime, TakeFlag) \<Rightarrow>
          (let (asked, s) = take_restart_flag s
           in Some (s\<lparr>su_phase := PTaken pid err shutdown uptime asked\<rparr>))
      | (PTaken pid err shutdown uptime asked, Proceed answer now) \<Rightarrow>
          Some (after_exit opts answer now pid err shutdown uptime asked s)
      | (PBackoff, BackoffTimerFires) \<Rightarrow> Some (s\<lparr>su_phase := PTop\<rparr>)
      | (PBackoff, Canceled _) \<Rightarrow>
          Some ((emit (no_event EventStopped) s)\<lparr>su_phase := PReturned None\<rparr>)
      | _ \<Rightarrow> None)"

text \<open>A run over a list of inputs: the state after it, if every input could occur.\<close>

fun sup_run :: "sup_opts \<Rightarrow> sup \<Rightarrow> input list \<Rightarrow> sup option" where
  "sup_run opts s [] = Some s"
| "sup_run opts s (i # is) = Option.bind (sup_step opts s i) (\<lambda>s'. sup_run opts s' is)"

end
