(* ===== verification/Supervisor_Correct.thy ===== *)
theory Supervisor_Correct
  imports Supervisor
begin

text \<open>
  What the restart loop of theory \<open>Supervisor\<close> guarantees: one process at a time, bounded
  restarts, the ceiling over a sliding window, a clean shutdown, and a legal order of events.
\<close>

section \<open>Looking at one step\<close>

lemma set_current_simps [step_defs]:
  "set_current None s = s\<lparr>su_current := None\<rparr>"
  "set_current (Some p) s = s\<lparr>su_current := Some p, su_restarting := False\<rparr>"
  by (simp_all add: set_current_def)

lemma emit_simps [simp]:
  "su_phase (emit e s) = su_phase s" "su_attempt (emit e s) = su_attempt s"
  "su_current (emit e s) = su_current s" "su_restarting (emit e s) = su_restarting s"
  "su_recent (emit e s) = su_recent s" "su_trace (emit e s) = su_trace s @ [e]"
  by (simp_all add: emit_def)

lemma restart_simps [simp]:
  "su_phase (snd (restart e s)) = su_phase s" "su_attempt (snd (restart e s)) = su_attempt s"
  "su_current (snd (restart e s)) = su_current s" "su_recent (snd (restart e s)) = su_recent s"
  "su_restarting (snd (restart e s)) = (su_restarting s \<or> su_current s \<noteq> None)"
  by (auto simp: restart_def Let_def split: option.splits)

lemma ev_kind_no_event [simp]: "ev_kind (no_event k) = k"
  by (simp add: no_event_def)

text \<open>The cases of a step, one for each branch of the loop that an input can select.\<close>

lemma sup_step_cases [consumes 1]:
  assumes "sup_step opts s i = Some s'"
  obtains (restart) e where "i = RestartCalled e" "s' = snd (restart e s)"
  | (launch_fails) e where "i = LaunchFails e" "su_phase s = PTop" "s' = launch opts (Inl e) s"
  | (launched) pid now where "i = Launched pid now" "su_phase s = PTop"
      "s' = launch opts (Inr (pid, now)) s"
  | (exits) pid t0 err now where "i = ProcessExits err now" "su_phase s = PRunning pid t0"
      "s' = s\<lparr>su_phase := PExited pid err False (time_sub now t0)\<rparr>"
  | (cancel) pid t0 e where "i = Canceled e" "su_phase s = PRunning pid t0"
      "s' = request_stop e pid t0 s"
  | (stopped) pid t0 err now where "i = ProcessExits err now"
      "su_phase s = PStopping pid t0 \<or> su_phase s = PKilling pid t0"
      "s' = s\<lparr>su_phase := PExited pid None True (time_sub now t0)\<rparr>"
  | (kill) pid t0 where "i = StopTimerFires" "su_phase s = PStopping pid t0"
      "s' = (emit ((no_event EventKilled)\<lparr>ev_pid := pid, ev_delay := so_stop_timeout opts\<rparr>) s)
         \<lparr>su_phase := PKilling pid t0\<rparr>"
  | (take_flag) pid err shutdown uptime where "i = TakeFlag" "su_phase s = PExited pid err shutdown uptime"
      "s' = s\<lparr>su_restarting := False,
              su_phase := PTaken pid err shutdown uptime (su_restarting s)\<rparr>"
  | (proceed) pid err shutdown uptime asked answer now where "i = Proceed answer now"
      "su_phase s = PTaken pid err shutdown uptime asked"
      "s' = after_exit opts answer now pid err shutdown uptime asked s"
  | (retry) "i = BackoffTimerFires" "su_phase s = PBackoff" "s' = s\<lparr>su_phase := PTop\<rparr>"
  | (cancel_backoff) e where "i = Canceled e" "su_phase s = PBackoff"
      "s' = (emit (no_event EventStopped) s)\<lparr>su_phase := PReturned None\<rparr>"
proof (cases i)
  case (ProcessExits err now)
  then show thesis using assms exits stopped by (cases "su_phase s") auto
next
  case (Canceled e)
  then show thesis using assms cancel cancel_backoff by (cases "su_phase s") auto
next
  case (RestartCalled e)
  then show thesis using assms restart by simp
next
  case (LaunchFails e)
  then show thesis using assms launch_fails by (cases "su_phase s") auto
next
  case (Launched pid now)
  then show thesis using assms launched by (cases "su_phase s") auto
next
  case StopTimerFires
  then show thesis using assms kill by (cases "su_phase s") auto
next
  case TakeFlag
  then show thesis using assms take_flag by (cases "su_phase s") (auto simp: take_restart_flag_def)
next
  case (Proceed b now)
  then show thesis using assms proceed by (cases "su_phase s") auto
next
  case BackoffTimerFires
  then show thesis using assms retry by (cases "su_phase s") auto
qed

text \<open>The outcomes of \<open>waitBeforeRetry\<close> and of the code after an exit, by the phase they reach.\<close>

lemma wait_before_retry_cases:
  obtains (gave_up) "0 < bo_max_restarts (so_backoff opts)"
      "bo_max_restarts (so_backoff opts) < su_attempt s"
      "wait_before_retry opts s =
         (emit ((no_event EventGaveUp)\<lparr>ev_attempt := su_attempt s - 1\<rparr>) s)
            \<lparr>su_phase := PReturned (Some (GaveUpRestarts (su_attempt s - 1)))\<rparr>"
  | (backoff) "\<not> (0 < bo_max_restarts (so_backoff opts) \<and>
        bo_max_restarts (so_backoff opts) < su_attempt s)"
      "wait_before_retry opts s =
         (emit ((no_event EventRestarting)\<lparr>ev_attempt := su_attempt s,
            ev_delay := backoff_delay (so_oob opts) (so_backoff opts) (su_attempt s)\<rparr>) s)
            \<lparr>su_phase := PBackoff\<rparr>"
  by (cases "0 < bo_max_restarts (so_backoff opts) \<and> bo_max_restarts (so_backoff opts) < su_attempt s")
     (auto simp: wait_before_retry_def Let_def)

lemma wait_before_retry_simps [simp]:
  "su_attempt (wait_before_retry opts s) = su_attempt s"
  "su_current (wait_before_retry opts s) = su_current s"
  "su_restarting (wait_before_retry opts s) = su_restarting s"
  "su_recent (wait_before_retry opts s) = su_recent s"
  by (simp_all add: wait_before_retry_def Let_def)

lemma wait_before_retry_phase:
  "su_phase (wait_before_retry opts s) =
     (if 0 < bo_max_restarts (so_backoff opts) \<and> bo_max_restarts (so_backoff opts) < su_attempt s
      then PReturned (Some (GaveUpRestarts (su_attempt s - 1))) else PBackoff)"
  by (simp add: wait_before_retry_def Let_def)

text \<open>The budget: when it is in force, and what is left of the record of restarts.\<close>

definition budget_on :: "sup_opts \<Rightarrow> bool" where
  "budget_on opts \<longleftrightarrow> 0 < bo_max_per_window (so_backoff opts) \<and> 0 < bo_window (so_backoff opts)"

definition kept_recent :: "sup_opts \<Rightarrow> go_time \<Rightarrow> go_time list \<Rightarrow> go_time list" where
  "kept_recent opts now ts =
     (if budget_on opts then filter (\<lambda>t. now - bo_window (so_backoff opts) < t) ts @ [now] else ts)"

lemma spend_restart_eq:
  "spend_restart opts now s =
     (if budget_on opts
      then (int (length (kept_recent opts now (su_recent s))), bo_max_per_window (so_backoff opts),
            s\<lparr>su_recent := kept_recent opts now (su_recent s)\<rparr>)
      else (0, 0, s))"
  by (auto simp: spend_restart_def budget_on_def kept_recent_def Let_def)

definition over_budget :: "sup_opts \<Rightarrow> go_time \<Rightarrow> sup \<Rightarrow> bool" where
  "over_budget opts now s \<longleftrightarrow> budget_on opts \<and>
     bo_max_per_window (so_backoff opts) < int (length (kept_recent opts now (su_recent s)))"

definition healthy :: "sup_opts \<Rightarrow> duration \<Rightarrow> bool" where
  "healthy opts uptime \<longleftrightarrow>
     0 < bo_reset_after (so_backoff opts) \<and> bo_reset_after (so_backoff opts) \<le> uptime"

lemma after_exit_simps [simp]:
  "su_current (after_exit opts b now pid err sh u asked s) = None"
  "su_restarting (after_exit opts b now pid err sh u asked s) = su_restarting s"
  by (simp_all add: after_exit_def Let_def step_defs spend_restart_eq)

text \<open>
  The code after an exit has five outcomes. In the last one the loop goes on to
  \<open>waitBeforeRetry\<close> in a state whose fields are given.
\<close>

lemma after_exit_cases [consumes 1]:
  assumes r_def: "after_exit opts b now pid err sh uptime asked s = r"
  obtains (shutdown) sh "su_phase r = PReturned None" "su_attempt r = su_attempt s"
      "su_recent r = su_recent s" "map ev_kind (su_trace r) = map ev_kind (su_trace s) @ [EventStopped]"
  | (asked) "\<not> sh" asked "su_phase r = PTop" "su_attempt r = su_attempt s" "su_recent r = su_recent s"
      "map ev_kind (su_trace r) = map ev_kind (su_trace s) @ [EventExited, EventRestarting]"
  | (completed) "\<not> sh" "\<not> asked" "so_ephemeral opts" "err = None" "ephemeral_finished opts b"
      "su_phase r = PReturned None" "su_attempt r = su_attempt s" "su_recent r = su_recent s"
      "map ev_kind (su_trace r) = map ev_kind (su_trace s) @ [EventExited, EventCompleted]"
  | (over) "\<not> sh" "\<not> asked" "over_budget opts now s"
      "su_phase r = PReturned (Some (GaveUpWindow (int (length (kept_recent opts now (su_recent s))))
         (bo_max_per_window (so_backoff opts))))"
      "su_attempt r = (if healthy opts uptime then 0 else su_attempt s)"
      "su_recent r = kept_recent opts now (su_recent s)"
      "map ev_kind (su_trace r) = map ev_kind (su_trace s) @ [EventExited] @
         (if healthy opts uptime \<and> 0 < su_attempt s then [EventHealthy] else []) @ [EventGaveUp]"
  | (retry) s1 where "\<not> sh" "\<not> asked" "\<not> over_budget opts now s"
      "\<not> (so_ephemeral opts \<and> err = None \<and> ephemeral_finished opts b)"
      "r = wait_before_retry opts s1" "su_phase s1 = su_phase s" "su_current s1 = None"
      "su_attempt s1 = (if healthy opts uptime then 0 else su_attempt s) + 1"
      "su_recent s1 = kept_recent opts now (su_recent s)"
      "map ev_kind (su_trace s1) = map ev_kind (su_trace s) @ [EventExited] @
         (if healthy opts uptime \<and> 0 < su_attempt s then [EventHealthy] else [])"
proof -
  let ?done = "so_ephemeral opts \<and> err = None \<and> ephemeral_finished opts b"
  have lim: "budget_on opts \<Longrightarrow> 0 < bo_max_per_window (so_backoff opts)" by (simp add: budget_on_def)
  note defs = r_def [symmetric] after_exit_def Let_def step_defs spend_restart_eq healthy_def [symmetric]
  consider "sh" | "\<not> sh" "asked" | "\<not> sh" "\<not> asked" "?done"
    | "\<not> sh" "\<not> asked" "\<not> ?done" "over_budget opts now s"
    | "\<not> sh" "\<not> asked" "\<not> ?done" "\<not> over_budget opts now s" by blast
  then show thesis
  proof cases
    case 1 then show thesis by (intro shutdown) (simp_all add: defs)
  next
    case 2 then show thesis by (intro asked) (simp_all add: defs)
  next
    case 3 then show thesis by (intro completed) (simp_all add: defs)
  next
    case 4 then show thesis using lim
      by (intro over; cases "healthy opts uptime")
        (auto simp: defs over_budget_def kept_recent_def)
  next
    case 5
    define s0 where "s0 = emit ((no_event EventExited)
       \<lparr>ev_attempt := su_attempt s, ev_pid := pid, ev_exit_code := exit_code err,
        ev_uptime := uptime, ev_err := err\<rparr>) (s\<lparr>su_current := None\<rparr>)"
    define s1 where "s1 = (if healthy opts uptime \<and> 0 < su_attempt s
       then emit ((no_event EventHealthy)\<lparr>ev_uptime := uptime\<rparr>) s0 else s0)
         \<lparr>su_recent := kept_recent opts now (su_recent s),
          su_attempt := (if healthy opts uptime then 0 else su_attempt s) + 1\<rparr>"
    show thesis using 5
      by (intro retry [of s1]; cases "healthy opts uptime"; cases "budget_on opts")
        (auto simp: defs over_budget_def s1_def s0_def kept_recent_def emit_def)
  qed
qed


section \<open>One process at a time\<close>

text \<open>The process a phase is about, which is the one \<open>Restart\<close> reaches.\<close>

fun live_pid :: "phase \<Rightarrow> int option" where
  "live_pid (PRunning pid _) = Some pid"
| "live_pid (PStopping pid _) = Some pid"
| "live_pid (PKilling pid _) = Some pid"
| "live_pid (PExited pid _ _ _) = Some pid"
| "live_pid (PTaken pid _ _ _ _) = Some pid"
| "live_pid _ = None"

definition attempt_ok :: "sup_opts \<Rightarrow> sup \<Rightarrow> bool" where
  "attempt_ok opts s \<longleftrightarrow> 0 \<le> su_attempt s \<and>
     (0 < bo_max_restarts (so_backoff opts) \<longrightarrow>
        (case su_phase s of
           PReturned (Some (GaveUpRestarts n)) \<Rightarrow>
             n = bo_max_restarts (so_backoff opts) \<and> su_attempt s = n + 1
         | _ \<Rightarrow> su_attempt s \<le> bo_max_restarts (so_backoff opts)))"

definition sup_inv :: "sup_opts \<Rightarrow> sup \<Rightarrow> bool" where
  "sup_inv opts s \<longleftrightarrow> su_current s = live_pid (su_phase s) \<and> attempt_ok opts s"

lemma sup_run_append:
  "sup_run opts s (xs @ ys) = Option.bind (sup_run opts s xs) (\<lambda>s'. sup_run opts s' ys)"
  by (induction xs arbitrary: s) (auto split: option.splits simp: bind_eq_None_conv Option.bind_assoc)

text \<open>An invariant of single steps is an invariant of runs.\<close>

lemma sup_run_invariant:
  assumes "\<And>s i s'. I s \<Longrightarrow> sup_step opts s i = Some s' \<Longrightarrow> I s'"
  shows "I s \<Longrightarrow> sup_run opts s is = Some s' \<Longrightarrow> I s'"
  using assms by (induction "is" arbitrary: s) (auto simp: bind_eq_Some_conv)

lemma wait_before_retry_attempt_ok:
  assumes "0 \<le> su_attempt s"
    "0 < bo_max_restarts (so_backoff opts) \<Longrightarrow> su_attempt s \<le> bo_max_restarts (so_backoff opts) + 1"
  shows "attempt_ok opts (wait_before_retry opts s)"
  using assms by (auto simp: attempt_ok_def wait_before_retry_phase)

lemma launch_fails_eq:
  "launch opts (Inl e) s = wait_before_retry opts
     (emit ((no_event EventExited)\<lparr>ev_attempt := su_attempt s, ev_err := Some e, ev_exit_code := -1\<rparr>)
       (emit ((no_event EventStarting)\<lparr>ev_attempt := su_attempt s\<rparr>) s)\<lparr>su_attempt := su_attempt s + 1\<rparr>)"
  by (simp add: launch_def Let_def emit_def)

lemma launched_simps [simp]:
  "su_phase (launch opts (Inr (pid, now)) s) = PRunning pid now"
  "su_attempt (launch opts (Inr (pid, now)) s) = su_attempt s"
  "su_current (launch opts (Inr (pid, now)) s) = Some pid"
  "su_restarting (launch opts (Inr (pid, now)) s) = False"
  "su_recent (launch opts (Inr (pid, now)) s) = su_recent s"
  by (simp_all add: launch_def Let_def step_defs)

lemma request_stop_simps [simp]:
  "su_phase (request_stop e pid t0 s) = PStopping pid t0"
  "su_attempt (request_stop e pid t0 s) = su_attempt s"
  "su_current (request_stop e pid t0 s) = su_current s"
  "su_recent (request_stop e pid t0 s) = su_recent s"
  by (simp_all add: request_stop_def Let_def)

lemma attempt_ok_after_exit:
  assumes "attempt_ok opts s" "su_phase s = PTaken pid err sh uptime asked"
  shows "attempt_ok opts (after_exit opts b now pid err sh uptime asked s)"
proof -
  have a: "0 \<le> su_attempt s"
    "0 < bo_max_restarts (so_backoff opts) \<Longrightarrow> su_attempt s \<le> bo_max_restarts (so_backoff opts)"
    using assms by (simp_all add: attempt_ok_def)
  show ?thesis using refl [of "after_exit opts b now pid err sh uptime asked s"]
  proof (cases rule: after_exit_cases)
    case (retry s1)
    then show ?thesis using a by (auto intro!: wait_before_retry_attempt_ok)
  qed (use a in \<open>auto simp: attempt_ok_def\<close>)
qed

lemma after_exit_live: "live_pid (su_phase (after_exit opts b now pid err sh u asked s)) = None"
  using refl [of "after_exit opts b now pid err sh u asked s"]
  by (cases rule: after_exit_cases) (auto simp: wait_before_retry_phase)

lemma attempt_ok_cong:
  "su_phase s' = su_phase s \<Longrightarrow> su_attempt s' = su_attempt s \<Longrightarrow> attempt_ok opts s' = attempt_ok opts s"
  unfolding attempt_ok_def by (simp only:)

lemma sup_inv_step:
  assumes inv: "sup_inv opts s" and st: "sup_step opts s i = Some s'"
  shows "sup_inv opts s'"
  using st
proof (cases rule: sup_step_cases)
  case (restart e)
  then have "attempt_ok opts s' = attempt_ok opts s" by (intro attempt_ok_cong) simp_all
  with restart show ?thesis using inv by (simp add: sup_inv_def)
next
  case (launch_fails e)
  then show ?thesis using inv
    by (auto simp: sup_inv_def launch_fails_eq wait_before_retry_phase attempt_ok_def)
next
  case (proceed pid err shutdown uptime asked answer now)
  then show ?thesis using inv
    by (auto simp: sup_inv_def after_exit_live intro: attempt_ok_after_exit)
qed (use inv in \<open>auto simp: sup_inv_def attempt_ok_def split: phase.splits\<close>)

lemma sup_inv_init: "sup_inv opts init_sup"
  by (simp add: sup_inv_def init_sup_def attempt_ok_def)

lemma sup_inv_run: "sup_run opts init_sup is = Some s \<Longrightarrow> sup_inv opts s"
  by (rule sup_run_invariant [where I = "sup_inv opts", OF sup_inv_step sup_inv_init])


section \<open>The order of events\<close>

text \<open>
  What a consumer of \<open>OnEvent\<close> may rely on: an automaton over the kinds of events. \<open>LUp b\<close> is a
  running process; \<open>b\<close> says whether a stop has been announced for it.
\<close>

datatype life = LFresh | LStarting | LUp bool | LDown | LWaiting | LOver

fun life_step :: "life \<Rightarrow> event_kind \<Rightarrow> life option" where
  "life_step LFresh EventStarting = Some LStarting"
| "life_step LStarting EventStarted = Some (LUp False)"
| "life_step LStarting EventExited = Some LDown"
| "life_step (LUp b) EventStopping = Some (LUp True)"
| "life_step (LUp True) EventKilled = Some (LUp True)"
| "life_step (LUp True) EventStopped = Some LOver"
| "life_step (LUp b) EventExited = Some LDown"
| "life_step LDown EventHealthy = Some LDown"
| "life_step LDown EventRestarting = Some LWaiting"
| "life_step LDown EventCompleted = Some LOver"
| "life_step LDown EventGaveUp = Some LOver"
| "life_step LWaiting EventStarting = Some LStarting"
| "life_step LWaiting EventStopped = Some LOver"
| "life_step _ _ = None"

fun life_run :: "life \<Rightarrow> event_kind list \<Rightarrow> life option" where
  "life_run l [] = Some l"
| "life_run l (k # ks) = Option.bind (life_step l k) (\<lambda>l'. life_run l' ks)"

lemma life_run_append [simp]:
  "life_run l (xs @ ys) = Option.bind (life_run l xs) (\<lambda>l'. life_run l' ys)"
  by (induction xs arbitrary: l) (simp_all split: bind_splits)

fun life_matches :: "phase \<Rightarrow> life \<Rightarrow> bool" where
  "life_matches PTop l \<longleftrightarrow> l = LFresh \<or> l = LWaiting"
| "life_matches (PRunning _ _) l \<longleftrightarrow> (\<exists>b. l = LUp b)"
| "life_matches (PStopping _ _) l \<longleftrightarrow> l = LUp True"
| "life_matches (PKilling _ _) l \<longleftrightarrow> l = LUp True"
| "life_matches (PExited _ _ sh _) l \<longleftrightarrow> (\<exists>b. l = LUp b \<and> (sh \<longrightarrow> b))"
| "life_matches (PTaken _ _ sh _ _) l \<longleftrightarrow> (\<exists>b. l = LUp b \<and> (sh \<longrightarrow> b))"
| "life_matches PBackoff l \<longleftrightarrow> l = LWaiting"
| "life_matches (PReturned _) l \<longleftrightarrow> l = LOver"

definition kinds :: "sup \<Rightarrow> event_kind list" where
  "kinds s = map ev_kind (su_trace s)"

definition legal_trace :: "sup \<Rightarrow> bool" where
  "legal_trace s \<longleftrightarrow> su_current s = live_pid (su_phase s) \<and>
     (\<exists>l. life_run LFresh (kinds s) = Some l \<and> life_matches (su_phase s) l)"

lemma kinds_emit [simp]: "kinds (emit e s) = kinds s @ [ev_kind e]"
  by (simp add: kinds_def)

lemma kinds_wait_before_retry:
  "kinds (wait_before_retry opts s) = kinds s @
     [if 0 < bo_max_restarts (so_backoff opts) \<and> bo_max_restarts (so_backoff opts) < su_attempt s
      then EventGaveUp else EventRestarting]"
  by (simp add: wait_before_retry_def Let_def kinds_def)

lemma kinds_launched:
  "kinds (launch opts (Inr (pid, now)) s) = kinds s @ [EventStarting, EventStarted]"
  by (simp add: launch_def Let_def kinds_def step_defs)

lemma kinds_launch_fails:
  "kinds (launch opts (Inl e) s) = kinds s @ [EventStarting, EventExited,
     if 0 < bo_max_restarts (so_backoff opts) \<and> bo_max_restarts (so_backoff opts) < su_attempt s + 1
     then EventGaveUp else EventRestarting]"
  by (simp add: launch_fails_eq kinds_wait_before_retry) (simp add: kinds_def)

lemma kinds_request_stop:
  "kinds (request_stop e pid t0 s) =
     kinds s @ EventStopping # (if e = None then [] else [EventStopping])"
  by (simp add: request_stop_def Let_def kinds_def)

lemma kinds_restart:
  "kinds (snd (restart e s)) =
     kinds s @ (if su_current s \<noteq> None \<and> e \<noteq> None then [EventStopping] else [])"
  by (auto simp: restart_def Let_def kinds_def split: option.splits)

lemma kinds_update [simp]: "kinds (s\<lparr>su_phase := p\<rparr>) = kinds s" "kinds (s\<lparr>su_attempt := n\<rparr>) = kinds s"
  "kinds (s\<lparr>su_restarting := r\<rparr>) = kinds s" "kinds (s\<lparr>su_current := c\<rparr>) = kinds s"
  by (simp_all add: kinds_def)

lemmas kinds_simps = kinds_launched kinds_launch_fails kinds_request_stop kinds_restart
  kinds_wait_before_retry

lemma legal_trace_after_exit:
  assumes "legal_trace s" "su_phase s = PTaken pid err sh uptime asked"
  shows "legal_trace (after_exit opts b now pid err sh uptime asked s)"
proof -
  obtain c where c: "life_run LFresh (kinds s) = Some (LUp c)" "sh \<longrightarrow> c"
    using assms by (auto simp: legal_trace_def)
  show ?thesis using refl [of "after_exit opts b now pid err sh uptime asked s"]
  proof (cases rule: after_exit_cases)
    case (retry s1)
    have "life_run LFresh (map ev_kind (su_trace s1)) = Some LDown"
      using c retry(10) by (cases c) (simp_all add: kinds_def)
    then show ?thesis using retry(5,7)
      by (auto simp: legal_trace_def kinds_wait_before_retry wait_before_retry_phase,
        simp_all add: kinds_def)
  qed (use c in \<open>auto simp: legal_trace_def kinds_def\<close>)
qed

lemma legal_trace_step:
  assumes inv: "legal_trace s" and st: "sup_step opts s i = Some s'"
  shows "legal_trace s'"
  using st
proof (cases rule: sup_step_cases)
  case (restart e)
  then show ?thesis using inv by (cases "su_phase s") (auto simp: legal_trace_def kinds_simps)
next
  case (proceed pid err shutdown uptime asked answer now)
  then show ?thesis using inv by (auto intro: legal_trace_after_exit)
qed (use inv in \<open>auto simp: legal_trace_def kinds_simps wait_before_retry_phase launch_fails_eq\<close>)

lemma legal_trace_init: "legal_trace init_sup"
  by (simp add: legal_trace_def init_sup_def kinds_def)


section \<open>The ceiling over a window\<close>

text \<open>
  The times at which a restart that nobody asked for was granted, and the readings of the clock
  that the budget is charged with.
\<close>

fun granted :: "sup_opts \<Rightarrow> sup \<Rightarrow> input list \<Rightarrow> go_time list" where
  "granted opts s [] = []"
| "granted opts s (i # is) =
     (case sup_step opts s i of
        None \<Rightarrow> []
      | Some s' \<Rightarrow>
          (case i of
             Proceed _ now \<Rightarrow> if su_phase s' = PBackoff then now # granted opts s' is else granted opts s' is
           | _ \<Rightarrow> granted opts s' is))"

fun clock_readings :: "input list \<Rightarrow> go_time list" where
  "clock_readings [] = []"
| "clock_readings (Proceed _ now # is) = now # clock_readings is"
| "clock_readings (_ # is) = clock_readings is"

definition in_window :: "duration \<Rightarrow> go_time \<Rightarrow> go_time \<Rightarrow> bool" where
  "in_window w t a \<longleftrightarrow> t - w < a \<and> a \<le> t"

definition window_inv :: "sup_opts \<Rightarrow> go_time list \<Rightarrow> sup \<Rightarrow> bool" where
  "window_inv opts H s \<longleftrightarrow> sorted H
     \<and> (\<forall>t. int (length (filter (in_window (bo_window (so_backoff opts)) t) H))
            \<le> bo_max_per_window (so_backoff opts))
     \<and> ((\<exists>e. su_phase s = PReturned e) \<or>
        (\<forall>now. (\<forall>a\<in>set H. a \<le> now) \<longrightarrow>
           filter (\<lambda>a. now - bo_window (so_backoff opts) < a) (su_recent s) =
           filter (\<lambda>a. now - bo_window (so_backoff opts) < a) H))"

lemma window_inv_grant:
  assumes inv: "window_inv opts H s" and on: "budget_on opts" and live: "\<forall>e. su_phase s \<noteq> PReturned e"
    and le: "\<forall>a\<in>set H. a \<le> now" and ok: "\<not> over_budget opts now s"
    and rec: "su_recent s' = kept_recent opts now (su_recent s)"
  shows "window_inv opts (H @ [now]) s'"
proof -
  define w where "w = bo_window (so_backoff opts)"
  define K where "K = filter (\<lambda>a. now - w < a) H"
  have eq: "filter (\<lambda>a. u - w < a) (su_recent s) = filter (\<lambda>a. u - w < a) H"
    if "\<forall>a\<in>set H. a \<le> u" for u
    using inv live that unfolding window_inv_def w_def by blast
  have rec': "su_recent s' = K @ [now]"
    using rec on eq [OF le] unfolding K_def by (simp add: kept_recent_def w_def)
  have len: "int (length (K @ [now])) \<le> bo_max_per_window (so_backoff opts)"
    using ok on rec rec' by (simp add: over_budget_def)
  have "int (length (filter (in_window w t) (H @ [now]))) \<le> bo_max_per_window (so_backoff opts)" for t
  proof (cases "now \<le> t")
    case True
    have "length (filter (in_window w t) (H @ [now])) \<le> length (filter (\<lambda>a. now - w < a) (H @ [now]))"
      using True by (intro length_filter_mono) (auto simp: in_window_def)
    then show ?thesis using len on by (simp add: K_def budget_on_def w_def)
  next
    case False
    then have "filter (in_window w t) (H @ [now]) = filter (in_window w t) H" by (simp add: in_window_def)
    then show ?thesis using inv by (simp add: window_inv_def w_def)
  qed
  moreover have "sorted (H @ [now])" using inv le by (simp add: window_inv_def sorted_append)
  moreover have "filter (\<lambda>a. u - w < a) (su_recent s') = filter (\<lambda>a. u - w < a) (H @ [now])"
    if "\<forall>a\<in>set (H @ [now]). a \<le> u" for u
    using that unfolding rec' K_def by (auto intro: filter_cong)
  ultimately show ?thesis unfolding window_inv_def w_def by blast
qed


lemma window_inv_same:
  assumes "window_inv opts H s" "su_recent s' = su_recent s"
    "(\<exists>e. su_phase s = PReturned e) \<Longrightarrow> \<exists>e. su_phase s' = PReturned e"
  shows "window_inv opts H s'"
  using assms unfolding window_inv_def by metis

lemma window_inv_returned:
  "window_inv opts H s \<Longrightarrow> su_phase s' = PReturned e \<Longrightarrow> window_inv opts H s'"
  unfolding window_inv_def by blast

lemma window_inv_step:
  assumes inv: "window_inv opts H s" and on: "budget_on opts" and st: "sup_step opts s i = Some s'"
    and srt: "sorted (H @ clock_readings [i])"
  shows "window_inv opts (H @ granted opts s [i]) s'"
  using st
proof (cases rule: sup_step_cases)
  case (proceed pid err sh uptime asked b now)
  have g: "granted opts s [i] = (if su_phase s' = PBackoff then [now] else [])"
    using st proceed by simp
  have le: "\<forall>a\<in>set H. a \<le> now" using srt proceed(1) by (simp add: sorted_append)
  show ?thesis using proceed(3) [symmetric]
  proof (cases rule: after_exit_cases)
    case asked
    then have "window_inv opts H s'" using proceed by (intro window_inv_same [OF inv]) auto
    then show ?thesis using g asked by simp
  next
    case (retry s1)
    have rec: "su_recent s' = kept_recent opts now (su_recent s)" using retry by simp
    have "window_inv opts (H @ [now]) s'"
      by (rule window_inv_grant [OF inv on _ le retry(3) rec]) (simp add: proceed(2))
    moreover have "su_phase s' \<noteq> PBackoff \<Longrightarrow> \<exists>e. su_phase s' = PReturned e"
      using retry(5) by (auto simp: wait_before_retry_phase split: if_splits)
    ultimately show ?thesis using g window_inv_returned [OF inv] by auto
  qed (use g window_inv_returned [OF inv] in auto)
next
  case (restart e)
  then have "window_inv opts H s'" by (intro window_inv_same [OF inv]) auto
  then show ?thesis using restart st by simp
next
  case (launch_fails e)
  have "window_inv opts H s'" using launch_fails
    by (intro window_inv_same [OF inv]) (auto simp: launch_fails_eq)
  then show ?thesis using launch_fails st by simp
qed (use st inv in \<open>auto intro: window_inv_same window_inv_returned simp del: sup_step.simps\<close>)

lemma granted_Cons:
  "sup_step opts s i = Some s' \<Longrightarrow> granted opts s (i # is) = granted opts s [i] @ granted opts s' is"
  by (cases i) (auto simp del: sup_step.simps)

lemma granted_one: "granted opts s [i] = [] \<or> granted opts s [i] = clock_readings [i]"
  by (cases i) (simp_all split: option.split del: sup_step.simps)

lemma clock_readings_Cons: "clock_readings (i # is) = clock_readings [i] @ clock_readings is"
  by (cases i) simp_all

lemma window_inv_run:
  assumes "budget_on opts"
  shows "window_inv opts H s \<Longrightarrow> sup_run opts s is = Some s' \<Longrightarrow> sorted (H @ clock_readings is) \<Longrightarrow>
    window_inv opts (H @ granted opts s is) s'"
proof (induction "is" arbitrary: H s)
  case (Cons i "is")
  then obtain s1 where s1: "sup_step opts s i = Some s1" "sup_run opts s1 is = Some s'"
    by (auto simp: bind_eq_Some_conv simp del: sup_step.simps)
  have "sorted (H @ clock_readings [i] @ clock_readings is)"
    using Cons.prems(3) by (subst (asm) clock_readings_Cons)
  then have srt: "sorted (H @ clock_readings [i])" "sorted ((H @ granted opts s [i]) @ clock_readings is)"
    using granted_one [of opts s i] by (auto simp: sorted_append simp del: granted.simps)
  have "window_inv opts (H @ granted opts s [i]) s1"
    by (rule window_inv_step [OF Cons.prems(1) assms s1(1) srt(1)])
  from Cons.IH [OF this s1(2) srt(2)] show ?case by (simp only: granted_Cons [OF s1(1), of "is"] append_assoc)
qed simp

lemma window_inv_init: "budget_on opts \<Longrightarrow> window_inv opts [] init_sup"
  by (simp add: window_inv_def init_sup_def budget_on_def)


section \<open>Launches\<close>

definition launches :: "sup \<Rightarrow> int" where
  "launches s = int (count_list (kinds s) EventStarting)"

text \<open>
  Without a forgiven history and without an operator's restart, the number of launches is the
  number of failures counted so far, plus one while a launched process has not been charged.
\<close>

definition launches_inv :: "sup \<Rightarrow> bool" where
  "launches_inv s \<longleftrightarrow> EventHealthy \<notin> set (kinds s) \<longrightarrow>
     0 \<le> su_attempt s \<and> \<not> su_restarting s \<and>
     (case su_phase s of
        PTop \<Rightarrow> launches s = su_attempt s
      | PBackoff \<Rightarrow> launches s = su_attempt s
      | PTaken _ _ _ _ asked \<Rightarrow> \<not> asked \<and> launches s = su_attempt s + 1
      | PReturned (Some (GaveUpRestarts _)) \<Rightarrow> launches s = su_attempt s
      | PReturned _ \<Rightarrow> launches s \<le> su_attempt s + 1
      | _ \<Rightarrow> launches s = su_attempt s + 1)"

lemma launches_after_exit:
  assumes "launches_inv s" "su_phase s = PTaken pid err sh uptime asked"
  shows "launches_inv (after_exit opts b now pid err sh uptime asked s)"
proof -
  let ?r = "after_exit opts b now pid err sh uptime asked s"
  have pre: "0 \<le> su_attempt s" "\<not> su_restarting s" "\<not> asked" "launches s = su_attempt s + 1"
    if "EventHealthy \<notin> set (kinds s)"
    using assms that by (simp_all add: launches_inv_def)
  show ?thesis using refl [of ?r]
  proof (cases rule: after_exit_cases)
    case over
    then show ?thesis using pre by (auto simp: launches_inv_def launches_def kinds_def)
  next
    case (retry s1)
    have k: "kinds s1 = kinds s @ EventExited #
       (if healthy opts uptime \<and> 0 < su_attempt s then [EventHealthy] else [])"
      using retry(10) by (simp add: kinds_def)
    have r: "su_restarting s1 = su_restarting s" using retry(5)
      by (metis after_exit_simps(2) wait_before_retry_simps(3))
    show ?thesis unfolding retry(5) launches_inv_def launches_def
      using k r pre retry(8)
      by (auto simp: kinds_wait_before_retry wait_before_retry_phase launches_def)
  qed (use pre in \<open>auto simp: launches_inv_def launches_def kinds_def\<close>)
qed

lemma launches_step:
  assumes inv: "launches_inv s" and st: "sup_step opts s i = Some s'"
    and free: "\<forall>e. i \<noteq> RestartCalled e"
  shows "launches_inv s'"
  using st
proof (cases rule: sup_step_cases)
  case (proceed pid err shutdown uptime asked answer now)
  then show ?thesis using inv by (auto intro: launches_after_exit)
qed (use inv free in \<open>auto simp: launches_inv_def launches_def kinds_simps launch_fails_eq
        wait_before_retry_phase request_stop_def Let_def\<close>)

lemma launches_run:
  "launches_inv s \<Longrightarrow> sup_run opts s is = Some s' \<Longrightarrow> \<forall>e. RestartCalled e \<notin> set is \<Longrightarrow> launches_inv s'"
proof (induction "is" arbitrary: s)
  case (Cons i "is")
  then obtain s1 where s1: "sup_step opts s i = Some s1" "sup_run opts s1 is = Some s'"
    by (auto simp: bind_eq_Some_conv simp del: sup_step.simps)
  have "launches_inv s1" using Cons.prems(3) by (intro launches_step [OF Cons.prems(1) s1(1)]) auto
  then show ?case using s1(2) Cons.prems(3) by (intro Cons.IH) auto
qed simp

lemma launches_init: "launches_inv init_sup"
  by (simp add: launches_inv_def init_sup_def launches_def kinds_def)


section \<open>Shutdown\<close>

text \<open>The phases after the context has been canceled while a process ran.\<close>

fun shutting_down :: "phase \<Rightarrow> bool" where
  "shutting_down (PStopping _ _) = True"
| "shutting_down (PKilling _ _) = True"
| "shutting_down (PExited _ _ sh _) = sh"
| "shutting_down (PTaken _ _ sh _ _) = sh"
| "shutting_down (PReturned e) = (e = None)"
| "shutting_down _ = False"

lemma shutting_down_step:
  assumes "shutting_down (su_phase s)" "sup_step opts s i = Some s'"
  shows "shutting_down (su_phase s') \<and> launches s' = launches s"
  using assms(2)
proof (cases rule: sup_step_cases)
  case (proceed pid err sh uptime asked answer now)
  with assms(1) have sh by simp
  with proceed(3) [symmetric] show ?thesis
    by (cases rule: after_exit_cases) (auto simp: launches_def kinds_def)
qed (use assms(1) in \<open>auto simp: launches_def kinds_simps\<close>)

lemma shutting_down_run:
  "shutting_down (su_phase s) \<Longrightarrow> sup_run opts s is = Some s' \<Longrightarrow>
     shutting_down (su_phase s') \<and> launches s' = launches s"
proof (induction "is" arbitrary: s)
  case (Cons i "is")
  then obtain s1 where s1: "sup_step opts s i = Some s1" "sup_run opts s1 is = Some s'"
    by (auto simp: bind_eq_Some_conv simp del: sup_step.simps)
  show ?case using Cons.IH [OF _ s1(2)] shutting_down_step [OF Cons.prems(1) s1(1)] by simp
qed simp

section \<open>Properties\<close>


text \<open>
  A process that runs for two minutes and fails, over and over, under a budget of one restart an
  hour: its history is forgiven each time, the second restart is refused.
\<close>

definition forgiving_opts :: sup_opts where
  "forgiving_opts = \<lparr> so_command = ''run.sh'',
     so_backoff = default_backoff\<lparr>bo_max_per_window := 1\<rparr>, so_ephemeral = False, so_done = False,
     so_stop_timeout = stop_timeout, so_oob = 0 \<rparr>"

definition slow_failures :: "input list" where
  "slow_failures =
     [Launched 41 0, ProcessExits None (2 * minute), TakeFlag, Proceed False (2 * minute),
      BackoffTimerFires, Launched 42 (3 * minute), ProcessExits None (5 * minute), TakeFlag,
      Proceed False (5 * minute)]"


text \<open>
  C10: a bound on the consecutive failures. At every point of every run the attempt count stays
  between 0 and \<open>MaxRestarts\<close>; the loop gives up exactly at \<open>MaxRestarts\<close>; and the process that \<open>Restart\<close>
  would stop is the one the loop is waiting for, so that there is at most one.
\<close>

theorem supervisor_invariant:
  assumes "sup_run opts init_sup is = Some s"
  shows "su_current s = live_pid (su_phase s) \<and> attempt_ok opts s"
  using sup_inv_run [OF assms] by (simp add: sup_inv_def)

theorem supervisor_invariant_witness:
  "su_current init_sup = live_pid PTop \<and> attempt_ok forgiving_opts init_sup"
  using supervisor_invariant [of forgiving_opts "[]" init_sup] by (simp add: init_sup_def)



text \<open>
  C11: the events come in a legal order: the sequence of their kinds is a word of the automaton
  \<open>life_step\<close>, whose state agrees with the phase of the loop. After \<open>stopped\<close>, \<open>completed\<close> or \<open>gave_up\<close>
  nothing follows.
\<close>

theorem event_order:
  assumes "sup_run opts init_sup is = Some s"
  shows "\<exists>l. life_run LFresh (kinds s) = Some l \<and> life_matches (su_phase s) l"
  using sup_run_invariant [where I = legal_trace, OF legal_trace_step legal_trace_init assms]
  by (simp add: legal_trace_def)

theorem event_order_witness:
  "\<exists>l. life_run LFresh (kinds init_sup) = Some l \<and> life_matches PTop l"
  using event_order [of forgiving_opts "[]" init_sup] by (simp add: init_sup_def)

text \<open>
  A shutdown is final. Once the context has been canceled while a process ran, no further
  process is launched and the loop can only return without an error, whatever is called or
  exits meanwhile.
\<close>

theorem shutdown_is_final:
  assumes "sup_step opts s (Canceled e) = Some s1" "su_phase s = PRunning pid t0"
    and "sup_run opts s1 is = Some s2"
  shows "launches s2 = launches s \<and> shutting_down (su_phase s2)"
proof -
  have s1: "s1 = request_stop e pid t0 s" using assms(1,2) by simp
  then have "shutting_down (su_phase s1)" "launches s1 = launches s"
    by (auto simp: launches_def kinds_simps)
  with shutting_down_run [OF _ assms(3)] show ?thesis by simp
qed

theorem shutdown_is_final_witness:
  "\<exists>s s1 s2. sup_run forgiving_opts init_sup [Launched 41 0] = Some s
     \<and> sup_run forgiving_opts s [Canceled None] = Some s1
     \<and> sup_run forgiving_opts s1 [StopTimerFires, RestartCalled None, ProcessExits None 5] = Some s2
     \<and> launches s2 = launches s \<and> shutting_down (su_phase s2)"
proof -
  define s where "s = launch forgiving_opts (Inr (41, 0)) init_sup"
  have s: "sup_run forgiving_opts init_sup [Launched 41 0] = Some s" "su_phase s = PRunning 41 0"
    by (simp_all add: s_def init_sup_def)
  define s1 where "s1 = request_stop None 41 0 s"
  have s1: "sup_step forgiving_opts s (Canceled None) = Some s1" by (simp add: s(2) s1_def)
  have "\<exists>s2. sup_run forgiving_opts s1 [StopTimerFires, RestartCalled None, ProcessExits None 5] = Some s2"
    by (simp add: s1_def)
  then obtain s2 where
    s2: "sup_run forgiving_opts s1 [StopTimerFires, RestartCalled None, ProcessExits None 5] = Some s2"
    by blast
  show ?thesis using s(1) s1 s2 shutdown_is_final [OF s1 s(2) s2] by (auto simp del: sup_step.simps)
qed



text \<open>
  An operator's restart is free and immediate: whatever the exit of the process looks like, the
  loop goes straight back to launching, without a delay, and neither the attempt count nor the
  record of restarts changes. It also wins over completion: an ephemeral process that has finished
  its work is launched again.
\<close>

theorem operator_restart_is_free:
  assumes "su_phase s = PRunning pid t0" "su_current s = Some pid"
  shows "\<exists>s'. sup_run opts s [RestartCalled None, ProcessExits err now, TakeFlag, Proceed fin now'] = Some s'
    \<and> su_phase s' = PTop \<and> \<not> su_restarting s'
    \<and> su_attempt s' = su_attempt s \<and> su_recent s' = su_recent s
    \<and> kinds s' = kinds s @ [EventExited, EventRestarting]"
  using assms
  by (auto simp: restart_def take_restart_flag_def after_exit_def step_defs Let_def kinds_simps)

theorem operator_restart_is_free_witness:
  "\<exists>s'. sup_run (forgiving_opts\<lparr>so_ephemeral := True\<rparr>)
        (launch forgiving_opts (Inr (41, 0)) init_sup)
        [RestartCalled None, ProcessExits None 5, TakeFlag, Proceed True 5] = Some s'
    \<and> su_phase s' = PTop \<and> \<not> su_restarting s'
    \<and> su_attempt s' = su_attempt (launch forgiving_opts (Inr (41, 0)) init_sup)
    \<and> su_recent s' = su_recent (launch forgiving_opts (Inr (41, 0)) init_sup)
    \<and> kinds s' = kinds (launch forgiving_opts (Inr (41, 0)) init_sup) @ [EventExited, EventRestarting]"
  by (rule operator_restart_is_free) simp_all


lemma default_delay:
  assumes "1 \<le> n" "n \<le> 5"
  shows "backoff_delay oob default_backoff n = 5000000000 * 2 ^ nat (n - 1)"
proof -
  consider "n = 1" | "n = 2" | "n = 3" | "n = 4" | "n = 5" using assms by linarith
  then have "(5000000000 * 2 ^ nat (n - 1) :: int) \<le> 80000000000"
    by cases (simp_all add: nat_numeral_diff_1)
  moreover have raw: "raw_delay default_backoff n = of_int (5000000000 * 2 ^ nat (n - 1))"
    using assms by (simp add: default_raw_delay)
  ultimately have small: "\<not> of_int (bo_max default_backoff) < raw_delay default_backoff n"
    unfolding raw of_int_less_iff by (simp add: default_backoff_def duration_defs)
  have "backoff_delay oob default_backoff n = trunc_rat (raw_delay default_backoff n)"
    using small by (subst backoff_delay_capped) (simp_all add: default_backoff_def duration_defs)
  then show ?thesis by (simp only: raw trunc_of_int)
qed

text \<open>
  The default policy is the documented schedule. A command that cannot be launched is tried six
  times, with waits of 5, 10, 20, 40 and 80 seconds, and then given up after five restarts.
\<close>

theorem default_schedule:
  assumes "so_backoff opts = default_backoff"
  shows "\<exists>s. sup_run opts init_sup
        (concat (replicate 5 [LaunchFails e, BackoffTimerFires]) @ [LaunchFails e]) = Some s
    \<and> su_phase s = PReturned (Some (GaveUpRestarts 5)) \<and> launches s = 6
    \<and> map ev_delay (filter (\<lambda>v. ev_kind v = EventRestarting) (su_trace s)) =
        map ((*) second) [5, 10, 20, 40, 80]"
proof -
  have m: "bo_max_restarts default_backoff = 5" by (simp add: default_backoff_def)
  have five: "replicate 5 x = [x, x, x, x, x]" for x :: "input list" by (simp add: numeral_eq_Suc)
  show ?thesis
    by (simp add: five launch_fails_eq wait_before_retry_def Let_def emit_def
        init_sup_def m assms default_delay no_event_def duration_defs launches_def kinds_def)
qed

theorem default_schedule_witness:
  "\<exists>s. sup_run (forgiving_opts\<lparr>so_backoff := default_backoff\<rparr>) init_sup
        (concat (replicate 5 [LaunchFails (OtherError ''x''), BackoffTimerFires])
           @ [LaunchFails (OtherError ''x'')]) = Some s
    \<and> su_phase s = PReturned (Some (GaveUpRestarts 5)) \<and> launches s = 6
    \<and> map ev_delay (filter (\<lambda>v. ev_kind v = EventRestarting) (su_trace s)) =
        map ((*) second) [5, 10, 20, 40, 80]"
  by (rule default_schedule) simp

end
