(* ===== verification/Ratelimit.thy ===== *)
theory Ratelimit
  imports Go_Time Prelude
begin

text \<open>
  \<open>internal/ratelimit/ratelimit.go\<close>: a token bucket per client key. Tokens are \<open>float64\<close>, kept here
  as the rationals that such numbers are, with the rounding of every operation written out. The
  reading of the clock is an argument of \<open>allow\<close>; the mutex makes a call one step.
\<close>

section \<open>The limiter\<close>

record rate_limit =
  rl_burst :: int
  rl_every :: duration

record bucket =
  bk_tokens :: rat
  bk_last :: go_time

record limiter =
  lm_limit :: rate_limit
  lm_buckets :: "string \<Rightarrow> bucket option"
  lm_swept :: go_time

definition per_minute :: "int \<Rightarrow> rate_limit" where
  "per_minute n = (let n = (if n \<le> 0 then 1 else n)
     in \<lparr> rl_burst = n, rl_every = go_div minute n \<rparr>)"

definition idle_after :: duration where
  "idle_after = 10 * minute"

definition new_limiter :: "rate_limit \<Rightarrow> limiter" where
  "new_limiter limit =
     (let limit = (if rl_burst limit \<le> 0 then limit\<lparr>rl_burst := 1\<rparr> else limit);
          limit = (if rl_every limit \<le> 0 then limit\<lparr>rl_every := second\<rparr> else limit)
      in \<lparr> lm_limit = limit, lm_buckets = Map.empty, lm_swept = zero_time \<rparr>)"

definition sweep :: "go_time \<Rightarrow> limiter \<Rightarrow> limiter" where
  "sweep now l =
     (if time_sub now (lm_swept l) < idle_after then l
      else l\<lparr>lm_swept := now,
             lm_buckets := (\<lambda>key. case lm_buckets l key of
                 None \<Rightarrow> None
               | Some b \<Rightarrow> if idle_after < time_sub now (bk_last b) then None else Some b)\<rparr>)"

text \<open>The refill of one bucket, and the whole of \<open>Allow\<close>: the answer, the wait, the new state.\<close>

definition refill :: "rate_limit \<Rightarrow> go_time \<Rightarrow> bucket \<Rightarrow> bucket" where
  "refill limit now b =
     (let elapsed = time_sub now (bk_last b);
          tokens = f64 (bk_tokens b + f64 (dur_seconds elapsed / dur_seconds (rl_every limit)));
          cap = f64 (of_int (rl_burst limit))
      in \<lparr> bk_tokens = (if cap < tokens then cap else tokens), bk_last = now \<rparr>)"

definition allow :: "int \<Rightarrow> go_time \<Rightarrow> string \<Rightarrow> limiter \<Rightarrow> (bool \<times> duration) \<times> limiter" where
  "allow oob now key l =
     (let l = sweep now l; limit = lm_limit l
      in case lm_buckets l key of
           None \<Rightarrow>
             ((True, 0), l\<lparr>lm_buckets := (lm_buckets l)(key \<mapsto>
                \<lparr> bk_tokens = f64 (f64 (of_int (rl_burst limit)) - 1), bk_last = now \<rparr>)\<rparr>)
         | Some b \<Rightarrow>
             let b = refill limit now b
             in if bk_tokens b < 1
                then let missing = f64 (1 - bk_tokens b)
                     in ((False, to_int64 oob (f64 (missing * f64 (of_int (rl_every limit))))),
                         l\<lparr>lm_buckets := (lm_buckets l)(key \<mapsto> b)\<rparr>)
                else ((True, 0), l\<lparr>lm_buckets := (lm_buckets l)(key \<mapsto>
                        b\<lparr>bk_tokens := f64 (bk_tokens b - 1)\<rparr>)\<rparr>))"

text \<open>
  \<open>withRateLimit\<close> (\<open>internal/server/observability.go\<close>): the \<open>Retry-After\<close> of a refused request, in
  whole seconds.
\<close>

definition retry_after :: "duration \<Rightarrow> int" where
  "retry_after retry =
     (let seconds = trunc_rat (dur_seconds retry) in if seconds < 1 then 1 else seconds)"

text \<open>Calls one after another, with their answers.\<close>

fun allow_run :: "int \<Rightarrow> (go_time \<times> string) list \<Rightarrow> limiter \<Rightarrow> bool list \<times> limiter" where
  "allow_run oob [] l = ([], l)"
| "allow_run oob ((now, key) # cs) l =
     (let ((ok, _), l) = allow oob now key l; (oks, l) = allow_run oob cs l in (ok # oks, l))"

section \<open>The invariant of a bucket\<close>

text \<open>
  The bounds under which \<open>float64\<close> represents \<open>Burst\<close> and \<open>Every\<close> exactly; every configured limit is
  far inside them.
\<close>

definition limit_ok :: "rate_limit \<Rightarrow> bool" where
  "limit_ok limit \<longleftrightarrow> 1 \<le> rl_burst limit \<and> rl_burst limit \<le> 9007199254740992
     \<and> 1 \<le> rl_every limit \<and> rl_every limit \<le> 9007199254740992"

definition bucket_ok :: "rate_limit \<Rightarrow> go_time \<Rightarrow> bucket \<Rightarrow> bool" where
  "bucket_ok limit now b \<longleftrightarrow> 0 \<le> bk_tokens b \<and> bk_tokens b \<le> of_int (rl_burst limit)
     \<and> f64 (bk_tokens b) = bk_tokens b \<and> bk_last b \<le> now"

definition limiter_ok :: "go_time \<Rightarrow> limiter \<Rightarrow> bool" where
  "limiter_ok now l \<longleftrightarrow> limit_ok (lm_limit l) \<and>
     (\<forall>key b. lm_buckets l key = Some b \<longrightarrow> bucket_ok (lm_limit l) now b)"

lemma limit_okD:
  assumes "limit_ok limit"
  shows "f64 (of_int (rl_burst limit)) = of_int (rl_burst limit)"
    and "f64 (of_int (rl_every limit)) = of_int (rl_every limit)"
    and "1 \<le> rl_burst limit" "rl_burst limit \<le> 9007199254740992" "0 < rl_every limit"
  using assms by (auto simp: limit_ok_def intro!: f64_int)

lemma limiter_ok_mono: "limiter_ok now l \<Longrightarrow> now \<le> now' \<Longrightarrow> limiter_ok now' l"
  by (fastforce simp: limiter_ok_def bucket_ok_def)

lemma limiter_ok_new: "limit_ok limit \<Longrightarrow> limiter_ok now (new_limiter limit)"
  by (simp add: limiter_ok_def new_limiter_def limit_ok_def)

lemma sweep_limit [simp]: "lm_limit (sweep now l) = lm_limit l"
  by (simp add: sweep_def)

lemma sweep_sub: "lm_buckets (sweep now l) key = Some b \<Longrightarrow> lm_buckets l key = Some b"
  by (auto simp: sweep_def split: if_splits option.splits)

lemma sweep_forgets:
  "lm_buckets (sweep now l) key = None \<Longrightarrow> lm_buckets l key = Some b \<Longrightarrow>
     idle_after < time_sub now (bk_last b)"
  by (auto simp: sweep_def split: if_splits)

lemma limiter_ok_sweep: "limiter_ok now l \<Longrightarrow> limiter_ok now (sweep now l)"
  by (auto simp: limiter_ok_def dest: sweep_sub)

lemma dur_seconds_mono:
  assumes "0 \<le> d" "d \<le> e" "e \<le> max_int64"
  shows "dur_seconds d \<le> dur_seconds e"
proof -
  define f where "f x = f64 (f64 (of_int (x mod second)) / 1000000000)" for x :: int
  have D: "dur_seconds x = f64 (of_int (x div second) + f x)" if "0 \<le> x" "x \<le> max_int64" for x
  proof -
    have "\<bar>x div second\<bar> \<le> 9007199254740992"
      using that by (simp add: second_def max_int64_def pos_imp_zdiv_nonneg_iff)
    then show ?thesis using that
      by (simp add: dur_seconds_def go_div_pos go_rem_pos second_def f_def f64_int)
  qed
  have le: "d div second \<le> e div second" using assms(2) by (simp add: zdiv_mono1 second_def)
  have f: "0 \<le> f x" "f x \<le> 1" for x
  proof -
    have b: "0 \<le> x mod second" "x mod second \<le> 1000000000" by (simp_all add: second_def order_less_imp_le)
    then have "f64 (of_int (x mod second)) = of_int (x mod second)" by (intro f64_int) linarith
    moreover have "(of_int (x mod second) :: rat) \<le> of_int 1000000000" using b by (simp only: of_int_le_iff)
    ultimately show "0 \<le> f x" "f x \<le> 1" unfolding f_def
      using b f64.fl_le_int [of "of_int (x mod second) / 1000000000" 1] by (auto intro!: f64.fl_nonneg)
  qed
  show ?thesis
  proof (cases "d div second = e div second")
    case True
    then have "d mod second \<le> e mod second" using assms(2) by (metis add_le_cancel_left div_mult_mod_eq)
    then have "f d \<le> f e" unfolding f_def by (intro f64_mono divide_right_mono) auto
    then show ?thesis using True assms by (simp add: D f64_mono)
  next
    case False
    then have "d div second + 1 \<le> e div second" using le by simp
    then have "(of_int (d div second + 1) :: rat) \<le> of_int (e div second)" by (simp only: of_int_le_iff)
    then have "(of_int (d div second) + 1 :: rat) \<le> of_int (e div second)" by simp
    then have "of_int (d div second) + f d \<le> of_int (e div second) + f e" using f(2) [of d] f(1) [of e] by linarith
    then show ?thesis using assms by (simp add: D f64_mono)
  qed
qed

lemma dur_seconds_pos:
  assumes "0 < d" "d \<le> max_int64"
  shows "0 < dur_seconds d"
proof -
  have z: "0 < f64 x" if "0 < x" for x
  proof -
    have "\<bar>f64 x - x\<bar> \<le> \<bar>x\<bar> / 9007199254740992" by (rule f64_err)
    then show ?thesis using that unfolding abs_le_iff by linarith
  qed
  let ?q = "f64 (of_int (d div second))" and ?r = "f64 (f64 (of_int (d mod second)) / 1000000000)"
  have n: "0 \<le> ?q" "0 \<le> ?r" using assms(1)
    by (auto intro!: f64.fl_nonneg simp: second_def pos_imp_zdiv_nonneg_iff)
  have "0 < ?q \<or> 0 < ?r"
  proof (cases "0 < d div second")
    case False
    then have "d div second = 0" using assms(1) by (simp add: second_def pos_imp_zdiv_neg_iff not_less)
    then have "0 < d mod second" using assms(1) by (metis add_0 div_mult_mod_eq mult_zero_left)
    then show ?thesis by (simp add: z)
  qed (simp add: z)
  then have "0 < ?q + ?r" using n by linarith
  then show ?thesis using assms by (simp add: dur_seconds_def go_div_pos go_rem_pos second_def z)
qed

lemma refill_ok:
  assumes "limit_ok limit" "bucket_ok limit now0 b" "bk_last b \<le> now"
  shows "bucket_ok limit now (refill limit now b)" "bk_tokens b \<le> bk_tokens (refill limit now b)"
proof -
  let ?g = "f64 (dur_seconds (time_sub now (bk_last b)) / dur_seconds (rl_every limit))"
  have g: "0 \<le> ?g" using limit_okD [OF assms(1)] assms(3)
    by (intro f64.fl_nonneg divide_nonneg_nonneg dur_seconds_nonneg time_sub_nonneg) auto
  have ge: "bk_tokens b \<le> f64 (bk_tokens b + ?g)"
    using assms(2) g by (intro f64.fl_add_ge) (simp_all add: bucket_ok_def)
  then have "0 \<le> f64 (bk_tokens b + ?g)" using assms(2) by (simp add: bucket_ok_def)
  then show "bucket_ok limit now (refill limit now b)" using limit_okD [OF assms(1)]
    by (simp add: refill_def Let_def bucket_ok_def f64_idem f64_int)
  show "bk_tokens b \<le> bk_tokens (refill limit now b)"
    using ge assms(2) limit_okD [OF assms(1)] by (simp add: refill_def Let_def bucket_ok_def)
qed

lemma spend_ok:
  assumes "limit_ok limit" "bucket_ok limit now b" "1 \<le> bk_tokens b"
  shows "bucket_ok limit now (b\<lparr>bk_tokens := f64 (bk_tokens b - 1)\<rparr>)"
proof -
  have "f64 (bk_tokens b - 1) \<le> bk_tokens b"
    using assms(2) by (intro f64.fl_sub_le) (simp_all add: bucket_ok_def)
  then show ?thesis using assms(2,3) by (auto simp: bucket_ok_def f64_idem intro: f64.fl_nonneg)
qed


section \<open>One call\<close>

lemma allow_limit [simp]: "lm_limit (snd (allow oob now key l)) = lm_limit l"
  by (simp add: allow_def Let_def split: option.splits)

lemma allow_other:
  "k \<noteq> key \<Longrightarrow> lm_buckets (snd (allow oob now key l)) k = lm_buckets (sweep now l) k"
  by (simp add: allow_def Let_def split: option.splits)

text \<open>The three outcomes: a new client, a refusal, a token spent.\<close>

lemma allow_cases [consumes 2, case_names fresh refused spent]:
  assumes ok: "limiter_ok now0 l" "now0 \<le> now"
  obtains (fresh) "lm_buckets (sweep now l) key = None" "fst (allow oob now key l) = (True, 0)"
      "lm_buckets (snd (allow oob now key l)) key =
         Some \<lparr> bk_tokens = of_int (rl_burst (lm_limit l) - 1), bk_last = now \<rparr>"
  | (refused) b where "lm_buckets l key = Some b" "lm_buckets (sweep now l) key = Some b"
      "bk_tokens (refill (lm_limit l) now b) < 1"
      "fst (allow oob now key l) = (False, to_int64 oob
         (f64 (f64 (1 - bk_tokens (refill (lm_limit l) now b)) * of_int (rl_every (lm_limit l)))))"
      "lm_buckets (snd (allow oob now key l)) key = Some (refill (lm_limit l) now b)"
  | (spent) b where "lm_buckets l key = Some b" "lm_buckets (sweep now l) key = Some b"
      "1 \<le> bk_tokens (refill (lm_limit l) now b)" "fst (allow oob now key l) = (True, 0)"
      "lm_buckets (snd (allow oob now key l)) key =
         Some ((refill (lm_limit l) now b)
           \<lparr>bk_tokens := f64 (bk_tokens (refill (lm_limit l) now b) - 1)\<rparr>)"
proof (cases "lm_buckets (sweep now l) key")
  case None
  have lim: "limit_ok (lm_limit l)" using ok by (simp add: limiter_ok_def)
  have "f64 (of_int (rl_burst (lm_limit l) - 1)) = of_int (rl_burst (lm_limit l) - 1)"
    using limit_okD(3,4) [OF lim] by (intro f64_int) simp
  then show thesis using None limit_okD [OF lim]
    by (intro fresh) (simp_all add: allow_def Let_def)
next
  case (Some b)
  have lim: "limit_ok (lm_limit l)" using ok by (simp add: limiter_ok_def)
  note sub = sweep_sub [OF Some]
  show thesis
  proof (cases "bk_tokens (refill (lm_limit l) now b) < 1")
    case True
    then show thesis using Some limit_okD(2) [OF lim]
      by (intro refused [of b] sub) (simp_all add: allow_def Let_def)
  next
    case False
    then show thesis using Some by (intro spent [of b] sub) (simp_all add: allow_def Let_def)
  qed
qed

lemma limiter_ok_allow:
  assumes ok: "limiter_ok now0 l" "now0 \<le> now"
  shows "limiter_ok now (snd (allow oob now key l))"
proof -
  let ?l = "snd (allow oob now key l)"
  have lim: "limit_ok (lm_limit l)" using ok by (simp add: limiter_ok_def)
  have b0: "bucket_ok (lm_limit l) now0 b" "bk_last b \<le> now" if "lm_buckets l k = Some b" for k b
    using ok that by (fastforce simp: limiter_ok_def bucket_ok_def)+
  have "bucket_ok (lm_limit l) now b" if b: "lm_buckets ?l k = Some b" for k b
  proof (cases "k = key")
    case False
    then have "lm_buckets (sweep now l) k = Some b" using b by (simp add: allow_other)
    from sweep_sub [OF this] show ?thesis using b0 by (simp add: bucket_ok_def)
  next
    case True
    show ?thesis using ok
    proof (cases rule: allow_cases [where key = key and oob = oob])
      case fresh
      have "f64 (of_int (rl_burst (lm_limit l) - 1)) = of_int (rl_burst (lm_limit l) - 1)"
        using limit_okD(3,4) [OF lim] by (intro f64_int) simp
      then show ?thesis using fresh b True limit_okD(3) [OF lim] by (auto simp: bucket_ok_def)
    next
      case (refused b')
      then show ?thesis using b True refill_ok(1) [OF lim b0 [OF refused(1)]] by simp
    next
      case (spent b')
      then show ?thesis using b True spend_ok [OF lim refill_ok(1) [OF lim b0 [OF spent(1)]]] by simp
    qed
  qed
  then show ?thesis using lim by (simp add: limiter_ok_def)
qed

lemma refill_paced:
  assumes "limit_ok limit" "bucket_ok limit now0 b" "bk_last b + rl_every limit \<le> now"
  shows "1 \<le> bk_tokens (refill limit now b)"
proof -
  let ?d = "dur_seconds (rl_every limit)"
  have "max_int64 \<ge> rl_every limit" "min_int64 < rl_every limit"
    using assms(1) by (simp_all add: limit_ok_def max_int64_def min_int64_def)
  then have el: "rl_every limit \<le> time_sub now (bk_last b)" using assms(3) by (simp add: time_sub_ge_iff)
  have ms: "time_sub now (bk_last b) \<le> max_int64" by (simp add: time_sub_def max_int64_def min_int64_def)
  have "?d \<le> dur_seconds (time_sub now (bk_last b))"
    using limit_okD(5) [OF assms(1)] by (intro dur_seconds_mono el ms) simp
  moreover have "0 < ?d"
    using limit_okD(5) [OF assms(1)] \<open>rl_every limit \<le> max_int64\<close> by (rule dur_seconds_pos)
  ultimately have "1 \<le> f64 (dur_seconds (time_sub now (bk_last b)) / ?d)"
    using f64.int_le_fl [of 1] by (simp add: le_divide_eq)
  then have "1 \<le> f64 (bk_tokens b + f64 (dur_seconds (time_sub now (bk_last b)) / ?d))"
    using f64.int_le_fl [of 1] assms(2) by (simp add: bucket_ok_def)
  then show ?thesis using limit_okD [OF assms(1)] by (simp add: refill_def Let_def)
qed


section \<open>Properties\<close>

text \<open>
  No bucket ever holds fewer than 0 or more than \<open>Burst\<close> tokens, whatever calls were made,
  as long as the clock does not run backwards.
\<close>

theorem tokens_bounded:
  assumes "limiter_ok now0 l" "now0 \<le> now"
    and "lm_buckets (snd (allow oob now key l)) k = Some b"
  shows "0 \<le> bk_tokens b \<and> bk_tokens b \<le> of_int (rl_burst (lm_limit l)) \<and> bk_last b \<le> now"
  using limiter_ok_allow [OF assms(1,2), of oob key] assms(3)
  by (auto simp: limiter_ok_def bucket_ok_def)

theorem tokens_bounded_witness:
  "0 \<le> bk_tokens \<lparr> bk_tokens = 4, bk_last = 7 \<rparr> \<and> bk_tokens \<lparr> bk_tokens = 4, bk_last = 7 \<rparr>
     \<le> of_int (rl_burst (lm_limit (new_limiter (per_minute 5)))) \<and> bk_last \<lparr> bk_tokens = 4, bk_last = 7 \<rparr> \<le> 7"
proof (rule tokens_bounded)
  show "limiter_ok 7 (new_limiter (per_minute 5))"
    by (rule limiter_ok_new) (simp add: per_minute_def limit_ok_def go_div_def duration_defs)
  show "lm_buckets (snd (allow 0 7 ''a'' (new_limiter (per_minute 5)))) ''a'' =
      Some \<lparr> bk_tokens = 4, bk_last = 7 \<rparr>"
    by (simp add: allow_def new_limiter_def per_minute_def Let_def sweep_def go_div_def duration_defs
        idle_after_def f64_numeral)
qed simp

text \<open>How many calls of one client were let through.\<close>

definition allowed_for :: "string \<Rightarrow> (go_time \<times> string) list \<Rightarrow> bool list \<Rightarrow> nat" where
  "allowed_for key cs oks = length (filter (\<lambda>((_, k), ok). k = key \<and> ok) (zip cs oks))"

lemma allowed_for_Cons:
  "allowed_for key (c # cs) (ok # oks) = (if snd c = key \<and> ok then 1 else 0) + allowed_for key cs oks"
  by (cases c) (simp add: allowed_for_def)

text \<open>At one instant, what is left of the burst is what has not been used.\<close>

lemma burst_left:
  assumes "limiter_ok now l" "lm_buckets l key = Some b" "bk_last b = now" "bk_tokens b \<le> of_int m"
    "m \<le> rl_burst (lm_limit l)" "\<forall>c\<in>set cs. fst c = now"
  shows "int (allowed_for key cs (fst (allow_run oob cs l))) \<le> m"
  using assms
proof (induction cs arbitrary: l b m)
  case Nil
  then have "0 \<le> bk_tokens b" by (auto simp: limiter_ok_def bucket_ok_def)
  then have "0 \<le> (of_int m :: rat)" using Nil.prems(4) by (rule order_trans)
  then show ?case by (simp add: allowed_for_def)
next
  case (Cons c cs)
  obtain k where c: "c = (now, k)" using Cons.prems(6) by (cases c) auto
  obtain ok w l1 where a: "allow oob now k l = ((ok, w), l1)" by (metis prod.collapse)
  have l1: "l1 = snd (allow oob now k l)" using a by simp
  have ok1: "limiter_ok now l1" unfolding l1 by (rule limiter_ok_allow [OF Cons.prems(1)]) simp
  have lim: "limit_ok (lm_limit l)" "bucket_ok (lm_limit l) now b"
    using Cons.prems(1,2) by (auto simp: limiter_ok_def)
  have kept: "lm_buckets (sweep now l) key = Some b"
    using Cons.prems(2,3) sweep_forgets [of now l key b]
    by (cases "lm_buckets (sweep now l) key") (auto dest: sweep_sub simp: idle_after_def duration_defs)
  have same: "refill (lm_limit l) now b = b" using lim Cons.prems(3) limit_okD(1) [OF lim(1)]
    by (simp add: refill_def Let_def bucket_ok_def)
  have IH: "int (allowed_for key cs (fst (allow_run oob cs l1))) \<le> m'"
    if "lm_buckets l1 key = Some b'" "bk_last b' = now" "bk_tokens b' \<le> of_int m'" "m' \<le> m" for b' m'
    using that Cons.prems(5,6) by (intro Cons.IH [OF ok1]) (auto simp: l1)
  have run: "fst (allow_run oob (c # cs) l) = ok # fst (allow_run oob cs l1)"
    by (simp add: c a split_beta)
  show ?case
  proof (cases "k = key \<and> ok")
    case True
    have okk: "ok = fst (fst (allow oob now key l))" using a True by simp
    have "1 \<le> bk_tokens b \<and> lm_buckets l1 key = Some (b\<lparr>bk_tokens := f64 (bk_tokens b - 1)\<rparr>)"
      using Cons.prems(1) order_refl [of now]
      by (cases rule: allow_cases [where key = key and oob = oob]) (use kept same True okk in \<open>auto simp: l1\<close>)
    moreover have "bk_tokens b - 1 \<le> of_int (m - 1)" using Cons.prems(4) by simp
    then have "f64 (bk_tokens b - 1) \<le> of_int (m - 1)" if "1 \<le> bk_tokens b"
    proof -
      have "of_int 1 \<le> (of_int m :: rat)" using that Cons.prems(4) by simp
      then have "1 \<le> m" by (simp only: of_int_le_iff)
      then show ?thesis using Cons.prems(5) limit_okD(4) [OF lim(1)] \<open>bk_tokens b - 1 \<le> of_int (m - 1)\<close>
        by (intro f64.fl_le_int) auto
    qed
    ultimately have "int (allowed_for key cs (fst (allow_run oob cs l1))) \<le> m - 1"
      using Cons.prems(3)
      by (intro IH [of "b\<lparr>bk_tokens := f64 (bk_tokens b - 1)\<rparr>"]) auto
    then show ?thesis using True unfolding run by (simp add: c allowed_for_Cons)
  next
    case False
    have "lm_buckets l1 key = Some b"
    proof (cases "k = key")
      case True
      with False have ref: "\<not> fst (fst (allow oob now key l))" using a by simp
      show ?thesis using Cons.prems(1) order_refl [of now]
        by (cases rule: allow_cases [where key = key and oob = oob]) (use kept same True ref in \<open>auto simp: l1\<close>)
    qed (simp add: l1 allow_other kept)
    from IH [OF this Cons.prems(3,4)] show ?thesis using False unfolding run by (auto simp: c allowed_for_Cons)
  qed
qed


text \<open>
  The burst is a bound. Among calls that arrive at one instant, from any mix of clients, at most
  \<open>Burst\<close> calls of one client are let through.
\<close>

theorem burst_bounded:
  assumes "limiter_ok now0 l" "now0 \<le> now" "\<forall>c\<in>set cs. fst c = now"
  shows "int (allowed_for key cs (fst (allow_run oob cs l))) \<le> rl_burst (lm_limit l)"
  using assms
proof (induction cs arbitrary: l now0)
  case Nil
  then show ?case by (auto simp: allowed_for_def limiter_ok_def limit_ok_def)
next
  case (Cons c cs)
  obtain k where c: "c = (now, k)" using Cons.prems(3) by (cases c) auto
  obtain ok w l1 where a: "allow oob now k l = ((ok, w), l1)" by (metis prod.collapse)
  have l1: "l1 = snd (allow oob now k l)" using a by simp
  have ok1: "limiter_ok now l1" unfolding l1 by (rule limiter_ok_allow [OF Cons.prems(1,2)])
  have lim: "limit_ok (lm_limit l)" using Cons.prems(1) by (simp add: limiter_ok_def)
  have run: "fst (allow_run oob (c # cs) l) = ok # fst (allow_run oob cs l1)"
    by (simp add: c a split_beta)
  show ?case
  proof (cases "k = key \<and> ok")
    case True
    let ?B = "rl_burst (lm_limit l)"
    have okk: "ok = fst (fst (allow oob now key l))" using a True by simp
    obtain b where b: "lm_buckets l1 key = Some b" "bk_last b = now" "bk_tokens b \<le> of_int (?B - 1)"
      using Cons.prems(1,2)
    proof (cases rule: allow_cases [where key = key and oob = oob])
      case (spent b)
      have "bucket_ok (lm_limit l) now (refill (lm_limit l) now b)"
        using Cons.prems(1,2) spent(1)
        by (intro refill_ok(1) [OF lim]) (fastforce simp: limiter_ok_def bucket_ok_def)+
      then have "bk_tokens (refill (lm_limit l) now b) - 1 \<le> of_int (?B - 1)" by (simp add: bucket_ok_def)
      then have "f64 (bk_tokens (refill (lm_limit l) now b) - 1) \<le> of_int (?B - 1)"
        using limit_okD(3,4) [OF lim] by (intro f64.fl_le_int) auto
      then show thesis using spent(5) True by (intro that) (auto simp: l1 refill_def Let_def)
    qed (use True okk in \<open>auto simp: l1\<close>)
    have "int (allowed_for key cs (fst (allow_run oob cs l1))) \<le> ?B - 1"
      using Cons.prems(3) by (intro burst_left [OF ok1 b]) (auto simp: l1)
    then show ?thesis using True unfolding run by (simp add: c allowed_for_Cons)
  next
    case False
    have "int (allowed_for key cs (fst (allow_run oob cs l1))) \<le> rl_burst (lm_limit l1)"
      using Cons.prems(3) by (intro Cons.IH [OF ok1]) auto
    then show ?thesis using False unfolding run by (auto simp: c allowed_for_Cons l1)
  qed
qed

theorem burst_bounded_witness:
  "int (allowed_for ''a'' [(7, ''a''), (7, ''b''), (7, ''a''), (7, ''a'')]
     (fst (allow_run 0 [(7, ''a''), (7, ''b''), (7, ''a''), (7, ''a'')] (new_limiter (per_minute 2)))))
   \<le> rl_burst (lm_limit (new_limiter (per_minute 2)))"
  by (rule burst_bounded [of 0 _ 7], rule limiter_ok_new)
     (simp_all add: per_minute_def limit_ok_def go_div_def duration_defs)

lemma paced_run:
  assumes "limiter_ok now0 l" "\<forall>c\<in>set cs. now0 \<le> fst c"
    and "sorted_wrt (\<lambda>(t, k) (t', k'). t \<le> t' \<and> (k = k' \<longrightarrow> t + rl_every (lm_limit l) \<le> t')) cs"
    and "\<forall>(t, k)\<in>set cs. \<forall>b. lm_buckets l k = Some b \<longrightarrow> bk_last b + rl_every (lm_limit l) \<le> t"
  shows "False \<notin> set (fst (allow_run oob cs l))"
  using assms
proof (induction cs arbitrary: l now0)
  case (Cons c cs)
  obtain now k where c: "c = (now, k)" by (cases c)
  have now: "now0 \<le> now" using Cons.prems(2) c by simp
  let ?l1 = "snd (allow oob now k l)"
  have ok1: "limiter_ok now ?l1" by (rule limiter_ok_allow [OF Cons.prems(1) now])
  have lim: "limit_ok (lm_limit l)" using Cons.prems(1) by (simp add: limiter_ok_def)
  have "fst (fst (allow oob now k l)) \<and> (\<exists>b. lm_buckets ?l1 k = Some b \<and> bk_last b = now)"
    using Cons.prems(1) now
  proof (cases rule: allow_cases [where key = k and oob = oob])
    case (refused b)
    have "bucket_ok (lm_limit l) now0 b" "bk_last b + rl_every (lm_limit l) \<le> now"
      using Cons.prems(1,4) refused(1) c by (auto simp: limiter_ok_def)
    from refill_paced [OF lim this] refused(3) show ?thesis by simp
  qed (auto simp: refill_def Let_def)
  then obtain b where first: "fst (fst (allow oob now k l))" "lm_buckets ?l1 k = Some b" "bk_last b = now"
    by blast
  have "False \<notin> set (fst (allow_run oob cs ?l1))"
  proof (rule Cons.IH [OF ok1])
    show "\<forall>c\<in>set cs. now \<le> fst c" using Cons.prems(3) c by auto
    show "sorted_wrt (\<lambda>(t, k) (t', k'). t \<le> t' \<and> (k = k' \<longrightarrow> t + rl_every (lm_limit ?l1) \<le> t')) cs"
      using Cons.prems(3) by simp
    show "\<forall>(t, k')\<in>set cs. \<forall>b. lm_buckets ?l1 k' = Some b \<longrightarrow> bk_last b + rl_every (lm_limit ?l1) \<le> t"
    proof (intro ballI, clarify)
      fix t k' b' assume m: "(t, k') \<in> set cs" "lm_buckets ?l1 k' = Some b'"
      show "bk_last b' + rl_every (lm_limit ?l1) \<le> t"
      proof (cases "k' = k")
        case True
        then show ?thesis using m first Cons.prems(3) c by fastforce
      next
        case False
        then have "lm_buckets (sweep now l) k' = Some b'" using m(2) by (simp add: allow_other)
        from sweep_sub [OF this] show ?thesis using m(1) Cons.prems(4) by fastforce
      qed
    qed
  qed
  then show ?case using first(1) by (simp add: c split_beta)
qed simp

text \<open>
  C25: a client that keeps to the rate is never refused: when the calls of each client lie at least
  \<open>Every\<close> apart, every call of every client is let through, whatever the others do.
\<close>

theorem paced_clients_never_refused:
  assumes "limit_ok limit"
    and "sorted_wrt (\<lambda>(t, k) (t', k'). t \<le> t' \<and> (k = k' \<longrightarrow> t + rl_every limit \<le> t')) cs"
  shows "False \<notin> set (fst (allow_run oob cs (new_limiter limit)))"
proof -
  define t0 where "t0 = (case cs of [] \<Rightarrow> 0 | c # _ \<Rightarrow> fst c)"
  have "\<forall>c\<in>set cs. t0 \<le> fst c" using assms(2) by (cases cs) (auto simp: t0_def)
  moreover have "lm_limit (new_limiter limit) = limit" "lm_buckets (new_limiter limit) = Map.empty"
    using assms(1) by (auto simp: new_limiter_def limit_ok_def Let_def)
  ultimately show ?thesis using assms by (intro paced_run [OF limiter_ok_new]) auto
qed

theorem paced_clients_never_refused_witness:
  "False \<notin> set (fst (allow_run 0 [(0, ''a''), (1, ''b''), (30 * second, ''a''), (60 * second, ''a'')]
     (new_limiter (per_minute 2))))"
  by (rule paced_clients_never_refused)
     (simp_all add: per_minute_def limit_ok_def go_div_def duration_defs)

text \<open>
  A refusal tells the client to wait between 0 and \<open>Every\<close>, and the \<open>Retry-After\<close> derived from it
  is at least one second.
\<close>

theorem refusal_wait_bounded:
  assumes "limiter_ok now0 l" "now0 \<le> now" "fst (allow oob now key l) = (False, w)"
  shows "0 \<le> w \<and> w \<le> rl_every (lm_limit l) \<and> 1 \<le> retry_after w"
  using assms(1,2)
proof (cases rule: allow_cases [where key = key and oob = oob])
  case (refused b)
  let ?t = "bk_tokens (refill (lm_limit l) now b)"
  let ?E = "rl_every (lm_limit l)"
  have lim: "limit_ok (lm_limit l)" using assms(1) by (simp add: limiter_ok_def)
  have "0 \<le> ?t" using assms(1,2) refused(1) refill_ok(1) [OF lim, of now0 b now]
    by (fastforce simp: limiter_ok_def bucket_ok_def)
  then have m: "0 \<le> f64 (1 - ?t)" "f64 (1 - ?t) \<le> 1"
    using refused(3) f64.fl_le_int [of "1 - ?t" 1] by (auto intro!: f64.fl_nonneg)
  have E: "0 < ?E" "?E \<le> 9007199254740992" using lim by (auto simp: limit_ok_def)
  have "f64 (1 - ?t) * of_int ?E \<le> of_int ?E" "0 \<le> f64 (1 - ?t) * of_int ?E"
    using m E by (simp_all add: mult_left_le_one_le)
  then have "0 \<le> f64 (f64 (1 - ?t) * of_int ?E)" "f64 (f64 (1 - ?t) * of_int ?E) \<le> of_int ?E"
    using E by (auto intro: f64.fl_nonneg intro!: f64.fl_le_int)
  then have "0 \<le> to_int64 oob (f64 (f64 (1 - ?t) * of_int ?E))"
    "to_int64 oob (f64 (f64 (1 - ?t) * of_int ?E)) \<le> ?E"
    using E to_int64_small(1,2) [of _ ?E oob] by (auto simp: max_int64_def)
  then show ?thesis using refused(4) assms(3) by (simp add: retry_after_def Let_def)
qed (use assms(3) in simp_all)


text \<open>A limit of one call every two seconds, called at 0 and at 0.25 seconds.\<close>

definition one_in_two :: limiter where
  "one_in_two = snd (allow 0 0 ''a'' (new_limiter \<lparr> rl_burst = 1, rl_every = 2 * second \<rparr>))"

lemma one_in_two_eq:
  "one_in_two = \<lparr> lm_limit = \<lparr> rl_burst = 1, rl_every = 2000000000 \<rparr>,
     lm_buckets = [''a'' \<mapsto> \<lparr> bk_tokens = 0, bk_last = 0 \<rparr>], lm_swept = 0 \<rparr>"
  by (simp add: one_in_two_def allow_def new_limiter_def Let_def sweep_def duration_defs
      idle_after_def zero_time_def time_sub_def max_int64_def min_int64_def)

lemma f64_dyadic: "f64 (of_int k / 2 ^ n) = of_int k / 2 ^ n" if "0 \<le> k" "k \<le> 9007199254740992"
proof -
  have "2 ^ n * f64 (of_int k / 2 ^ n) = f64 (of_int k)"
    using that by (subst f64_scale_pow [symmetric]) simp_all
  then show ?thesis using that by (simp add: f64_int field_simps)
qed

lemma one_in_two_refused:
  "allow 0 250000000 ''a'' one_in_two = ((False, 1750000000),
     \<lparr> lm_limit = \<lparr> rl_burst = 1, rl_every = 2000000000 \<rparr>,
       lm_buckets = [''a'' \<mapsto> \<lparr> bk_tokens = 1 / 8, bk_last = 250000000 \<rparr>], lm_swept = 0 \<rparr>)"
proof -
  have d: "dur_seconds 250000000 = 1 / 4" "dur_seconds 2000000000 = 2"
    using f64_dyadic [of 1 2]
    by (simp_all add: dur_seconds_def go_div_def go_rem_def second_def f64_numeral f64_idem)
  have f: "f64 (1 / 8) = 1 / 8" "f64 (7 / 8) = 7 / 8" using f64_dyadic [of 1 3] f64_dyadic [of 7 3] by simp_all
  have "to_int64 0 (of_int 1750000000) = 1750000000"
    by (simp only: to_int64_def trunc_of_int Let_def) (simp add: max_int64_def min_int64_def)
  then have k: "to_int64 0 1750000000 = 1750000000" by simp
  show ?thesis
    by (simp add: allow_def one_in_two_eq sweep_def refill_def Let_def idle_after_def duration_defs
        time_sub_def max_int64_def min_int64_def d f k f64_numeral)
qed

theorem refusal_wait_bounded_witness: "0 \<le> (1750000000::int) \<and> 1 \<le> retry_after 1750000000"
proof -
  have "limit_ok \<lparr> rl_burst = 1, rl_every = 2 * second \<rparr>" by (simp add: limit_ok_def duration_defs)
  then have "limiter_ok 0 one_in_two" unfolding one_in_two_def
    by (intro limiter_ok_allow [of 0] limiter_ok_new) simp_all
  from refusal_wait_bounded [OF this, of 250000000 0 "''a''" 1750000000]
  show ?thesis by (simp add: one_in_two_refused)
qed

text \<open>
  \<open>Retry-After\<close> is rounded down, so that a client that waits exactly as long as it was told can be
  refused again: under one call every two seconds, a call at 0.25 s is refused with a wait of 1.75 s
  and \<open>Retry-After: 1\<close>, and the call one second later is refused too.
\<close>

theorem retry_after_too_short:
  "let ((ok, wait), l) = allow 0 250000000 ''a'' one_in_two
   in \<not> ok \<and> wait = 1750000000 \<and> retry_after wait = 1
      \<and> \<not> fst (fst (allow 0 (250000000 + retry_after wait * second) ''a'' l))"
proof -
  have d: "dur_seconds 1000000000 = 1" "dur_seconds 2000000000 = 2"
    by (simp_all add: dur_seconds_def go_div_def go_rem_def second_def f64_numeral)
  have f: "f64 (1 / 2) = 1 / 2" "f64 (5 / 8) = 5 / 8" "f64 (3 / 4) = 3 / 4" "f64 (7 / 4) = 7 / 4"
    using f64_dyadic [of 1 1] f64_dyadic [of 5 3] f64_dyadic [of 3 2] f64_dyadic [of 7 2] by simp_all
  have "\<lfloor>7 / 4 :: rat\<rfloor> = 1" by (simp add: floor_eq_iff)
  then have r: "retry_after 1750000000 = 1"
    by (simp add: retry_after_def dur_seconds_def go_div_def go_rem_def second_def f64_numeral f trunc_rat_def)
  have "\<not> fst (fst (allow 0 1250000000 ''a''
     \<lparr> lm_limit = \<lparr> rl_burst = 1, rl_every = 2000000000 \<rparr>,
       lm_buckets = [''a'' \<mapsto> \<lparr> bk_tokens = 1 / 8, bk_last = 250000000 \<rparr>], lm_swept = 0 \<rparr>))"
    by (simp add: allow_def sweep_def refill_def Let_def idle_after_def duration_defs
        time_sub_def max_int64_def min_int64_def d f)
  then show ?thesis by (simp add: one_in_two_refused r second_def)
qed

end
