(* ===== verification/Store_Model.thy ===== *)
theory Store_Model
  imports Go_Time Prelude "HOL-Library.Sublist"
begin

text \<open>
  The data of the control plane's database: \<open>internal/store/models.go\<close>, the schema under
  \<open>internal/store/migrations\<close>, and what every query of the package shares. A table is the list of its
  rows in the order of insertion. PostgreSQL is modelled by what the statements of the package mean
  on such tables: constraints are checked by the statement that could break them, and any statement
  can fail for a reason of its own (a lost connection, a canceled context), which the state scripts
  in \<open>db_faults\<close>, one entry for each statement to come. \<open>db_event_seq\<close> and \<open>db_audit_seq\<close> are the
  sequences behind the two identity columns, which a rollback does not take back.
\<close>

section \<open>Rows\<close>

record runner_row =
  rn_id :: string
  rn_name :: string
  rn_host :: string
  rn_scope :: string
  rn_scope_id :: string
  rn_github_id :: "int option"
  rn_status :: string
  rn_status_detail :: string
  rn_os :: string
  rn_arch :: string
  rn_cpu_count :: int
  rn_memory :: int
  rn_disk :: int
  rn_labels :: "string list"
  rn_ephemeral :: bool
  rn_runner_version :: string
  rn_agent_version :: string
  rn_cpu_pct :: rat
  rn_memory_pct :: rat
  rn_disk_pct :: rat
  rn_heartbeat :: "go_time option"
  rn_retired_at :: "go_time option"
  rn_retired_reason :: string
  rn_created :: go_time
  rn_updated :: go_time

record enrollment_token =
  et_id :: string
  et_hash :: string
  et_description :: string
  et_max_uses :: "int option"
  et_uses :: int
  et_expires :: "go_time option"
  et_revoked :: "go_time option"
  et_created :: go_time

record machine_token =
  mt_id :: string
  mt_runner :: string
  mt_hash :: string
  mt_last_used :: "go_time option"
  mt_revoked :: "go_time option"
  mt_created :: go_time

record user_row =
  us_id :: string
  us_github_id :: int
  us_login :: string
  us_name :: string
  us_avatar :: string
  us_token :: "string option"
  us_created :: go_time
  us_last_login :: go_time

record session_row =
  se_id :: string
  se_user :: string
  se_hash :: string
  se_expires :: go_time

record command_row =
  cm_id :: string
  cm_runner :: string
  cm_command :: string
  cm_status :: string
  cm_error :: string
  cm_requested_by :: string
  cm_created :: go_time
  cm_delivered :: "go_time option"
  cm_completed :: "go_time option"

text \<open>A JSON object is an association list of keys and encoded values.\<close>

type_synonym json_object = "(string \<times> string) list"

record runner_event =
  re_id :: int
  re_runner :: "string option"
  re_event :: string
  re_severity :: string
  re_message :: string
  re_data :: json_object
  re_created :: go_time

record audit_entry =
  au_id :: int
  au_actor :: string
  au_action :: string
  au_target :: string
  au_detail :: json_object
  au_created :: go_time

record db =
  db_runners :: "runner_row list"
  db_enroll :: "enrollment_token list"
  db_machine :: "machine_token list"
  db_users :: "user_row list"
  db_sessions :: "session_row list"
  db_commands :: "command_row list"
  db_events :: "runner_event list"
  db_audit :: "audit_entry list"
  db_event_seq :: int
  db_audit_seq :: int
  db_faults :: "bool list"

definition empty_db :: db where
  "empty_db = \<lparr> db_runners = [], db_enroll = [], db_machine = [], db_users = [], db_sessions = [],
     db_commands = [], db_events = [], db_audit = [], db_event_seq = 0, db_audit_seq = 0, db_faults = [] \<rparr>"

section \<open>Health\<close>

datatype health = HealthOK | HealthStale | HealthOffline

record thresholds =
  th_stale :: duration
  th_offline :: duration

definition default_thresholds :: thresholds where
  "default_thresholds = \<lparr> th_stale = 30 * second, th_offline = 90 * second \<rparr>"

definition retired :: "runner_row \<Rightarrow> bool" where
  "retired r \<longleftrightarrow> rn_retired_at r \<noteq> None"

definition runner_health :: "runner_row \<Rightarrow> go_time \<Rightarrow> thresholds \<Rightarrow> health" where
  "runner_health r now t =
     (if retired r then HealthOffline
      else case rn_heartbeat r of
             None \<Rightarrow> HealthOffline
           | Some hb \<Rightarrow>
               let age = time_sub now hb
               in if th_offline t \<le> age then HealthOffline
                  else if th_stale t \<le> age then HealthStale
                  else HealthOK)"

definition effective_status :: "runner_row \<Rightarrow> go_time \<Rightarrow> thresholds \<Rightarrow> string" where
  "effective_status r now t =
     (if retired r then ''retired''
      else if runner_health r now t = HealthOffline then ''offline''
      else rn_status r)"

definition usable :: "enrollment_token \<Rightarrow> go_time \<Rightarrow> bool" where
  "usable t now \<longleftrightarrow>
     (if et_revoked t \<noteq> None then False
      else case et_expires t of
             Some e \<Rightarrow> if \<not> now < e then False
                       else (case et_max_uses t of Some m \<Rightarrow> \<not> m \<le> et_uses t | None \<Rightarrow> True)
           | None \<Rightarrow> (case et_max_uses t of Some m \<Rightarrow> \<not> m \<le> et_uses t | None \<Rightarrow> True))"

section \<open>Statements\<close>

datatype db_error =
    ErrNotFound | ErrTokenInvalid | ErrTokenExhausted
  | ErrRefused string       \<comment> \<open>rejected by the package before any statement\<close>
  | ErrDatabase             \<comment> \<open>the statement failed\<close>

text \<open>
  One statement: it fails when its fault is scripted or when what it would do breaks a constraint.
\<close>

definition stmt :: "bool \<Rightarrow> db \<Rightarrow> bool \<times> db" where
  "stmt allowed db =
     (case db_faults db of
        [] \<Rightarrow> (allowed, db)
      | f # fs \<Rightarrow> (allowed \<and> \<not> f, db\<lparr>db_faults := fs\<rparr>))"

text \<open>
  A \<open>UUID\<close> column compared with or assigned a text that is not a UUID makes the statement fail. The
  form accepted here is the canonical one, which \<open>newID\<close> and PostgreSQL write.
\<close>

definition is_hex :: "char \<Rightarrow> bool" where
  "is_hex c \<longleftrightarrow> c \<in> set ''0123456789abcdefABCDEF''"

fun uuid_shape :: "nat list \<Rightarrow> string \<Rightarrow> bool" where
  "uuid_shape [] s \<longleftrightarrow> s = []"
| "uuid_shape [n] s \<longleftrightarrow> length s = n \<and> list_all is_hex s"
| "uuid_shape (n # m # ns) s \<longleftrightarrow> n < length s \<and> list_all is_hex (take n s) \<and> s ! n = CHR ''-''
     \<and> uuid_shape (m # ns) (drop (Suc n) s)"

definition is_uuid :: "string \<Rightarrow> bool" where
  "is_uuid = uuid_shape [8, 4, 4, 4, 12]"

text \<open>The first row that satisfies a condition, and the newest first.\<close>

definition newest_first :: "('a \<Rightarrow> int) \<Rightarrow> 'a list \<Rightarrow> 'a list" where
  "newest_first created = sort_key (\<lambda>r. - created r)"

definition limit_to :: "int \<Rightarrow> 'a list \<Rightarrow> 'a list" where
  "limit_to n = take (nat n)"

definition default_list_limit :: int where
  "default_list_limit = 200"

text \<open>Text constraints of the schema.\<close>

definition scope_ok :: "string \<Rightarrow> bool" where
  "scope_ok s \<longleftrightarrow> s \<in> {''repository'', ''organization''}"

definition status_ok :: "string \<Rightarrow> bool" where
  "status_ok s \<longleftrightarrow> s \<in> {''offline'', ''starting'', ''online'', ''busy'', ''stopping'', ''error''}"

definition severity_ok :: "string \<Rightarrow> bool" where
  "severity_ok s \<longleftrightarrow> s \<in> {''debug'', ''info'', ''warn'', ''error''}"

definition command_status_ok :: "string \<Rightarrow> bool" where
  "command_status_ok s \<longleftrightarrow> s \<in> {''pending'', ''delivered'', ''done'', ''failed''}"

section \<open>The invariant of the schema\<close>

definition runner_exists :: "db \<Rightarrow> string \<Rightarrow> bool" where
  "runner_exists db i \<longleftrightarrow> i \<in> set (map rn_id (db_runners db))"

definition runner_key :: "runner_row \<Rightarrow> string \<times> string \<times> string" where
  "runner_key r = (rn_host r, rn_scope_id r, rn_name r)"

definition runners_ok :: "db \<Rightarrow> bool" where
  "runners_ok db \<longleftrightarrow> distinct (map rn_id (db_runners db))
     \<and> distinct (map runner_key (db_runners db))
     \<and> (\<forall>r\<in>set (db_runners db). is_uuid (rn_id r) \<and> scope_ok (rn_scope r) \<and> status_ok (rn_status r))"

definition tokens_ok :: "db \<Rightarrow> bool" where
  "tokens_ok db \<longleftrightarrow> distinct (map et_id (db_enroll db)) \<and> distinct (map et_hash (db_enroll db))
     \<and> (\<forall>t\<in>set (db_enroll db). is_uuid (et_id t))
     \<and> distinct (map mt_id (db_machine db)) \<and> distinct (map mt_hash (db_machine db))
     \<and> (\<forall>t\<in>set (db_machine db). runner_exists db (mt_runner t))"

definition commands_ok :: "db \<Rightarrow> bool" where
  "commands_ok db \<longleftrightarrow> distinct (map cm_id (db_commands db))
     \<and> (\<forall>c\<in>set (db_commands db). is_uuid (cm_id c) \<and> runner_exists db (cm_runner c)
          \<and> cm_command c = ''restart'' \<and> command_status_ok (cm_status c))"

definition events_ok :: "db \<Rightarrow> bool" where
  "events_ok db \<longleftrightarrow> sorted_wrt (<) (map re_id (db_events db))
     \<and> (\<forall>e\<in>set (db_events db). re_id e \<le> db_event_seq db)
     \<and> (\<forall>e\<in>set (db_events db). severity_ok (re_severity e)
          \<and> pred_option (runner_exists db) (re_runner e))"

definition users_ok :: "db \<Rightarrow> bool" where
  "users_ok db \<longleftrightarrow> distinct (map us_id (db_users db)) \<and> distinct (map us_github_id (db_users db))
     \<and> distinct (map se_id (db_sessions db)) \<and> distinct (map se_hash (db_sessions db))
     \<and> (\<forall>s\<in>set (db_sessions db). se_user s \<in> set (map us_id (db_users db)))"

definition db_ok :: "db \<Rightarrow> bool" where
  "db_ok db \<longleftrightarrow> runners_ok db \<and> tokens_ok db \<and> commands_ok db \<and> events_ok db \<and> users_ok db"

lemma db_ok_empty: "db_ok empty_db"
  by (simp add: db_ok_def empty_db_def runners_ok_def tokens_ok_def commands_ok_def events_ok_def users_ok_def)

lemma stmt_db: "stmt allowed db = (ok, db') \<Longrightarrow> db' = db\<lparr>db_faults := tl (db_faults db)\<rparr>"
  by (auto simp: stmt_def split: list.splits)

lemma stmt_allowed: "stmt allowed db = (ok, db') \<Longrightarrow> ok \<Longrightarrow> allowed"
  by (auto simp: stmt_def split: list.splits)

lemma stmtF: "stmt allowed db = (ok, db') \<Longrightarrow> db' = db\<lparr>db_faults := tl (db_faults db)\<rparr> \<and> (ok \<longrightarrow> allowed)"
  using stmt_db stmt_allowed by blast

lemma stmt_no_fault: "db_faults db = [] \<Longrightarrow> stmt allowed db = (allowed, db)"
  by (simp add: stmt_def)

lemma runner_exists_faults [simp]: "runner_exists (db\<lparr>db_faults := f\<rparr>) = runner_exists db"
  by (simp add: runner_exists_def fun_eq_iff)

text \<open>Scripted faults are no part of the invariant.\<close>

lemma ok_faults [simp]:
  "runners_ok (db\<lparr>db_faults := f\<rparr>) = runners_ok db"
  "tokens_ok (db\<lparr>db_faults := f\<rparr>) = tokens_ok db"
  "commands_ok (db\<lparr>db_faults := f\<rparr>) = commands_ok db"
  "events_ok (db\<lparr>db_faults := f\<rparr>) = events_ok db"
  "users_ok (db\<lparr>db_faults := f\<rparr>) = users_ok db"
  by (simp_all add: runners_ok_def tokens_ok_def commands_ok_def events_ok_def users_ok_def)

lemma db_ok_faults [simp]: "db_ok (db\<lparr>db_faults := f\<rparr>) = db_ok db"
  by (simp add: db_ok_def)

lemma stmt_ok: "stmt allowed db = (ok, db') \<Longrightarrow> db_ok db \<Longrightarrow> db_ok db'"
  by (drule stmt_db) simp

text \<open>What a statement leaves behind, in the form the proofs about operations use.\<close>

lemma stmtD:
  assumes "stmt allowed db = (ok, db')"
  shows "(ok \<longrightarrow> allowed) \<and> (db_ok db \<longrightarrow> db_ok db') \<and> runner_exists db' = runner_exists db
    \<and> db_runners db' = db_runners db \<and> db_enroll db' = db_enroll db \<and> db_machine db' = db_machine db
    \<and> db_users db' = db_users db \<and> db_sessions db' = db_sessions db \<and> db_commands db' = db_commands db
    \<and> db_events db' = db_events db \<and> db_audit db' = db_audit db
    \<and> db_event_seq db' = db_event_seq db \<and> db_audit_seq db' = db_audit_seq db"
  using stmt_db [OF assms] stmt_allowed [OF assms] by simp

section \<open>Keyed tables\<close>

text \<open>
  What every table of the schema relies on: a column that identifies a row. Its lemmas say how
  lookups by that column behave under the statements of the package, all of which are an \<open>INSERT\<close>
  that checked the column, an \<open>UPDATE\<close> that keeps it, or a \<open>DELETE\<close>.
\<close>

lemma sort_key_Nil_iff: "sort_key f xs = [] \<longleftrightarrow> xs = []"
  by (metis length_0_conv length_sort)

lemma key_unique: "distinct (map k xs) \<Longrightarrow> x \<in> set xs \<Longrightarrow> y \<in> set xs \<Longrightarrow> k x = k y \<Longrightarrow> x = y"
  by (auto simp: distinct_map dest: inj_onD)

lemma find_distinct:
  assumes "distinct (map k xs)" "x \<in> set xs"
  shows "find (\<lambda>y. k y = k x) xs = Some x"
  using assms by (induction xs) (auto simp: rev_image_eqI)

lemma filter_distinct_key:
  assumes "distinct (map k xs)" "x \<in> set xs"
  shows "filter (\<lambda>y. k y = k x) xs = [x]"
  using assms by (induction xs) (auto simp: rev_image_eqI filter_empty_conv)

lemma find_Some_conv: "find P xs = Some x \<Longrightarrow> x \<in> set xs \<and> P x"
  by (auto simp: find_Some_iff)

lemma find_None_conv: "find P xs = None \<longleftrightarrow> (\<forall>x\<in>set xs. \<not> P x)"
  by (auto simp: find_None_iff)

lemma distinct_map_filter_key: "distinct (map k xs) \<Longrightarrow> distinct (map k (filter P xs))"
  by (induction xs) auto

end
