(* ===== verification/Store_Runners.thy ===== *)
theory Store_Runners
  imports Store_Model "HOL-Library.Multiset"
begin

text \<open>
  \<open>internal/store/runners.go\<close>. The instant \<open>now()\<close> of a statement and the fresh identifier of
  \<open>newID()\<close> are arguments.
\<close>

section \<open>Operations\<close>

record register_runner =
  rr_name :: string
  rr_host :: string
  rr_scope :: string
  rr_scope_id :: string
  rr_os :: string
  rr_arch :: string
  rr_cpu_count :: int
  rr_memory :: int
  rr_disk :: int
  rr_labels :: "string list"
  rr_ephemeral :: bool
  rr_runner_version :: string
  rr_agent_version :: string

text \<open>The row a registration inserts, and what it does to the row that is there already.\<close>

definition registered_row :: "string \<Rightarrow> go_time \<Rightarrow> register_runner \<Rightarrow> runner_row" where
  "registered_row i now r = \<lparr>
     rn_id = i, rn_name = rr_name r, rn_host = rr_host r, rn_scope = rr_scope r,
     rn_scope_id = rr_scope_id r, rn_github_id = None, rn_status = ''starting'', rn_status_detail = '''',
     rn_os = rr_os r, rn_arch = rr_arch r, rn_cpu_count = rr_cpu_count r, rn_memory = rr_memory r,
     rn_disk = rr_disk r, rn_labels = rr_labels r, rn_ephemeral = rr_ephemeral r,
     rn_runner_version = rr_runner_version r, rn_agent_version = rr_agent_version r,
     rn_cpu_pct = 0, rn_memory_pct = 0, rn_disk_pct = 0, rn_heartbeat = None,
     rn_retired_at = None, rn_retired_reason = '''', rn_created = now, rn_updated = now \<rparr>"

definition reregister :: "go_time \<Rightarrow> register_runner \<Rightarrow> runner_row \<Rightarrow> runner_row" where
  "reregister now r x = x\<lparr>
     rn_status := ''starting'', rn_os := rr_os r, rn_arch := rr_arch r,
     rn_cpu_count := rr_cpu_count r, rn_memory := rr_memory r, rn_disk := rr_disk r,
     rn_labels := rr_labels r, rn_ephemeral := rr_ephemeral r,
     rn_runner_version := rr_runner_version r, rn_agent_version := rr_agent_version r,
     rn_scope := rr_scope r, rn_retired_at := None, rn_retired_reason := '''', rn_updated := now \<rparr>"

definition upsert_runner ::
  "string \<Rightarrow> go_time \<Rightarrow> register_runner \<Rightarrow> db \<Rightarrow> (db_error + runner_row) \<times> db"
where
  "upsert_runner newid now r db =
     (if rr_name r = '''' then (Inl (ErrRefused ''a runner needs a name''), db)
      else
        let r = (if rr_host r = '''' then r\<lparr>rr_host := ''github.com''\<rparr> else r);
            key = (rr_host r, rr_scope_id r, rr_name r);
            hit = find (\<lambda>x. runner_key x = key) (db_runners db);
            valid = (scope_ok (rr_scope r) \<and> is_uuid newid
                     \<and> - 2147483648 \<le> rr_cpu_count r \<and> rr_cpu_count r \<le> 2147483647
                     \<and> (hit \<noteq> None \<or> \<not> runner_exists db newid));
            (ok, db) = stmt valid db
        in if \<not> ok then (Inl ErrDatabase, db)
           else case hit of
                  None \<Rightarrow>
                    let row = registered_row newid now r
                    in (Inr row, db\<lparr>db_runners := db_runners db @ [row]\<rparr>)
                | Some x \<Rightarrow>
                    (Inr (reregister now r x),
                     db\<lparr>db_runners := update_where (\<lambda>x. runner_key x = key) (reregister now r) (db_runners db)\<rparr>))"

record heartbeat =
  hb_status :: string
  hb_detail :: string
  hb_cpu :: rat
  hb_memory :: rat
  hb_disk :: rat
  hb_runner_version :: string
  hb_agent_version :: string

definition apply_heartbeat :: "go_time \<Rightarrow> heartbeat \<Rightarrow> runner_row \<Rightarrow> runner_row" where
  "apply_heartbeat now hb x = x\<lparr>
     rn_status := hb_status hb, rn_status_detail := hb_detail hb,
     rn_cpu_pct := hb_cpu hb, rn_memory_pct := hb_memory hb, rn_disk_pct := hb_disk hb,
     rn_runner_version := (if hb_runner_version hb = '''' then rn_runner_version x else hb_runner_version hb),
     rn_agent_version := (if hb_agent_version hb = '''' then rn_agent_version x else hb_agent_version hb),
     rn_heartbeat := Some now, rn_updated := now \<rparr>"

text \<open>\<open>UPDATE runners ... WHERE id = $1 RETURNING\<close>, which three operations share.\<close>

definition update_runner ::
  "string \<Rightarrow> (runner_row \<Rightarrow> runner_row) \<Rightarrow> bool \<Rightarrow> db \<Rightarrow> (db_error + runner_row) \<times> db"
where
  "update_runner i f valid db =
     (let hit = find (\<lambda>x. rn_id x = i) (db_runners db);
          (ok, db) = stmt (is_uuid i \<and> (hit = None \<or> valid)) db
      in if \<not> ok then (Inl ErrDatabase, db)
         else case hit of
                None \<Rightarrow> (Inl ErrNotFound, db)
              | Some x \<Rightarrow> (Inr (f x),
                  db\<lparr>db_runners := update_where (\<lambda>x. rn_id x = i) f (db_runners db)\<rparr>))"

definition record_heartbeat ::
  "go_time \<Rightarrow> string \<Rightarrow> heartbeat \<Rightarrow> db \<Rightarrow> (db_error + runner_row) \<times> db"
where
  "record_heartbeat now i hb db =
     (let hb = (if hb_status hb = '''' then hb\<lparr>hb_status := ''online''\<rparr> else hb)
      in update_runner i (apply_heartbeat now hb) (status_ok (hb_status hb)) db)"

definition set_github_runner_id :: "go_time \<Rightarrow> string \<Rightarrow> int \<Rightarrow> db \<Rightarrow> (db_error + unit) \<times> db" where
  "set_github_runner_id now i gid db =
     (case update_runner i (\<lambda>x. x\<lparr>rn_github_id := Some gid, rn_updated := now\<rparr>) True db of
        (Inl e, db) \<Rightarrow> (Inl e, db)
      | (Inr _, db) \<Rightarrow> (Inr (), db))"

definition retire :: "go_time \<Rightarrow> string \<Rightarrow> runner_row \<Rightarrow> runner_row" where
  "retire now reason x = x\<lparr>
     rn_retired_at := (case rn_retired_at x of None \<Rightarrow> Some now | Some t \<Rightarrow> Some t),
     rn_retired_reason := (if rn_retired_at x = None then reason else rn_retired_reason x),
     rn_status := ''offline'', rn_updated := now \<rparr>"

definition retire_runner :: "go_time \<Rightarrow> string \<Rightarrow> string \<Rightarrow> db \<Rightarrow> (db_error + runner_row) \<times> db" where
  "retire_runner now i reason db = update_runner i (retire now reason) True db"

definition get_runner :: "string \<Rightarrow> db \<Rightarrow> (db_error + runner_row) \<times> db" where
  "get_runner i db =
     (let (ok, db) = stmt (is_uuid i) db
      in if \<not> ok then (Inl ErrDatabase, db)
         else case find (\<lambda>x. rn_id x = i) (db_runners db) of
                None \<Rightarrow> (Inl ErrNotFound, db)
              | Some x \<Rightarrow> (Inr x, db))"

record list_runners_options =
  lr_scope :: string
  lr_include_retired :: bool
  lr_limit :: int

definition list_runners :: "list_runners_options \<Rightarrow> db \<Rightarrow> (db_error + runner_row list) \<times> db" where
  "list_runners opts db =
     (let limit = (if lr_limit opts \<le> 0 then default_list_limit else lr_limit opts);
          (ok, db) = stmt True db
      in if \<not> ok then (Inl ErrDatabase, db)
         else (Inr (limit_to limit (newest_first rn_created
                 (filter (\<lambda>x. (lr_scope opts = '''' \<or> rn_scope_id x = lr_scope opts)
                            \<and> (lr_include_retired opts \<or> rn_retired_at x = None)) (db_runners db)))), db))"

text \<open>Deleting a runner takes with it the rows that reference it (\<open>ON DELETE CASCADE\<close>).\<close>

definition delete_runner :: "string \<Rightarrow> db \<Rightarrow> (db_error + unit) \<times> db" where
  "delete_runner i db =
     (let (ok, db) = stmt (is_uuid i) db
      in if \<not> ok then (Inl ErrDatabase, db)
         else if \<not> runner_exists db i then (Inl ErrNotFound, db)
         else (Inr (), db\<lparr>
            db_runners := filter (\<lambda>x. rn_id x \<noteq> i) (db_runners db),
            db_machine := filter (\<lambda>t. mt_runner t \<noteq> i) (db_machine db),
            db_commands := filter (\<lambda>c. cm_runner c \<noteq> i) (db_commands db),
            db_events := filter (\<lambda>e. re_runner e \<noteq> Some i) (db_events db)\<rparr>))"

record counts =
  ct_total :: int
  ct_online :: int
  ct_busy :: int
  ct_offline :: int
  ct_stale :: int
  ct_error :: int
  ct_retired :: int

definition no_counts :: counts where
  "no_counts = \<lparr> ct_total = 0, ct_online = 0, ct_busy = 0, ct_offline = 0, ct_stale = 0, ct_error = 0,
     ct_retired = 0 \<rparr>"

definition count_one :: "go_time \<Rightarrow> thresholds \<Rightarrow> runner_row \<Rightarrow> counts \<Rightarrow> counts" where
  "count_one now t r c =
     (if retired r then c\<lparr>ct_retired := ct_retired c + 1\<rparr>
      else
        let c = c\<lparr>ct_total := ct_total c + 1\<rparr>;
            c = (if runner_health r now t = HealthStale then c\<lparr>ct_stale := ct_stale c + 1\<rparr> else c);
            st = effective_status r now t
        in if st = ''online'' \<or> st = ''starting'' then c\<lparr>ct_online := ct_online c + 1\<rparr>
           else if st = ''busy'' then c\<lparr>ct_busy := ct_busy c + 1\<rparr>
           else if st = ''error'' then c\<lparr>ct_error := ct_error c + 1\<rparr>
           else c\<lparr>ct_offline := ct_offline c + 1\<rparr>)"

definition count_runners :: "go_time \<Rightarrow> thresholds \<Rightarrow> db \<Rightarrow> (db_error + counts) \<times> db" where
  "count_runners now t db =
     (case list_runners \<lparr> lr_scope = '''', lr_include_retired = True, lr_limit = 10000 \<rparr> db of
        (Inl e, db) \<Rightarrow> (Inl e, db)
      | (Inr rs, db) \<Rightarrow> (Inr (fold (count_one now t) rs no_counts), db))"

section \<open>Preservation of the schema\<close>

lemma runner_exists_append: "runner_exists (db\<lparr>db_runners := rs @ [r]\<rparr>) i \<longleftrightarrow>
    runner_exists (db\<lparr>db_runners := rs\<rparr>) i \<or> i = rn_id r"
  by (auto simp: runner_exists_def)

text \<open>An update of runners that keeps every identifier leaves all references valid.\<close>

lemma runner_exists_same_ids:
  "map rn_id rs = map rn_id (db_runners db) \<Longrightarrow> runner_exists (db\<lparr>db_runners := rs\<rparr>) = runner_exists db"
  by (simp add: runner_exists_def fun_eq_iff flip: set_map)

lemma refs_same_exists:
  assumes "runner_exists (db\<lparr>db_runners := rs\<rparr>) = runner_exists db"
  shows "tokens_ok (db\<lparr>db_runners := rs\<rparr>) = tokens_ok db"
    "commands_ok (db\<lparr>db_runners := rs\<rparr>) = commands_ok db"
    "events_ok (db\<lparr>db_runners := rs\<rparr>) = events_ok db"
    "users_ok (db\<lparr>db_runners := rs\<rparr>) = users_ok db"
  by (simp_all add: tokens_ok_def commands_ok_def events_ok_def users_ok_def assms)

lemma refs_more_exists:
  assumes "\<And>i. runner_exists db i \<Longrightarrow> runner_exists (db\<lparr>db_runners := rs\<rparr>) i"
  shows "tokens_ok db \<Longrightarrow> tokens_ok (db\<lparr>db_runners := rs\<rparr>)"
    "commands_ok db \<Longrightarrow> commands_ok (db\<lparr>db_runners := rs\<rparr>)"
    "events_ok db \<Longrightarrow> events_ok (db\<lparr>db_runners := rs\<rparr>)"
    "users_ok db \<Longrightarrow> users_ok (db\<lparr>db_runners := rs\<rparr>)"
  using assms by (auto simp: tokens_ok_def commands_ok_def events_ok_def users_ok_def
      intro: option.pred_mono_strong)

definition keeps_row :: "(runner_row \<Rightarrow> runner_row) \<Rightarrow> bool" where
  "keeps_row f \<longleftrightarrow> (\<forall>x. rn_id (f x) = rn_id x \<and> runner_key (f x) = runner_key x)"

lemma db_ok_update_runners:
  assumes "db_ok db" "keeps_row f"
    and "\<And>x. x \<in> set (db_runners db) \<Longrightarrow> p x \<Longrightarrow> scope_ok (rn_scope (f x)) \<and> status_ok (rn_status (f x))"
  shows "db_ok (db\<lparr>db_runners := update_where p f (db_runners db)\<rparr>)"
proof -
  let ?rs = "update_where p f (db_runners db)"
  have ids: "map rn_id ?rs = map rn_id (db_runners db)" "map runner_key ?rs = map runner_key (db_runners db)"
    using assms(2) by (auto simp: keeps_row_def intro!: map_key_update_where)
  have "runners_ok (db\<lparr>db_runners := ?rs\<rparr>)"
    using assms ids by (auto simp: db_ok_def runners_ok_def set_update_where keeps_row_def)
  moreover note refs_same_exists [OF runner_exists_same_ids [OF ids(1)]]
  ultimately show ?thesis using assms(1) by (simp add: db_ok_def)
qed

lemma keeps_row_ops:
  "keeps_row (reregister now r)" "keeps_row (apply_heartbeat now hb)" "keeps_row (retire now reason)"
  "keeps_row (\<lambda>x. x\<lparr>rn_github_id := g, rn_updated := now\<rparr>)"
  by (simp_all add: keeps_row_def reregister_def apply_heartbeat_def retire_def runner_key_def)

lemma db_ok_add_runner:
  assumes "db_ok db" "\<not> runner_exists db (rn_id r)" "runner_key r \<notin> runner_key ` set (db_runners db)"
    "is_uuid (rn_id r)" "scope_ok (rn_scope r)" "status_ok (rn_status r)"
  shows "db_ok (db\<lparr>db_runners := db_runners db @ [r]\<rparr>)"
proof -
  have ex: "runner_exists db i \<Longrightarrow> runner_exists (db\<lparr>db_runners := db_runners db @ [r]\<rparr>) i" for i
    by (auto simp: runner_exists_def)
  have "runners_ok (db\<lparr>db_runners := db_runners db @ [r]\<rparr>)"
    using assms by (auto simp: db_ok_def runners_ok_def runner_exists_def)
  then show ?thesis using assms(1) refs_more_exists [OF ex] by (simp add: db_ok_def)
qed

lemma upsert_runner_ok:
  assumes "db_ok db" "upsert_runner i now r db = (res, db')"
  shows "db_ok db'"
proof (cases "rr_name r = ''''")
  case False
  define r' where "r' = (if rr_host r = '''' then r\<lparr>rr_host := ''github.com''\<rparr> else r)"
  define key where "key = (rr_host r', rr_scope_id r', rr_name r')"
  define hit where "hit = find (\<lambda>x. runner_key x = key) (db_runners db)"
  obtain ok db1 where st: "stmt (scope_ok (rr_scope r') \<and> is_uuid i
      \<and> - 2147483648 \<le> rr_cpu_count r' \<and> rr_cpu_count r' \<le> 2147483647
      \<and> (hit \<noteq> None \<or> \<not> runner_exists db i)) db = (ok, db1)" by fastforce
  have db1: "db_ok db1" "db_runners db1 = db_runners db" "runner_exists db1 = runner_exists db"
    using stmt_ok [OF st assms(1)] stmt_db [OF st] by simp_all
  have res: "(res, db') = (if \<not> ok then (Inl ErrDatabase, db1)
       else case hit of
              None \<Rightarrow> (Inr (registered_row i now r'),
                        db1\<lparr>db_runners := db_runners db1 @ [registered_row i now r']\<rparr>)
            | Some x \<Rightarrow> (Inr (reregister now r' x),
                 db1\<lparr>db_runners := update_where (\<lambda>x. runner_key x = key) (reregister now r') (db_runners db1)\<rparr>))"
    using assms(2) False st unfolding upsert_runner_def
    by (auto simp: Let_def r'_def [symmetric] key_def [symmetric] hit_def [symmetric]
        split: option.splits prod.splits if_splits)
  show ?thesis
  proof (cases ok)
    case True
    note v = stmt_allowed [OF st True]
    show ?thesis
    proof (cases hit)
      case None
      have nk: "key \<notin> runner_key ` set (db_runners db1)"
        using None by (auto simp: hit_def find_None_conv db1(2))
      have "runner_key (registered_row i now r') = key"
        by (simp add: registered_row_def key_def runner_key_def)
      then have "db_ok (db1\<lparr>db_runners := db_runners db1 @ [registered_row i now r']\<rparr>)"
        using v None nk db1(3) by (intro db_ok_add_runner [OF db1(1)])
          (auto simp: registered_row_def status_ok_def)
      then show ?thesis using res True None by simp
    next
      case (Some x)
      have "db_ok (db1\<lparr>db_runners := update_where (\<lambda>x. runner_key x = key) (reregister now r') (db_runners db1)\<rparr>)"
        using v by (intro db_ok_update_runners [OF db1(1)] keeps_row_ops)
          (simp add: reregister_def status_ok_def)
      then show ?thesis using res True Some by simp
    qed
  qed (use res db1 in simp)
qed (use assms in \<open>simp add: upsert_runner_def\<close>)

lemma update_runner_ok:
  assumes "db_ok db" "keeps_row f" "update_runner i f valid db = (res, db')"
    and "valid \<Longrightarrow> (\<And>x. x \<in> set (db_runners db) \<Longrightarrow> scope_ok (rn_scope (f x)) \<and> status_ok (rn_status (f x)))"
  shows "db_ok db'"
proof -
  define hit where "hit = find (\<lambda>x. rn_id x = i) (db_runners db)"
  obtain ok db1 where st: "stmt (is_uuid i \<and> (hit = None \<or> valid)) db = (ok, db1)" by fastforce
  have db1: "db_ok db1" "db_runners db1 = db_runners db"
    using stmt_ok [OF st assms(1)] stmt_db [OF st] by simp_all
  have res: "(res, db') = (if \<not> ok then (Inl ErrDatabase, db1)
      else case hit of None \<Rightarrow> (Inl ErrNotFound, db1)
         | Some x \<Rightarrow> (Inr (f x), db1\<lparr>db_runners := update_where (\<lambda>x. rn_id x = i) f (db_runners db1)\<rparr>))"
    using assms(3) st by (simp add: update_runner_def hit_def [symmetric] Let_def)
  show ?thesis
  proof (cases "ok \<and> hit \<noteq> None")
    case True
    then have valid using stmt_allowed [OF st] by auto
    then have "db_ok (db1\<lparr>db_runners := update_where (\<lambda>x. rn_id x = i) f (db_runners db1)\<rparr>)"
      using assms(4) db1(2) by (intro db_ok_update_runners [OF db1(1) assms(2)]) auto
    then show ?thesis using res True by auto
  qed (use res db1 in \<open>auto split: if_splits option.splits\<close>)
qed

lemma runners_okD:
  "db_ok db \<Longrightarrow> x \<in> set (db_runners db) \<Longrightarrow> is_uuid (rn_id x) \<and> scope_ok (rn_scope x) \<and> status_ok (rn_status x)"
  by (auto simp: db_ok_def runners_ok_def)

lemma record_heartbeat_ok:
  assumes "db_ok db" "record_heartbeat now i hb db = (res, db')"
  shows "db_ok db'"
  by (rule update_runner_ok [OF assms(1) _ assms(2) [unfolded record_heartbeat_def Let_def]])
    (use runners_okD [OF assms(1)] in \<open>auto simp: keeps_row_ops apply_heartbeat_def\<close>)

lemma retire_runner_ok:
  assumes "db_ok db" "retire_runner now i reason db = (res, db')"
  shows "db_ok db'"
  by (rule update_runner_ok [OF assms(1) _ assms(2) [unfolded retire_runner_def]])
    (use runners_okD [OF assms(1)] in \<open>auto simp: keeps_row_ops retire_def status_ok_def\<close>)

lemma set_github_runner_id_ok:
  assumes "db_ok db" "set_github_runner_id now i g db = (res, db')"
  shows "db_ok db'"
proof -
  obtain r1 db1 where u: "update_runner i (\<lambda>x. x\<lparr>rn_github_id := Some g, rn_updated := now\<rparr>) True db = (r1, db1)"
    by fastforce
  then have "db' = db1" using assms(2) by (auto simp: set_github_runner_id_def split: sum.splits)
  moreover have "db_ok db1"
    using update_runner_ok [OF assms(1) keeps_row_ops(4) u] runners_okD [OF assms(1)] by simp
  ultimately show ?thesis by simp
qed

lemma delete_runner_ok:
  assumes "db_ok db" "delete_runner i db = (res, db')"
  shows "db_ok db'"
proof -
  obtain ok db1 where st: "stmt (is_uuid i) db = (ok, db1)" by fastforce
  have db1: "db_ok db1" by (rule stmt_ok [OF st assms(1)])
  let ?d = "db1\<lparr> db_runners := filter (\<lambda>x. rn_id x \<noteq> i) (db_runners db1),
            db_machine := filter (\<lambda>t. mt_runner t \<noteq> i) (db_machine db1),
            db_commands := filter (\<lambda>c. cm_runner c \<noteq> i) (db_commands db1),
            db_events := filter (\<lambda>e. re_runner e \<noteq> Some i) (db_events db1)\<rparr>"
  have ex: "runner_exists ?d j \<longleftrightarrow> runner_exists db1 j \<and> j \<noteq> i" for j
    by (auto simp: runner_exists_def)
  have "sorted_wrt (<) (map re_id (filter P (db_events db1)))" for P
    using db1 by (simp add: db_ok_def events_ok_def sorted_wrt_map sorted_wrt_filter)
  moreover have "pred_option (runner_exists ?d) (re_runner e)"
    if "e \<in> set (db_events db1)" "re_runner e \<noteq> Some i" for e
    using db1 that ex by (cases "re_runner e") (auto simp: db_ok_def events_ok_def)
  ultimately have "db_ok ?d" using db1 ex
    by (auto simp: db_ok_def runners_ok_def tokens_ok_def commands_ok_def events_ok_def users_ok_def
        distinct_map_filter_key)
  then show ?thesis using assms(2) st db1 by (auto simp: delete_runner_def split: if_splits)
qed

lemma get_runner_ok: "db_ok db \<Longrightarrow> get_runner i db = (res, db') \<Longrightarrow> db_ok db'"
  by (auto simp: get_runner_def split: prod.splits if_splits option.splits dest: stmt_ok)

lemma list_runners_ok: "db_ok db \<Longrightarrow> list_runners opts db = (res, db') \<Longrightarrow> db_ok db'"
  by (auto simp: list_runners_def Let_def split: prod.splits if_splits dest: stmt_ok)

section \<open>Properties\<close>

text \<open>
  A runner that has been silent for the offline threshold, or never reported, or has retired, is
  never shown as the agent last described it: its status is \<open>retired\<close> exactly when it finished on
  purpose, \<open>offline\<close> when it merely stopped reporting, and only otherwise what the agent said.
\<close>

theorem effective_status_cases:
  "effective_status r now t =
     (if rn_retired_at r \<noteq> None then ''retired''
      else case rn_heartbeat r of
             None \<Rightarrow> ''offline''
           | Some hb \<Rightarrow> if th_offline t \<le> time_sub now hb then ''offline'' else rn_status r)"
  by (auto simp: effective_status_def retired_def runner_health_def Let_def split: option.splits)

text \<open>What one row adds to the summary.\<close>

lemma count_one_total:
  "ct_total (count_one now t r c) = ct_total c + (if retired r then 0 else 1)"
  "ct_retired (count_one now t r c) = ct_retired c + (if retired r then 1 else 0)"
  "ct_online (count_one now t r c) + ct_busy (count_one now t r c) + ct_error (count_one now t r c)
     + ct_offline (count_one now t r c) =
   ct_online c + ct_busy c + ct_error c + ct_offline c + (if retired r then 0 else 1)"
  by (simp_all add: count_one_def Let_def)

lemma count_fold:
  "ct_total (fold (count_one now t) rs c) = ct_total c + int (length (filter (\<lambda>r. \<not> retired r) rs))"
  "ct_retired (fold (count_one now t) rs c) = ct_retired c + int (length (filter retired rs))"
  "ct_online (fold (count_one now t) rs c) + ct_busy (fold (count_one now t) rs c)
     + ct_error (fold (count_one now t) rs c) + ct_offline (fold (count_one now t) rs c) =
   ct_online c + ct_busy c + ct_error c + ct_offline c + int (length (filter (\<lambda>r. \<not> retired r) rs))"
  by (induction rs arbitrary: c) (simp_all add: count_one_total)

lemma length_filter_perm: "mset xs = mset ys \<Longrightarrow> length (filter P xs) = length (filter P ys)"
  by (metis mset_filter size_mset)

text \<open>
  The dashboard's summary adds up: every runner in service is counted once, as online, busy, in
  error or offline, and every retired one separately. It holds for up to 10000 rows, retired ones
  included.
\<close>

theorem counts_partition:
  assumes "count_runners now t db = (Inr c, db')" "length (db_runners db) \<le> 10000"
  shows "ct_total c = int (length (filter (\<lambda>r. \<not> retired r) (db_runners db)))
    \<and> ct_retired c = int (length (filter retired (db_runners db)))
    \<and> ct_online c + ct_busy c + ct_error c + ct_offline c = ct_total c"
proof -
  obtain rs where l: "list_runners \<lparr> lr_scope = '''', lr_include_retired = True, lr_limit = 10000 \<rparr> db = (Inr rs, db')"
    and c: "c = fold (count_one now t) rs no_counts"
    using assms(1) by (auto simp: count_runners_def split: prod.splits sum.splits)
  obtain ok db1 where st: "stmt True db = (ok, db1)" by fastforce
  have "rs = newest_first rn_created (db_runners db)"
    using l assms(2) st stmt_db [OF st]
    by (auto simp: list_runners_def limit_to_def newest_first_def split: if_splits)
  then have "mset rs = mset (db_runners db)" by (simp add: newest_first_def)
  then show ?thesis
    using length_filter_perm [of rs "db_runners db"] by (simp add: c count_fold no_counts_def)
qed

text \<open>A runner as it is registered first, and the database that holds it.\<close>

definition sample_registration :: register_runner where
  "sample_registration = \<lparr> rr_name = ''runner-01'', rr_host = '''', rr_scope = ''repository'',
     rr_scope_id = ''acme/widgets'', rr_os = ''linux'', rr_arch = ''amd64'', rr_cpu_count = 8,
     rr_memory = 0, rr_disk = 0, rr_labels = [''self-hosted''], rr_ephemeral = False,
     rr_runner_version = ''2.328.0'', rr_agent_version = ''1.0.0'' \<rparr>"

definition sample_id :: string where
  "sample_id = ''00000000-0000-4000-8000-000000000001''"

definition sample_runner :: runner_row where
  "sample_runner = registered_row sample_id 5 (sample_registration\<lparr>rr_host := ''github.com''\<rparr>)"

lemma is_uuid_sample: "is_uuid sample_id"
  by (simp add: is_uuid_def sample_id_def is_hex_def eval_nat_numeral)

lemma upsert_sample:
  "upsert_runner sample_id 5 sample_registration empty_db =
     (Inr sample_runner, empty_db\<lparr>db_runners := [sample_runner]\<rparr>)"
  by (simp add: upsert_runner_def sample_registration_def sample_runner_def Let_def stmt_def empty_db_def
      is_uuid_sample scope_ok_def runner_exists_def)

theorem counts_partition_witness:
  "\<exists>c. count_runners 9 default_thresholds (empty_db\<lparr>db_runners := [sample_runner]\<rparr>) =
      (Inr c, empty_db\<lparr>db_runners := [sample_runner]\<rparr>)
    \<and> ct_total c = 1 \<and> ct_online c + ct_busy c + ct_error c + ct_offline c = 1"
proof -
  let ?db = "empty_db\<lparr>db_runners := [sample_runner]\<rparr>"
  obtain c where c: "count_runners 9 default_thresholds ?db = (Inr c, ?db)"
    by (simp add: count_runners_def list_runners_def stmt_def empty_db_def Let_def)
  have "\<not> retired sample_runner" by (simp add: retired_def sample_runner_def registered_row_def)
  with counts_partition [OF c] c show ?thesis by (intro exI [of _ c]) simp
qed

lemma runner_key_reregister [simp]: "runner_key (reregister now r x) = runner_key x"
  by (simp add: reregister_def runner_key_def)

text \<open>The outcome of a registration that succeeds.\<close>

definition norm_host :: "register_runner \<Rightarrow> register_runner" where
  "norm_host r = (if rr_host r = '''' then r\<lparr>rr_host := ''github.com''\<rparr> else r)"

definition reg_key :: "register_runner \<Rightarrow> string \<times> string \<times> string" where
  "reg_key r = (rr_host (norm_host r), rr_scope_id r, rr_name r)"

lemma norm_host_simps [simp]: "rr_name (norm_host r) = rr_name r" "rr_scope_id (norm_host r) = rr_scope_id r"
  "rr_scope (norm_host r) = rr_scope r" "rr_cpu_count (norm_host r) = rr_cpu_count r"
  by (simp_all add: norm_host_def)

lemma upsert_runner_eq:
  "upsert_runner newid now r db =
     (if rr_name r = '''' then (Inl (ErrRefused ''a runner needs a name''), db)
      else
        let hit = find (\<lambda>x. runner_key x = reg_key r) (db_runners db);
            (ok, db) = stmt (scope_ok (rr_scope r) \<and> is_uuid newid
                     \<and> - 2147483648 \<le> rr_cpu_count r \<and> rr_cpu_count r \<le> 2147483647
                     \<and> (hit \<noteq> None \<or> \<not> runner_exists db newid)) db
        in if \<not> ok then (Inl ErrDatabase, db)
           else case hit of
                  None \<Rightarrow>
                    (Inr (registered_row newid now (norm_host r)),
                     db\<lparr>db_runners := db_runners db @ [registered_row newid now (norm_host r)]\<rparr>)
                | Some x \<Rightarrow>
                    (Inr (reregister now (norm_host r) x),
                     db\<lparr>db_runners := update_where (\<lambda>x. runner_key x = reg_key r)
                          (reregister now (norm_host r)) (db_runners db)\<rparr>))"
proof -
  have n: "(if rr_host r = '''' then r\<lparr>rr_host := ''github.com''\<rparr> else r) = norm_host r"
    by (simp add: norm_host_def)
  show ?thesis unfolding upsert_runner_def n Let_def reg_key_def norm_host_simps by (rule refl)
qed

text \<open>The row a successful registration returns is the only one with its key.\<close>

lemma upsert_runner_row:
  assumes "upsert_runner i now r db = (Inr x, db')" "db_ok db"
  shows "x \<in> set (db_runners db')" "runner_key x = reg_key r" "\<not> retired x"
    "\<exists>y\<in>set (db_runners db). runner_key y = reg_key r \<Longrightarrow> map rn_id (db_runners db') = map rn_id (db_runners db)"
    "\<forall>y\<in>set (db_runners db). runner_key y \<noteq> reg_key r \<Longrightarrow>
       map rn_id (db_runners db') = map rn_id (db_runners db) @ [i]"
proof -
  define hit where "hit = find (\<lambda>x. runner_key x = reg_key r) (db_runners db)"
  obtain ok db1 where st: "stmt (scope_ok (rr_scope r) \<and> is_uuid i
                     \<and> - 2147483648 \<le> rr_cpu_count r \<and> rr_cpu_count r \<le> 2147483647
                     \<and> (hit \<noteq> None \<or> \<not> runner_exists db i)) db = (ok, db1)" by fastforce
  have same: "db_runners db1 = db_runners db" using stmt_db [OF st] by simp
  have dist: "distinct (map runner_key (db_runners db))" using assms(2) by (simp add: db_ok_def runners_ok_def)
  let ?new = "registered_row i now (norm_host r)"
  have cases: "(hit = None \<and> x = ?new \<and> db_runners db' = db_runners db @ [?new]) \<or>
    (\<exists>y. hit = Some y \<and> x = reregister now (norm_host r) y \<and>
       db_runners db' = update_where (\<lambda>x. runner_key x = reg_key r) (reregister now (norm_host r)) (db_runners db))"
    using assms(1) st same unfolding upsert_runner_eq
    by (auto simp: hit_def [symmetric] Let_def split: if_splits option.splits)
  have k: "runner_key ?new = reg_key r" by (simp add: registered_row_def runner_key_def reg_key_def)
  have y: "y \<in> set (db_runners db) \<and> runner_key y = reg_key r" if "hit = Some y" for y
    using find_Some_conv [OF that [unfolded hit_def]] .
  show "x \<in> set (db_runners db')" using cases y by (auto simp: set_update_where)
  show "runner_key x = reg_key r" using cases y k by auto
  show "\<not> retired x" using cases by (auto simp: retired_def registered_row_def reregister_def)
  have u: "map rn_id (update_where p (reregister now (norm_host r)) xs) = map rn_id xs" for p xs
    by (rule map_key_update_where) (simp add: reregister_def)
  show "map rn_id (db_runners db') = map rn_id (db_runners db)"
    if "\<exists>y\<in>set (db_runners db). runner_key y = reg_key r"
    using cases that u by (auto simp: hit_def find_None_conv)
  show "map rn_id (db_runners db') = map rn_id (db_runners db) @ [i]"
    if "\<forall>y\<in>set (db_runners db). runner_key y \<noteq> reg_key r"
    using cases that y by (auto simp: registered_row_def)
qed

text \<open>
  Enrolling is idempotent: registering the same host, scope and name again updates the row that
  is there, with the identifier it always had, adds none, and brings a retired runner back into
  service.
\<close>

theorem upsert_runner_idempotent:
  assumes "db_ok db" "upsert_runner i now r db = (Inr x, db1)"
    and "upsert_runner j now' r' db1 = (Inr y, db2)" "reg_key r' = reg_key r"
  shows "rn_id y = rn_id x \<and> map rn_id (db_runners db2) = map rn_id (db_runners db1) \<and> \<not> retired y"
proof -
  note x = upsert_runner_row [OF assms(2,1)]
  have ok1: "db_ok db1" by (rule upsert_runner_ok [OF assms(1,2)])
  note y = upsert_runner_row [OF assms(3) ok1]
  have ok2: "db_ok db2" by (rule upsert_runner_ok [OF ok1 assms(3)])
  have ids: "map rn_id (db_runners db2) = map rn_id (db_runners db1)"
    using y(4) x(1,2) assms(4) by auto
  obtain x' where x': "x' \<in> set (db_runners db2)" "rn_id x' = rn_id x"
    using ids x(1) by (metis (mono_tags, lifting) image_eqI image_iff list.set_map)
  have "runner_key x' = runner_key x"
  proof -
    have "map runner_key (db_runners db2) = map runner_key (db_runners db1)"
      using assms(3) x(1,2) assms(4) unfolding upsert_runner_eq
      by (auto simp: Let_def map_key_update_where find_None_conv dest!: stmt_db
          split: if_splits option.splits prod.splits)
    then have "map (\<lambda>z. (rn_id z, runner_key z)) (db_runners db2) = map (\<lambda>z. (rn_id z, runner_key z)) (db_runners db1)"
      using ids by (simp add: list_eq_iff_nth_eq map_equality_iff)
    then have "(rn_id x', runner_key x') \<in> (\<lambda>z. (rn_id z, runner_key z)) ` set (db_runners db1)"
      using x'(1) by (metis (mono_tags, lifting) image_eqI list.set_map)
    then obtain z where "z \<in> set (db_runners db1)" "rn_id z = rn_id x" "runner_key z = runner_key x'"
      using x'(2) by auto
    moreover have "inj_on rn_id (set (db_runners db1))"
      using ok1 by (simp add: db_ok_def runners_ok_def distinct_map)
    ultimately show ?thesis using x(1) by (metis inj_onD)
  qed
  moreover have "inj_on runner_key (set (db_runners db2))"
    using ok2 by (simp add: db_ok_def runners_ok_def distinct_map)
  ultimately have "x' = y" using x'(1) y(1,2) x(2) assms(4) by (metis inj_onD)
  then show ?thesis using x'(2) ids y(3) by simp
qed

theorem upsert_runner_idempotent_witness:
  "\<exists>y db2. upsert_runner ''other'' 9 sample_registration (empty_db\<lparr>db_runners := [sample_runner]\<rparr>) = (Inl ErrDatabase, db2)
    \<and> (\<exists>db3. upsert_runner sample_id 9 sample_registration (empty_db\<lparr>db_runners := [sample_runner]\<rparr>) = (Inr y, db3)
    \<and> rn_id y = rn_id sample_runner \<and> map rn_id (db_runners db3) = [sample_id])"
proof -
  let ?db = "empty_db\<lparr>db_runners := [sample_runner]\<rparr>"
  have key: "runner_key sample_runner = (''github.com'', ''acme/widgets'', ''runner-01'')"
    by (simp add: sample_runner_def registered_row_def sample_registration_def runner_key_def)
  obtain y db3 where u: "upsert_runner sample_id 9 sample_registration ?db = (Inr y, db3)"
    by (auto simp: upsert_runner_def sample_registration_def Let_def stmt_def empty_db_def
        is_uuid_sample scope_ok_def key)
  have "\<exists>db2. upsert_runner ''other'' 9 sample_registration ?db = (Inl ErrDatabase, db2)"
    by (simp add: upsert_runner_def sample_registration_def Let_def stmt_def empty_db_def is_uuid_def)
  moreover note upsert_runner_idempotent [OF db_ok_empty upsert_sample u refl]
  ultimately show ?thesis using u
    by (auto simp: sample_runner_def registered_row_def)
qed

text \<open>
  Retirement is idempotent: the first report decides when and why a runner retired; a second one
  changes neither.
\<close>

theorem retire_runner_first_wins:
  assumes "db_ok db" "retire_runner now i reason db = (Inr x, db1)"
    and "retire_runner now' i reason' db1 = (Inr y, db2)"
  shows "rn_retired_at y = rn_retired_at x \<and> rn_retired_reason y = rn_retired_reason x
    \<and> rn_retired_at x \<noteq> None"
proof -
  have r1: "x = retire now reason z" "find (\<lambda>x. rn_id x = i) (db_runners db) = Some z"
    "db_runners db1 = update_where (\<lambda>x. rn_id x = i) (retire now reason) (db_runners db)"
    if "find (\<lambda>x. rn_id x = i) (db_runners db) = Some z" for z
    using assms(2) that
    by (auto simp: retire_runner_def update_runner_def Let_def split: prod.splits if_splits dest!: stmt_db)
  obtain z where z: "find (\<lambda>x. rn_id x = i) (db_runners db) = Some z"
    using assms(2) by (auto simp: retire_runner_def update_runner_def Let_def
        split: prod.splits if_splits option.splits)
  note r1 = r1 [OF z]
  have "find (\<lambda>x. rn_id x = i) (update_where (\<lambda>x. rn_id x = i) (retire now reason) xs)
      = map_option (retire now reason) (find (\<lambda>x. rn_id x = i) xs)" for xs
    by (induction xs) (auto simp: update_where_def retire_def)
  then have "find (\<lambda>x. rn_id x = i) (db_runners db1) = Some x" using r1 by simp
  then have "y = retire now' reason' x"
    using assms(3) by (auto simp: retire_runner_def update_runner_def Let_def split: prod.splits if_splits)
  then show ?thesis using r1(1) by (auto simp: retire_def split: option.splits)
qed

theorem retire_runner_first_wins_witness:
  "\<exists>x y db1 db2. retire_runner 7 sample_id ''ran its job'' (empty_db\<lparr>db_runners := [sample_runner]\<rparr>) = (Inr x, db1)
    \<and> retire_runner 8 sample_id ''again'' db1 = (Inr y, db2)
    \<and> rn_retired_at y = Some 7 \<and> rn_retired_reason y = ''ran its job''"
proof -
  let ?db = "empty_db\<lparr>db_runners := [sample_runner]\<rparr>"
  have i: "rn_id sample_runner = sample_id" "rn_retired_at sample_runner = None"
    by (simp_all add: sample_runner_def registered_row_def)
  obtain x db1 where 1: "retire_runner 7 sample_id ''ran its job'' ?db = (Inr x, db1)"
    "x = retire 7 ''ran its job'' sample_runner" "db1 = empty_db\<lparr>db_runners := [x]\<rparr>"
    by (simp add: retire_runner_def update_runner_def stmt_def empty_db_def i is_uuid_sample update_where_def)
  obtain y db2 where 2: "retire_runner 8 sample_id ''again'' db1 = (Inr y, db2)"
    using 1(2,3) by (simp add: retire_runner_def update_runner_def stmt_def empty_db_def i is_uuid_sample retire_def)
  have "db_ok ?db" using upsert_runner_ok [OF db_ok_empty upsert_sample] .
  from retire_runner_first_wins [OF this 1(1) 2] show ?thesis
    using 1 2 by (intro exI [of _ x] exI [of _ y] exI [of _ db1] exI [of _ db2])
      (simp add: retire_def i)
qed

end
