(* ===== verification/Store_Tokens.thy ===== *)
theory Store_Tokens
  imports Store_Runners
begin

text \<open>
  \<open>internal/store/tokens.go\<close>. SHA-256 is the argument \<open>hash\<close> of every operation that uses it, and the
  random part of a fresh token is an argument too (\<open>None\<close> when \<open>crypto/rand\<close> fails).
\<close>

section \<open>Operations\<close>

definition enrollment_prefix :: string where "enrollment_prefix = ''rnr_enroll_''"
definition machine_prefix :: string where "machine_prefix = ''rnr_machine_''"
definition session_prefix :: string where "session_prefix = ''rnr_session_''"

lemmas prefix_defs = enrollment_prefix_def machine_prefix_def session_prefix_def

definition new_token :: "string \<Rightarrow> string option \<Rightarrow> db_error + string" where
  "new_token pre rnd =
     (case rnd of None \<Rightarrow> Inl (ErrRefused ''generate token'') | Some s \<Rightarrow> Inr (pre @ s))"

definition create_enrollment_token ::
  "(string \<Rightarrow> string) \<Rightarrow> string \<Rightarrow> string option \<Rightarrow> go_time \<Rightarrow> string \<Rightarrow> int option \<Rightarrow> go_time option
   \<Rightarrow> db \<Rightarrow> (db_error + enrollment_token \<times> string) \<times> db"
where
  "create_enrollment_token hash newid rnd now description max_uses expires db =
     (case new_token enrollment_prefix rnd of
        Inl e \<Rightarrow> (Inl e, db)
      | Inr secret \<Rightarrow>
          let valid = (is_uuid newid \<and> newid \<notin> set (map et_id (db_enroll db))
                       \<and> hash secret \<notin> set (map et_hash (db_enroll db))
                       \<and> (case max_uses of None \<Rightarrow> True
                          | Some m \<Rightarrow> - 2147483648 \<le> m \<and> m \<le> 2147483647));
              (ok, db) = stmt valid db;
              t = \<lparr> et_id = newid, et_hash = hash secret, et_description = description,
                    et_max_uses = max_uses, et_uses = 0, et_expires = expires, et_revoked = None,
                    et_created = now \<rparr>
          in if \<not> ok then (Inl ErrDatabase, db)
             else (Inr (t, secret), db\<lparr>db_enroll := db_enroll db @ [t]\<rparr>))"

text \<open>The condition of the \<open>UPDATE\<close> that redeems a token.\<close>

definition redeemable :: "string \<Rightarrow> go_time \<Rightarrow> enrollment_token \<Rightarrow> bool" where
  "redeemable h now t \<longleftrightarrow> et_hash t = h \<and> et_revoked t = None
     \<and> (case et_expires t of None \<Rightarrow> True | Some e \<Rightarrow> e > now)
     \<and> (case et_max_uses t of None \<Rightarrow> True | Some m \<Rightarrow> et_uses t < m)"

definition use_token :: "enrollment_token \<Rightarrow> enrollment_token" where
  "use_token t = t\<lparr>et_uses := et_uses t + 1\<rparr>"

definition redeem_enrollment_token ::
  "(string \<Rightarrow> string) \<Rightarrow> go_time \<Rightarrow> string \<Rightarrow> db \<Rightarrow> (db_error + enrollment_token) \<times> db"
where
  "redeem_enrollment_token hash now token db =
     (if \<not> prefix enrollment_prefix token then (Inl ErrTokenInvalid, db)
      else
        let hit = find (redeemable (hash token) now) (db_enroll db);
            (ok, db) = stmt (case hit of None \<Rightarrow> True | Some t \<Rightarrow> et_uses t < 2147483647) db
        in if \<not> ok then (Inl ErrDatabase, db)
           else case hit of
                  Some t \<Rightarrow>
                    (Inr (use_token t),
                     db\<lparr>db_enroll := update_where (redeemable (hash token) now) use_token (db_enroll db)\<rparr>)
                | None \<Rightarrow>
                    let (ok, db) = stmt True db
                    in if ok \<and> hash token \<in> set (map et_hash (db_enroll db))
                       then (Inl ErrTokenExhausted, db) else (Inl ErrTokenInvalid, db))"

definition list_enrollment_tokens :: "db \<Rightarrow> (db_error + enrollment_token list) \<times> db" where
  "list_enrollment_tokens db =
     (let (ok, db) = stmt True db
      in if \<not> ok then (Inl ErrDatabase, db)
         else (Inr (limit_to default_list_limit (newest_first et_created (db_enroll db))), db))"

definition revoke_enrollment_token :: "go_time \<Rightarrow> string \<Rightarrow> db \<Rightarrow> (db_error + unit) \<times> db" where
  "revoke_enrollment_token now i db =
     (let (ok, db) = stmt (is_uuid i) db;
          p = (\<lambda>t. et_id t = i \<and> et_revoked t = None)
      in if \<not> ok then (Inl ErrDatabase, db)
         else if filter p (db_enroll db) = [] then (Inl ErrNotFound, db)
         else (Inr (), db\<lparr>db_enroll := update_where p (\<lambda>t. t\<lparr>et_revoked := Some now\<rparr>) (db_enroll db)\<rparr>))"

text \<open>The machine tokens of a runner that are in force, and their revocation.\<close>

definition live_of :: "string \<Rightarrow> machine_token \<Rightarrow> bool" where
  "live_of i t \<longleftrightarrow> mt_runner t = i \<and> mt_revoked t = None"

definition revoke_machine :: "go_time \<Rightarrow> machine_token \<Rightarrow> machine_token" where
  "revoke_machine now t = t\<lparr>mt_revoked := Some now\<rparr>"

text \<open>
  \<open>IssueMachineToken\<close>: begin, revoke, insert, commit. A failure rolls the transaction back.
\<close>

definition issue_machine_token ::
  "(string \<Rightarrow> string) \<Rightarrow> string \<Rightarrow> string option \<Rightarrow> go_time \<Rightarrow> string \<Rightarrow> db \<Rightarrow> (db_error + string) \<times> db"
where
  "issue_machine_token hash newid rnd now i db =
     (case new_token machine_prefix rnd of
        Inl e \<Rightarrow> (Inl e, db)
      | Inr secret \<Rightarrow>
          let (ok, db) = stmt True db
          in if \<not> ok then (Inl ErrDatabase, db)
             else
               let (ok, db) = stmt (is_uuid i) db
               in if \<not> ok then (Inl ErrDatabase, db)
                  else
                    let tokens = update_where (live_of i) (revoke_machine now) (db_machine db);
                        (ok, db) = stmt (is_uuid newid \<and> newid \<notin> set (map mt_id tokens)
                                         \<and> runner_exists db i \<and> hash secret \<notin> set (map mt_hash tokens)) db
                    in if \<not> ok then (Inl ErrDatabase, db)
                       else
                         let tokens = tokens @ [\<lparr> mt_id = newid, mt_runner = i, mt_hash = hash secret,
                               mt_last_used = None, mt_revoked = None, mt_created = now \<rparr>];
                             (ok, db) = stmt True db
                         in if \<not> ok then (Inl ErrDatabase, db)
                            else (Inr secret, db\<lparr>db_machine := tokens\<rparr>))"

definition authenticate_machine ::
  "(string \<Rightarrow> string) \<Rightarrow> go_time \<Rightarrow> string \<Rightarrow> db \<Rightarrow> (db_error + runner_row) \<times> db"
where
  "authenticate_machine hash now token db =
     (if \<not> prefix machine_prefix token then (Inl ErrTokenInvalid, db)
      else
        let p = (\<lambda>t. mt_hash t = hash token \<and> mt_revoked t = None);
            (ok, db) = stmt True db
        in if \<not> ok then (Inl ErrDatabase, db)
           else case find p (db_machine db) of
                  None \<Rightarrow> (Inl ErrTokenInvalid, db)
                | Some t \<Rightarrow>
                    get_runner (mt_runner t)
                      (db\<lparr>db_machine := update_where p (\<lambda>t. t\<lparr>mt_last_used := Some now\<rparr>) (db_machine db)\<rparr>))"

definition default_token_lifetime :: duration where
  "default_token_lifetime = 24 * hour"

text \<open>The age of a credential, read as a \<open>float64\<close> of seconds and converted back.\<close>

definition token_age :: "int \<Rightarrow> go_time \<Rightarrow> machine_token \<Rightarrow> duration" where
  "token_age oob now t =
     to_int64 oob (f64 (f64 (of_int (now - mt_created t) / of_int second) * f64 (of_int second)))"

definition rotate_machine_token_if_old ::
  "(string \<Rightarrow> string) \<Rightarrow> int \<Rightarrow> string \<Rightarrow> string option \<Rightarrow> go_time \<Rightarrow> string \<Rightarrow> duration
   \<Rightarrow> db \<Rightarrow> (db_error + string \<times> bool) \<times> db"
where
  "rotate_machine_token_if_old hash oob newid rnd now i max_age db =
     (let max_age = (if max_age \<le> 0 then default_token_lifetime else max_age);
          (ok, db) = stmt (is_uuid i) db
      in if \<not> ok then (Inl ErrDatabase, db)
         else case newest_first mt_created (filter (live_of i) (db_machine db)) of
                [] \<Rightarrow> (Inr ('''', False), db)
              | t # _ \<Rightarrow>
                  if token_age oob now t < max_age then (Inr ('''', False), db)
                  else case issue_machine_token hash newid rnd now i db of
                         (Inl e, db) \<Rightarrow> (Inl e, db)
                       | (Inr token, db) \<Rightarrow> (Inr (token, True), db))"

definition revoke_machine_tokens :: "go_time \<Rightarrow> string \<Rightarrow> db \<Rightarrow> (db_error + unit) \<times> db" where
  "revoke_machine_tokens now i db =
     (let (ok, db) = stmt (is_uuid i) db
      in if \<not> ok then (Inl ErrDatabase, db)
         else (Inr (), db\<lparr>db_machine := update_where (live_of i) (revoke_machine now) (db_machine db)\<rparr>))"

definition secure_compare :: "string \<Rightarrow> string \<Rightarrow> bool" where
  "secure_compare a b \<longleftrightarrow> a = b"

section \<open>Tables of revocable credentials\<close>

text \<open>
  What enrollment tokens and machine tokens have in common, and what authentication relies on:
  revoking a credential keeps its hash, and a revoked credential is never in force again.
\<close>

locale revocable =
  fixes hash_of :: "'r \<Rightarrow> string" and live :: "go_time \<Rightarrow> 'r \<Rightarrow> bool" and revoke :: "go_time \<Rightarrow> 'r \<Rightarrow> 'r"
  assumes revoke_hash: "hash_of (revoke t r) = hash_of r"
    and revoke_dead: "\<not> live u (revoke t r)"
begin

lemma hashes_kept [simp]: "map hash_of (update_where p (revoke t) rows) = map hash_of rows"
  by (simp add: map_key_update_where revoke_hash)

lemma none_live:
  assumes "\<And>r. r \<in> set rows \<Longrightarrow> live u r \<Longrightarrow> Q r \<Longrightarrow> p r"
  shows "filter (\<lambda>r. live u r \<and> Q r) (update_where p (revoke t) rows) = []"
  using assms by (auto simp: filter_empty_conv set_update_where revoke_dead)

lemma only_new_live:
  assumes "\<And>r. r \<in> set rows \<Longrightarrow> live u r \<Longrightarrow> Q r \<Longrightarrow> p r" "live u n" "Q n"
  shows "filter (\<lambda>r. live u r \<and> Q r) (update_where p (revoke t) rows @ [n]) = [n]"
  using assms(2,3) none_live [OF assms(1)] by simp

text \<open>Revoking some credentials leaves exactly the others in force.\<close>

lemma live_after_revoke:
  "r \<in> set (update_where p (revoke t) rows) \<and> live u r \<longleftrightarrow> r \<in> set rows \<and> live u r \<and> \<not> p r"
  by (auto simp: set_update_where revoke_dead)

end

lemma redeemable_usable: "redeemable h now t \<longleftrightarrow> et_hash t = h \<and> usable t now"
  by (auto simp: redeemable_def usable_def split: option.splits)

interpretation enroll: revocable et_hash "\<lambda>now t. usable t now" "\<lambda>now t. t\<lparr>et_revoked := Some now\<rparr>"
  by unfold_locales (simp_all add: usable_def)

interpretation machine: revocable mt_hash "\<lambda>_ t. mt_revoked t = None" revoke_machine
  by unfold_locales (simp_all add: revoke_machine_def)

section \<open>Preservation of the schema\<close>

lemma ok_enroll [simp]:
  "runner_exists (db\<lparr>db_enroll := ts\<rparr>) = runner_exists db"
  "runner_exists (db\<lparr>db_machine := ms\<rparr>) = runner_exists db"
  by (simp_all add: runner_exists_def fun_eq_iff)

lemma db_ok_enroll:
  "db_ok db \<Longrightarrow> distinct (map et_id ts) \<Longrightarrow> distinct (map et_hash ts) \<Longrightarrow> \<forall>t\<in>set ts. is_uuid (et_id t) \<Longrightarrow>
     db_ok (db\<lparr>db_enroll := ts\<rparr>)"
  by (simp add: db_ok_def runners_ok_def tokens_ok_def commands_ok_def events_ok_def users_ok_def)

lemma db_ok_machine:
  "db_ok db \<Longrightarrow> distinct (map mt_id ms) \<Longrightarrow> distinct (map mt_hash ms) \<Longrightarrow>
     \<forall>t\<in>set ms. runner_exists db (mt_runner t) \<Longrightarrow> db_ok (db\<lparr>db_machine := ms\<rparr>)"
  by (simp add: db_ok_def runners_ok_def tokens_ok_def commands_ok_def events_ok_def users_ok_def)

lemma db_ok_update_enroll:
  assumes "db_ok db" "\<And>t. et_id (f t) = et_id t \<and> et_hash (f t) = et_hash t"
  shows "db_ok (db\<lparr>db_enroll := update_where p f (db_enroll db)\<rparr>)"
  using assms by (intro db_ok_enroll)
    (auto simp: db_ok_def tokens_ok_def set_update_where map_key_update_where)

lemma db_ok_update_machine:
  assumes "db_ok db" "\<And>t. mt_id (f t) = mt_id t \<and> mt_hash (f t) = mt_hash t \<and> mt_runner (f t) = mt_runner t"
  shows "db_ok (db\<lparr>db_machine := update_where p f (db_machine db)\<rparr>)"
  using assms by (intro db_ok_machine)
    (auto simp: db_ok_def tokens_ok_def set_update_where map_key_update_where)

lemma db_ok_add_enroll:
  assumes "db_ok db" "ts = db_enroll db" "et_id t \<notin> et_id ` set ts" "et_hash t \<notin> et_hash ` set ts"
    "is_uuid (et_id t)"
  shows "db_ok (db\<lparr>db_enroll := ts @ [t]\<rparr>)"
  using assms by (intro db_ok_enroll) (auto simp: db_ok_def tokens_ok_def)

lemma create_enrollment_token_ok:
  "db_ok db \<Longrightarrow> create_enrollment_token hash i rnd now d m e db = (res, db') \<Longrightarrow> db_ok db'"
  by (auto simp: create_enrollment_token_def Let_def split: sum.splits prod.splits if_splits
      dest!: stmtD intro!: db_ok_add_enroll)

lemma redeem_enrollment_token_ok:
  assumes "db_ok db" "redeem_enrollment_token hash now token db = (res, db')"
  shows "db_ok db'"
proof -
  have u: "db_ok d \<Longrightarrow> ts = db_enroll d \<Longrightarrow> db_ok (d\<lparr>db_enroll := update_where p use_token ts\<rparr>)" for d ts p
    using db_ok_update_enroll [of d use_token p] by (simp add: use_token_def)
  show ?thesis using assms
    by (auto simp: redeem_enrollment_token_def Let_def split: prod.splits if_splits option.splits
        dest!: stmtD intro!: u)
qed

lemma list_enrollment_tokens_ok: "db_ok db \<Longrightarrow> list_enrollment_tokens db = (res, db') \<Longrightarrow> db_ok db'"
  by (auto simp: list_enrollment_tokens_def split: prod.splits if_splits dest!: stmtD)

lemma revoke_enrollment_token_ok:
  assumes "db_ok db" "revoke_enrollment_token now i db = (res, db')"
  shows "db_ok db'"
proof -
  have u: "db_ok d \<Longrightarrow> ts = db_enroll d \<Longrightarrow>
      db_ok (d\<lparr>db_enroll := update_where p (\<lambda>t. t\<lparr>et_revoked := Some now\<rparr>) ts\<rparr>)" for d ts p
    using db_ok_update_enroll [of d "\<lambda>t. t\<lparr>et_revoked := Some now\<rparr>" p] by simp
  show ?thesis using assms
    by (auto simp: revoke_enrollment_token_def Let_def split: prod.splits if_splits dest!: stmtD intro!: u)
qed

lemma revoke_machine_simps [simp]:
  "mt_id (revoke_machine now t) = mt_id t" "mt_hash (revoke_machine now t) = mt_hash t"
  "mt_runner (revoke_machine now t) = mt_runner t" "mt_revoked (revoke_machine now t) = Some now"
  by (simp_all add: revoke_machine_def)

text \<open>The transaction either leaves every table as it was or replaces the runner's credential.\<close>

lemma issue_machine_token_cases:
  assumes "issue_machine_token hash newid rnd now i db = (res, db')"
  obtains (failed) e f where "res = Inl e" "db' = db\<lparr>db_faults := f\<rparr>"
  | (issued) s f where "rnd = Some s" "res = Inr (machine_prefix @ s)"
      "newid \<notin> mt_id ` set (db_machine db)" "runner_exists db i"
      "hash (machine_prefix @ s) \<notin> mt_hash ` set (db_machine db)"
      "db' = db\<lparr>db_faults := f, db_machine :=
         update_where (live_of i) (revoke_machine now) (db_machine db)
           @ [\<lparr> mt_id = newid, mt_runner = i, mt_hash = hash (machine_prefix @ s), mt_last_used = None,
                mt_revoked = None, mt_created = now \<rparr>]\<rparr>"
proof (cases rnd)
  case None
  then show thesis using assms failed [of _ "db_faults db"] by (auto simp: issue_machine_token_def new_token_def)
next
  case (Some s)
  have img: "mt_id ` set (update_where (live_of i) (revoke_machine now) ts) = mt_id ` set ts"
    "mt_hash ` set (update_where (live_of i) (revoke_machine now) ts) = mt_hash ` set ts" for ts
    by (simp_all add: image_key_update_where)
  have upd: "db\<lparr>db_faults := f\<rparr> = db\<lparr>db_faults := f\<rparr>" for f ..
  show thesis
  proof (cases res)
    case (Inl e)
    have "\<exists>f. db' = db\<lparr>db_faults := f\<rparr>" using assms Some Inl
      by (auto simp: issue_machine_token_def new_token_def Let_def split: prod.splits if_splits dest!: stmt_db)
    then show thesis using Inl failed by blast
  next
    case (Inr secret)
    then show thesis using assms Some
      by (intro issued [of s "db_faults db'"])
        (auto simp: issue_machine_token_def new_token_def Let_def img split: prod.splits if_splits
          dest!: stmtF)
  qed
qed

lemma issue_machine_token_ok:
  assumes "db_ok db" "issue_machine_token hash newid rnd now i db = (res, db')"
  shows "db_ok db'"
  using assms(2)
proof (cases rule: issue_machine_token_cases)
  case (issued s f)
  let ?ts = "update_where (live_of i) (revoke_machine now) (db_machine db)"
  have ids: "map mt_id ?ts = map mt_id (db_machine db)" "map mt_hash ?ts = map mt_hash (db_machine db)"
    by (simp_all add: map_key_update_where)
  have "\<forall>t\<in>set ?ts. runner_exists db (mt_runner t)"
    using assms(1) by (auto simp: set_update_where db_ok_def tokens_ok_def)
  then have "db_ok ((db\<lparr>db_faults := f\<rparr>)\<lparr>db_machine := ?ts
      @ [\<lparr> mt_id = newid, mt_runner = i, mt_hash = hash (machine_prefix @ s), mt_last_used = None,
                mt_revoked = None, mt_created = now \<rparr>]\<rparr>)"
    using issued(3-5) ids assms(1)
    by (intro db_ok_machine) (auto simp: db_ok_def tokens_ok_def simp flip: set_map)
  then show ?thesis using issued(6) by simp
qed (use assms(1) in simp)

lemma authenticate_machine_ok:
  assumes "db_ok db" "authenticate_machine hash now token db = (res, db')"
  shows "db_ok db'"
proof -
  have u: "db_ok d \<Longrightarrow> ts = db_machine d \<Longrightarrow>
      db_ok (d\<lparr>db_machine := update_where p (\<lambda>t. t\<lparr>mt_last_used := Some now\<rparr>) ts\<rparr>)" for d ts p
    using db_ok_update_machine [of d "\<lambda>t. t\<lparr>mt_last_used := Some now\<rparr>" p] by simp
  show ?thesis using assms
    by (auto simp: authenticate_machine_def Let_def split: prod.splits if_splits option.splits
        dest!: stmtD intro: get_runner_ok [OF u])
qed

lemma rotate_machine_token_ok:
  "db_ok db \<Longrightarrow> rotate_machine_token_if_old hash oob newid rnd now i m db = (res, db') \<Longrightarrow> db_ok db'"
  by (auto simp: rotate_machine_token_if_old_def Let_def split: prod.splits if_splits list.splits sum.splits
      dest!: stmtD dest: issue_machine_token_ok)

lemma revoke_machine_tokens_ok:
  assumes "db_ok db" "revoke_machine_tokens now i db = (res, db')"
  shows "db_ok db'"
proof -
  have u: "db_ok d \<Longrightarrow> ts = db_machine d \<Longrightarrow>
      db_ok (d\<lparr>db_machine := update_where p (revoke_machine now) ts\<rparr>)" for d ts p
    using db_ok_update_machine [of d "revoke_machine now" p] by simp
  show ?thesis using assms
    by (auto simp: revoke_machine_tokens_def Let_def split: prod.splits if_splits dest!: stmtD intro!: u)
qed

section \<open>Properties\<close>

text \<open>
  Redeeming agrees with \<open>Usable\<close>: a token that is on record is accepted exactly when it is neither
  revoked nor expired nor used up, and one use is counted; otherwise the caller learns that it is
  exhausted, and nothing changes.
\<close>

theorem redeem_iff_usable:
  assumes "db_ok db" "db_faults db = []" "t \<in> set (db_enroll db)" "et_hash t = hash token"
    and "prefix enrollment_prefix token" "et_uses t < 2147483647"
  shows "redeem_enrollment_token hash now token db =
    (if usable t now
     then (Inr (use_token t),
           db\<lparr>db_enroll := update_where (\<lambda>x. et_id x = et_id t) use_token (db_enroll db)\<rparr>)
     else (Inl ErrTokenExhausted, db))"
proof -
  have d: "distinct (map et_hash (db_enroll db))" "distinct (map et_id (db_enroll db))"
    using assms(1) by (simp_all add: db_ok_def tokens_ok_def)
  have only: "redeemable (hash token) now x \<longleftrightarrow> x = t \<and> usable t now" if "x \<in> set (db_enroll db)" for x
    using key_unique [OF d(1) that assms(3)] assms(4) by (auto simp: redeemable_usable)
  have id: "et_id x = et_id t \<longleftrightarrow> x = t" if "x \<in> set (db_enroll db)" for x
    using key_unique [OF d(2) that assms(3)] by auto
  show ?thesis
  proof (cases "usable t now")
    case True
    have "find (redeemable (hash token) now) (db_enroll db) = find (\<lambda>x. et_hash x = et_hash t) (db_enroll db)"
      using only True key_unique [OF d(1) _ assms(3)] by (intro find_cong) auto
    then have "find (redeemable (hash token) now) (db_enroll db) = Some t"
      by (simp add: find_distinct [OF d(1) assms(3)])
    moreover have "update_where (redeemable (hash token) now) use_token (db_enroll db)
        = update_where (\<lambda>x. et_id x = et_id t) use_token (db_enroll db)"
      using only id True by (simp add: update_where_def)
    ultimately show ?thesis using True assms
      by (simp add: redeem_enrollment_token_def stmt_no_fault)
  next
    case False
    then have "find (redeemable (hash token) now) (db_enroll db) = None"
      using only by (simp add: find_None_conv)
    moreover have "hash token \<in> set (map et_hash (db_enroll db))"
      using assms(3,4) by (force simp flip: assms(4))
    ultimately show ?thesis using False assms
      by (simp add: redeem_enrollment_token_def stmt_no_fault)
  qed
qed

definition sample_token :: enrollment_token where
  "sample_token = \<lparr> et_id = sample_id, et_hash = ''rnr_enroll_x'', et_description = '''',
     et_max_uses = Some 1, et_uses = 0, et_expires = Some 100, et_revoked = None, et_created = 0 \<rparr>"

lemma db_ok_sample_token: "db_ok (empty_db\<lparr>db_enroll := [sample_token]\<rparr>)"
  by (rule db_ok_enroll [OF db_ok_empty]) (simp_all add: sample_token_def is_uuid_sample)

theorem redeem_iff_usable_witness:
  "fst (redeem_enrollment_token id 99 ''rnr_enroll_x'' (empty_db\<lparr>db_enroll := [sample_token]\<rparr>)) =
      Inr (use_token sample_token)
   \<and> fst (redeem_enrollment_token id 100 ''rnr_enroll_x'' (empty_db\<lparr>db_enroll := [sample_token]\<rparr>)) =
      Inl ErrTokenExhausted"
proof -
  let ?db = "empty_db\<lparr>db_enroll := [sample_token]\<rparr>"
  have "redeem_enrollment_token id now ''rnr_enroll_x'' ?db =
    (if usable sample_token now
     then (Inr (use_token sample_token),
           ?db\<lparr>db_enroll := update_where (\<lambda>x. et_id x = et_id sample_token) use_token (db_enroll ?db)\<rparr>)
     else (Inl ErrTokenExhausted, ?db))" for now
    by (rule redeem_iff_usable [OF db_ok_sample_token])
      (simp_all add: empty_db_def sample_token_def enrollment_prefix_def)
  then show ?thesis by (simp add: usable_def sample_token_def)
qed

text \<open>Calls on the table of enrollment tokens, in any order, and which tokens they redeemed.\<close>

datatype enroll_call =
    CreateToken string "string option" go_time string "int option" "go_time option"
  | RedeemToken go_time string
  | RevokeToken go_time string

fun enroll_calls :: "(string \<Rightarrow> string) \<Rightarrow> enroll_call list \<Rightarrow> db \<Rightarrow> string list \<times> db" where
  "enroll_calls hash [] db = ([], db)"
| "enroll_calls hash (CreateToken i rnd now d m e # cs) db =
     enroll_calls hash cs (snd (create_enrollment_token hash i rnd now d m e db))"
| "enroll_calls hash (RevokeToken now i # cs) db =
     enroll_calls hash cs (snd (revoke_enrollment_token now i db))"
| "enroll_calls hash (RedeemToken now token # cs) db =
     (case redeem_enrollment_token hash now token db of
        (Inl _, db) \<Rightarrow> enroll_calls hash cs db
      | (Inr t, db) \<Rightarrow> (let (ids, db) = enroll_calls hash cs db in (et_id t # ids, db)))"

text \<open>How a call moves the counter of one token: \<open>n\<close> uses are left of it.\<close>

definition uses_left :: "string \<Rightarrow> int \<Rightarrow> db \<Rightarrow> bool" where
  "uses_left i n db \<longleftrightarrow> (\<exists>t\<in>set (db_enroll db). et_id t = i \<and> (\<exists>m. et_max_uses t = Some m \<and> m - et_uses t \<le> n))"

lemma uses_left_create:
  "uses_left i n db \<Longrightarrow> uses_left i n (snd (create_enrollment_token hash j rnd now d m e db))"
  by (auto simp: create_enrollment_token_def uses_left_def Let_def split: sum.splits prod.splits dest!: stmtD)

lemma uses_left_update:
  assumes "uses_left i n db" "ts = db_enroll db"
    "\<And>t. et_id (f t) = et_id t \<and> et_max_uses (f t) = et_max_uses t \<and> et_uses t \<le> et_uses (f t)"
  shows "uses_left i n (d\<lparr>db_enroll := update_where p f ts\<rparr>)"
proof -
  obtain t m where t: "t \<in> set ts" "et_id t = i" "et_max_uses t = Some m" "m - et_uses t \<le> n"
    using assms(1,2) by (auto simp: uses_left_def)
  let ?t = "if p t then f t else t"
  have "?t \<in> set (update_where p f ts)" using t(1) by (auto simp: set_update_where)
  moreover have "et_id ?t = i \<and> et_max_uses ?t = Some m \<and> m - et_uses ?t \<le> n"
    using t assms(3) [of t] by auto
  ultimately show ?thesis by (force simp: uses_left_def)
qed

lemma uses_left_same: "uses_left i n db \<Longrightarrow> db_enroll db' = db_enroll db \<Longrightarrow> uses_left i n db'"
  by (simp add: uses_left_def)

lemma uses_left_revoke:
  "uses_left i n db \<Longrightarrow> uses_left i n (snd (revoke_enrollment_token now j db))"
  using uses_left_update [of i n db _ "\<lambda>t. t\<lparr>et_revoked := Some now\<rparr>", OF _ refl]
  by (auto simp: revoke_enrollment_token_def Let_def split: prod.splits
      dest!: stmtD dest: uses_left_same)

lemma uses_left_redeem:
  assumes ok: "db_ok db" and left: "uses_left i n db"
    and r: "redeem_enrollment_token hash now token db = (res, db')"
  shows "uses_left i (case res of Inr t \<Rightarrow> if et_id t = i then n - 1 else n | Inl _ \<Rightarrow> n) db'
    \<and> (case res of Inr t \<Rightarrow> (if et_id t = i then 1 \<le> n else True) | Inl _ \<Rightarrow> True)"
proof (cases res)
  case (Inl e)
  then have "db_enroll db' = db_enroll db" using r
    by (auto simp: redeem_enrollment_token_def Let_def split: prod.splits if_splits option.splits dest!: stmtD)
  then show ?thesis using Inl left by (simp add: uses_left_def)
next
  case (Inr u)
  define p where "p = redeemable (hash token) now"
  obtain t where t: "find p (db_enroll db) = Some t" "u = use_token t"
    and up: "db_enroll db' = update_where p use_token (db_enroll db)"
    using r Inr by (auto simp: redeem_enrollment_token_def Let_def p_def
        split: prod.splits if_splits option.splits dest!: stmtD)
  note tp = find_Some_conv [OF t(1)]
  obtain x m where x: "x \<in> set (db_enroll db)" "et_id x = i" "et_max_uses x = Some m" "m - et_uses x \<le> n"
    using left by (auto simp: uses_left_def)
  have d: "distinct (map et_hash (db_enroll db))" "distinct (map et_id (db_enroll db))"
    using ok by (simp_all add: db_ok_def tokens_ok_def)
  have px: "p x \<longleftrightarrow> x = t" using tp key_unique [OF d(1) x(1)]
    by (auto simp: p_def redeemable_def)
  have idx: "et_id t = i \<longleftrightarrow> x = t" using tp x(2) key_unique [OF d(2) x(1)] by auto
  have inx: "(if p x then use_token x else x) \<in> set (db_enroll db')"
    using x(1) by (auto simp: up set_update_where)
  have idu: "et_id u = et_id t" by (simp add: t(2) use_token_def)
  show ?thesis
  proof (cases "x = t")
    case True
    have "et_uses x < m" using tp x(3) True by (auto simp: p_def redeemable_def)
    then show ?thesis using Inr True idx idu inx px x
      by (auto simp: uses_left_def use_token_def intro!: bexI [of _ "use_token x"])
  next
    case False
    then show ?thesis using Inr idx idu inx px x by (auto simp: uses_left_def)
  qed
qed

text \<open>
  C11: a token limited to \<open>m\<close> uses enrolls at most \<open>m\<close> machines: in any sequence of calls that create,
  redeem and revoke tokens, at any times and with any statements failing, the redemptions of a
  token that succeed are at most what was left of its uses.
\<close>

theorem redemptions_bounded:
  assumes "db_ok db" "t \<in> set (db_enroll db)" "et_max_uses t = Some m"
  shows "int (count_list (fst (enroll_calls hash cs db)) (et_id t)) \<le> max 0 (m - et_uses t)"
proof -
  have "int (count_list (fst (enroll_calls hash cs db)) i) \<le> max 0 n"
    if "db_ok db" "uses_left i n db" for i n
    using that
  proof (induction hash cs db arbitrary: n rule: enroll_calls.induct)
    case (2 hash j rnd now d m e cs db)
    have "db_ok (snd (create_enrollment_token hash j rnd now d m e db))"
      using create_enrollment_token_ok [OF "2.prems"(1)] by (metis prod.collapse)
    then show ?case using 2 uses_left_create by simp
  next
    case (3 hash now j cs db)
    have "db_ok (snd (revoke_enrollment_token now j db))"
      using revoke_enrollment_token_ok [OF "3.prems"(1)] by (metis prod.collapse)
    then show ?case using 3 uses_left_revoke by simp
  next
    case (4 hash now token cs db)
    obtain res db1 where r: "redeem_enrollment_token hash now token db = (res, db1)" by fastforce
    have ok1: "db_ok db1" by (rule redeem_enrollment_token_ok [OF "4.prems"(1) r])
    note left = uses_left_redeem [OF "4.prems" r]
    show ?case
    proof (cases res)
      case (Inl e)
      then show ?thesis using r ok1 left "4.IH"(1) [OF r [symmetric] Inl] by simp
    next
      case (Inr u)
      then have "int (count_list (fst (enroll_calls hash cs db1)) i)
          \<le> max 0 (if et_id u = i then n - 1 else n)"
        using left ok1 by (intro "4.IH"(2) [OF r [symmetric] Inr]) auto
      then show ?thesis using r Inr left by (auto simp: split_beta split: if_splits)
    qed
  qed simp
  moreover have "uses_left (et_id t) (m - et_uses t) db"
    using assms(2,3) by (auto simp: uses_left_def)
  ultimately show ?thesis using assms(1) by blast
qed

theorem redemptions_bounded_witness:
  "int (count_list (fst (enroll_calls id [RedeemToken 5 ''rnr_enroll_x'', RedeemToken 6 ''rnr_enroll_x'']
     (empty_db\<lparr>db_enroll := [sample_token]\<rparr>))) (et_id sample_token)) \<le> max 0 (1 - et_uses sample_token)"
  by (rule redemptions_bounded [OF db_ok_sample_token]) (simp_all add: sample_token_def)

text \<open>
  C12: a runner never holds two credentials: once a machine token has been issued, it is the only one
  of the runner in force, and the tokens of all other runners are as they were. When issuing fails,
  for whatever reason, no table has changed.
\<close>

theorem issue_machine_token_exclusive:
  "case issue_machine_token hash newid rnd now i db of
     (Inl _, db') \<Rightarrow> db_machine db' = db_machine db \<and> db_runners db' = db_runners db
   | (Inr secret, db') \<Rightarrow>
       (\<exists>t. filter (live_of i) (db_machine db') = [t] \<and> mt_hash t = hash secret)
       \<and> filter (\<lambda>t. mt_runner t \<noteq> i) (db_machine db') = filter (\<lambda>t. mt_runner t \<noteq> i) (db_machine db)"
proof -
  obtain res db' where r: "issue_machine_token hash newid rnd now i db = (res, db')" by fastforce
  then show ?thesis
  proof (cases rule: issue_machine_token_cases)
    case (issued s f)
    let ?n = "\<lparr> mt_id = newid, mt_runner = i, mt_hash = hash (machine_prefix @ s), mt_last_used = None,
                mt_revoked = None, mt_created = now \<rparr>"
    have "filter (\<lambda>t. mt_revoked t = None \<and> mt_runner t = i)
        (update_where (live_of i) (revoke_machine now) (db_machine db) @ [?n]) = [?n]"
      by (rule machine.only_new_live) (simp_all add: live_of_def)
    moreover have "live_of i = (\<lambda>t. mt_revoked t = None \<and> mt_runner t = i)"
      by (simp add: live_of_def fun_eq_iff conj_commute)
    moreover have "filter (\<lambda>t. mt_runner t \<noteq> i) (update_where (live_of i) (revoke_machine now) ts)
        = filter (\<lambda>t. mt_runner t \<noteq> i) ts" for ts
      by (induction ts) (auto simp: update_where_def live_of_def)
    ultimately show ?thesis using r issued(2,6) by simp
  qed (use r in simp)
qed

text \<open>
  A credential that has been replaced is refused from then on, and the new one is accepted as
  the same runner.
\<close>

theorem replaced_token_refused:
  assumes "db_ok db" "issue_machine_token hash newid rnd now i db = (Inr secret, db1)" "db_faults db1 = []"
    and "t \<in> set (db_machine db)" "mt_runner t = i" "hash old = mt_hash t" "prefix machine_prefix old"
  shows "authenticate_machine hash now' old db1 = (Inl ErrTokenInvalid, db1)
    \<and> (\<exists>r db2. authenticate_machine hash now' secret db1 = (Inr r, db2) \<and> rn_id r = i)"
proof -
  have ok1: "db_ok db1" by (rule issue_machine_token_ok [OF assms(1,2)])
  from assms(2) show ?thesis
  proof (cases rule: issue_machine_token_cases)
    case (issued s f)
    let ?ts = "update_where (live_of i) (revoke_machine now) (db_machine db)"
    let ?n = "\<lparr> mt_id = newid, mt_runner = i, mt_hash = hash (machine_prefix @ s), mt_last_used = None,
                mt_revoked = None, mt_created = now \<rparr>"
    have secret: "secret = machine_prefix @ s" using issued(2) by simp
    have m1: "db_machine db1 = ?ts @ [?n]" "db_runners db1 = db_runners db" using issued(6) by simp_all
    have dh: "distinct (map mt_hash (db_machine db))" using assms(1) by (simp add: db_ok_def tokens_ok_def)
    have fresh: "hash secret \<notin> mt_hash ` set ?ts"
      using issued(5) by (simp add: secret image_key_update_where)
    have dead: "mt_revoked x \<noteq> None" if x: "x \<in> set ?ts" "mt_hash x = hash old" for x
    proof -
      obtain y where y: "y \<in> set (db_machine db)" "x = (if live_of i y then revoke_machine now y else y)"
        using x(1) unfolding update_where_def set_map by blast
      then have "mt_hash y = mt_hash t" using x(2) assms(6) by (auto split: if_splits)
      then have "y = t" using key_unique [OF dh y(1) assms(4)] by simp
      then show ?thesis using y(2) assms(5) by (auto simp: live_of_def)
    qed
    have "hash old \<noteq> hash secret"
      using issued(5) assms(4,6) secret by (metis image_eqI)
    then have "find (\<lambda>t. mt_hash t = hash old \<and> mt_revoked t = None) (db_machine db1) = None"
      unfolding find_None_conv m1(1) using dead by (auto simp: secret)
    then have old: "authenticate_machine hash now' old db1 = (Inl ErrTokenInvalid, db1)"
      using assms(3,7) by (simp add: authenticate_machine_def stmt_no_fault)
    have "find (\<lambda>t. mt_hash t = hash secret \<and> mt_revoked t = None) ?ts = None"
      unfolding find_None_conv using fresh by force
    then have "find (\<lambda>t. mt_hash t = hash secret \<and> mt_revoked t = None) (db_machine db1) = Some ?n"
      by (simp add: m1(1) find_append secret)
    moreover obtain r where "find (\<lambda>x. rn_id x = i) (db_runners db1) = Some r" "rn_id r = i"
      using issued(4) m1(2) find_None_conv [of "\<lambda>x. rn_id x = i" "db_runners db"]
      by (cases "find (\<lambda>x. rn_id x = i) (db_runners db1)")
        (auto simp: runner_exists_def dest: find_Some_conv)
    moreover have "is_uuid i" using assms(1) issued(4)
      by (auto simp: runner_exists_def dest: runners_okD)
    ultimately have "\<exists>r db2. authenticate_machine hash now' secret db1 = (Inr r, db2) \<and> rn_id r = i"
      using assms(3) by (simp add: authenticate_machine_def stmt_no_fault get_runner_def secret)
    with old show ?thesis ..
  qed simp
qed

lemma authenticate_machine_sound_lemma:
  assumes "authenticate_machine hash now token db = (Inr r, db')"
  shows "r \<in> set (db_runners db) \<and> prefix machine_prefix token \<and>
    (\<exists>t\<in>set (db_machine db). mt_hash t = hash token \<and> mt_revoked t = None \<and> mt_runner t = rn_id r)"
proof -
  let ?p = "\<lambda>t. mt_hash t = hash token \<and> mt_revoked t = None"
  have pre: "prefix machine_prefix token"
    using assms by (auto simp: authenticate_machine_def split: if_splits)
  obtain t where t: "find ?p (db_machine db) = Some t" "find (\<lambda>x. rn_id x = mt_runner t) (db_runners db) = Some r"
    using assms by (auto simp: authenticate_machine_def get_runner_def Let_def
        split: if_splits prod.splits option.splits dest!: stmtD)
  then show ?thesis using pre find_Some_conv [OF t(1)] find_Some_conv [OF t(2)] by auto
qed

text \<open>
  An authenticated agent is who the token says: authentication succeeds only with a token whose
  hash is on record and unrevoked, and yields the runner that token was issued to.
\<close>

theorem authenticate_machine_sound:
  assumes "authenticate_machine hash now token db = (Inr r, db')"
  shows "r \<in> set (db_runners db) \<and> prefix machine_prefix token \<and>
    (\<exists>t\<in>set (db_machine db). mt_hash t = hash token \<and> mt_revoked t = None \<and> mt_runner t = rn_id r)"
  by (rule authenticate_machine_sound_lemma [OF assms])

definition enrolled_db :: db where
  "enrolled_db = empty_db\<lparr>db_runners := [sample_runner],
     db_machine := [\<lparr> mt_id = sample_id, mt_runner = sample_id, mt_hash = ''rnr_machine_a'',
       mt_last_used = None, mt_revoked = None, mt_created = 0 \<rparr>]\<rparr>"

lemma db_ok_enrolled: "db_ok enrolled_db"
proof -
  have "db_ok (empty_db\<lparr>db_runners := [sample_runner]\<rparr>)" by (rule upsert_runner_ok [OF db_ok_empty upsert_sample])
  then show ?thesis unfolding enrolled_db_def
    by (rule db_ok_machine) (simp_all add: runner_exists_def sample_runner_def registered_row_def)
qed

definition other_id :: string where
  "other_id = ''00000000-0000-4000-8000-000000000002''"

lemma is_uuid_other: "is_uuid other_id"
  by (simp add: is_uuid_def other_id_def is_hex_def eval_nat_numeral)

theorem replaced_token_refused_witness:
  "\<exists>db1. issue_machine_token id other_id (Some ''b'') 9 sample_id enrolled_db = (Inr ''rnr_machine_b'', db1)
    \<and> authenticate_machine id 10 ''rnr_machine_a'' db1 = (Inl ErrTokenInvalid, db1)
    \<and> (\<exists>r db2. authenticate_machine id 10 ''rnr_machine_b'' db1 = (Inr r, db2) \<and> rn_id r = sample_id)"
proof -
  have ne: "other_id \<noteq> sample_id" by (simp add: other_id_def sample_id_def)
  obtain db1 where i: "issue_machine_token id other_id (Some ''b'') 9 sample_id enrolled_db =
      (Inr ''rnr_machine_b'', db1)" "db_faults db1 = []"
    using ne by (simp add: issue_machine_token_def new_token_def machine_prefix_def stmt_def enrolled_db_def
        empty_db_def is_uuid_sample is_uuid_other update_where_def runner_exists_def sample_runner_def
        registered_row_def live_of_def)
  have t: "hd (db_machine enrolled_db) \<in> set (db_machine enrolled_db)"
    "mt_runner (hd (db_machine enrolled_db)) = sample_id"
    "id ''rnr_machine_a'' = mt_hash (hd (db_machine enrolled_db))"
    by (simp_all add: enrolled_db_def)
  have "prefix machine_prefix ''rnr_machine_a''" by (simp add: machine_prefix_def)
  from replaced_token_refused [OF db_ok_enrolled i t this, of 10] i show ?thesis by blast
qed

theorem authenticate_machine_sound_witness:
  "\<exists>r db'. authenticate_machine id 10 ''rnr_machine_a'' enrolled_db = (Inr r, db')
    \<and> (\<exists>t\<in>set (db_machine enrolled_db). mt_runner t = rn_id r)"
proof -
  obtain r db' where a: "authenticate_machine id 10 ''rnr_machine_a'' enrolled_db = (Inr r, db')"
    by (simp add: authenticate_machine_def get_runner_def machine_prefix_def stmt_def enrolled_db_def
        empty_db_def is_uuid_sample sample_runner_def registered_row_def)
  with authenticate_machine_sound [OF a] show ?thesis by blast
qed

end
