(* ===== verification/Store_Commands.thy ===== *)
theory Store_Commands
  imports Store_Tokens
begin

text \<open>
  \<open>internal/store/commands.go\<close>: what an operator asks an agent to do, from the request to the
  report of its outcome.
\<close>

section \<open>Operations\<close>

definition open_for :: "string \<Rightarrow> command_row \<Rightarrow> bool" where
  "open_for i c \<longleftrightarrow> cm_runner c = i \<and> cm_status c \<in> {''pending'', ''delivered''}"

definition pending_command :: "string \<Rightarrow> string \<Rightarrow> db \<Rightarrow> (db_error + command_row) \<times> db" where
  "pending_command i command db =
     (let (ok, db) = stmt (is_uuid i) db
      in if \<not> ok then (Inl ErrDatabase, db)
         else case sort_key cm_created
                (filter (\<lambda>c. open_for i c \<and> cm_command c = command) (db_commands db)) of
                [] \<Rightarrow> (Inl ErrNotFound, db)
              | c # _ \<Rightarrow> (Inr c, db))"

definition insert_command ::
  "string \<Rightarrow> go_time \<Rightarrow> string \<Rightarrow> string \<Rightarrow> string \<Rightarrow> db \<Rightarrow> (db_error + command_row) \<times> db"
where
  "insert_command newid now i command requested_by db =
     (let c = \<lparr> cm_id = newid, cm_runner = i, cm_command = command, cm_status = ''pending'', cm_error = '''',
            cm_requested_by = requested_by, cm_created = now, cm_delivered = None, cm_completed = None \<rparr>;
          (ok, db) = stmt (is_uuid newid \<and> newid \<notin> set (map cm_id (db_commands db))
                           \<and> runner_exists db i \<and> command = ''restart'') db
      in if \<not> ok then (Inl ErrDatabase, db)
         else (Inr c, db\<lparr>db_commands := db_commands db @ [c]\<rparr>))"

definition queue_command ::
  "string \<Rightarrow> go_time \<Rightarrow> string \<Rightarrow> string \<Rightarrow> string \<Rightarrow> db \<Rightarrow> (db_error + command_row) \<times> db"
where
  "queue_command newid now i command requested_by db =
     (if command \<noteq> ''restart'' then (Inl (ErrRefused ''not a command an agent understands''), db)
      else case pending_command i command db of
             (Inr existing, db) \<Rightarrow> (Inr existing, db)
           | (Inl e, db) \<Rightarrow>
               if e \<noteq> ErrNotFound then (Inl e, db)
               else insert_command newid now i command requested_by db)"

definition deliver :: "go_time \<Rightarrow> command_row \<Rightarrow> command_row" where
  "deliver now c = c\<lparr>cm_status := ''delivered'', cm_delivered := Some now\<rparr>"

definition to_deliver :: "string \<Rightarrow> command_row list \<Rightarrow> string list" where
  "to_deliver i cs = map cm_id (take 10 (sort_key cm_created
     (filter (\<lambda>c. cm_runner c = i \<and> cm_status c = ''pending'') cs)))"

definition take_commands :: "go_time \<Rightarrow> string \<Rightarrow> db \<Rightarrow> (db_error + command_row list) \<times> db" where
  "take_commands now i db =
     (let (ok, db) = stmt (is_uuid i) db;
          p = (\<lambda>c. cm_id c \<in> set (to_deliver i (db_commands db)))
      in if \<not> ok then (Inl ErrDatabase, db)
         else (Inr (map (deliver now) (filter p (db_commands db))),
               db\<lparr>db_commands := update_where p (deliver now) (db_commands db)\<rparr>))"

definition complete_command ::
  "go_time \<Rightarrow> string \<Rightarrow> string \<Rightarrow> string \<Rightarrow> db \<Rightarrow> (db_error + unit) \<times> db"
where
  "complete_command now i cid failure db =
     (let status = (if failure \<noteq> '''' then ''failed'' else ''done'');
          p = (\<lambda>c. cm_id c = cid \<and> open_for i c);
          (ok, db) = stmt (is_uuid i \<and> is_uuid cid) db
      in if \<not> ok then (Inl ErrDatabase, db)
         else if filter p (db_commands db) = [] then (Inl ErrNotFound, db)
         else (Inr (), db\<lparr>db_commands := update_where p
                 (\<lambda>c. c\<lparr>cm_status := status, cm_error := failure, cm_completed := Some now\<rparr>) (db_commands db)\<rparr>))"

definition list_commands :: "string \<Rightarrow> int \<Rightarrow> db \<Rightarrow> (db_error + command_row list) \<times> db" where
  "list_commands i limit db =
     (let limit = (if limit \<le> 0 then 20 else limit);
          (ok, db) = stmt (is_uuid i) db
      in if \<not> ok then (Inl ErrDatabase, db)
         else (Inr (limit_to limit (newest_first cm_created
                 (filter (\<lambda>c. cm_runner c = i) (db_commands db)))), db))"

definition expire_stale_commands :: "go_time \<Rightarrow> duration \<Rightarrow> db \<Rightarrow> (db_error + int) \<times> db" where
  "expire_stale_commands now older_than db =
     (if older_than \<le> 0 then (Inl (ErrRefused ''the age must be positive''), db)
      else
        let p = (\<lambda>c. cm_status c \<in> {''pending'', ''delivered''} \<and> cm_created c < now - older_than);
            (ok, db) = stmt True db
        in if \<not> ok then (Inl ErrDatabase, db)
           else (Inr (int (length (filter p (db_commands db)))),
                 db\<lparr>db_commands := update_where p
                   (\<lambda>c. c\<lparr>cm_status := ''failed'', cm_error := ''the agent did not carry this out in time'',
                         cm_completed := Some now\<rparr>) (db_commands db)\<rparr>))"

section \<open>Preservation of the schema\<close>

lemma ok_commands [simp]: "runner_exists (db\<lparr>db_commands := cs\<rparr>) = runner_exists db"
  by (simp add: runner_exists_def fun_eq_iff)

lemma db_ok_commands:
  "db_ok db \<Longrightarrow> distinct (map cm_id cs) \<Longrightarrow>
     \<forall>c\<in>set cs. is_uuid (cm_id c) \<and> runner_exists db (cm_runner c) \<and> cm_command c = ''restart''
       \<and> command_status_ok (cm_status c) \<Longrightarrow> db_ok (db\<lparr>db_commands := cs\<rparr>)"
  by (simp add: db_ok_def runners_ok_def tokens_ok_def commands_ok_def events_ok_def users_ok_def)

lemma db_ok_update_commands:
  assumes "db_ok db" "cs = db_commands db"
    "\<And>c. cm_id (f c) = cm_id c \<and> cm_runner (f c) = cm_runner c \<and> cm_command (f c) = cm_command c
       \<and> command_status_ok (cm_status (f c))"
  shows "db_ok (db\<lparr>db_commands := update_where p f cs\<rparr>)"
  using assms by (intro db_ok_commands)
    (auto simp: db_ok_def commands_ok_def set_update_where map_key_update_where)

lemma db_ok_add_command:
  assumes "db_ok db" "cs = db_commands db" "cm_id c \<notin> cm_id ` set cs" "is_uuid (cm_id c)"
    "runner_exists db (cm_runner c)" "cm_command c = ''restart''" "command_status_ok (cm_status c)"
  shows "db_ok (db\<lparr>db_commands := cs @ [c]\<rparr>)"
  using assms by (intro db_ok_commands) (auto simp: db_ok_def commands_ok_def)

lemma pending_command_db: "pending_command i c db = (res, db') \<Longrightarrow> db' = db\<lparr>db_faults := tl (db_faults db)\<rparr>"
  by (auto simp: pending_command_def split: prod.splits if_splits list.splits dest!: stmtF)

lemma insert_command_ok:
  "db_ok db \<Longrightarrow> insert_command newid now i c by db = (res, db') \<Longrightarrow> db_ok db'"
  by (auto simp: insert_command_def Let_def command_status_ok_def split: prod.splits if_splits
      dest!: stmtD intro!: db_ok_add_command)

lemma queue_command_ok:
  "db_ok db \<Longrightarrow> queue_command newid now i c by db = (res, db') \<Longrightarrow> db_ok db'"
  by (auto simp: queue_command_def split: prod.splits sum.splits if_splits
      dest!: pending_command_db dest: insert_command_ok [rotated])

lemma take_commands_ok: "db_ok db \<Longrightarrow> take_commands now i db = (res, db') \<Longrightarrow> db_ok db'"
  by (auto simp: take_commands_def Let_def command_status_ok_def deliver_def split: prod.splits if_splits
      dest!: stmtD intro!: db_ok_update_commands)

lemma complete_command_ok: "db_ok db \<Longrightarrow> complete_command now i cid f db = (res, db') \<Longrightarrow> db_ok db'"
  by (auto simp: complete_command_def Let_def command_status_ok_def split: prod.splits if_splits
      dest!: stmtD intro!: db_ok_update_commands)

lemma list_commands_ok: "db_ok db \<Longrightarrow> list_commands i n db = (res, db') \<Longrightarrow> db_ok db'"
  by (auto simp: list_commands_def Let_def split: prod.splits if_splits dest!: stmtD)

lemma expire_stale_commands_ok: "db_ok db \<Longrightarrow> expire_stale_commands now d db = (res, db') \<Longrightarrow> db_ok db'"
  by (auto simp: expire_stale_commands_def Let_def command_status_ok_def split: prod.splits if_splits
      dest!: stmtD intro!: db_ok_update_commands)

section \<open>Properties\<close>

text \<open>
  An agent can only close its own commands: whatever identifier it reports, no command of another
  runner changes.
\<close>

theorem complete_command_own:
  "filter (\<lambda>c. cm_runner c \<noteq> i) (db_commands (snd (complete_command now i cid failure db)))
     = filter (\<lambda>c. cm_runner c \<noteq> i) (db_commands db)"
proof -
  have "filter (\<lambda>c. cm_runner c \<noteq> i) (update_where (\<lambda>c. cm_id c = cid \<and> open_for i c) f cs)
      = filter (\<lambda>c. cm_runner c \<noteq> i) cs" if "\<And>c. cm_runner (f c) = cm_runner c" for f cs
    using that by (induction cs) (auto simp: update_where_def open_for_def)
  then show ?thesis
    by (auto simp: complete_command_def Let_def split: prod.splits dest!: stmtD)
qed

text \<open>A command that is delivered was pending, belongs to the runner, and is not pending afterwards.\<close>

lemma take_commandsD:
  assumes "take_commands now i db = (Inr cs, db')" "db_ok db"
  shows "db_commands db' = update_where (\<lambda>c. cm_id c \<in> set (to_deliver i (db_commands db))) (deliver now) (db_commands db)"
    "set (map cm_id cs) = set (to_deliver i (db_commands db))"
    "length cs = length (to_deliver i (db_commands db))"
    "\<And>c. c \<in> set (db_commands db) \<Longrightarrow> cm_id c \<in> set (to_deliver i (db_commands db)) \<Longrightarrow>
       cm_runner c = i \<and> cm_status c = ''pending''"
    "\<And>c. c \<in> set cs \<Longrightarrow> cm_runner c = i"
proof -
  let ?ids = "to_deliver i (db_commands db)"
  let ?p = "\<lambda>c. cm_id c \<in> set ?ids"
  show "db_commands db' = update_where ?p (deliver now) (db_commands db)"
    and 1: "set (map cm_id cs) = set ?ids" and 3: "length cs = length ?ids"
  proof -
    have cs: "cs = map (deliver now) (filter ?p (db_commands db))"
      "db_commands db' = update_where ?p (deliver now) (db_commands db)"
      using assms(1) by (auto simp: take_commands_def Let_def split: prod.splits if_splits dest!: stmtD)
    then show "db_commands db' = update_where ?p (deliver now) (db_commands db)" by simp
    have sub: "set ?ids \<subseteq> cm_id ` set (db_commands db)"
      by (auto simp: to_deliver_def dest!: in_set_takeD)
    have "map cm_id cs = map cm_id (filter ?p (db_commands db))" by (simp add: cs(1) deliver_def)
    moreover have "set (map cm_id (filter ?p (db_commands db))) = set ?ids" using sub by auto
    ultimately show e: "set (map cm_id cs) = set ?ids" by simp
    have d: "distinct (map cm_id (db_commands db))" using assms(2) by (simp add: db_ok_def commands_ok_def)
    have "distinct (map cm_id cs)" using d by (simp add: cs(1) deliver_def distinct_map_filter_key o_def)
    moreover have "distinct ?ids" unfolding to_deliver_def using d
      by (intro distinct_map [THEN iffD2] conjI distinct_take)
        (auto simp: distinct_map intro: distinct_filter inj_on_subset dest!: in_set_takeD)
    ultimately have "length (map cm_id cs) = length ?ids" using e by (metis distinct_card)
    then show "length cs = length ?ids" by simp
  qed
  show own: "cm_runner c = i \<and> cm_status c = ''pending''"
    if c: "c \<in> set (db_commands db)" "cm_id c \<in> set ?ids" for c
  proof -
    obtain c' where "c' \<in> set (db_commands db)" "cm_id c' = cm_id c" "cm_runner c' = i" "cm_status c' = ''pending''"
      using c(2) by (auto simp: to_deliver_def dest!: in_set_takeD)
    moreover have "distinct (map cm_id (db_commands db))" using assms(2) by (simp add: db_ok_def commands_ok_def)
    ultimately show ?thesis using c(1) key_unique by metis
  qed
  show "cm_runner c = i" if "c \<in> set cs" for c
    using assms(1) that own
    by (auto simp: take_commands_def Let_def deliver_def split: prod.splits if_splits dest!: stmtD)
qed



text \<open>
  Pressing the button twice restarts once: after a restart has been queued, queueing it again
  returns the same command and adds none, whoever asks.
\<close>

theorem queue_command_idempotent:
  assumes "queue_command newid now i ''restart'' who db = (Inr c, db1)" "db_faults db1 = []"
  shows "queue_command newid' now' i ''restart'' who' db1 = (Inr c, db1)"
proof -
  let ?P = "\<lambda>c. open_for i c \<and> cm_command c = ''restart''"
  obtain r dbp where p: "pending_command i ''restart'' db = (r, dbp)" by fastforce
  have same: "db_commands dbp = db_commands db" using pending_command_db [OF p] by simp
  have uuid: "r = Inr x \<or> r = Inl ErrNotFound \<Longrightarrow> is_uuid i" for x
    using p by (auto simp: pending_command_def split: prod.splits if_splits list.splits dest!: stmtF)
  show ?thesis
  proof (cases r)
    case (Inr x)
    then have "db1 = dbp" "c = x" using assms(1) p by (simp_all add: queue_command_def)
    moreover obtain tl where "sort_key cm_created (filter ?P (db_commands db)) = x # tl"
      using p Inr by (auto simp: pending_command_def split: prod.splits if_splits list.splits dest!: stmtD)
    ultimately show ?thesis using assms(2) uuid Inr same
      by (simp add: queue_command_def pending_command_def stmt_no_fault)
  next
    case (Inl e)
    then have e: "e = ErrNotFound" "insert_command newid now i ''restart'' who dbp = (Inr c, db1)"
      using assms(1) p by (auto simp: queue_command_def split: if_splits)
    have "filter ?P (db_commands db) = []"
    proof -
      have "sort_key cm_created (filter ?P (db_commands dbp)) = []"
        using p Inl e(1) by (auto simp: pending_command_def split: prod.splits if_splits list.splits)
      then show ?thesis by (simp only: sort_key_Nil_iff same)
    qed
    moreover have "db_commands db1 = db_commands db @ [c]" "?P c"
      using e(2) same by (auto simp: insert_command_def open_for_def Let_def split: prod.splits if_splits dest!: stmtD)
    ultimately have "filter ?P (db_commands db1) = [c]" by simp
    then show ?thesis using assms(2) uuid Inl e(1)
      by (simp add: queue_command_def pending_command_def stmt_no_fault)
  qed
qed

text \<open>
  The check and the insertion are two statements, so that two requests at the same moment can
  both find nothing waiting and queue a restart each.
\<close>

theorem queue_command_race:
  "\<exists>c1 c2 db1 db2.
     pending_command sample_id ''restart'' enrolled_db = (Inl ErrNotFound, enrolled_db)
   \<and> insert_command sample_id 5 sample_id ''restart'' ''ann'' enrolled_db = (Inr c1, db1)
   \<and> insert_command other_id 5 sample_id ''restart'' ''bob'' db1 = (Inr c2, db2)
   \<and> map cm_id (filter (open_for sample_id) (db_commands db2)) = [sample_id, other_id]"
proof -
  have ne: "other_id \<noteq> sample_id" by (simp add: other_id_def sample_id_def)
  then show ?thesis
    by (simp add: pending_command_def insert_command_def Let_def stmt_def enrolled_db_def empty_db_def
        is_uuid_sample is_uuid_other runner_exists_def sample_runner_def registered_row_def open_for_def)
qed

definition restart_queued :: db where
  "restart_queued = snd (queue_command sample_id 5 sample_id ''restart'' ''ann'' enrolled_db)"

lemma restart_queued_eq:
  "queue_command sample_id 5 sample_id ''restart'' ''ann'' enrolled_db =
     (Inr (hd (db_commands restart_queued)), restart_queued)"
  "db_commands restart_queued = [\<lparr> cm_id = sample_id, cm_runner = sample_id, cm_command = ''restart'',
     cm_status = ''pending'', cm_error = '''', cm_requested_by = ''ann'', cm_created = 5,
     cm_delivered = None, cm_completed = None \<rparr>]"
  "db_faults restart_queued = []"
  by (simp_all add: restart_queued_def queue_command_def pending_command_def insert_command_def Let_def stmt_def
      enrolled_db_def empty_db_def is_uuid_sample runner_exists_def sample_runner_def registered_row_def)

theorem queue_command_idempotent_witness:
  "queue_command other_id 6 sample_id ''restart'' ''bob'' restart_queued =
     (Inr (hd (db_commands restart_queued)), restart_queued)"
  by (rule queue_command_idempotent [OF restart_queued_eq(1,3)])

end
