(* ===== verification/Store_Events.thy ===== *)
theory Store_Events
  imports Store_Tokens
begin

text \<open>
  \<open>internal/store/events.go\<close> and \<open>internal/store/users.go\<close>: the event feed, the audit trail, and the
  dashboard's accounts and sessions.
\<close>

section \<open>Events\<close>

record new_event =
  ne_runner :: string
  ne_event :: string
  ne_severity :: string
  ne_message :: string
  ne_data :: json_object

definition event_row :: "int \<Rightarrow> go_time \<Rightarrow> new_event \<Rightarrow> runner_event" where
  "event_row eid now e = \<lparr> re_id = eid,
     re_runner = (if ne_runner e \<noteq> '''' then Some (ne_runner e) else None),
     re_event = ne_event e,
     re_severity = (if ne_severity e = '''' then ''info'' else ne_severity e),
     re_message = ne_message e, re_data = ne_data e, re_created = now \<rparr>"

text \<open>The \<open>INSERT\<close> both operations run: it draws an identifier whether it succeeds or not.\<close>

definition insert_event :: "go_time \<Rightarrow> new_event \<Rightarrow> db \<Rightarrow> (db_error + runner_event) \<times> db" where
  "insert_event now e db =
     (let row = event_row (db_event_seq db + 1) now e;
          (ok, db) = stmt (severity_ok (re_severity row) \<and> pred_option (runner_exists db) (re_runner row)) db;
          db = db\<lparr>db_event_seq := db_event_seq db + 1\<rparr>
      in if \<not> ok then (Inl ErrDatabase, db)
         else (Inr row, db\<lparr>db_events := db_events db @ [row]\<rparr>))"

definition record_event :: "go_time \<Rightarrow> new_event \<Rightarrow> db \<Rightarrow> (db_error + runner_event) \<times> db" where
  "record_event now e db =
     (if ne_event e = '''' then (Inl (ErrRefused ''an event needs a name''), db)
      else insert_event now e db)"

text \<open>
  The loop of \<open>RecordEvents\<close>. A failed statement ends it; the rollback keeps what the sequence and
  the script of faults have become.
\<close>

fun insert_events :: "go_time \<Rightarrow> new_event list \<Rightarrow> int \<Rightarrow> db \<Rightarrow> (db_error + int) \<times> db" where
  "insert_events now [] stored db = (Inr stored, db)"
| "insert_events now (e # es) stored db =
     (if ne_event e = '''' then insert_events now es stored db
      else case insert_event now e db of
             (Inl err, db) \<Rightarrow> (Inl err, db)
           | (Inr _, db) \<Rightarrow> insert_events now es (stored + 1) db)"

definition record_events :: "go_time \<Rightarrow> new_event list \<Rightarrow> db \<Rightarrow> (db_error + int) \<times> db" where
  "record_events now es db =
     (if es = [] then (Inr 0, db)
      else
        let (ok, db0) = stmt True db
        in if \<not> ok then (Inl ErrDatabase, db0)
           else
             let (res, db1) = insert_events now es 0 db0;
                 (ok, db1) = (case res of Inl _ \<Rightarrow> (False, db1) | Inr _ \<Rightarrow> stmt True db1)
             in if ok then (res, db1)
                else (Inl ErrDatabase,
                      db0\<lparr>db_event_seq := db_event_seq db1, db_faults := db_faults db1\<rparr>))"

record list_events_options =
  le_runner :: string
  le_severity :: string
  le_before :: int
  le_limit :: int

definition list_events :: "list_events_options \<Rightarrow> db \<Rightarrow> (db_error + runner_event list) \<times> db" where
  "list_events opts db =
     (let limit = (if le_limit opts \<le> 0 then default_list_limit else le_limit opts);
          (ok, db) = stmt True db
      in if \<not> ok then (Inl ErrDatabase, db)
         else (Inr (limit_to limit (newest_first re_id
                 (filter (\<lambda>e. (le_runner opts = '''' \<or> re_runner e = Some (le_runner opts))
                            \<and> (le_severity opts = '''' \<or> re_severity e = le_severity opts)
                            \<and> (le_before opts = 0 \<or> re_id e < le_before opts)) (db_events db)))), db))"

definition day :: duration where "day = 24 * hour"

definition prune_events :: "go_time \<Rightarrow> int \<Rightarrow> db \<Rightarrow> (db_error + int) \<times> db" where
  "prune_events now days db =
     (if days \<le> 0 then (Inl (ErrRefused ''retention must be at least one day''), db)
      else
        let p = (\<lambda>e. re_created e < now - days * day);
            (ok, db) = stmt True db
        in if \<not> ok then (Inl ErrDatabase, db)
           else (Inr (int (length (filter p (db_events db)))),
                 db\<lparr>db_events := filter (\<lambda>e. \<not> p e) (db_events db)\<rparr>))"

section \<open>The audit trail\<close>

definition list_audit :: "int \<Rightarrow> db \<Rightarrow> (db_error + audit_entry list) \<times> db" where
  "list_audit limit db =
     (let limit = (if limit \<le> 0 then default_list_limit else limit);
          (ok, db) = stmt True db
      in if \<not> ok then (Inl ErrDatabase, db)
         else (Inr (limit_to limit (newest_first au_id (db_audit db))), db))"

definition record_audit ::
  "go_time \<Rightarrow> string \<Rightarrow> string \<Rightarrow> string \<Rightarrow> json_object \<Rightarrow> db \<Rightarrow> (db_error + unit) \<times> db"
where
  "record_audit now actor action target detail db =
     (let (ok, db) = stmt True db;
          db = db\<lparr>db_audit_seq := db_audit_seq db + 1\<rparr>
      in if \<not> ok then (Inl ErrDatabase, db)
         else (Inr (), db\<lparr>db_audit := db_audit db @
                [\<lparr> au_id = db_audit_seq db, au_actor = actor, au_action = action, au_target = target,
                   au_detail = detail, au_created = now \<rparr>]\<rparr>))"

section \<open>Accounts and sessions\<close>

definition session_lifetime :: duration where
  "session_lifetime = 7 * 24 * hour"

record github_user =
  gu_id :: int
  gu_login :: string
  gu_name :: string
  gu_avatar :: string

definition upsert_user ::
  "string \<Rightarrow> go_time \<Rightarrow> github_user \<Rightarrow> string option \<Rightarrow> db \<Rightarrow> (db_error + user_row) \<times> db"
where
  "upsert_user newid now u token db =
     (if gu_id u = 0 \<or> gu_login u = '''' then (Inl (ErrRefused ''a user needs a GitHub id and login''), db)
      else
        let hit = find (\<lambda>x. us_github_id x = gu_id u) (db_users db);
            f = (\<lambda>x. x\<lparr>us_login := gu_login u, us_name := gu_name u, us_avatar := gu_avatar u,
                     us_token := (case token of None \<Rightarrow> us_token x | Some s \<Rightarrow> Some s), us_last_login := now\<rparr>);
            (ok, db) = stmt (is_uuid newid \<and> (hit \<noteq> None \<or> newid \<notin> set (map us_id (db_users db)))) db
        in if \<not> ok then (Inl ErrDatabase, db)
           else case hit of
                  None \<Rightarrow>
                    let row = \<lparr> us_id = newid, us_github_id = gu_id u, us_login = gu_login u,
                                us_name = gu_name u, us_avatar = gu_avatar u, us_token = token,
                                us_created = now, us_last_login = now \<rparr>
                    in (Inr row, db\<lparr>db_users := db_users db @ [row]\<rparr>)
                | Some x \<Rightarrow>
                    (Inr (f x), db\<lparr>db_users := update_where (\<lambda>x. us_github_id x = gu_id u) f (db_users db)\<rparr>))"

definition get_user :: "string \<Rightarrow> db \<Rightarrow> (db_error + user_row) \<times> db" where
  "get_user i db =
     (let (ok, db) = stmt (is_uuid i) db
      in if \<not> ok then (Inl ErrDatabase, db)
         else case find (\<lambda>u. us_id u = i) (db_users db) of
                None \<Rightarrow> (Inl ErrNotFound, db)
              | Some u \<Rightarrow> (Inr u, db))"

definition user_token :: "string \<Rightarrow> db \<Rightarrow> (db_error + string option) \<times> db" where
  "user_token i db =
     (case get_user i db of (Inl e, db) \<Rightarrow> (Inl e, db) | (Inr u, db) \<Rightarrow> (Inr (us_token u), db))"

definition create_session ::
  "(string \<Rightarrow> string) \<Rightarrow> string \<Rightarrow> string option \<Rightarrow> go_time \<Rightarrow> string \<Rightarrow> db \<Rightarrow> (db_error + string \<times> go_time) \<times> db"
where
  "create_session hash newid rnd now i db =
     (case new_token session_prefix rnd of
        Inl e \<Rightarrow> (Inl e, db)
      | Inr secret \<Rightarrow>
          let expires = now + session_lifetime;
              (ok, db) = stmt (is_uuid newid \<and> newid \<notin> set (map se_id (db_sessions db))
                  \<and> hash secret \<notin> set (map se_hash (db_sessions db)) \<and> i \<in> set (map us_id (db_users db))) db
          in if \<not> ok then (Inl ErrDatabase, db)
             else (Inr (secret, expires), db\<lparr>db_sessions := db_sessions db @
                    [\<lparr> se_id = newid, se_user = i, se_hash = hash secret, se_expires = expires \<rparr>]\<rparr>))"

definition authenticate_session ::
  "(string \<Rightarrow> string) \<Rightarrow> go_time \<Rightarrow> string \<Rightarrow> db \<Rightarrow> (db_error + user_row) \<times> db"
where
  "authenticate_session hash now token db =
     (if \<not> prefix session_prefix token then (Inl ErrTokenInvalid, db)
      else
        let (ok, db) = stmt True db
        in if \<not> ok then (Inl ErrDatabase, db)
           else case find (\<lambda>s. se_hash s = hash token \<and> now < se_expires s) (db_sessions db) of
                  None \<Rightarrow> (Inl ErrTokenInvalid, db)
                | Some s \<Rightarrow>
                    (case find (\<lambda>u. us_id u = se_user s) (db_users db) of
                       None \<Rightarrow> (Inl ErrTokenInvalid, db)
                     | Some u \<Rightarrow> (Inr u, db)))"

definition delete_session :: "(string \<Rightarrow> string) \<Rightarrow> string \<Rightarrow> db \<Rightarrow> (db_error + unit) \<times> db" where
  "delete_session hash token db =
     (let (ok, db) = stmt True db
      in if \<not> ok then (Inl ErrDatabase, db)
         else (Inr (), db\<lparr>db_sessions := filter (\<lambda>s. se_hash s \<noteq> hash token) (db_sessions db)\<rparr>))"

definition prune_sessions :: "go_time \<Rightarrow> db \<Rightarrow> (db_error + int) \<times> db" where
  "prune_sessions now db =
     (let p = (\<lambda>s. se_expires s \<le> now);
          (ok, db) = stmt True db
      in if \<not> ok then (Inl ErrDatabase, db)
         else (Inr (int (length (filter p (db_sessions db)))),
               db\<lparr>db_sessions := filter (\<lambda>s. \<not> p s) (db_sessions db)\<rparr>))"

section \<open>Preservation of the schema\<close>

lemma ok_events [simp]:
  "runner_exists (db\<lparr>db_events := es\<rparr>) = runner_exists db"
  "runner_exists (db\<lparr>db_event_seq := n\<rparr>) = runner_exists db"
  "runner_exists (db\<lparr>db_audit := a\<rparr>) = runner_exists db"
  "runner_exists (db\<lparr>db_audit_seq := n\<rparr>) = runner_exists db"
  "runner_exists (db\<lparr>db_users := us\<rparr>) = runner_exists db"
  "runner_exists (db\<lparr>db_sessions := ss\<rparr>) = runner_exists db"
  by (simp_all add: runner_exists_def fun_eq_iff)

lemmas all_ok_defs = db_ok_def runners_ok_def tokens_ok_def commands_ok_def events_ok_def users_ok_def

lemma db_ok_audit [simp]:
  "db_ok (db\<lparr>db_audit := a\<rparr>) = db_ok db" "db_ok (db\<lparr>db_audit_seq := n\<rparr>) = db_ok db"
  by (simp_all add: all_ok_defs)

lemma db_ok_event_seq: "db_ok db \<Longrightarrow> db_event_seq db \<le> n \<Longrightarrow> db_ok (db\<lparr>db_event_seq := n\<rparr>)"
  by (auto simp: all_ok_defs)

lemma db_ok_add_event:
  assumes "db_ok db" "es = db_events db" "re_id e = db_event_seq db + 1" "severity_ok (re_severity e)"
    "pred_option (runner_exists db) (re_runner e)"
  shows "db_ok (db\<lparr>db_event_seq := db_event_seq db + 1, db_events := es @ [e]\<rparr>)"
proof -
  have "re_id x < re_id e \<and> re_id x \<le> db_event_seq db + 1" if "x \<in> set (db_events db)" for x
    using assms(1,3) that by (fastforce simp: db_ok_def events_ok_def)
  then show ?thesis using assms by (auto simp: all_ok_defs sorted_wrt_append)
qed

lemma db_ok_filter_events: "db_ok db \<Longrightarrow> es = db_events db \<Longrightarrow> db_ok (db\<lparr>db_events := filter p es\<rparr>)"
  by (simp add: all_ok_defs sorted_wrt_map sorted_wrt_filter)

lemma insert_event_cases:
  assumes "insert_event now e db = (res, db')"
  obtains (failed) "res = Inl ErrDatabase"
      "db' = db\<lparr>db_event_seq := db_event_seq db + 1, db_faults := tl (db_faults db)\<rparr>"
  | (stored) "res = Inr (event_row (db_event_seq db + 1) now e)"
      "severity_ok (re_severity (event_row (db_event_seq db + 1) now e))"
      "pred_option (runner_exists db) (re_runner (event_row (db_event_seq db + 1) now e))"
      "db' = db\<lparr>db_event_seq := db_event_seq db + 1, db_faults := tl (db_faults db),
         db_events := db_events db @ [event_row (db_event_seq db + 1) now e]\<rparr>"
  using assms by (auto simp: insert_event_def Let_def split: prod.splits if_splits dest!: stmtF)

lemma insert_event_ok:
  assumes "db_ok db" "insert_event now e db = (res, db')"
  shows "db_ok db' \<and> db_event_seq db \<le> db_event_seq db'"
  using assms(2)
proof (cases rule: insert_event_cases)
  case failed
  have "db_ok (db\<lparr>db_event_seq := db_event_seq db + 1\<rparr>)" by (rule db_ok_event_seq [OF assms(1)]) simp
  then have "db_ok ((db\<lparr>db_event_seq := db_event_seq db + 1\<rparr>)\<lparr>db_faults := tl (db_faults db)\<rparr>)"
    by (simp only: db_ok_faults)
  then show ?thesis using failed by simp
next
  case stored
  have "db_ok (db\<lparr>db_event_seq := db_event_seq db + 1,
      db_events := db_events db @ [event_row (db_event_seq db + 1) now e]\<rparr>)"
    using stored by (intro db_ok_add_event [OF assms(1) refl]) (simp_all add: event_row_def)
  then have "db_ok ((db\<lparr>db_event_seq := db_event_seq db + 1,
      db_events := db_events db @ [event_row (db_event_seq db + 1) now e]\<rparr>)\<lparr>db_faults := tl (db_faults db)\<rparr>)"
    by (simp only: db_ok_faults)
  moreover have "db' = (db\<lparr>db_event_seq := db_event_seq db + 1,
      db_events := db_events db @ [event_row (db_event_seq db + 1) now e]\<rparr>)\<lparr>db_faults := tl (db_faults db)\<rparr>"
    by (rule db.equality) (simp_all add: stored(4))
  ultimately have "db_ok db'" by (simp only:)
  then show ?thesis by (simp add: stored(4))
qed

lemma record_event_ok: "db_ok db \<Longrightarrow> record_event now e db = (res, db') \<Longrightarrow> db_ok db'"
  by (auto simp: record_event_def split: if_splits dest: insert_event_ok)

lemma insert_events_ok:
  "db_ok db \<Longrightarrow> insert_events now es n db = (res, db') \<Longrightarrow>
     db_ok db' \<and> db_event_seq db \<le> db_event_seq db'"
proof (induction now es n db rule: insert_events.induct)
  case (2 now e es n db)
  show ?case
  proof (cases "ne_event e = ''''")
    case False
    obtain r db1 where i: "insert_event now e db = (r, db1)" by fastforce
    note ok = insert_event_ok [OF "2.prems"(1) i]
    show ?thesis
    proof (cases r)
      case (Inr x)
      then show ?thesis using 2(2) [OF False i [symmetric] Inr] "2.prems" ok False i by auto
    qed (use "2.prems" False i ok in auto)
  qed (use 2 in auto)
qed simp

lemma record_events_ok:
  assumes "db_ok db" "record_events now es db = (res, db')"
  shows "db_ok db'"
proof (cases "es = []")
  case False
  obtain ok db0 where st: "stmt True db = (ok, db0)" by fastforce
  have ok0: "db_ok db0" by (rule stmt_ok [OF st assms(1)])
  show ?thesis
  proof (cases ok)
    case True
    obtain r db1 where i: "insert_events now es 0 db0 = (r, db1)" by fastforce
    note ok1 = insert_events_ok [OF ok0 i]
    obtain ok2 db2 where c: "(case r of Inl _ \<Rightarrow> (False, db1) | Inr _ \<Rightarrow> stmt True db1) = (ok2, db2)" by fastforce
    have ok2: "db_ok db2 \<and> db_event_seq db2 = db_event_seq db1"
      using c ok1 by (auto split: sum.splits dest!: stmtD)
    have "db_ok (db0\<lparr>db_event_seq := db_event_seq db2\<rparr>)" using ok0 ok1 ok2 by (intro db_ok_event_seq) auto
    then have "db_ok (db0\<lparr>db_event_seq := db_event_seq db2, db_faults := db_faults db2\<rparr>)"
      by (metis db_ok_faults)
    then show ?thesis using assms(2) False st True i c ok2
      by (auto simp: record_events_def split: if_splits)
  qed (use assms(2) False st ok0 in \<open>simp add: record_events_def\<close>)
qed (use assms in \<open>simp add: record_events_def\<close>)

lemma list_events_ok: "db_ok db \<Longrightarrow> list_events opts db = (res, db') \<Longrightarrow> db_ok db'"
  by (auto simp: list_events_def Let_def split: prod.splits if_splits dest!: stmtD)

lemma prune_events_ok: "db_ok db \<Longrightarrow> prune_events now d db = (res, db') \<Longrightarrow> db_ok db'"
  by (auto simp: prune_events_def Let_def split: prod.splits if_splits dest!: stmtD intro!: db_ok_filter_events)

lemma list_audit_ok: "db_ok db \<Longrightarrow> list_audit n db = (res, db') \<Longrightarrow> db_ok db'"
  by (auto simp: list_audit_def Let_def split: prod.splits if_splits dest!: stmtD)

lemma record_audit_ok: "db_ok db \<Longrightarrow> record_audit now a b c d db = (res, db') \<Longrightarrow> db_ok db'"
  by (auto simp: record_audit_def Let_def split: prod.splits if_splits dest!: stmtD)

lemma db_ok_users:
  "db_ok db \<Longrightarrow> distinct (map us_id us) \<Longrightarrow> distinct (map us_github_id us) \<Longrightarrow>
     set (map us_id (db_users db)) \<subseteq> set (map us_id us) \<Longrightarrow> db_ok (db\<lparr>db_users := us\<rparr>)"
  by (auto simp: all_ok_defs)

lemma db_ok_add_user:
  assumes "db_ok db" "us = db_users db" "us_id u \<notin> us_id ` set us" "us_github_id u \<notin> us_github_id ` set us"
  shows "db_ok (db\<lparr>db_users := us @ [u]\<rparr>)"
  using assms by (intro db_ok_users) (auto simp: db_ok_def users_ok_def)

lemma db_ok_update_users:
  assumes "db_ok db" "us = db_users db" "\<And>u. us_id (f u) = us_id u \<and> us_github_id (f u) = us_github_id u"
  shows "db_ok (db\<lparr>db_users := update_where p f us\<rparr>)"
  using assms by (intro db_ok_users)
    (auto simp: db_ok_def users_ok_def map_key_update_where image_key_update_where)

lemma db_ok_filter_sessions: "db_ok db \<Longrightarrow> ss = db_sessions db \<Longrightarrow> db_ok (db\<lparr>db_sessions := filter p ss\<rparr>)"
  by (simp add: all_ok_defs distinct_map_filter_key)

lemma db_ok_add_session:
  "db_ok db \<Longrightarrow> ss = db_sessions db \<Longrightarrow> se_id s \<notin> se_id ` set ss \<Longrightarrow> se_hash s \<notin> se_hash ` set ss \<Longrightarrow>
     se_user s \<in> us_id ` set (db_users db) \<Longrightarrow> db_ok (db\<lparr>db_sessions := ss @ [s]\<rparr>)"
  by (auto simp: all_ok_defs)

lemma upsert_user_ok:
  assumes "db_ok db" "upsert_user newid now u token db = (res, db')"
  shows "db_ok db'"
proof -
  have fresh: "\<not> (\<exists>x\<in>set us. us_github_id x = g) \<Longrightarrow> g \<notin> us_github_id ` set us" for g us by auto
  show ?thesis using assms
    by (auto simp: upsert_user_def Let_def find_None_conv split: prod.splits if_splits option.splits
        dest!: stmtD intro!: db_ok_add_user db_ok_update_users)
qed

lemma get_user_ok: "db_ok db \<Longrightarrow> get_user i db = (res, db') \<Longrightarrow> db_ok db'"
  by (auto simp: get_user_def split: prod.splits if_splits option.splits dest!: stmtD)

lemma user_token_ok: "db_ok db \<Longrightarrow> user_token i db = (res, db') \<Longrightarrow> db_ok db'"
  by (auto simp: user_token_def split: prod.splits sum.splits dest: get_user_ok)

lemma create_session_ok: "db_ok db \<Longrightarrow> create_session hash newid rnd now i db = (res, db') \<Longrightarrow> db_ok db'"
  by (auto simp: create_session_def Let_def split: sum.splits prod.splits if_splits
      dest!: stmtD intro!: db_ok_add_session)

lemma authenticate_session_db:
  "authenticate_session hash now token db = (res, db') \<Longrightarrow> db' = db \<or> db' = db\<lparr>db_faults := tl (db_faults db)\<rparr>"
  by (auto simp: authenticate_session_def Let_def split: prod.splits if_splits option.splits dest!: stmtF)

lemma authenticate_session_ok:
  "db_ok db \<Longrightarrow> authenticate_session hash now token db = (res, db') \<Longrightarrow> db_ok db'"
  by (auto dest: authenticate_session_db)

lemma delete_session_ok: "db_ok db \<Longrightarrow> delete_session hash token db = (res, db') \<Longrightarrow> db_ok db'"
  by (auto simp: delete_session_def split: prod.splits if_splits dest!: stmtD intro!: db_ok_filter_sessions)

lemma prune_sessions_ok: "db_ok db \<Longrightarrow> prune_sessions now db = (res, db') \<Longrightarrow> db_ok db'"
  by (auto simp: prune_sessions_def Let_def split: prod.splits if_splits dest!: stmtD
      intro!: db_ok_filter_sessions)

section \<open>Properties\<close>

lemma insert_events_feed:
  "insert_events now es n db = (Inr k, db') \<Longrightarrow>
     db_events db' = db_events db @ drop (length (db_events db)) (db_events db')
     \<and> map re_event (db_events db') = map re_event (db_events db) @ filter (\<lambda>x. x \<noteq> '''') (map ne_event es)
     \<and> k = n + int (length (filter (\<lambda>x. x \<noteq> '''') (map ne_event es)))"
proof (induction now es n db rule: insert_events.induct)
  case (2 now e es n db)
  show ?case
  proof (cases "ne_event e = ''''")
    case False
    obtain r db1 where i: "insert_event now e db = (r, db1)" by fastforce
    then obtain x where r: "r = Inr x" using "2.prems" False by (cases r) auto
    have ev: "db_events db1 = db_events db @ [event_row (db_event_seq db + 1) now e]"
      using i r by (auto elim: insert_event_cases)
    have "insert_events now es (n + 1) db1 = (Inr k, db')" using "2.prems" False i r by simp
    note IH = 2(2) [OF False i [symmetric] r this]
    obtain zs where zs: "db_events db' = db_events db1 @ zs" using IH by blast
    show ?thesis using IH ev False zs by (simp add: event_row_def)
  qed (use 2 in auto)
qed simp

text \<open>
  A batch of events is stored whole or not at all: on success the feed grows by exactly the named
  events of the batch, in order; on any failure it is as it was.
\<close>

theorem record_events_atomic:
  "case record_events now es db of
     (Inl _, db') \<Rightarrow> db_events db' = db_events db
   | (Inr n, db') \<Rightarrow>
       map re_event (db_events db') = map re_event (db_events db) @ filter (\<lambda>x. x \<noteq> '''') (map ne_event es)
       \<and> take (length (db_events db)) (db_events db') = db_events db
       \<and> n = int (length (filter (\<lambda>x. x \<noteq> '''') (map ne_event es)))"
proof (cases "es = []")
  case False
  obtain ok db0 where st: "stmt True db = (ok, db0)" by fastforce
  have ev0: "db_events db0 = db_events db" using stmtD [OF st] by simp
  obtain r db1 where i: "insert_events now es 0 db0 = (r, db1)" by fastforce
  show ?thesis
  proof (cases "ok \<and> is_ok r")
    case True
    then obtain n where r: "r = Inr n" by (auto simp: is_ok_iff)
    obtain ok2 db2 where c: "stmt True db1 = (ok2, db2)" by fastforce
    have e: "record_events now es db = (if ok2 then (r, db2)
       else (Inl ErrDatabase, db0\<lparr>db_event_seq := db_event_seq db2, db_faults := db_faults db2\<rparr>))"
      using False st i r c True by (simp add: record_events_def)
    note feed = insert_events_feed [OF i [unfolded r]]
    have "db_events db2 = db_events db1" using stmtD [OF c] by simp
    moreover have "take (length (db_events db)) (db_events db1) = db_events db"
      using feed ev0 by (metis append_eq_conv_conj)
    ultimately show ?thesis using e feed r ev0 by simp
  next
    case f: False
    then show ?thesis using False st i ev0
      by (cases r) (auto simp: record_events_def split: prod.splits)
  qed
qed (simp add: record_events_def)

text \<open>
  A session lasts until it is ended or until seven days have passed: the cookie of a new session
  is accepted at every instant before its expiry and at none from then on, and after signing out it
  is accepted at none.
\<close>

theorem session_lifecycle:
  assumes "db_ok db" "create_session hash newid rnd now i db = (Inr (cookie, expires), db1)" "db_faults db1 = []"
  shows "expires = now + 7 * day
    \<and> (t < expires \<longleftrightarrow> (\<exists>u. authenticate_session hash t cookie db1 = (Inr u, db1) \<and> us_id u = i))
    \<and> fst (authenticate_session hash t cookie (snd (delete_session hash cookie db1))) = Inl ErrTokenInvalid"
proof -
  obtain s where s: "rnd = Some s" "cookie = session_prefix @ s" "expires = now + session_lifetime"
    and v: "i \<in> set (map us_id (db_users db))" "hash cookie \<notin> set (map se_hash (db_sessions db))"
    and d: "db_sessions db1 = db_sessions db @ [\<lparr> se_id = newid, se_user = i, se_hash = hash cookie, se_expires = expires \<rparr>]"
      "db_users db1 = db_users db"
    using assms(2) by (auto simp: create_session_def new_token_def Let_def
        split: option.splits prod.splits if_splits sum.splits dest!: stmtD)
  have pre: "prefix session_prefix cookie" by (simp add: s(2))
  have old: "find (\<lambda>s. se_hash s = hash cookie \<and> t < se_expires s) (db_sessions db) = None"
    using v(2) by (auto simp: find_None_conv image_iff)
  obtain u where u: "find (\<lambda>u. us_id u = i) (db_users db) = Some u" "us_id u = i"
    using v(1) by (cases "find (\<lambda>u. us_id u = i) (db_users db)") (auto simp: find_None_conv dest: find_Some_conv)
  have auth: "authenticate_session hash t cookie db1 = (if t < expires then Inr u else Inl ErrTokenInvalid, db1)"
    using old pre assms(3) u(1) d by (simp add: authenticate_session_def stmt_no_fault find_append)
  have "delete_session hash cookie db1 = (Inr (), db1\<lparr>db_sessions := filter (\<lambda>s. se_hash s \<noteq> hash cookie) (db_sessions db1)\<rparr>)"
    using assms(3) by (simp add: delete_session_def stmt_no_fault)
  moreover have "find (\<lambda>s. se_hash s = hash cookie \<and> t < se_expires s)
      (filter (\<lambda>s. se_hash s \<noteq> hash cookie) (db_sessions db1)) = None" by (simp add: find_None_conv)
  ultimately have "fst (authenticate_session hash t cookie (snd (delete_session hash cookie db1))) = Inl ErrTokenInvalid"
    using pre assms(3) by (simp add: authenticate_session_def stmt_no_fault)
  then show ?thesis using auth u(2) s(3)
    by (simp add: session_lifetime_def day_def)
qed

theorem session_lifecycle_witness:
  "\<exists>cookie expires db1. create_session id other_id (Some ''x'') 5 sample_id (empty_db\<lparr>db_users :=
       [\<lparr> us_id = sample_id, us_github_id = 1, us_login = ''ann'', us_name = '''', us_avatar = '''',
          us_token = None, us_created = 0, us_last_login = 0 \<rparr>]\<rparr>) = (Inr (cookie, expires), db1)
    \<and> expires = 5 + 7 * day
    \<and> fst (authenticate_session id 6 cookie (snd (delete_session id cookie db1))) = Inl ErrTokenInvalid"
proof -
  let ?db = "empty_db\<lparr>db_users := [\<lparr> us_id = sample_id, us_github_id = 1, us_login = ''ann'', us_name = '''',
     us_avatar = '''', us_token = None, us_created = 0, us_last_login = 0 \<rparr>]\<rparr>"
  have ok: "db_ok ?db" by (rule db_ok_users [OF db_ok_empty]) (simp_all add: empty_db_def)
  obtain cookie expires db1 where c:
    "create_session id other_id (Some ''x'') 5 sample_id ?db = (Inr (cookie, expires), db1)" "db_faults db1 = []"
    by (simp add: create_session_def new_token_def stmt_def empty_db_def is_uuid_other Let_def)
  from session_lifecycle [OF ok c, of 6] c show ?thesis by blast
qed

end
