(* ===== verification/Store.thy ===== *)
theory Store
  imports Store_Commands Store_Events
begin

text \<open>
  The whole of \<open>internal/store\<close> as a transition relation on the database: one rule for each method
  of \<open>Store\<close>, with every argument, instant, random value and failure that the caller, the clock,
  \<open>crypto/rand\<close> or PostgreSQL may supply.
\<close>

inductive store_step :: "(string \<Rightarrow> string) \<Rightarrow> db \<Rightarrow> db \<Rightarrow> bool" for hash where
  "upsert_runner i now r db = (res, db') \<Longrightarrow> store_step hash db db'"
| "record_heartbeat now i hb db = (res, db') \<Longrightarrow> store_step hash db db'"
| "set_github_runner_id now i g db = (res1, db') \<Longrightarrow> store_step hash db db'"
| "get_runner i db = (res, db') \<Longrightarrow> store_step hash db db'"
| "list_runners opts db = (res2, db') \<Longrightarrow> store_step hash db db'"
| "delete_runner i db = (res1, db') \<Longrightarrow> store_step hash db db'"
| "count_runners now th db = (res3, db') \<Longrightarrow> store_step hash db db'"
| "retire_runner now i reason db = (res, db') \<Longrightarrow> store_step hash db db'"
| "create_enrollment_token hash i rnd now d m e db = (res4, db') \<Longrightarrow> store_step hash db db'"
| "redeem_enrollment_token hash now tok db = (res5, db') \<Longrightarrow> store_step hash db db'"
| "list_enrollment_tokens db = (res6, db') \<Longrightarrow> store_step hash db db'"
| "revoke_enrollment_token now i db = (res1, db') \<Longrightarrow> store_step hash db db'"
| "issue_machine_token hash j rnd now i db = (res7, db') \<Longrightarrow> store_step hash db db'"
| "authenticate_machine hash now tok db = (res, db') \<Longrightarrow> store_step hash db db'"
| "rotate_machine_token_if_old hash oob j rnd now i age db = (res8, db') \<Longrightarrow> store_step hash db db'"
| "revoke_machine_tokens now i db = (res1, db') \<Longrightarrow> store_step hash db db'"
| "queue_command j now i cmd by db = (res9, db') \<Longrightarrow> store_step hash db db'"
| "take_commands now i db = (res10, db') \<Longrightarrow> store_step hash db db'"
| "complete_command now i cid failure db = (res1, db') \<Longrightarrow> store_step hash db db'"
| "list_commands i n db = (res10, db') \<Longrightarrow> store_step hash db db'"
| "expire_stale_commands now age db = (res11, db') \<Longrightarrow> store_step hash db db'"
| "record_event now e db = (res12, db') \<Longrightarrow> store_step hash db db'"
| "record_events now es db = (res11, db') \<Longrightarrow> store_step hash db db'"
| "list_events eopts db = (res13, db') \<Longrightarrow> store_step hash db db'"
| "prune_events now n db = (res11, db') \<Longrightarrow> store_step hash db db'"
| "list_audit n db = (res14, db') \<Longrightarrow> store_step hash db db'"
| "record_audit now a b c detail db = (res1, db') \<Longrightarrow> store_step hash db db'"
| "upsert_user i now u token db = (res15, db') \<Longrightarrow> store_step hash db db'"
| "get_user i db = (res15, db') \<Longrightarrow> store_step hash db db'"
| "user_token i db = (res16, db') \<Longrightarrow> store_step hash db db'"
| "create_session hash j rnd now i db = (res17, db') \<Longrightarrow> store_step hash db db'"
| "authenticate_session hash now tok db = (res15, db') \<Longrightarrow> store_step hash db db'"
| "delete_session hash tok db = (res1, db') \<Longrightarrow> store_step hash db db'"
| "prune_sessions now db = (res11, db') \<Longrightarrow> store_step hash db db'"

lemma count_runners_ok: "db_ok db \<Longrightarrow> count_runners now th db = (res, db') \<Longrightarrow> db_ok db'"
  by (auto simp: count_runners_def split: prod.splits sum.splits dest: list_runners_ok)

lemmas store_ok =
  upsert_runner_ok record_heartbeat_ok set_github_runner_id_ok get_runner_ok list_runners_ok
  delete_runner_ok count_runners_ok retire_runner_ok create_enrollment_token_ok
  redeem_enrollment_token_ok list_enrollment_tokens_ok revoke_enrollment_token_ok
  issue_machine_token_ok authenticate_machine_ok rotate_machine_token_ok revoke_machine_tokens_ok
  queue_command_ok take_commands_ok complete_command_ok list_commands_ok expire_stale_commands_ok
  record_event_ok record_events_ok list_events_ok prune_events_ok list_audit_ok record_audit_ok
  upsert_user_ok get_user_ok user_token_ok create_session_ok authenticate_session_ok
  delete_session_ok prune_sessions_ok

lemma store_step_ok: "store_step hash db db' \<Longrightarrow> db_ok db \<Longrightarrow> db_ok db'"
  by (induction rule: store_step.induct) (auto dest: store_ok)

text \<open>
  The schema holds: in every database that any sequence of the store's methods can reach from
  an empty one, with statements failing at any point, identifiers, token hashes and the
  \<open>(host, scope, name)\<close> of runners are unique, statuses, scopes and severities are legal, and every
  token, command, event and session refers to a runner or user that exists.
\<close>

theorem schema_preserved:
  assumes "(store_step hash)\<^sup>*\<^sup>* db db'" "db_ok db"
  shows "db_ok db'"
  using assms by (induction rule: rtranclp_induct) (auto dest: store_step_ok)

theorem schema_preserved_witness: "db_ok restart_queued"
proof (rule schema_preserved [OF _ db_ok_empty])
  have "store_step id empty_db (empty_db\<lparr>db_runners := [sample_runner]\<rparr>)"
    by (rule store_step.intros(1) [OF upsert_sample])
  moreover have "\<exists>f. issue_machine_token id sample_id (Some ''a'') 0 sample_id (empty_db\<lparr>db_runners := [sample_runner]\<rparr>)
      = (Inr ''rnr_machine_a'', enrolled_db)"
    by (simp add: issue_machine_token_def new_token_def machine_prefix_def stmt_def enrolled_db_def
        empty_db_def is_uuid_sample update_where_def runner_exists_def sample_runner_def registered_row_def)
  then have "store_step id (empty_db\<lparr>db_runners := [sample_runner]\<rparr>) enrolled_db"
    by (auto intro: store_step.intros(13))
  moreover have "store_step id enrolled_db restart_queued"
    by (rule store_step.intros(17) [OF restart_queued_eq(1)])
  ultimately show "(store_step id)\<^sup>*\<^sup>* empty_db restart_queued"
    by (meson converse_rtranclp_into_rtranclp r_into_rtranclp)
qed

end
