(* ===== verification/Go_Strings.thy ===== *)
theory Go_Strings
  imports Prelude "HOL-Library.Sublist"
begin

text \<open>
  The parts of Go's \<open>strings\<close> and \<open>strconv\<close> packages that the program uses, on strings as lists of
  bytes. White space and letter case are those of ASCII.
\<close>

section \<open>Characters\<close>

definition is_space :: "char \<Rightarrow> bool" where
  "is_space c \<longleftrightarrow> c \<in> {CHR '' '', CHR 0x09, CHR 0x0A, CHR 0x0B, CHR 0x0C, CHR 0x0D}"

definition is_digit :: "char \<Rightarrow> bool" where
  "is_digit c \<longleftrightarrow> of_char c \<ge> (48::nat) \<and> of_char c \<le> (57::nat)"

definition lower_char :: "char \<Rightarrow> char" where
  "lower_char c = (let n = of_char c :: nat in if 65 \<le> n \<and> n \<le> 90 then char_of (n + 32) else c)"

definition to_lower :: "string \<Rightarrow> string" where
  "to_lower = map lower_char"

definition equal_fold :: "string \<Rightarrow> string \<Rightarrow> bool" where
  "equal_fold s t \<longleftrightarrow> to_lower s = to_lower t"

lemma lower_char_idem [simp]: "lower_char (lower_char c) = lower_char c"
proof -
  have "of_char (char_of (n + 32) :: char) = n + 32" if "n \<le> 90" for n :: nat
    using that by simp
  then show ?thesis by (auto simp: lower_char_def Let_def)
qed

lemma to_lower_idem [simp]: "to_lower (to_lower s) = to_lower s"
  by (simp add: to_lower_def o_def)

lemma equal_fold_refl [simp]: "equal_fold s s"
  by (simp add: equal_fold_def)

lemma equal_fold_sym: "equal_fold s t \<Longrightarrow> equal_fold t s"
  by (simp add: equal_fold_def)

lemma equal_fold_trans: "equal_fold s t \<Longrightarrow> equal_fold t u \<Longrightarrow> equal_fold s u"
  by (simp_all add: equal_fold_def)

section \<open>Trimming\<close>

definition trim_left :: "(char \<Rightarrow> bool) \<Rightarrow> string \<Rightarrow> string" where
  "trim_left p = dropWhile p"

definition trim_right :: "(char \<Rightarrow> bool) \<Rightarrow> string \<Rightarrow> string" where
  "trim_right p s = rev (dropWhile p (rev s))"

definition trim_space :: "string \<Rightarrow> string" where
  "trim_space s = trim_right is_space (trim_left is_space s)"

definition trim_prefix :: "string \<Rightarrow> string \<Rightarrow> string" where
  "trim_prefix p s = (if prefix p s then drop (length p) s else s)"

definition trim_suffix :: "string \<Rightarrow> string \<Rightarrow> string" where
  "trim_suffix p s = (if suffix p s then take (length s - length p) s else s)"

lemma trim_right_snoc [simp]: "trim_right p (s @ [c]) = (if p c then trim_right p s else s @ [c])"
  by (simp add: trim_right_def)

lemma trim_right_Nil [simp]: "trim_right p [] = []"
  by (simp add: trim_right_def)

lemma trim_left_idem [simp]: "trim_left p (trim_left p s) = trim_left p s"
  by (simp add: trim_left_def dropWhile_idem)

lemma trim_right_idem [simp]: "trim_right p (trim_right p s) = trim_right p s"
  by (simp add: trim_right_def dropWhile_idem)

lemma trim_right_prefix: "\<exists>t. s = trim_right p s @ t \<and> list_all p t"
proof (intro exI conjI)
  show "s = trim_right p s @ rev (takeWhile p (rev s))"
    unfolding trim_right_def by (metis rev_append rev_rev_ident takeWhile_dropWhile_id)
  show "list_all p (rev (takeWhile p (rev s)))" by (auto simp: list_all_iff dest: set_takeWhileD)
qed

lemma trim_left_trim_right: "trim_left p (trim_right p (trim_left p s)) = trim_right p (trim_left p s)"
proof (cases "trim_left p s")
  case (Cons c r)
  then have "\<not> p c" unfolding trim_left_def by (metis hd_dropWhile list.distinct(1) list.sel(1))
  moreover obtain t where t: "c # r = trim_right p (c # r) @ t" "list_all p t"
    using trim_right_prefix by blast
  ultimately obtain r' where "trim_right p (c # r) = c # r'"
    by (cases "trim_right p (c # r)") auto
  then show ?thesis using Cons \<open>\<not> p c\<close> by (simp add: trim_left_def)
next
  case Nil
  then show ?thesis by (simp only: trim_right_Nil) (simp add: trim_left_def)
qed

lemma trim_space_idem [simp]: "trim_space (trim_space s) = trim_space s"
  by (simp add: trim_space_def trim_left_trim_right)

lemma trim_space_Nil [simp]: "trim_space [] = []"
  by (simp add: trim_space_def trim_left_def)

section \<open>Splitting and joining\<close>

fun split_on :: "char \<Rightarrow> string \<Rightarrow> string list" where
  "split_on c [] = [[]]"
| "split_on c (x # xs) =
     (if x = c then [] # split_on c xs
      else case split_on c xs of [] \<Rightarrow> [[x]] | w # ws \<Rightarrow> (x # w) # ws)"

fun join_on :: "char \<Rightarrow> string list \<Rightarrow> string" where
  "join_on c [] = []"
| "join_on c [w] = w"
| "join_on c (w # v # ws) = w @ c # join_on c (v # ws)"

text \<open>\<open>strings.Cut\<close> at one byte: before, after, and whether it was found.\<close>

definition cut_at :: "char \<Rightarrow> string \<Rightarrow> string \<times> string \<times> bool" where
  "cut_at c s = (let a = takeWhile (\<lambda>x. x \<noteq> c) s
     in if length a < length s then (a, drop (Suc (length a)) s, True) else (s, [], False))"

lemma split_on_ne [simp]: "split_on c s \<noteq> []"
  by (induction s) (auto split: list.splits)

lemma join_split [simp]: "join_on c (split_on c s) = s"
proof (induction s)
  case (Cons x s)
  obtain w ws where "split_on c s = w # ws" by (metis neq_Nil_conv split_on_ne)
  then show ?case using Cons by (cases ws) auto
qed simp

lemma split_on_no_sep: "c \<notin> set w \<Longrightarrow> split_on c w = [w]"
  by (induction w) auto

lemma split_on_append: "c \<notin> set w \<Longrightarrow> split_on c (w @ c # s) = w # split_on c s"
  by (induction w) auto

lemma split_join: "ws \<noteq> [] \<Longrightarrow> \<forall>w\<in>set ws. c \<notin> set w \<Longrightarrow> split_on c (join_on c ws) = ws"
proof (induction c ws rule: join_on.induct)
  case (3 c w v ws)
  then show ?case by (simp add: split_on_append)
qed (auto simp: split_on_no_sep)

lemma split_on_parts: "w \<in> set (split_on c s) \<Longrightarrow> c \<notin> set w"
proof (induction s arbitrary: w)
  case (Cons x s)
  obtain v vs where "split_on c s = v # vs" by (metis neq_Nil_conv split_on_ne)
  then show ?case using Cons by (auto split: if_splits)
qed simp

lemma cut_at_append: "c \<notin> set a \<Longrightarrow> cut_at c (a @ c # b) = (a, b, True)"
proof -
  assume "c \<notin> set a"
  then have "takeWhile (\<lambda>x. x \<noteq> c) (a @ c # b) = a" by (induction a) auto
  then show ?thesis by (simp add: cut_at_def)
qed

lemma cut_at_none: "c \<notin> set s \<Longrightarrow> cut_at c s = (s, [], False)"
proof -
  assume "c \<notin> set s"
  then have "takeWhile (\<lambda>x. x \<noteq> c) s = s" by (auto simp: takeWhile_eq_all_conv)
  then show ?thesis unfolding cut_at_def Let_def by (simp only:) simp
qed

text \<open>Does a string occur in another, and every occurrence of a character replaced.\<close>

definition contains :: "string \<Rightarrow> string \<Rightarrow> bool" where
  "contains s sub \<longleftrightarrow> sublist sub s"

definition replace_char :: "char \<Rightarrow> string \<Rightarrow> string \<Rightarrow> string" where
  "replace_char c r s = concat (map (\<lambda>x. if x = c then r else [x]) s)"

section \<open>Numbers\<close>

fun digits :: "nat \<Rightarrow> string" where
  "digits n = (if n < 10 then [char_of (48 + n)] else digits (n div 10) @ [char_of (48 + n mod 10)])"

declare digits.simps [simp del]

definition itoa :: "int \<Rightarrow> string" where
  "itoa k = (if k < 0 then CHR ''-'' # digits (nat (- k)) else digits (nat k))"

definition digit_val :: "char \<Rightarrow> nat" where
  "digit_val c = of_char c - 48"

definition digits_val :: "string \<Rightarrow> nat" where
  "digits_val = foldl (\<lambda>n c. 10 * n + digit_val c) 0"

text \<open>\<open>strconv.Atoi\<close>: an optional sign and at least one digit, within 64 bits.\<close>

definition atoi :: "string \<Rightarrow> int option" where
  "atoi s =
     (let neg = (case s of c # _ \<Rightarrow> c = CHR ''-'' | [] \<Rightarrow> False);
          ds = (case s of c # r \<Rightarrow> if c = CHR ''-'' \<or> c = CHR ''+'' then r else s | [] \<Rightarrow> []);
          v = int (digits_val ds)
      in if ds = [] \<or> \<not> list_all is_digit ds then None
         else if neg then (if v \<le> 9223372036854775808 then Some (- v) else None)
         else if v \<le> 9223372036854775807 then Some v else None)"

lemma digit_char: "n < 10 \<Longrightarrow> is_digit (char_of (48 + n)) \<and> digit_val (char_of (48 + n)) = n"
  by (simp add: is_digit_def digit_val_def)

lemma digits_ok: "digits n \<noteq> [] \<and> list_all is_digit (digits n) \<and> digits_val (digits n) = n"
proof (induction n rule: digits.induct)
  case (1 n)
  show ?case
  proof (cases "n < 10")
    case True
    then have "digits n = [char_of (48 + n)]" by (simp add: digits.simps [of n])
    then show ?thesis using True by (simp add: digits_val_def digit_char)
  next
    case False
    then have "digits n = digits (n div 10) @ [char_of (48 + n mod 10)]" by (simp add: digits.simps [of n])
    then show ?thesis using 1 False by (simp add: digits_val_def digit_char)
  qed
qed

lemma digits_head: "hd (digits n) \<noteq> CHR ''-'' \<and> hd (digits n) \<noteq> CHR ''+''"
proof -
  have "is_digit (hd (digits n))" using digits_ok [of n] by (cases "digits n") auto
  then show ?thesis by (auto simp: is_digit_def)
qed

lemma atoi_itoa: "- 9223372036854775808 \<le> k \<Longrightarrow> k \<le> 9223372036854775807 \<Longrightarrow> atoi (itoa k) = Some k"
  using digits_ok [of "nat k"] digits_ok [of "nat (- k)"] digits_head [of "nat k"]
  by (cases "digits (nat k)") (auto simp: atoi_def itoa_def Let_def)

section \<open>Searching\<close>

text \<open>\<open>strings.Index\<close>: where a string first occurs.\<close>

fun index_of :: "string \<Rightarrow> string \<Rightarrow> nat option" where
  "index_of [] sub = (if sub = [] then Some 0 else None)"
| "index_of (c # s) sub = (if prefix sub (c # s) then Some 0 else map_option Suc (index_of s sub))"

definition trim_both :: "(char \<Rightarrow> bool) \<Rightarrow> string \<Rightarrow> string" where
  "trim_both p s = trim_right p (trim_left p s)"

text \<open>Joining with a separator of more than one byte.\<close>

fun join_with :: "string \<Rightarrow> string list \<Rightarrow> string" where
  "join_with sep [] = []"
| "join_with sep [w] = w"
| "join_with sep (w # v # ws) = w @ sep @ join_with sep (v # ws)"

lemma index_of_absent: "hd sub \<notin> set s \<Longrightarrow> sub \<noteq> [] \<Longrightarrow> index_of s sub = None"
  by (induction s sub rule: index_of.induct) (auto simp: prefix_def neq_Nil_conv)

lemma index_of_first:
  "sub \<noteq> [] \<Longrightarrow> hd sub \<notin> set a \<Longrightarrow> index_of (a @ sub @ b) sub = Some (length a)"
proof (induction a)
  case Nil
  then show ?case by (cases sub) auto
next
  case (Cons c a)
  then have "\<not> prefix sub (c # a @ sub @ b)" by (cases sub) auto
  then show ?case using Cons by simp
qed

lemma trim_left_id: "s = [] \<or> \<not> p (hd s) \<Longrightarrow> trim_left p s = s"
  by (cases s) (auto simp: trim_left_def)

lemma trim_right_id: "s = [] \<or> \<not> p (last s) \<Longrightarrow> trim_right p s = s"
proof (cases s rule: rev_cases)
  case (snoc t c)
  then show "s = [] \<or> \<not> p (last s) \<Longrightarrow> trim_right p s = s" by simp
qed simp

lemma trim_space_id: "s = [] \<or> \<not> is_space (hd s) \<and> \<not> is_space (last s) \<Longrightarrow> trim_space s = s"
  by (auto simp: trim_space_def trim_left_id trim_right_id)

section \<open>Replacing\<close>

text \<open>\<open>strings.ReplaceAll\<close> for a text that is not empty.\<close>

function replace_all :: "string \<Rightarrow> string \<Rightarrow> string \<Rightarrow> string" where
  "replace_all sub r [] = []"
| "replace_all sub r (c # s) =
     (if sub \<noteq> [] \<and> prefix sub (c # s) then r @ replace_all sub r (drop (length sub) (c # s))
      else c # replace_all sub r s)"
  by pat_completeness auto
termination by (relation "measure (\<lambda>(sub, r, s). length s)") (auto simp: neq_Nil_conv)

lemma replace_all_prefix:
  "r \<noteq> [] \<Longrightarrow> hd r \<notin> set t \<Longrightarrow> prefix t (replace_all sub r s) \<Longrightarrow> prefix t s"
proof (induction s arbitrary: t)
  case (Cons c s)
  show ?case
  proof (cases t)
    case t: (Cons x u)
    show ?thesis
    proof (cases "sub \<noteq> [] \<and> prefix sub (c # s)")
      case True
      then show ?thesis using Cons.prems t by (cases r) auto
    next
      case False
      then show ?thesis using Cons.prems Cons.IH [of u] t by (auto split: if_splits)
    qed
  qed simp
qed auto

lemma sublist_skip: "set xs \<inter> set t = {} \<Longrightarrow> t \<noteq> [] \<Longrightarrow> sublist t (xs @ ys) \<Longrightarrow> sublist t ys"
proof (induction xs)
  case (Cons x xs)
  then have "\<not> prefix t (x # xs @ ys)" by (cases t) auto
  then show ?case using Cons by (simp add: sublist_Cons_right)
qed simp

text \<open>What was replaced is gone, when the replacement has no character in common with it.\<close>

lemma replace_all_gone:
  "sub \<noteq> [] \<Longrightarrow> r \<noteq> [] \<Longrightarrow> set r \<inter> set sub = {} \<Longrightarrow> \<not> contains (replace_all sub r s) sub"
proof (induction sub r s rule: replace_all.induct)
  case (2 sub r c s)
  show ?case
  proof (cases "prefix sub (c # s)")
    case True
    then have "\<not> sublist sub (replace_all sub r (drop (length sub) (c # s)))"
      using 2 by (simp add: contains_def)
    then show ?thesis using True 2(3-5) sublist_skip [of r sub] by (auto simp: contains_def)
  next
    case False
    have "\<not> prefix sub (c # replace_all sub r s)"
    proof
      assume p: "prefix sub (c # replace_all sub r s)"
      then obtain t where t: "sub = c # t" using 2(3) by (cases sub) auto
      then have "prefix t s" using p replace_all_prefix [of r t sub s] 2(4,5) by (cases r) auto
      then show False using False t by simp
    qed
    then show ?thesis using False 2 by (simp add: contains_def sublist_Cons_right)
  qed
qed (simp add: contains_def)

end
