(* ===== verification/Server_Model.thy ===== *)
theory Server_Model
  imports Store Ratelimit Go_Strings
begin

text \<open>
  \<open>internal/server\<close>, the parts every handler shares: its configuration and state, requests and
  responses (\<open>respond.go\<close>), and authentication (\<open>auth.go\<close>). A handler takes what the outside world
  supplies while it runs (the clocks, fresh identifiers and random tokens, GitHub's answers) as a
  record \<open>env\<close>. Logging is left out, and of an error response its status and code are kept, not the
  wording of its message and hint.
\<close>

section \<open>Configuration and state\<close>

record server_config =
  sc_client_id :: string
  sc_client_secret :: string
  sc_allowed_logins :: "string list"
  sc_public_url :: string
  sc_thresholds :: thresholds
  sc_interval :: duration
  sc_token_lifetime :: duration
  sc_secure_cookies :: bool
  sc_has_key :: bool
  sc_metrics_enabled :: bool
  sc_metrics_token :: string
  sc_trust_forwarded :: bool

record server_options =
  op_client_id :: string
  op_client_secret :: string
  op_allowed_logins :: "string list"
  op_public_url :: string
  op_thresholds :: thresholds
  op_interval :: duration
  op_token_lifetime :: duration
  op_has_key :: bool
  op_metrics_enabled :: bool
  op_metrics_token :: string
  op_requests_per_minute :: int
  op_auth_per_minute :: int
  op_trust_forwarded :: bool

record server =
  sv_db :: db
  sv_heartbeats :: int
  sv_restarts :: int
  sv_agent_errors :: int
  sv_rate_limited :: int
  sv_requests :: "string \<Rightarrow> int"
  sv_general :: "limiter option"
  sv_auth :: "limiter option"
  sv_fleet :: counts

definition new_config :: "server_options \<Rightarrow> server_config" where
  "new_config o1 = \<lparr>
     sc_client_id = op_client_id o1, sc_client_secret = op_client_secret o1,
     sc_allowed_logins = op_allowed_logins o1,
     sc_public_url = trim_right (\<lambda>c. c = CHR ''/'') (op_public_url o1),
     sc_thresholds = (if th_stale (op_thresholds o1) = 0 \<and> th_offline (op_thresholds o1) = 0
                      then default_thresholds else op_thresholds o1),
     sc_interval = (if op_interval o1 \<le> 0 then 20 * second else op_interval o1),
     sc_token_lifetime = op_token_lifetime o1,
     sc_secure_cookies = prefix ''https://'' (op_public_url o1),
     sc_has_key = op_has_key o1,
     sc_metrics_enabled = op_metrics_enabled o1, sc_metrics_token = op_metrics_token o1,
     sc_trust_forwarded = op_trust_forwarded o1 \<rparr>"

definition new_server :: "server_options \<Rightarrow> db \<Rightarrow> server" where
  "new_server o1 db = \<lparr> sv_db = db, sv_heartbeats = 0, sv_restarts = 0, sv_agent_errors = 0,
     sv_rate_limited = 0, sv_requests = (\<lambda>_. 0),
     sv_general = (if 0 < op_requests_per_minute o1
                   then Some (new_limiter (per_minute (op_requests_per_minute o1))) else None),
     sv_auth = (if 0 < op_auth_per_minute o1
                then Some (new_limiter (per_minute (op_auth_per_minute o1))) else None),
     sv_fleet = no_counts \<rparr>"

section \<open>Requests\<close>

text \<open>What decoding the body yields: the value of the type the endpoint expects, or why not.\<close>

record heartbeat_request =
  hr_status :: string
  hr_detail :: string
  hr_cpu :: rat
  hr_memory :: rat
  hr_disk :: rat
  hr_runner_version :: string
  hr_agent_version :: string

record agent_event =
  ae_event :: string
  ae_severity :: string
  ae_message :: string
  ae_data :: json_object

record token_request =
  tr_description :: string
  tr_max_uses :: "int option"
  tr_expires_in_hours :: int

datatype body =
    BodyTooLarge
  | BodyInvalid
  | BodyRegister register_runner
  | BodyHeartbeat heartbeat_request
  | BodyEvents "agent_event list"
  | BodyCommandResult string
  | BodyRetire string
  | BodyToken token_request

record request =
  rq_method :: string
  rq_path :: "string list"
  rq_authorization :: string
  rq_forwarded_for :: string
  rq_remote :: string
  rq_cookies :: "(string \<times> string) list"
  rq_query :: "(string \<times> string) list"
  rq_body :: body

record env =
  en_now :: go_time
  en_dbnow :: go_time
  en_hash :: "string \<Rightarrow> string"
  en_id :: "nat \<Rightarrow> string"
  en_rand :: "nat \<Rightarrow> string option"
  en_state :: "string option"
  en_oob :: int
  en_exchange :: "string option"          \<comment> \<open>the access token GitHub exchanges the code for\<close>
  en_identity :: "github_user option"     \<comment> \<open>whom GitHub says it belongs to\<close>
  en_sealed :: "string option"            \<comment> \<open>the token, encrypted with the server's key\<close>
  en_page_status :: int                   \<comment> \<open>the dashboard's static files\<close>

section \<open>Responses\<close>

record runner_view =
  vw_runner :: runner_row
  vw_status :: string
  vw_health :: health
  vw_age :: "rat option"

datatype reply =
    RError string
  | RRegistered runner_row string int
  | RHeartbeat runner_row int "(string \<times> string) list" string
  | RRecorded
  | RStored int
  | RRetired string "go_time option"
  | RConfig runner_row int
  | ROverview counts "runner_event list" int int
  | RRunners "runner_view list"
  | RRunner runner_view
  | RDeleted string
  | RRestart command_row int
  | RCommands "command_row list"
  | REvents "runner_event list"
  | RAudit "audit_entry list"
  | RToken enrollment_token string
  | RTokens "enrollment_token list"
  | RRevoked string
  | RSession user_row
  | RSignedOut
  | RAuthConfig bool
  | RHealth bool
  | RMetrics
  | RPage
  | REmpty

record response =
  rs_status :: int
  rs_reply :: reply
  rs_cookies :: "(string \<times> string \<times> int) list"
  rs_location :: "string option"
  rs_retry_after :: "int option"

definition write_json :: "int \<Rightarrow> reply \<Rightarrow> response" where
  "write_json status r = \<lparr> rs_status = status, rs_reply = r, rs_cookies = [], rs_location = None,
     rs_retry_after = None \<rparr>"

definition fail :: "int \<Rightarrow> string \<Rightarrow> response" where
  "fail status code = write_json status (RError code)"

definition fail_internal :: response where
  "fail_internal = fail 500 ''internal_error''"

definition fail_store :: "db_error \<Rightarrow> response" where
  "fail_store e = (if e = ErrNotFound then fail 404 ''not_found'' else fail_internal)"

text \<open>\<open>decode\<close> of a body of a given type; \<open>select\<close> recognises it.\<close>

definition decode :: "(body \<Rightarrow> 'a option) \<Rightarrow> request \<Rightarrow> response + 'a" where
  "decode select rq =
     (case rq_body rq of
        BodyTooLarge \<Rightarrow> Inl (fail 413 ''body_too_large'')
      | b \<Rightarrow> (case select b of None \<Rightarrow> Inl (fail 400 ''invalid_body'') | Some v \<Rightarrow> Inr v))"

fun body_register :: "body \<Rightarrow> register_runner option" where
  "body_register (BodyRegister r) = Some r" | "body_register _ = None"
fun body_heartbeat :: "body \<Rightarrow> heartbeat_request option" where
  "body_heartbeat (BodyHeartbeat h) = Some h" | "body_heartbeat _ = None"
fun body_events :: "body \<Rightarrow> agent_event list option" where
  "body_events (BodyEvents es) = Some es" | "body_events _ = None"
fun body_command :: "body \<Rightarrow> string option" where
  "body_command (BodyCommandResult e) = Some e" | "body_command _ = None"
fun body_retire :: "body \<Rightarrow> string option" where
  "body_retire (BodyRetire r) = Some r" | "body_retire _ = None"
fun body_token :: "body \<Rightarrow> token_request option" where
  "body_token (BodyToken t) = Some t" | "body_token _ = None"

definition query :: "request \<Rightarrow> string \<Rightarrow> string" where
  "query rq name = (case map_of (rq_query rq) name of None \<Rightarrow> '''' | Some v \<Rightarrow> v)"

definition int_query :: "request \<Rightarrow> string \<Rightarrow> int \<Rightarrow> response + int" where
  "int_query rq name fallback =
     (let raw = query rq name
      in if raw = '''' then Inr fallback
         else case atoi raw of
                None \<Rightarrow> Inl (fail 400 ''invalid_request'')
              | Some v \<Rightarrow> if v < 0 then Inl (fail 400 ''invalid_request'') else Inr v)"

section \<open>Authentication\<close>

definition session_cookie :: string where "session_cookie = ''runnerly_session''"
definition oauth_cookie :: string where "oauth_cookie = ''runnerly_oauth_state''"

definition bearer_token :: "request \<Rightarrow> string" where
  "bearer_token rq =
     (let header = rq_authorization rq; pre = ''Bearer ''
      in if length header \<le> length pre \<or> \<not> equal_fold (take (length pre) header) pre then ''''
         else trim_space (drop (length pre) header))"

text \<open>Cookies are set with the path \<open>/\<close>, HttpOnly and SameSite Lax; their age in seconds is kept.\<close>

definition set_cookie :: "string \<Rightarrow> string \<Rightarrow> int \<Rightarrow> response \<Rightarrow> response" where
  "set_cookie name value age r = r\<lparr>rs_cookies := (name, value, age) # rs_cookies r\<rparr>"

definition clear_session_cookie :: "response \<Rightarrow> response" where
  "clear_session_cookie = set_cookie session_cookie '''' (-1)"

type_synonym handler = "env \<Rightarrow> server_config \<Rightarrow> request \<Rightarrow> server \<Rightarrow> response \<times> server"

text \<open>A call of the store from a handler.\<close>

definition on_db :: "(db \<Rightarrow> 'a \<times> db) \<Rightarrow> server \<Rightarrow> 'a \<times> server" where
  "on_db f s = (let (r, d) = f (sv_db s) in (r, s\<lparr>sv_db := d\<rparr>))"

definition require_machine :: "(runner_row \<Rightarrow> handler) \<Rightarrow> handler" where
  "require_machine next_h env cfg rq s =
     (let token = bearer_token rq
      in if token = '''' then (fail 401 ''no_credentials'', s)
         else case on_db (authenticate_machine (en_hash env) (en_dbnow env) token) s of
                (Inl e, s) \<Rightarrow>
                  (if e = ErrTokenInvalid \<or> e = ErrNotFound then fail 401 ''invalid_credentials''
                   else fail_internal, s)
              | (Inr runner, s) \<Rightarrow> next_h runner env cfg rq s)"

definition require_user :: "(user_row \<Rightarrow> handler) \<Rightarrow> handler" where
  "require_user next_h env cfg rq s =
     (let cookie = (case map_of (rq_cookies rq) session_cookie of None \<Rightarrow> '''' | Some v \<Rightarrow> v)
      in if cookie = '''' then (fail 401 ''not_signed_in'', s)
         else case on_db (authenticate_session (en_hash env) (en_dbnow env) cookie) s of
                (Inl e, s) \<Rightarrow>
                  (if e = ErrTokenInvalid then clear_session_cookie (fail 401 ''session_expired'')
                   else fail_internal, s)
              | (Inr user, s) \<Rightarrow> next_h user env cfg rq s)"

definition oauth_configured :: "server_config \<Rightarrow> bool" where
  "oauth_configured cfg \<longleftrightarrow> sc_client_id cfg \<noteq> '''' \<and> sc_client_secret cfg \<noteq> ''''"

definition oauth_missing :: "server_config \<Rightarrow> string list" where
  "oauth_missing cfg =
     (if sc_client_id cfg = '''' then [''server.oauth.client_id''] else [])
     @ (if sc_client_secret cfg = '''' then [''server.oauth.client_secret (or RUNNERLY_OAUTH_CLIENT_SECRET)''] else [])
     @ (if sc_public_url cfg = '''' then [''server.url, which the callback URL is built from''] else [])"

definition oauth_unavailable :: response where
  "oauth_unavailable = fail 501 ''oauth_not_configured''"

definition login_allowed :: "server_config \<Rightarrow> string \<Rightarrow> bool" where
  "login_allowed cfg login \<longleftrightarrow>
     (if sc_allowed_logins cfg = [] then True
      else list_ex (\<lambda>allowed. equal_fold (trim_space allowed) login) (sc_allowed_logins cfg))"

text \<open>\<open>clientKey\<close>; a remote address that is not \<open>host:port\<close> is its own key.\<close>

definition split_host :: "string \<Rightarrow> string option" where
  "split_host addr =
     (case split_on CHR '':'' addr of
        [h, p] \<Rightarrow> Some h
      | _ \<Rightarrow>
          (let (inner, rest, found) = cut_at CHR '']'' addr
           in if found \<and> prefix ''['' inner \<and> prefix '':'' rest \<and> CHR '':'' \<notin> set (tl rest)
              then Some (tl inner) else None))"

definition client_key :: "server_config \<Rightarrow> request \<Rightarrow> string" where
  "client_key cfg rq =
     (if sc_trust_forwarded cfg \<and> rq_forwarded_for rq \<noteq> ''''
      then (case cut_at CHR '','' (rq_forwarded_for rq) of
              (first, _, True) \<Rightarrow> trim_space first
            | _ \<Rightarrow> trim_space (rq_forwarded_for rq))
      else case split_host (rq_remote rq) of None \<Rightarrow> rq_remote rq | Some h \<Rightarrow> h)"

definition status_class :: "int \<Rightarrow> string" where
  "status_class code =
     (if code < 200 then ''1xx'' else if code < 300 then ''2xx'' else if code < 400 then ''3xx''
      else if code < 500 then ''4xx'' else ''5xx'')"

text \<open>The two limiters are separate fields; \<open>limited\<close> is \<open>withRateLimit\<close> on one of them.\<close>

definition limited ::
  "(server \<Rightarrow> limiter option) \<Rightarrow> (limiter \<Rightarrow> server \<Rightarrow> server) \<Rightarrow> handler \<Rightarrow> handler"
where
  "limited get put next_h env cfg rq s =
     (case get s of
        None \<Rightarrow> next_h env cfg rq s
      | Some l \<Rightarrow>
          (case allow (en_oob env) (en_now env) (client_key cfg rq) l of
             ((True, _), l) \<Rightarrow> next_h env cfg rq (put l s)
           | ((False, retry), l) \<Rightarrow>
               let s = put l s;
                   s = s\<lparr>sv_rate_limited := sv_rate_limited s + 1\<rparr>
               in ((fail 429 ''rate_limited'')\<lparr>rs_retry_after := Some (retry_after retry)\<rparr>, s)))"

definition put_general :: "limiter \<Rightarrow> server \<Rightarrow> server" where
  "put_general l s = s\<lparr>sv_general := Some l\<rparr>"

definition put_auth :: "limiter \<Rightarrow> server \<Rightarrow> server" where
  "put_auth l s = s\<lparr>sv_auth := Some l\<rparr>"

definition with_request_log :: "handler \<Rightarrow> handler" where
  "with_request_log next_h env cfg rq s =
     (let (r, s) = next_h env cfg rq s;
          c = status_class (rs_status r)
      in (r, s\<lparr>sv_requests := (sv_requests s)(c := sv_requests s c + 1)\<rparr>))"

end
