(* ===== verification/Server_Handlers.thy ===== *)
theory Server_Handlers
  imports Server_Model
begin

text \<open>
  The endpoints of \<open>internal/server\<close>: \<open>agent.go\<close>, \<open>api.go\<close>, \<open>oauth.go\<close>, the rest of
  \<open>observability.go\<close>, and the routing of \<open>server.go\<close>.
\<close>

section \<open>Agents\<close>

definition interval_seconds :: "server_config \<Rightarrow> int" where
  "interval_seconds cfg = go_div (sc_interval cfg) second"

text \<open>An event the server writes for its own record; a failure is only logged.\<close>

definition note_event :: "env \<Rightarrow> string \<Rightarrow> string \<Rightarrow> string \<Rightarrow> json_object \<Rightarrow> server \<Rightarrow> server" where
  "note_event env i event message data s =
     snd (on_db (record_event (en_dbnow env) \<lparr> ne_runner = i, ne_event = event, ne_severity = ''info'',
       ne_message = message, ne_data = data \<rparr>) s)"

definition note_audit :: "env \<Rightarrow> string \<Rightarrow> string \<Rightarrow> string \<Rightarrow> json_object \<Rightarrow> server \<Rightarrow> server" where
  "note_audit env actor action target detail s =
     snd (on_db (record_audit (en_dbnow env) actor action target detail) s)"

definition handle_agent_register :: handler where
  "handle_agent_register env cfg rq s =
     (let token = bearer_token rq
      in if token = '''' then (fail 401 ''no_credentials'', s)
         else case decode body_register rq of
                Inl r \<Rightarrow> (r, s)
              | Inr req \<Rightarrow>
                  if rr_name req = '''' \<or> rr_scope_id req = '''' then (fail 400 ''invalid_request'', s)
                  else if rr_scope req \<noteq> ''repository'' \<and> rr_scope req \<noteq> ''organization''
                  then (fail 400 ''invalid_request'', s)
                  else case on_db (redeem_enrollment_token (en_hash env) (en_dbnow env) token) s of
                         (Inl e, s) \<Rightarrow>
                           (if e = ErrTokenInvalid then fail 401 ''invalid_credentials''
                            else if e = ErrTokenExhausted then fail 403 ''token_exhausted''
                            else fail_internal, s)
                       | (Inr _, s) \<Rightarrow>
                           (case on_db (upsert_runner (en_id env 0) (en_dbnow env) req) s of
                              (Inl e, s) \<Rightarrow> (fail_internal, s)
                            | (Inr runner, s) \<Rightarrow>
                                (case on_db (issue_machine_token (en_hash env) (en_id env 1) (en_rand env 0)
                                               (en_dbnow env) (rn_id runner)) s of
                                   (Inl e, s) \<Rightarrow> (fail_internal, s)
                                 | (Inr machine_token, s) \<Rightarrow>
                                     let s = note_event env (rn_id runner) ''runner_enrolled''
                                               ''the machine enrolled with the control plane''
                                               [(''agent_version'', rr_agent_version req)] s
                                     in (write_json 201 (RRegistered runner machine_token (interval_seconds cfg)), s))))"

definition handle_agent_heartbeat :: "runner_row \<Rightarrow> handler" where
  "handle_agent_heartbeat runner env cfg rq s =
     (case decode body_heartbeat rq of
        Inl r \<Rightarrow> (r, s)
      | Inr req \<Rightarrow>
          if hr_status req \<noteq> '''' \<and> \<not> status_ok (hr_status req) then (fail 400 ''invalid_request'', s)
          else case on_db (record_heartbeat (en_dbnow env) (rn_id runner)
                  \<lparr> hb_status = hr_status req, hb_detail = hr_detail req, hb_cpu = hr_cpu req,
                     hb_memory = hr_memory req, hb_disk = hr_disk req,
                     hb_runner_version = hr_runner_version req, hb_agent_version = hr_agent_version req \<rparr>) s of
                 (Inl e, s) \<Rightarrow> (fail_store e, s)
               | (Inr updated, s) \<Rightarrow>
                   let s = s\<lparr>sv_heartbeats := sv_heartbeats s + 1\<rparr>;
                       (taken, s) = on_db (take_commands (en_dbnow env) (rn_id runner)) s;
                       pending = (case taken of Inl _ \<Rightarrow> [] | Inr cs \<Rightarrow> map (\<lambda>c. (cm_id c, cm_command c)) cs);
                       (rot, s) = on_db (rotate_machine_token_if_old (en_hash env) (en_oob env) (en_id env 0)
                                    (en_rand env 0) (en_dbnow env) (rn_id runner) (sc_token_lifetime cfg)) s;
                       (rotated, did) = (case rot of Inl _ \<Rightarrow> ('''', False) | Inr x \<Rightarrow> x);
                       s = (if did then note_event env (rn_id runner) ''machine_token_rotated''
                                          ''the agent was issued a new credential'' [] s else s)
                   in (write_json 200 (RHeartbeat updated (interval_seconds cfg) pending rotated), s))"

definition handle_agent_command_result :: "string \<Rightarrow> runner_row \<Rightarrow> handler" where
  "handle_agent_command_result cid runner env cfg rq s =
     (case decode body_command rq of
        Inl r \<Rightarrow> (r, s)
      | Inr err \<Rightarrow>
          (case on_db (complete_command (en_dbnow env) (rn_id runner) cid err) s of
             (Inl e, s) \<Rightarrow> (fail_store e, s)
           | (Inr _, s) \<Rightarrow> (write_json 200 RRecorded, s)))"

definition max_events_per_request :: nat where
  "max_events_per_request = 200"

definition agent_batch :: "runner_row \<Rightarrow> agent_event list \<Rightarrow> new_event list" where
  "agent_batch runner = map (\<lambda>e. \<lparr> ne_runner = rn_id runner, ne_event = ae_event e,
     ne_severity = ae_severity e, ne_message = ae_message e, ne_data = ae_data e \<rparr>)"

definition count_event :: "new_event \<Rightarrow> server \<Rightarrow> server" where
  "count_event e s =
     (if ne_severity e = ''error'' then s\<lparr>sv_agent_errors := sv_agent_errors s + 1\<rparr>
      else if ne_event e = ''runner_restarting'' then s\<lparr>sv_restarts := sv_restarts s + 1\<rparr>
      else s)"

definition handle_agent_events :: "runner_row \<Rightarrow> handler" where
  "handle_agent_events runner env cfg rq s =
     (case decode body_events rq of
        Inl r \<Rightarrow> (r, s)
      | Inr es \<Rightarrow>
          if max_events_per_request < length es then (fail 400 ''too_many_events'', s)
          else if list_ex (\<lambda>e. ae_severity e \<noteq> '''' \<and> \<not> severity_ok (ae_severity e)) es
          then (fail 400 ''invalid_request'', s)
          else
            let batch = agent_batch runner es;
                s = fold count_event batch s
            in case on_db (record_events (en_dbnow env) batch) s of
                 (Inl e, s) \<Rightarrow> (fail_internal, s)
               | (Inr n, s) \<Rightarrow> (write_json 200 (RStored n), s))"

definition handle_agent_retire :: "runner_row \<Rightarrow> handler" where
  "handle_agent_retire runner env cfg rq s =
     (case decode body_retire rq of
        Inl r \<Rightarrow> (r, s)
      | Inr reason \<Rightarrow>
          (case on_db (retire_runner (en_dbnow env) (rn_id runner) reason) s of
             (Inl e, s) \<Rightarrow> (fail_store e, s)
           | (Inr x, s) \<Rightarrow>
               let s = note_event env (rn_id runner) ''runner_retired'' reason [] s
               in (write_json 200 (RRetired (rn_name x) (rn_retired_at x)), s)))"

definition handle_agent_config :: "runner_row \<Rightarrow> handler" where
  "handle_agent_config runner env cfg rq s = (write_json 200 (RConfig runner (interval_seconds cfg)), s)"

section \<open>The dashboard\<close>

definition view :: "env \<Rightarrow> server_config \<Rightarrow> runner_row \<Rightarrow> runner_view" where
  "view env cfg r = \<lparr> vw_runner = r,
     vw_status = effective_status r (en_now env) (sc_thresholds cfg),
     vw_health = runner_health r (en_now env) (sc_thresholds cfg),
     vw_age = map_option (\<lambda>hb. dur_seconds (time_sub (en_now env) hb)) (rn_heartbeat r) \<rparr>"

definition handle_overview :: "user_row \<Rightarrow> handler" where
  "handle_overview user env cfg rq s =
     (case on_db (count_runners (en_now env) (sc_thresholds cfg)) s of
        (Inl e, s) \<Rightarrow> (fail_internal, s)
      | (Inr c, s) \<Rightarrow>
          (case on_db (list_events \<lparr> le_runner = '''', le_severity = '''', le_before = 0, le_limit = 20 \<rparr>) s of
             (Inl e, s) \<Rightarrow> (fail_internal, s)
           | (Inr es, s) \<Rightarrow>
               (write_json 200 (ROverview c es (go_div (th_stale (sc_thresholds cfg)) second)
                  (go_div (th_offline (sc_thresholds cfg)) second)), s)))"

definition handle_list_runners :: "user_row \<Rightarrow> handler" where
  "handle_list_runners user env cfg rq s =
     (case int_query rq ''limit'' 0 of
        Inl r \<Rightarrow> (r, s)
      | Inr limit \<Rightarrow>
          (case on_db (list_runners \<lparr> lr_scope = query rq ''scope'',
                  lr_include_retired = (query rq ''retired'' = ''true''), lr_limit = limit \<rparr>) s of
             (Inl e, s) \<Rightarrow> (fail_internal, s)
           | (Inr rs, s) \<Rightarrow> (write_json 200 (RRunners (map (view env cfg) rs)), s)))"

definition handle_get_runner :: "string \<Rightarrow> user_row \<Rightarrow> handler" where
  "handle_get_runner i user env cfg rq s =
     (case on_db (get_runner i) s of
        (Inl e, s) \<Rightarrow> (fail_store e, s)
      | (Inr r, s) \<Rightarrow> (write_json 200 (RRunner (view env cfg r)), s))"

definition handle_delete_runner :: "string \<Rightarrow> user_row \<Rightarrow> handler" where
  "handle_delete_runner i user env cfg rq s =
     (case on_db (get_runner i) s of
        (Inl e, s) \<Rightarrow> (fail_store e, s)
      | (Inr r, s) \<Rightarrow>
          (case on_db (delete_runner i) s of
             (Inl e, s) \<Rightarrow> (fail_store e, s)
           | (Inr _, s) \<Rightarrow>
               let s = note_audit env (us_login user) ''runner.delete'' (rn_name r)
                         [(''scope'', rn_scope_id r)] s
               in (write_json 200 (RDeleted (rn_name r)), s)))"

definition handle_restart_runner :: "string \<Rightarrow> user_row \<Rightarrow> handler" where
  "handle_restart_runner i user env cfg rq s =
     (case on_db (get_runner i) s of
        (Inl e, s) \<Rightarrow> (fail_store e, s)
      | (Inr r, s) \<Rightarrow>
          (case on_db (queue_command (en_id env 0) (en_dbnow env) (rn_id r) ''restart'' (us_login user)) s of
             (Inl e, s) \<Rightarrow> (fail_internal, s)
           | (Inr c, s) \<Rightarrow>
               let s = note_audit env (us_login user) ''runner.restart'' (rn_name r) [] s;
                   s = note_event env (rn_id r) ''restart_requested'' (us_login user @ '' asked for a restart'') [] s
               in (write_json 202 (RRestart c (interval_seconds cfg)), s)))"

definition handle_list_commands :: "string \<Rightarrow> user_row \<Rightarrow> handler" where
  "handle_list_commands i user env cfg rq s =
     (case int_query rq ''limit'' 0 of
        Inl r \<Rightarrow> (r, s)
      | Inr limit \<Rightarrow>
          (case on_db (list_commands i limit) s of
             (Inl e, s) \<Rightarrow> (fail_internal, s)
           | (Inr cs, s) \<Rightarrow> (write_json 200 (RCommands cs), s)))"

definition handle_list_events :: "user_row \<Rightarrow> handler" where
  "handle_list_events user env cfg rq s =
     (case int_query rq ''limit'' 0 of
        Inl r \<Rightarrow> (r, s)
      | Inr limit \<Rightarrow>
          (case int_query rq ''before'' 0 of
             Inl r \<Rightarrow> (r, s)
           | Inr before \<Rightarrow>
               (case on_db (list_events \<lparr> le_runner = query rq ''runner_id'',
                       le_severity = query rq ''severity'', le_before = before, le_limit = limit \<rparr>) s of
                  (Inl e, s) \<Rightarrow> (fail_internal, s)
                | (Inr es, s) \<Rightarrow> (write_json 200 (REvents es), s))))"

definition handle_list_audit :: "user_row \<Rightarrow> handler" where
  "handle_list_audit user env cfg rq s =
     (case int_query rq ''limit'' 0 of
        Inl r \<Rightarrow> (r, s)
      | Inr limit \<Rightarrow>
          (case on_db (list_audit limit) s of
             (Inl e, s) \<Rightarrow> (fail_internal, s)
           | (Inr es, s) \<Rightarrow> (write_json 200 (RAudit es), s)))"

text \<open>A duration of hours is a product of 64-bit integers and wraps around.\<close>

definition wrap64 :: "int \<Rightarrow> int" where
  "wrap64 k = (k + 9223372036854775808) mod 18446744073709551616 - 9223372036854775808"

definition handle_create_enrollment_token :: "user_row \<Rightarrow> handler" where
  "handle_create_enrollment_token user env cfg rq s =
     (case decode body_token rq of
        Inl r \<Rightarrow> (r, s)
      | Inr req \<Rightarrow>
          if (case tr_max_uses req of None \<Rightarrow> False | Some m \<Rightarrow> m < 1) then (fail 400 ''invalid_request'', s)
          else if tr_expires_in_hours req < 0 then (fail 400 ''invalid_request'', s)
          else
            let expires = (if 0 < tr_expires_in_hours req
                           then Some (en_now env + wrap64 (tr_expires_in_hours req * hour)) else None)
            in case on_db (create_enrollment_token (en_hash env) (en_id env 0) (en_rand env 0) (en_dbnow env)
                     (tr_description req) (tr_max_uses req) expires) s of
                 (Inl e, s) \<Rightarrow> (fail_internal, s)
               | (Inr (t, secret), s) \<Rightarrow>
                   let s = note_audit env (us_login user) ''enrollment_token.create'' (et_id t) [] s
                   in (write_json 201 (RToken t secret), s))"

definition handle_list_enrollment_tokens :: "user_row \<Rightarrow> handler" where
  "handle_list_enrollment_tokens user env cfg rq s =
     (case on_db list_enrollment_tokens s of
        (Inl e, s) \<Rightarrow> (fail_internal, s)
      | (Inr ts, s) \<Rightarrow> (write_json 200 (RTokens ts), s))"

definition handle_revoke_enrollment_token :: "string \<Rightarrow> user_row \<Rightarrow> handler" where
  "handle_revoke_enrollment_token i user env cfg rq s =
     (case on_db (revoke_enrollment_token (en_dbnow env) i) s of
        (Inl e, s) \<Rightarrow> (fail_store e, s)
      | (Inr _, s) \<Rightarrow>
          let s = note_audit env (us_login user) ''enrollment_token.revoke'' i [] s
          in (write_json 200 (RRevoked i), s))"

section \<open>Signing in\<close>

definition sign_in_ready :: "server_config \<Rightarrow> bool" where
  "sign_in_ready cfg \<longleftrightarrow> oauth_configured cfg \<and> sc_public_url cfg \<noteq> ''''"

definition handle_auth_config :: handler where
  "handle_auth_config env cfg rq s = (write_json 200 (RAuthConfig (sign_in_ready cfg)), s)"

definition handle_auth_start :: handler where
  "handle_auth_start env cfg rq s =
     (if \<not> sign_in_ready cfg then (oauth_unavailable, s)
      else case en_state env of
             None \<Rightarrow> (fail_internal, s)
           | Some state \<Rightarrow>
               ((set_cookie oauth_cookie state 600 (write_json 302 REmpty))
                  \<lparr>rs_location := Some (''/login/oauth/authorize?state='' @ state)\<rparr>, s))"

definition cookie :: "request \<Rightarrow> string \<Rightarrow> string" where
  "cookie rq name = (case map_of (rq_cookies rq) name of None \<Rightarrow> '''' | Some v \<Rightarrow> v)"

definition clear_state :: "response \<Rightarrow> response" where
  "clear_state = set_cookie oauth_cookie '''' (-1)"

definition handle_auth_callback :: handler where
  "handle_auth_callback env cfg rq s =
     (if \<not> sign_in_ready cfg then (oauth_unavailable, s)
      else if query rq ''error'' \<noteq> '''' then (fail 400 ''oauth_denied'', s)
      else if cookie rq oauth_cookie = '''' \<or> query rq ''state'' = ''''
              \<or> \<not> secure_compare (cookie rq oauth_cookie) (query rq ''state'')
      then (fail 400 ''oauth_state_mismatch'', s)
      else if query rq ''code'' = '''' then (clear_state (fail 400 ''oauth_no_code''), s)
      else case en_exchange env of
             None \<Rightarrow> (clear_state (fail 502 ''oauth_exchange_failed''), s)
           | Some access_token \<Rightarrow>
               (case en_identity env of
                  None \<Rightarrow> (clear_state (fail 502 ''oauth_identify_failed''), s)
                | Some identity \<Rightarrow>
                    if \<not> login_allowed cfg (gu_login identity) then (clear_state (fail 403 ''login_not_allowed''), s)
                    else if sc_has_key cfg \<and> en_sealed env = None then (clear_state fail_internal, s)
                    else
                      let sealed = (if sc_has_key cfg then en_sealed env else None)
                      in case on_db (upsert_user (en_id env 0) (en_dbnow env) identity sealed) s of
                           (Inl e, s) \<Rightarrow> (clear_state fail_internal, s)
                         | (Inr user, s) \<Rightarrow>
                             (case on_db (create_session (en_hash env) (en_id env 1) (en_rand env 0)
                                            (en_now env) (us_id user)) s of
                                (Inl e, s) \<Rightarrow> (clear_state fail_internal, s)
                              | (Inr (session, expires), s) \<Rightarrow>
                                  let s = note_audit env (us_login user) ''user.login'' (us_login user) [] s
                                  in ((set_cookie session_cookie session
                                         (trunc_rat (dur_seconds (time_sub expires (en_now env))))
                                         (clear_state (write_json 302 REmpty)))\<lparr>rs_location := Some ''/''\<rparr>, s))))"

definition handle_auth_logout :: handler where
  "handle_auth_logout env cfg rq s =
     (let s = (if cookie rq session_cookie \<noteq> ''''
               then snd (on_db (delete_session (en_hash env) (cookie rq session_cookie)) s) else s)
      in (clear_session_cookie (write_json 200 RSignedOut), s))"

definition handle_auth_session :: "user_row \<Rightarrow> handler" where
  "handle_auth_session user env cfg rq s = (write_json 200 (RSession user), s)"

section \<open>Health and metrics\<close>

definition handle_health :: handler where
  "handle_health env cfg rq s =
     (case on_db (stmt True) s of
        (True, s) \<Rightarrow> (write_json 200 (RHealth True), s)
      | (False, s) \<Rightarrow> (write_json 503 (RHealth False), s))"

definition handle_metrics :: handler where
  "handle_metrics env cfg rq s =
     (if \<not> sc_metrics_enabled cfg then (fail 404 ''metrics_disabled'', s)
      else if sc_metrics_token cfg \<noteq> '''' \<and> \<not> secure_compare (bearer_token rq) (sc_metrics_token cfg)
      then (fail 401 ''invalid_credentials'', s)
      else (write_json 200 RMetrics, s))"

definition refresh_metrics :: "env \<Rightarrow> server_config \<Rightarrow> server \<Rightarrow> server" where
  "refresh_metrics env cfg s =
     (case on_db (count_runners (en_now env) (sc_thresholds cfg)) s of
        (Inl _, s) \<Rightarrow> s
      | (Inr c, s) \<Rightarrow> s\<lparr>sv_fleet := c\<rparr>)"

section \<open>Routing\<close>

datatype endpoint =
    EHealth | EMetrics
  | EAgentRegister | EAgentHeartbeat | EAgentEvents | EAgentConfig | EAgentCommandResult string | EAgentRetire
  | EAuthConfig | EAuthStart | EAuthCallback | EAuthLogout | EAuthSession
  | EOverview | EListRunners | EGetRunner string | EDeleteRunner string | ERestartRunner string
  | EListCommands string | EListEvents | EListAudit
  | EListTokens | ECreateToken | ERevokeToken string
  | ENotFound | EPage

text \<open>
  \<open>ServeMux\<close>: a pattern for \<open>GET\<close> also matches \<open>HEAD\<close>, a wildcard matches one segment that is not
  empty, and a path under \<open>/api/\<close> that no pattern matches, method included, is not found.
\<close>

definition is_get :: "string \<Rightarrow> bool" where
  "is_get m \<longleftrightarrow> m = ''GET'' \<or> m = ''HEAD''"

definition route_agent :: "string \<Rightarrow> string list \<Rightarrow> endpoint" where
  "route_agent m p =
     (if m = ''POST'' \<and> p = [''register''] then EAgentRegister
      else if m = ''POST'' \<and> p = [''heartbeat''] then EAgentHeartbeat
      else if m = ''POST'' \<and> p = [''events''] then EAgentEvents
      else if is_get m \<and> p = [''config''] then EAgentConfig
      else if m = ''POST'' \<and> p = [''retire''] then EAgentRetire
      else case p of
             [c, i, r] \<Rightarrow> if m = ''POST'' \<and> c = ''commands'' \<and> i \<noteq> '''' \<and> r = ''result''
                          then EAgentCommandResult i else ENotFound
           | _ \<Rightarrow> ENotFound)"

definition route_auth :: "string \<Rightarrow> string list \<Rightarrow> endpoint" where
  "route_auth m p =
     (if is_get m \<and> p = [''config''] then EAuthConfig
      else if is_get m \<and> p = [''github''] then EAuthStart
      else if is_get m \<and> p = [''github'', ''callback''] then EAuthCallback
      else if m = ''POST'' \<and> p = [''logout''] then EAuthLogout
      else if is_get m \<and> p = [''session''] then EAuthSession
      else ENotFound)"

definition route_runners :: "string \<Rightarrow> string list \<Rightarrow> endpoint" where
  "route_runners m p =
     (case p of
        [] \<Rightarrow> if is_get m then EListRunners else ENotFound
      | [i] \<Rightarrow> if i = '''' then ENotFound else if is_get m then EGetRunner i
               else if m = ''DELETE'' then EDeleteRunner i else ENotFound
      | [i, a] \<Rightarrow> if i = '''' then ENotFound
                  else if m = ''POST'' \<and> a = ''restart'' then ERestartRunner i
                  else if is_get m \<and> a = ''commands'' then EListCommands i else ENotFound
      | _ \<Rightarrow> ENotFound)"

definition route_tokens :: "string \<Rightarrow> string list \<Rightarrow> endpoint" where
  "route_tokens m p =
     (case p of
        [] \<Rightarrow> if is_get m then EListTokens else if m = ''POST'' then ECreateToken else ENotFound
      | [i] \<Rightarrow> if m = ''DELETE'' \<and> i \<noteq> '''' then ERevokeToken i else ENotFound
      | _ \<Rightarrow> ENotFound)"

definition route_v1 :: "string \<Rightarrow> string list \<Rightarrow> endpoint" where
  "route_v1 m p =
     (case p of
        [] \<Rightarrow> ENotFound
      | c # r \<Rightarrow>
          if c = ''health'' \<and> r = [] \<and> is_get m then EHealth
          else if c = ''agent'' then route_agent m r
          else if c = ''auth'' then route_auth m r
          else if c = ''overview'' \<and> r = [] \<and> is_get m then EOverview
          else if c = ''runners'' then route_runners m r
          else if c = ''events'' \<and> r = [] \<and> is_get m then EListEvents
          else if c = ''audit'' \<and> r = [] \<and> is_get m then EListAudit
          else if c = ''enrollment-tokens'' then route_tokens m r
          else ENotFound)"

definition route :: "string \<Rightarrow> string list \<Rightarrow> endpoint" where
  "route m p =
     (if is_get m \<and> p = [''metrics''] then EMetrics
      else case p of
             a # b # r \<Rightarrow> if a = ''api'' then (if b = ''v1'' then route_v1 m r else ENotFound) else EPage
           | _ \<Rightarrow> EPage)"

definition limited_auth :: "handler \<Rightarrow> handler" where
  "limited_auth = limited sv_auth put_auth"

fun serve :: "endpoint \<Rightarrow> handler" where
  "serve EHealth = handle_health"
| "serve EMetrics = handle_metrics"
| "serve EAgentRegister = limited_auth handle_agent_register"
| "serve EAgentHeartbeat = require_machine handle_agent_heartbeat"
| "serve EAgentEvents = require_machine handle_agent_events"
| "serve EAgentConfig = require_machine handle_agent_config"
| "serve (EAgentCommandResult i) = require_machine (handle_agent_command_result i)"
| "serve EAgentRetire = require_machine handle_agent_retire"
| "serve EAuthConfig = handle_auth_config"
| "serve EAuthStart = limited_auth handle_auth_start"
| "serve EAuthCallback = limited_auth handle_auth_callback"
| "serve EAuthLogout = handle_auth_logout"
| "serve EAuthSession = require_user handle_auth_session"
| "serve EOverview = require_user handle_overview"
| "serve EListRunners = require_user handle_list_runners"
| "serve (EGetRunner i) = require_user (handle_get_runner i)"
| "serve (EDeleteRunner i) = require_user (handle_delete_runner i)"
| "serve (ERestartRunner i) = require_user (handle_restart_runner i)"
| "serve (EListCommands i) = require_user (handle_list_commands i)"
| "serve EListEvents = require_user handle_list_events"
| "serve EListAudit = require_user handle_list_audit"
| "serve EListTokens = require_user handle_list_enrollment_tokens"
| "serve ECreateToken = require_user handle_create_enrollment_token"
| "serve (ERevokeToken i) = require_user (handle_revoke_enrollment_token i)"
| "serve ENotFound = (\<lambda>env cfg rq s. (fail 404 ''no_such_endpoint'', s))"
| "serve EPage = (\<lambda>env cfg rq s. (write_json (en_page_status env) RPage, s))"

definition mux :: handler where
  "mux env cfg rq s = serve (route (rq_method rq) (rq_path rq)) env cfg rq s"

definition handle_request :: handler where
  "handle_request = with_request_log (limited sv_general put_general mux)"

end
