(* ===== verification/Server_Schema.thy ===== *)
theory Server_Schema
  imports Server_Handlers
begin

text \<open>
  What a request can do to the database: the handlers write through the store alone, so that whatever
  every method of the store keeps, every request keeps. The argument is made once, in a locale, and
  used for the constraints of the schema and for the list of sessions.
\<close>

section \<open>Invariants of the store's methods\<close>

definition keeps :: "(db \<Rightarrow> bool) \<Rightarrow> (db \<Rightarrow> 'a \<times> db) \<Rightarrow> bool" where
  "keeps Q f \<longleftrightarrow> (\<forall>d. Q d \<longrightarrow> Q (snd (f d)))"

lemma keepsI: "(\<And>d r d'. Q d \<Longrightarrow> f d = (r, d') \<Longrightarrow> Q d') \<Longrightarrow> keeps Q f"
  unfolding keeps_def by (metis prod.collapse)

text \<open>A handler keeps \<open>Q\<close> when it serves one given request.\<close>

definition kept :: "(db \<Rightarrow> bool) \<Rightarrow> env \<Rightarrow> server_config \<Rightarrow> request \<Rightarrow> handler \<Rightarrow> bool" where
  "kept Q env cfg rq h \<longleftrightarrow> (\<forall>s. Q (sv_db s) \<longrightarrow> Q (sv_db (snd (h env cfg rq s))))"

lemma keptI: "(\<And>s. Q (sv_db s) \<Longrightarrow> Q (sv_db (snd (h env cfg rq s)))) \<Longrightarrow> kept Q env cfg rq h"
  by (simp add: kept_def)

lemma keptD: "kept Q env cfg rq h \<Longrightarrow> h env cfg rq s = (r, s') \<Longrightarrow> Q (sv_db s) \<Longrightarrow> Q (sv_db s')"
  unfolding kept_def by (metis snd_conv)

lemma count_events_db [simp]: "sv_db (fold count_event es s) = sv_db s"
  by (induction es arbitrary: s) (auto simp: count_event_def)

text \<open>Every method but the two that signing in calls.\<close>

locale store_invariant =
  fixes Q :: "db \<Rightarrow> bool"
  assumes keeps_upsert_runner: "keeps Q (upsert_runner i now q)"
    and keeps_heartbeat: "keeps Q (record_heartbeat now j hb)"
    and keeps_retire: "keeps Q (retire_runner now j why)"
    and keeps_get_runner: "keeps Q (get_runner j)"
    and keeps_list_runners: "keeps Q (list_runners lo)"
    and keeps_count: "keeps Q (count_runners now th)"
    and keeps_delete_runner: "keeps Q (delete_runner j)"
    and keeps_create_token: "keeps Q (create_enrollment_token hash i rnd now desc m x)"
    and keeps_redeem: "keeps Q (redeem_enrollment_token hash now tok)"
    and keeps_list_tokens: "keeps Q list_enrollment_tokens"
    and keeps_revoke_token: "keeps Q (revoke_enrollment_token now j)"
    and keeps_issue: "keeps Q (issue_machine_token hash i rnd now j)"
    and keeps_authenticate: "keeps Q (authenticate_machine hash now tok)"
    and keeps_rotate: "keeps Q (rotate_machine_token_if_old hash oob i rnd now j age)"
    and keeps_queue: "keeps Q (queue_command i now j cmd who)"
    and keeps_take: "keeps Q (take_commands now j)"
    and keeps_complete: "keeps Q (complete_command now j cid err)"
    and keeps_list_commands: "keeps Q (list_commands j n)"
    and keeps_record_event: "keeps Q (record_event now e)"
    and keeps_record_events: "keeps Q (record_events now es)"
    and keeps_list_events: "keeps Q (list_events leo)"
    and keeps_list_audit: "keeps Q (list_audit n)"
    and keeps_record_audit: "keeps Q (record_audit now a1 a2 a3 dt)"
    and keeps_session: "keeps Q (authenticate_session hash now tok)"
    and keeps_delete_session: "keeps Q (delete_session hash tok)"
    and keeps_ping: "keeps Q (stmt b)"
begin

lemmas keeps_all = keeps_upsert_runner keeps_heartbeat keeps_retire keeps_get_runner keeps_list_runners
  keeps_count keeps_delete_runner keeps_create_token keeps_redeem keeps_list_tokens keeps_revoke_token
  keeps_issue keeps_authenticate keeps_rotate keeps_queue keeps_take keeps_complete keeps_list_commands
  keeps_record_event keeps_record_events keeps_list_events keeps_list_audit keeps_record_audit
  keeps_session keeps_delete_session keeps_ping

lemma ok_on_db:
  assumes "keeps Q f" "Q (sv_db s)" "\<And>r s. Q (sv_db s) \<Longrightarrow> Q (sv_db (snd (g r s)))"
  shows "Q (sv_db (snd (case on_db f s of (r, s) \<Rightarrow> g r s)))"
proof -
  obtain r d where f: "f (sv_db s) = (r, d)" by fastforce
  then have "Q d" using assms(1,2) by (metis keeps_def snd_conv)
  then show ?thesis using f assms(3) [of "s\<lparr>sv_db := d\<rparr>" r] by (simp add: on_db_def)
qed

lemma ok_snd_on_db: "keeps Q f \<Longrightarrow> Q (sv_db s) \<Longrightarrow> Q (sv_db (snd (on_db f s)))"
  by (simp add: on_db_def keeps_def Let_def split_beta)

lemma ok_cases:
  "Q (sv_db s) \<Longrightarrow> Q (sv_db (snd (a, s)))"
  "Q (sv_db (snd h)) \<Longrightarrow> Q (sv_db (snd j)) \<Longrightarrow> Q (sv_db (snd (if b then h else j)))"
  "(\<And>e. Q (sv_db (snd (f e)))) \<Longrightarrow> (\<And>x. Q (sv_db (snd (g x)))) \<Longrightarrow>
      Q (sv_db (snd (case r of Inl e \<Rightarrow> f e | Inr x \<Rightarrow> g x)))"
  "Q (sv_db (snd h)) \<Longrightarrow> (\<And>x. Q (sv_db (snd (k x)))) \<Longrightarrow>
      Q (sv_db (snd (case m of None \<Rightarrow> h | Some x \<Rightarrow> k x)))"
  "Q (sv_db (snd h)) \<Longrightarrow> Q (sv_db (snd j)) \<Longrightarrow> Q (sv_db (snd (case b of True \<Rightarrow> h | False \<Rightarrow> j)))"
  "(\<And>x y. Q (sv_db (snd (l x y)))) \<Longrightarrow> Q (sv_db (snd (case p of (x, y) \<Rightarrow> l x y)))"
  by (simp_all split: sum.split option.split bool.split prod.split)

lemma kept_note_event [simp]: "Q (sv_db s) \<Longrightarrow> Q (sv_db (note_event env i ev msg data s))"
  unfolding note_event_def by (rule ok_snd_on_db [OF keeps_record_event])

lemma kept_note_audit [simp]: "Q (sv_db s) \<Longrightarrow> Q (sv_db (note_audit env a b c d s))"
  unfolding note_audit_def by (rule ok_snd_on_db [OF keeps_record_audit])

lemma agent_handlers_kept:
  "kept Q env cfg rq handle_agent_register" "kept Q env cfg rq (handle_agent_heartbeat r)"
  "kept Q env cfg rq (handle_agent_command_result c r)" "kept Q env cfg rq (handle_agent_events r)"
  "kept Q env cfg rq (handle_agent_retire r)" "kept Q env cfg rq (handle_agent_config r)"
  unfolding handle_agent_register_def handle_agent_heartbeat_def handle_agent_command_result_def
    handle_agent_events_def handle_agent_retire_def handle_agent_config_def Let_def
  by (rule keptI, ((rule ok_on_db, rule keeps_all) | rule ok_cases | simp)+)+

lemma dashboard_handlers_kept:
  "kept Q env cfg rq (handle_overview u)" "kept Q env cfg rq (handle_list_runners u)"
  "kept Q env cfg rq (handle_get_runner i u)" "kept Q env cfg rq (handle_delete_runner i u)"
  "kept Q env cfg rq (handle_restart_runner i u)" "kept Q env cfg rq (handle_list_commands i u)"
  "kept Q env cfg rq (handle_list_events u)" "kept Q env cfg rq (handle_list_audit u)"
  "kept Q env cfg rq (handle_list_enrollment_tokens u)"
  "kept Q env cfg rq (handle_create_enrollment_token u)" "kept Q env cfg rq (handle_revoke_enrollment_token i u)"
  unfolding handle_overview_def handle_list_runners_def handle_get_runner_def handle_delete_runner_def
    handle_restart_runner_def handle_list_commands_def handle_list_events_def handle_list_audit_def
    handle_list_enrollment_tokens_def handle_create_enrollment_token_def
    handle_revoke_enrollment_token_def Let_def
  by (rule keptI, ((rule ok_on_db, rule keeps_all) | rule ok_cases | simp)+)+

lemma sign_in_handlers_kept:
  "kept Q env cfg rq handle_auth_config" "kept Q env cfg rq handle_auth_start"
  "kept Q env cfg rq (handle_auth_session u)" "kept Q env cfg rq handle_health" "kept Q env cfg rq handle_metrics"
  unfolding handle_auth_config_def handle_auth_start_def handle_auth_session_def handle_health_def
    handle_metrics_def Let_def
  by (rule keptI, ((rule ok_on_db, rule keeps_all) | rule ok_cases | simp)+)+

lemma logout_kept: "kept Q env cfg rq handle_auth_logout"
  by (rule keptI) (simp add: handle_auth_logout_def ok_snd_on_db keeps_delete_session)

lemma require_machine_kept: "(\<And>r. kept Q env cfg rq (h r)) \<Longrightarrow> kept Q env cfg rq (require_machine h)"
  unfolding require_machine_def Let_def
  by (rule keptI, ((rule ok_on_db, rule keeps_all) | rule ok_cases | simp add: kept_def)+)

lemma require_user_kept: "(\<And>r. kept Q env cfg rq (h r)) \<Longrightarrow> kept Q env cfg rq (require_user h)"
  unfolding require_user_def Let_def
  by (rule keptI, ((rule ok_on_db, rule keeps_all) | rule ok_cases | simp add: kept_def)+)

lemma limited_kept:
  "kept Q env cfg rq h \<Longrightarrow> (\<And>l s. sv_db (put l s) = sv_db s) \<Longrightarrow> kept Q env cfg rq (limited get put h)"
  by (rule keptI)
    (auto simp: limited_def kept_def Let_def split: option.splits prod.splits bool.splits)

lemma limited_auth_kept: "kept Q env cfg rq h \<Longrightarrow> kept Q env cfg rq (limited_auth h)"
  unfolding limited_auth_def by (rule limited_kept) (simp_all add: put_auth_def)

lemma serve_kept:
  assumes "e = EAuthCallback \<Longrightarrow> kept Q env cfg rq handle_auth_callback"
  shows "kept Q env cfg rq (serve e)"
  using assms by (cases e) (auto intro: limited_auth_kept require_machine_kept require_user_kept
      agent_handlers_kept dashboard_handlers_kept sign_in_handlers_kept logout_kept keptI)

lemma request_kept:
  assumes "route (rq_method rq) (rq_path rq) = EAuthCallback \<Longrightarrow> kept Q env cfg rq handle_auth_callback"
  shows "kept Q env cfg rq handle_request"
proof -
  have "kept Q env cfg rq mux"
    using serve_kept [of "route (rq_method rq) (rq_path rq)" env cfg rq] assms by (simp add: mux_def kept_def)
  then have "kept Q env cfg rq (limited sv_general put_general mux)"
    by (rule limited_kept) (simp add: put_general_def)
  then show ?thesis by (simp add: handle_request_def with_request_log_def Let_def kept_def split_beta)
qed

end

text \<open>And those two.\<close>

locale full_store_invariant = store_invariant +
  assumes keeps_upsert_user: "keeps Q (upsert_user i now gu sealed)"
    and keeps_create_session: "keeps Q (create_session hash i rnd now j)"
begin

lemma callback_kept: "kept Q env cfg rq handle_auth_callback"
  unfolding handle_auth_callback_def Let_def
  by (rule keptI, ((rule ok_on_db, rule keeps_upsert_user keeps_create_session) | rule ok_cases | simp)+)

lemmas every_request_kept = request_kept [OF callback_kept]
lemmas every_endpoint_kept = serve_kept [OF callback_kept]

end

section \<open>The schema\<close>

interpretation schema: full_store_invariant db_ok
proof unfold_locales
  show "keeps db_ok (count_runners now th)" for now th
    by (rule keepsI) (auto simp: count_runners_def split: prod.splits sum.splits dest: list_runners_ok)
qed (rule keepsI, erule (1) upsert_runner_ok record_heartbeat_ok retire_runner_ok get_runner_ok list_runners_ok
      delete_runner_ok create_enrollment_token_ok redeem_enrollment_token_ok
      list_enrollment_tokens_ok revoke_enrollment_token_ok issue_machine_token_ok authenticate_machine_ok
      rotate_machine_token_ok queue_command_ok take_commands_ok complete_command_ok list_commands_ok
      record_event_ok record_events_ok list_events_ok list_audit_ok record_audit_ok upsert_user_ok
      create_session_ok authenticate_session_ok delete_session_ok stmt_ok [rotated])+


end
