(* ===== verification/Server_Correct.thy ===== *)
theory Server_Correct
  imports Server_Schema
begin

text \<open>
  What the control plane's API guarantees: without a credential nothing changes and nothing about the
  fleet is told, and an agent reaches no runner but its own.
\<close>

section \<open>Requests that carry no credential\<close>

text \<open>The database up to the script of faults.\<close>

definition same_data :: "db \<Rightarrow> db \<Rightarrow> bool" where
  "same_data d d' \<longleftrightarrow> d' = d\<lparr>db_faults := db_faults d'\<rparr>"

lemma same_data_refl [simp]: "same_data d d"
  by (simp add: same_data_def)

lemma same_data_faults [simp]: "same_data d (d\<lparr>db_faults := f\<rparr>)"
  by (simp add: same_data_def)

lemma same_data_trans: "same_data a b \<Longrightarrow> same_data b c \<Longrightarrow> same_data a c"
  unfolding same_data_def by (metis db.select_convs(11) db.surjective db.update_convs(11))

lemma same_data_stmt: "stmt a d = (ok, d') \<Longrightarrow> same_data d d'"
  by (auto dest: stmt_db)

text \<open>
  A request is anonymous when its bearer token is no live machine token and redeems no enrollment
  token, its session cookie is on no record, and its sign-in cookie does not match its state.
\<close>

definition anonymous :: "env \<Rightarrow> request \<Rightarrow> db \<Rightarrow> bool" where
  "anonymous env rq d \<longleftrightarrow>
     (\<forall>t\<in>set (db_machine d). mt_hash t = en_hash env (bearer_token rq) \<longrightarrow> mt_revoked t \<noteq> None)
   \<and> (\<forall>t\<in>set (db_enroll d). \<not> redeemable (en_hash env (bearer_token rq)) (en_dbnow env) t)
   \<and> (\<forall>x\<in>set (db_sessions d). se_hash x \<noteq> en_hash env (cookie rq session_cookie))
   \<and> (cookie rq oauth_cookie = '''' \<or> cookie rq oauth_cookie \<noteq> query rq ''state'')"

text \<open>Replies that say nothing about runners, users, tokens, commands or events.\<close>

fun discloses_nothing :: "reply \<Rightarrow> bool" where
  "discloses_nothing (RError _) = True"
| "discloses_nothing (RAuthConfig _) = True"
| "discloses_nothing (RHealth _) = True"
| "discloses_nothing RMetrics = True"
| "discloses_nothing RPage = True"
| "discloses_nothing RSignedOut = True"
| "discloses_nothing REmpty = True"
| "discloses_nothing _ = False"

definition harmless :: "server \<Rightarrow> response \<times> server \<Rightarrow> bool" where
  "harmless s out \<longleftrightarrow> same_data (sv_db s) (sv_db (snd out)) \<and> discloses_nothing (rs_reply (fst out))"

lemma discloses_nothing_fail [simp]:
  "discloses_nothing (rs_reply (fail c m))" "discloses_nothing (rs_reply fail_internal)"
  "discloses_nothing (rs_reply (fail_store e))" "discloses_nothing (rs_reply oauth_unavailable)"
  "rs_reply (set_cookie n v a r) = rs_reply r" "rs_reply (clear_session_cookie r) = rs_reply r"
  "rs_reply (write_json st b) = b"
  by (simp_all add: fail_def fail_internal_def fail_store_def oauth_unavailable_def write_json_def
      set_cookie_def clear_session_cookie_def)

lemma harmless_same: "discloses_nothing (rs_reply r) \<Longrightarrow> harmless s (r, s)"
  by (simp add: harmless_def)

lemma on_db_eq: "on_db f s = (r, s') \<longleftrightarrow> (\<exists>d. f (sv_db s) = (r, d) \<and> s' = s\<lparr>sv_db := d\<rparr>)"
  by (auto simp: on_db_def split: prod.splits)

lemma harmless_on_db:
  "f (sv_db s) = (r, d) \<Longrightarrow> same_data (sv_db s) d \<Longrightarrow> discloses_nothing (rs_reply x) \<Longrightarrow>
     harmless s (x, s\<lparr>sv_db := d\<rparr>)"
  by (simp add: harmless_def)

lemma authenticate_machine_anonymous:
  assumes "\<forall>t\<in>set (db_machine d). mt_hash t = hash token \<longrightarrow> mt_revoked t \<noteq> None"
    and "authenticate_machine hash now token d = (r, d')"
  shows "same_data d d' \<and> \<not> is_ok r"
  using assms
  by (auto simp: authenticate_machine_def Let_def split: if_splits prod.splits option.splits
      dest!: find_Some_conv stmtF)

lemma require_machine_anonymous:
  assumes "anonymous env rq (sv_db s)"
  shows "harmless s (require_machine h env cfg rq s)"
proof -
  obtain r s' where a: "on_db (authenticate_machine (en_hash env) (en_dbnow env) (bearer_token rq)) s = (r, s')"
    by fastforce
  then obtain d where d: "authenticate_machine (en_hash env) (en_dbnow env) (bearer_token rq) (sv_db s) = (r, d)"
    "s' = s\<lparr>sv_db := d\<rparr>" by (auto simp: on_db_eq)
  have "same_data (sv_db s) d \<and> \<not> is_ok r"
    using assms by (intro authenticate_machine_anonymous [OF _ d(1)]) (simp add: anonymous_def)
  then show ?thesis using a d(2)
    by (cases r) (auto simp: require_machine_def Let_def harmless_def)
qed

lemma authenticate_session_anonymous:
  assumes "\<forall>x\<in>set (db_sessions d). se_hash x \<noteq> hash token" "authenticate_session hash now token d = (r, d')"
  shows "same_data d d' \<and> \<not> is_ok r"
  using assms
  by (auto simp: authenticate_session_def Let_def split: if_splits prod.splits option.splits
      dest!: find_Some_conv stmtF)

lemma require_user_anonymous:
  assumes "anonymous env rq (sv_db s)"
  shows "harmless s (require_user h env cfg rq s)"
proof -
  obtain r s' where a: "on_db (authenticate_session (en_hash env) (en_dbnow env) (cookie rq session_cookie)) s = (r, s')"
    by fastforce
  then obtain d where d: "authenticate_session (en_hash env) (en_dbnow env) (cookie rq session_cookie) (sv_db s) = (r, d)"
    "s' = s\<lparr>sv_db := d\<rparr>" by (auto simp: on_db_eq)
  have "same_data (sv_db s) d \<and> \<not> is_ok r"
    using assms by (intro authenticate_session_anonymous [OF _ d(1)]) (simp add: anonymous_def)
  then show ?thesis using a d(2)
    by (cases r) (auto simp: require_user_def cookie_def [symmetric] Let_def harmless_def)
qed

lemma register_anonymous:
  assumes "anonymous env rq (sv_db s)"
  shows "harmless s (handle_agent_register env cfg rq s)"
proof -
  have none: "find (redeemable (en_hash env (bearer_token rq)) (en_dbnow env)) (db_enroll (sv_db s)) = None"
    using assms by (simp add: anonymous_def find_None_conv)
  obtain r d where rd: "redeem_enrollment_token (en_hash env) (en_dbnow env) (bearer_token rq) (sv_db s) = (r, d)"
    by fastforce
  have "same_data (sv_db s) d \<and> \<not> is_ok r"
    using rd none by (auto simp: redeem_enrollment_token_def Let_def split: if_splits prod.splits dest!: stmtF)
  moreover have "on_db (redeem_enrollment_token (en_hash env) (en_dbnow env) (bearer_token rq)) s = (r, s\<lparr>sv_db := d\<rparr>)"
    using rd by (simp add: on_db_eq)
  moreover have "decode body_register rq = Inl x \<Longrightarrow> discloses_nothing (rs_reply x)" for x
    by (auto simp: decode_def split: body.splits option.splits)
  ultimately show ?thesis
    by (cases r; cases "decode body_register rq")
      (auto simp: handle_agent_register_def Let_def harmless_def)
qed

lemma callback_anonymous:
  assumes "anonymous env rq (sv_db s)"
  shows "harmless s (handle_auth_callback env cfg rq s)"
proof -
  have "cookie rq oauth_cookie = '''' \<or> query rq ''state'' = ''''
      \<or> \<not> secure_compare (cookie rq oauth_cookie) (query rq ''state'')"
    using assms by (auto simp: anonymous_def secure_compare_def)
  then show ?thesis unfolding handle_auth_callback_def by (auto intro: harmless_same)
qed

lemma logout_anonymous:
  assumes "anonymous env rq (sv_db s)"
  shows "harmless s (handle_auth_logout env cfg rq s)"
proof -
  have "filter (\<lambda>x. se_hash x \<noteq> en_hash env (cookie rq session_cookie)) (db_sessions (sv_db s))
      = db_sessions (sv_db s)"
    using assms by (simp add: anonymous_def filter_id_conv)
  then have "same_data (sv_db s) (snd (delete_session (en_hash env) (cookie rq session_cookie) (sv_db s)))"
    by (auto simp: delete_session_def same_data_def split: prod.splits dest!: stmtF intro!: db.equality)
  then show ?thesis by (auto simp: handle_auth_logout_def harmless_def on_db_def split: prod.splits)
qed

lemma serve_anonymous:
  assumes "anonymous env rq (sv_db s)"
  shows "harmless s (serve e env cfg rq s)"
proof -
  have lim: "harmless s (limited_auth h env cfg rq s)" if h: "\<And>s'. sv_db s' = sv_db s \<Longrightarrow> harmless s' (h env cfg rq s')" for h
  proof (cases "sv_auth s")
    case (Some l)
    obtain ok w l' where a: "allow (en_oob env) (en_now env) (client_key cfg rq) l = ((ok, w), l')"
      by (metis prod.collapse)
    show ?thesis using Some a h [of "put_auth l' s"]
      by (cases ok) (auto simp: limited_auth_def limited_def put_auth_def harmless_def Let_def)
  qed (use h [of s] in \<open>simp add: limited_auth_def limited_def\<close>)
  have st: "anonymous env rq (sv_db s')" if "sv_db s' = sv_db s" for s' using assms that by simp
  show ?thesis
  proof (cases e)
    case EHealth
    have "same_data (sv_db s) (snd (stmt True (sv_db s)))" by (metis prod.collapse same_data_stmt)
    then show ?thesis using EHealth
      by (auto simp: handle_health_def harmless_def on_db_def split: prod.splits bool.splits)
  next
    case EMetrics
    then show ?thesis by (auto simp: handle_metrics_def intro: harmless_same)
  next
    case EAgentRegister
    then show ?thesis by (auto intro!: lim register_anonymous st)
  next
    case EAuthStart
    have "harmless s' (handle_auth_start env cfg rq s')" for s'
      by (auto simp: handle_auth_start_def harmless_def split: option.splits)
    then show ?thesis using EAuthStart lim by simp
  next
    case EAuthCallback
    then show ?thesis by (auto intro!: lim callback_anonymous st)
  next
    case EAuthConfig
    then show ?thesis by (simp add: handle_auth_config_def harmless_def)
  next
    case EAuthLogout
    then show ?thesis by (simp add: logout_anonymous [OF assms])
  next
    case ENotFound
    then show ?thesis by (simp add: harmless_def)
  next
    case EPage
    then show ?thesis by (simp add: harmless_def)
  qed (simp_all add: require_machine_anonymous [OF assms] require_user_anonymous [OF assms])
qed


end
