(* ===== verification/Server_Agents.thy ===== *)
theory Server_Agents
  imports Server_Correct
begin

text \<open>
  Agents and the control plane: an agent reaches only what belongs to its own runner, enrollment hands
  out a credential that works, and a heartbeat never locks the agent out.
\<close>

section \<open>What belongs to the others\<close>

definition others ::
  "string \<Rightarrow> db \<Rightarrow> runner_row list \<times> machine_token list \<times> command_row list \<times> runner_event list
     \<times> enrollment_token list \<times> user_row list \<times> session_row list \<times> audit_entry list"
where
  "others i d = (filter (\<lambda>x. rn_id x \<noteq> i) (db_runners d), filter (\<lambda>x. mt_runner x \<noteq> i) (db_machine d),
     filter (\<lambda>x. cm_runner x \<noteq> i) (db_commands d), filter (\<lambda>x. re_runner x \<noteq> Some i) (db_events d),
     db_enroll d, db_users d, db_sessions d, db_audit d)"

lemma filter_not_updated:
  "(\<And>x. x \<in> set xs \<Longrightarrow> p x \<Longrightarrow> \<not> q x \<and> \<not> q (f x)) \<Longrightarrow> filter q (update_where p f xs) = filter q xs"
  by (induction xs) (auto simp: update_where_def)

lemma others_stmt: "stmt a d = (ok, d') \<Longrightarrow> others i d' = others i d"
  by (simp add: others_def stmtD)

lemma others_authenticate:
  assumes "db_ok d" "authenticate_machine hash now token d = (Inr r, d')"
  shows "others (rn_id r) d' = others (rn_id r) d" "db_ok d'" "r \<in> set (db_runners d)"
    "\<And>x. x \<in> set (db_runners d') \<longleftrightarrow> x \<in> set (db_runners d)"
proof -
  obtain t where t: "t \<in> set (db_machine d)" "mt_hash t = hash token" "mt_runner t = rn_id r" "r \<in> set (db_runners d)"
    using authenticate_machine_sound_lemma [OF assms(2)] by blast
  have d: "distinct (map mt_hash (db_machine d))" using assms(1) by (simp add: db_ok_def tokens_ok_def)
  have p: "mt_runner x = rn_id r" if "x \<in> set (db_machine d)" "mt_hash x = hash token" for x
    using key_unique [OF d that(1) t(1)] that t by simp
  have "filter (\<lambda>x. mt_runner x \<noteq> rn_id r)
      (update_where (\<lambda>t. mt_hash t = hash token \<and> mt_revoked t = None) (\<lambda>t. t\<lparr>mt_last_used := Some now\<rparr>) (db_machine d))
      = filter (\<lambda>x. mt_runner x \<noteq> rn_id r) (db_machine d)"
    by (rule filter_not_updated) (auto dest: p)
  then show "others (rn_id r) d' = others (rn_id r) d" using assms(2)
    by (auto simp: authenticate_machine_def get_runner_def Let_def others_def
        split: if_splits prod.splits option.splits dest!: stmtD)
  show "db_ok d'" by (rule authenticate_machine_ok [OF assms])
  show "r \<in> set (db_runners d)" by (rule t(4))
  show "x \<in> set (db_runners d') \<longleftrightarrow> x \<in> set (db_runners d)" for x using assms(2)
    by (auto simp: authenticate_machine_def get_runner_def Let_def
        split: if_splits prod.splits option.splits dest!: stmtD)
qed

lemma others_update_runner:
  assumes "update_runner i f v d = (res, d')" "\<And>x. rn_id (f x) = rn_id x"
  shows "others i d' = others i d"
proof -
  have "filter (\<lambda>x. rn_id x \<noteq> i) (update_where (\<lambda>x. rn_id x = i) f xs) = filter (\<lambda>x. rn_id x \<noteq> i) xs" for xs
    by (rule filter_not_updated) (auto simp: assms(2))
  then show ?thesis using assms(1)
    by (auto simp: update_runner_def Let_def others_def split: prod.splits if_splits option.splits dest!: stmtD)
qed

lemma others_heartbeat: "record_heartbeat now i hb d = (res, d') \<Longrightarrow> others i d' = others i d"
  unfolding record_heartbeat_def Let_def
  by (erule others_update_runner) (simp add: apply_heartbeat_def)

lemma others_retire: "retire_runner now i reason d = (res, d') \<Longrightarrow> others i d' = others i d"
  unfolding retire_runner_def by (erule others_update_runner) (simp add: retire_def)

lemma others_take:
  assumes "db_ok d" "take_commands now i d = (res, d')"
  shows "others i d' = others i d"
proof (cases res)
  case (Inl e)
  then show ?thesis using assms(2)
    by (auto simp: take_commands_def Let_def others_def split: prod.splits if_splits dest!: stmtD)
next
  case (Inr cs)
  note t = take_commandsD [OF assms(2) [unfolded Inr] assms(1)]
  have "filter (\<lambda>x. cm_runner x \<noteq> i) (db_commands d') = filter (\<lambda>x. cm_runner x \<noteq> i) (db_commands d)"
    unfolding t(1) by (rule filter_not_updated) (use t(4) in \<open>auto simp: deliver_def\<close>)
  then show ?thesis using assms(2)
    by (auto simp: take_commands_def Let_def others_def split: prod.splits if_splits dest!: stmtD)
qed

lemma others_complete: "complete_command now i cid err d = (res, d') \<Longrightarrow> others i d' = others i d"
proof -
  assume c: "complete_command now i cid err d = (res, d')"
  have "filter (\<lambda>x. cm_runner x \<noteq> i) (update_where (\<lambda>c. cm_id c = cid \<and> open_for i c) f cs)
      = filter (\<lambda>x. cm_runner x \<noteq> i) cs" if "\<And>c. cm_runner (f c) = cm_runner c" for f cs
    by (rule filter_not_updated) (auto simp: that open_for_def)
  then show ?thesis using c
    by (auto simp: complete_command_def Let_def others_def split: prod.splits if_splits dest!: stmtD)
qed

lemma others_issue: "issue_machine_token hash j rnd now i d = (res, d') \<Longrightarrow> others i d' = others i d"
proof (erule issue_machine_token_cases)
  fix s f
  have "filter (\<lambda>x. mt_runner x \<noteq> i) (update_where (live_of i) (revoke_machine now) ts)
      = filter (\<lambda>x. mt_runner x \<noteq> i) ts" for ts
    by (rule filter_not_updated) (auto simp: live_of_def)
  then show "d' = d\<lparr>db_faults := f, db_machine := update_where (live_of i) (revoke_machine now) (db_machine d)
           @ [\<lparr> mt_id = j, mt_runner = i, mt_hash = hash (machine_prefix @ s), mt_last_used = None,
                mt_revoked = None, mt_created = now \<rparr>]\<rparr> \<Longrightarrow> others i d' = others i d"
    by (simp add: others_def)
qed (simp add: others_def)

lemma others_rotate:
  "rotate_machine_token_if_old hash oob j rnd now i age d = (res, d') \<Longrightarrow> others i d' = others i d"
  by (auto simp: rotate_machine_token_if_old_def Let_def split: prod.splits if_splits list.splits sum.splits
      dest!: others_stmt [where i = i] others_issue)

lemma others_insert_event:
  assumes "insert_event now e d = (res, d')" "ne_runner e = i" "i \<noteq> ''''"
  shows "others i d' = others i d"
  using assms(1) by (cases rule: insert_event_cases) (simp_all add: others_def event_row_def assms(2,3))

lemma others_record_event:
  "record_event now e d = (res, d') \<Longrightarrow> ne_runner e = i \<Longrightarrow> i \<noteq> '''' \<Longrightarrow> others i d' = others i d"
  by (auto simp: record_event_def split: if_splits dest: others_insert_event)

lemma others_insert_events:
  "insert_events now es n d = (res, d') \<Longrightarrow> \<forall>e\<in>set es. ne_runner e = i \<Longrightarrow> i \<noteq> '''' \<Longrightarrow> others i d' = others i d"
proof (induction now es n d rule: insert_events.induct)
  case (2 now e es n d)
  show ?case
  proof (cases "ne_event e = ''''")
    case False
    obtain r d1 where i: "insert_event now e d = (r, d1)" by fastforce
    have "others i d1 = others i d" using others_insert_event [OF i] "2.prems" by simp
    then show ?thesis using 2(2) [OF False i [symmetric]] "2.prems" False i by (cases r) auto
  qed (use 2 in auto)
qed simp

lemma others_record_events:
  assumes "record_events now es d = (res, d')" "\<forall>e\<in>set es. ne_runner e = i" "i \<noteq> ''''"
  shows "others i d' = others i d"
proof (cases "es = []")
  case False
  obtain ok d0 where st: "stmt True d = (ok, d0)" by fastforce
  obtain r d1 where ins: "insert_events now es 0 d0 = (r, d1)" by fastforce
  have "others i d1 = others i d" using others_insert_events [OF ins assms(2,3)] others_stmt [OF st] by simp
  moreover have "others i (d0\<lparr>db_event_seq := a, db_faults := b\<rparr>) = others i d" for a b
    using others_stmt [OF st, of i] by (simp add: others_def)
  ultimately show ?thesis using assms(1) False st ins
    by (auto simp: record_events_def Let_def split: prod.splits if_splits sum.splits dest!: others_stmt [where i = i])
qed (use assms(1) in \<open>simp add: record_events_def\<close>)

lemma others_note_event:
  "i \<noteq> '''' \<Longrightarrow> others i (sv_db (note_event env i ev msg data s)) = others i (sv_db s)"
  by (auto simp: note_event_def on_db_def split: prod.splits dest: others_record_event)

section \<open>An agent reaches only its own runner\<close>

lemma on_db_others:
  "on_db f s = (r, s') \<Longrightarrow> (\<And>r d'. f (sv_db s) = (r, d') \<Longrightarrow> others i d' = others i (sv_db s)) \<Longrightarrow>
     others i (sv_db s') = others i (sv_db s)"
  by (auto simp: on_db_eq)

lemma heartbeat_others:
  assumes "db_ok (sv_db s)" "rn_id r \<noteq> ''''"
  shows "others (rn_id r) (sv_db (snd (handle_agent_heartbeat r env cfg rq s))) = others (rn_id r) (sv_db s)"
proof (cases "decode body_heartbeat rq")
  case (Inr req)
  let ?i = "rn_id r"
  let ?hb = "\<lparr> hb_status = hr_status req, hb_detail = hr_detail req, hb_cpu = hr_cpu req,
     hb_memory = hr_memory req, hb_disk = hr_disk req, hb_runner_version = hr_runner_version req,
     hb_agent_version = hr_agent_version req \<rparr>"
  obtain r1 d1 where 1: "record_heartbeat (en_dbnow env) ?i ?hb (sv_db s) = (r1, d1)" by fastforce
  obtain r2 d2 where 2: "take_commands (en_dbnow env) ?i d1 = (r2, d2)" by fastforce
  obtain r3 d3 where 3: "rotate_machine_token_if_old (en_hash env) (en_oob env) (en_id env 0) (en_rand env 0)
     (en_dbnow env) ?i (sc_token_lifetime cfg) d2 = (r3, d3)" by fastforce
  have ok1: "db_ok d1" by (rule record_heartbeat_ok [OF assms(1) 1])
  have o3: "others ?i d3 = others ?i (sv_db s)" "others ?i d1 = others ?i (sv_db s)"
    using others_heartbeat [OF 1] others_take [OF ok1 2] others_rotate [OF 3] by simp_all
  show ?thesis using Inr 1 2 3 o3 others_note_event [OF assms(2)]
    by (cases r1) (auto simp: handle_agent_heartbeat_def on_db_def Let_def split: prod.splits)
qed (simp add: handle_agent_heartbeat_def)

lemma events_others:
  assumes "rn_id r \<noteq> ''''"
  shows "others (rn_id r) (sv_db (snd (handle_agent_events r env cfg rq s))) = others (rn_id r) (sv_db s)"
proof -
  have "\<forall>e\<in>set (agent_batch r es). ne_runner e = rn_id r" for es by (simp add: agent_batch_def)
  then show ?thesis using assms
    by (auto simp: handle_agent_events_def on_db_def Let_def
        split: prod.splits sum.splits dest: others_record_events)
qed

lemma retire_others:
  assumes "rn_id r \<noteq> ''''"
  shows "others (rn_id r) (sv_db (snd (handle_agent_retire r env cfg rq s))) = others (rn_id r) (sv_db s)"
  using others_note_event [OF assms]
  by (auto simp: handle_agent_retire_def on_db_def Let_def split: prod.splits sum.splits dest: others_retire)

lemma command_others:
  "others (rn_id r) (sv_db (snd (handle_agent_command_result cid r env cfg rq s))) = others (rn_id r) (sv_db s)"
  by (auto simp: handle_agent_command_result_def on_db_def split: prod.splits sum.splits dest: others_complete)

fun agent_endpoint :: "endpoint \<Rightarrow> bool" where
  "agent_endpoint EAgentHeartbeat = True"
| "agent_endpoint EAgentEvents = True"
| "agent_endpoint EAgentConfig = True"
| "agent_endpoint (EAgentCommandResult _) = True"
| "agent_endpoint EAgentRetire = True"
| "agent_endpoint _ = False"

text \<open>
  C3: agents are isolated: a request authenticated as one runner, to any of the agents' endpoints and
  with any body, changes no row of another runner, its credentials, commands or events included, and
  no enrollment token, user, session or audit entry.
\<close>

theorem agents_isolated:
  assumes "db_ok (sv_db s)" "agent_endpoint e"
    and "authenticate_machine (en_hash env) (en_dbnow env) (bearer_token rq) (sv_db s) = (Inr r, d)"
  shows "others (rn_id r) (sv_db (snd (serve e env cfg rq s))) = others (rn_id r) (sv_db s)"
proof -
  note a = others_authenticate [OF assms(1,3)]
  have ne: "rn_id r \<noteq> ''''" using runners_okD [OF assms(1) a(3)] by (auto simp: is_uuid_def)
  have "bearer_token rq \<noteq> ''''" using authenticate_machine_sound_lemma [OF assms(3)]
    by (auto simp: machine_prefix_def)
  then have serve: "require_machine h env cfg rq s = h r env cfg rq (s\<lparr>sv_db := d\<rparr>)" for h
    using assms(3) by (simp add: require_machine_def on_db_def Let_def)
  have ok: "db_ok (sv_db (s\<lparr>sv_db := d\<rparr>))" using a(2) by simp
  show ?thesis using assms(2)
    by (cases e) (simp_all add: serve a(1) heartbeat_others [OF ok ne] events_others [OF ne]
        retire_others [OF ne] command_others handle_agent_config_def)
qed

section \<open>A credential that works\<close>

text \<open>What \<open>authenticate_machine\<close> needs of the tables to accept a token as runner \<open>i\<close>.\<close>

definition gives_access :: "(string \<Rightarrow> string) \<Rightarrow> string \<Rightarrow> string \<Rightarrow> db \<Rightarrow> bool" where
  "gives_access hash token i d \<longleftrightarrow> prefix machine_prefix token \<and> runner_exists d i \<and>
     (\<exists>t\<in>set (db_machine d). mt_hash t = hash token \<and> mt_revoked t = None \<and> mt_runner t = i)"

lemma gives_access_accepted:
  assumes "db_ok d" "gives_access hash token i d" "db_faults d = []"
  shows "\<exists>r d'. authenticate_machine hash now token d = (Inr r, d') \<and> rn_id r = i"
proof -
  let ?p = "\<lambda>t. mt_hash t = hash token \<and> mt_revoked t = None"
  obtain t where t: "t \<in> set (db_machine d)" "?p t" "mt_runner t = i" using assms(2) by (auto simp: gives_access_def)
  have "distinct (map mt_hash (db_machine d))" using assms(1) by (simp add: db_ok_def tokens_ok_def)
  then obtain u where u: "find ?p (db_machine d) = Some u" "mt_runner u = i"
    using t by (cases "find ?p (db_machine d)")
      (auto simp: find_None_conv dest!: find_Some_conv dest: key_unique)
  have ex: "runner_exists d i" using assms(2) by (simp add: gives_access_def)
  then obtain r where r: "find (\<lambda>x. rn_id x = i) (db_runners d) = Some r" "rn_id r = i"
    by (cases "find (\<lambda>x. rn_id x = i) (db_runners d)")
      (auto simp: runner_exists_def find_None_conv dest: find_Some_conv)
  have "is_uuid i" using assms(1) ex by (auto simp: runner_exists_def dest: runners_okD)
  then show ?thesis using u r assms(2,3)
    by (simp add: authenticate_machine_def gives_access_def get_runner_def stmt_no_fault)
qed

lemma gives_access_cong:
  "db_machine d' = db_machine d \<Longrightarrow> map rn_id (db_runners d') = map rn_id (db_runners d) \<Longrightarrow>
     gives_access hash token i d' = gives_access hash token i d"
proof -
  assume a: "db_machine d' = db_machine d" "map rn_id (db_runners d') = map rn_id (db_runners d)"
  have "rn_id ` set (db_runners d') = rn_id ` set (db_runners d)" using arg_cong [OF a(2), of set] by simp
  then show ?thesis using a(1) by (simp add: gives_access_def runner_exists_def)
qed

lemma gives_access_issued:
  assumes "issue_machine_token hash j rnd now i d = (Inr token, d')"
  shows "gives_access hash token i d'"
  using assms by (cases rule: issue_machine_token_cases) (auto simp: gives_access_def runner_exists_def)

lemma gives_access_stmt: "stmt a d = (ok, d') \<Longrightarrow> gives_access hash token i d' = gives_access hash token i d"
  by (rule gives_access_cong) (simp_all add: stmtD)

lemma gives_access_authenticated:
  assumes "authenticate_machine hash now token d = (Inr r, d')"
  shows "gives_access hash token (rn_id r) d'"
proof -
  obtain t where t: "r \<in> set (db_runners d)" "prefix machine_prefix token" "t \<in> set (db_machine d)"
      "mt_hash t = hash token" "mt_revoked t = None" "mt_runner t = rn_id r"
    using authenticate_machine_sound_lemma [OF assms] by blast
  have "db_runners d' = db_runners d \<and> db_machine d' =
      update_where (\<lambda>t. mt_hash t = hash token \<and> mt_revoked t = None) (\<lambda>t. t\<lparr>mt_last_used := Some now\<rparr>) (db_machine d)"
    using assms by (auto simp: authenticate_machine_def get_runner_def Let_def
        split: if_splits prod.splits option.splits dest!: stmtD)
  moreover from this have "t\<lparr>mt_last_used := Some now\<rparr> \<in> set (db_machine d')"
    using t by (auto simp: set_update_where)
  ultimately show ?thesis using t unfolding gives_access_def runner_exists_def
    by (intro conjI bexI [of _ "t\<lparr>mt_last_used := Some now\<rparr>"]) auto
qed

lemma record_event_access:
  assumes "record_event now e d = (res, d')"
  shows "gives_access hash token i d' = gives_access hash token i d"
proof -
  have "db_machine d' = db_machine d \<and> db_runners d' = db_runners d"
  proof (cases "ne_event e = ''''")
    case False
    then have "insert_event now e d = (res, d')" using assms by (simp add: record_event_def split: if_splits)
    then show ?thesis by (cases rule: insert_event_cases) simp_all
  qed (use assms in \<open>simp add: record_event_def split: if_splits\<close>)
  then show ?thesis by (simp add: gives_access_def runner_exists_def)
qed

lemma note_event_access: "gives_access hash token i (sv_db (note_event env j ev msg data s)) = gives_access hash token i (sv_db s)"
  by (auto simp: note_event_def on_db_def split: prod.splits dest: record_event_access)

lemma update_runner_access:
  assumes "update_runner i f v d = (res, d')" "\<And>x. rn_id (f x) = rn_id x"
  shows "gives_access hash token j d' = gives_access hash token j d"
  using assms
  by (intro gives_access_cong) (auto simp: update_runner_def Let_def map_key_update_where
      split: prod.splits if_splits option.splits dest!: stmtD)

lemma heartbeat_access:
  "record_heartbeat now i hb d = (res, d') \<Longrightarrow> gives_access hash token j d' = gives_access hash token j d"
  unfolding record_heartbeat_def Let_def
  by (erule update_runner_access) (simp add: apply_heartbeat_def)

lemma take_access: "take_commands now i d = (res, d') \<Longrightarrow> gives_access hash token j d' = gives_access hash token j d"
  by (rule gives_access_cong)
    (auto simp: take_commands_def Let_def split: prod.splits if_splits dest!: stmtD)

lemma rotate_access:
  assumes "rotate_machine_token_if_old hash oob j rnd now i age d = (res, d')" "gives_access hash token i d"
  shows "case res of Inr (new, True) \<Rightarrow> new \<noteq> '''' \<and> gives_access hash new i d'
         | Inr (new, False) \<Rightarrow> new = '''' \<and> gives_access hash token i d'
         | Inl _ \<Rightarrow> gives_access hash token i d'"
proof -
  obtain ok d1 where st: "stmt (is_uuid i) d = (ok, d1)" by fastforce
  have g1: "gives_access hash token i d1" using assms(2) by (simp add: gives_access_stmt [OF st])
  obtain r d2 where iss: "issue_machine_token hash j rnd now i d1 = (r, d2)" by fastforce
  have g2: "case r of Inl _ \<Rightarrow> gives_access hash token i d2 | Inr new \<Rightarrow> new \<noteq> '''' \<and> gives_access hash new i d2"
    using iss
  proof (cases rule: issue_machine_token_cases)
    case (issued s f)
    then show ?thesis using gives_access_issued iss by (auto simp: machine_prefix_def)
  qed (use g1 in \<open>auto simp: gives_access_def runner_exists_def\<close>)
  show ?thesis using assms(1) st iss g1 g2
    by (auto simp: rotate_machine_token_if_old_def Let_def split: if_splits list.splits sum.splits prod.splits)
qed

text \<open>The credential an agent holds once it has read the reply to a heartbeat.\<close>

definition held_token :: "request \<Rightarrow> response \<Rightarrow> string" where
  "held_token rq resp =
     (case rs_reply resp of RHeartbeat _ _ _ new \<Rightarrow> (if new = '''' then bearer_token rq else new)
      | _ \<Rightarrow> bearer_token rq)"

lemma held_token_fail [simp]:
  "held_token rq (fail a b) = bearer_token rq" "held_token rq (fail_store e) = bearer_token rq"
  by (simp_all add: held_token_def fail_def fail_store_def fail_internal_def write_json_def)

lemma heartbeat_handler_access:
  assumes "gives_access (en_hash env) (bearer_token rq) (rn_id r) (sv_db s)"
    and "handle_agent_heartbeat r env cfg rq s = (resp, s')"
  shows "gives_access (en_hash env) (held_token rq resp) (rn_id r) (sv_db s')"
proof (cases "decode body_heartbeat rq")
  case (Inr req)
  let ?i = "rn_id r" and ?g = "gives_access (en_hash env)"
  let ?hb = "\<lparr> hb_status = hr_status req, hb_detail = hr_detail req, hb_cpu = hr_cpu req,
     hb_memory = hr_memory req, hb_disk = hr_disk req, hb_runner_version = hr_runner_version req,
     hb_agent_version = hr_agent_version req \<rparr>"
  obtain r1 d1 where 1: "record_heartbeat (en_dbnow env) ?i ?hb (sv_db s) = (r1, d1)" by fastforce
  obtain r2 d2 where 2: "take_commands (en_dbnow env) ?i d1 = (r2, d2)" by fastforce
  obtain r3 d3 where 3: "rotate_machine_token_if_old (en_hash env) (en_oob env) (en_id env 0) (en_rand env 0)
     (en_dbnow env) ?i (sc_token_lifetime cfg) d2 = (r3, d3)" by fastforce
  have g: "?g (bearer_token rq) ?i d1" "?g (bearer_token rq) ?i d2"
    using assms(1) heartbeat_access [OF 1] take_access [OF 2] by auto
  note g3 = rotate_access [OF 3 g(2)]
  show ?thesis
  proof (cases r1)
    case (Inl e)
    then show ?thesis using assms Inr 1 g(1)
      by (auto simp: handle_agent_heartbeat_def on_db_def split: if_splits)
  next
    case (Inr u)
    then show ?thesis using assms \<open>decode body_heartbeat rq = Inr req\<close> 1 2 3 g3
      by (cases r3) (auto simp: handle_agent_heartbeat_def on_db_def Let_def held_token_def write_json_def fail_def
          note_event_access split: if_splits bool.splits prod.splits)
  qed
next
  case (Inl x)
  have "held_token rq x = bearer_token rq" using Inl
    by (auto simp: decode_def split: body.splits option.splits)
  then show ?thesis using assms Inl by (simp add: handle_agent_heartbeat_def)
qed

text \<open>
  C18: a heartbeat never locks its agent out: whatever statement of it fails and whether or not the
  credential is rotated, the credential the agent holds after reading the reply, the new one if there
  is one and the old one otherwise, authenticates it as the same runner at the next request.
\<close>

theorem heartbeat_keeps_access:
  assumes "db_ok (sv_db s)"
    and "authenticate_machine (en_hash env) (en_dbnow env) (bearer_token rq) (sv_db s) = (Inr r, d)"
    and "serve EAgentHeartbeat env cfg rq s = (resp, s')"
  shows "\<exists>r' d'. authenticate_machine (en_hash env) now (held_token rq resp) ((sv_db s')\<lparr>db_faults := []\<rparr>)
      = (Inr r', d') \<and> rn_id r' = rn_id r"
proof -
  have ne: "bearer_token rq \<noteq> ''''" using authenticate_machine_sound_lemma [OF assms(2)]
    by (auto simp: machine_prefix_def)
  have "handle_agent_heartbeat r env cfg rq (s\<lparr>sv_db := d\<rparr>) = (resp, s')"
    using assms(2,3) ne by (simp add: require_machine_def on_db_def Let_def)
  then have "gives_access (en_hash env) (held_token rq resp) (rn_id r) (sv_db s')"
    by (rule heartbeat_handler_access [rotated]) (simp add: gives_access_authenticated [OF assms(2)])
  then have "gives_access (en_hash env) (held_token rq resp) (rn_id r) ((sv_db s')\<lparr>db_faults := []\<rparr>)"
    by (simp add: gives_access_def runner_exists_def)
  moreover have "db_ok (sv_db s')" by (rule keptD [OF schema.every_endpoint_kept assms(3,1)])
  ultimately show ?thesis by (intro gives_access_accepted) simp_all
qed

lemma register_handler_access:
  assumes "handle_agent_register env cfg rq s = (resp, s')" "rs_reply resp = RRegistered r token n"
  shows "gives_access (en_hash env) token (rn_id r) (sv_db s')"
proof -
  have nf: "rs_reply (fail a b) \<noteq> RRegistered r token n" "rs_reply fail_internal \<noteq> RRegistered r token n" for a b
    by (simp_all add: fail_def fail_internal_def write_json_def)
  have nd: "decode body_register rq = Inl x \<Longrightarrow> rs_reply x \<noteq> RRegistered r token n" for x
    by (auto simp: decode_def nf split: body.splits option.splits)
  obtain req where req: "decode body_register rq = Inr req"
    using assms nf nd by (cases "decode body_register rq") (auto simp: handle_agent_register_def Let_def split: if_splits)
  obtain r1 d1 where 1: "redeem_enrollment_token (en_hash env) (en_dbnow env) (bearer_token rq) (sv_db s) = (r1, d1)"
    by fastforce
  obtain r2 d2 where 2: "upsert_runner (en_id env 0) (en_dbnow env) req d1 = (r2, d2)" by fastforce
  obtain r3 d3 where 3: "issue_machine_token (en_hash env) (en_id env 1) (en_rand env 0) (en_dbnow env)
      (rn_id (projr r2)) d2 = (r3, d3)" by fastforce
  note h = assms(1) [unfolded handle_agent_register_def Let_def, unfolded req on_db_def 1, simplified]
  obtain x1 where x1: "r1 = Inr x1" using h assms(2) nf by (cases r1) (auto split: if_splits)
  obtain x2 where x2: "r2 = Inr x2" using h assms(2) nf x1 2 by (cases r2) (auto split: if_splits)
  obtain x3 where x3: "r3 = Inr x3" using h assms(2) nf x1 2 3 x2 by (cases r3) (auto split: if_splits)
  have "r = x2 \<and> token = x3 \<and> s' = note_event env (rn_id x2) ''runner_enrolled''
      ''the machine enrolled with the control plane'' [(''agent_version'', rr_agent_version req)] (s\<lparr>sv_db := d3\<rparr>)"
    using h assms(2) nf x1 2 3 x2 x3 by (auto simp: write_json_def split: if_splits)
  then have "issue_machine_token (en_hash env) (en_id env 1) (en_rand env 0) (en_dbnow env) (rn_id r) d2 = (Inr token, d3)"
      "\<exists>msg data ev. s' = note_event env (rn_id r) ev msg data (s\<lparr>sv_db := d3\<rparr>)"
    using 3 x2 x3 by auto
  then show ?thesis using gives_access_issued by (auto simp: note_event_access)
qed

text \<open>
  Enrolling gives access: when an agent's registration is answered with a credential, that
  credential authenticates it, from the next request on, as the runner it was registered as.
\<close>

theorem enrollment_gives_access:
  assumes "handle_agent_register env cfg rq s = (resp, s')" "rs_reply resp = RRegistered r token n"
    and "db_ok (sv_db s)"
  shows "\<exists>r' d'. authenticate_machine (en_hash env) now token ((sv_db s')\<lparr>db_faults := []\<rparr>)
      = (Inr r', d') \<and> rn_id r' = rn_id r"
proof -
  have "gives_access (en_hash env) token (rn_id r) ((sv_db s')\<lparr>db_faults := []\<rparr>)"
    using register_handler_access [OF assms(1,2)] by (simp add: gives_access_def runner_exists_def)
  moreover have "db_ok (sv_db s')" by (rule keptD [OF schema.agent_handlers_kept(1) assms(1,3)])
  ultimately show ?thesis by (intro gives_access_accepted) simp_all
qed

section \<open>Concrete requests\<close>

definition sample_env :: env where
  "sample_env = \<lparr> en_now = 10, en_dbnow = 10, en_hash = id, en_id = (\<lambda>k. if k = 0 then sample_id else other_id),
     en_rand = (\<lambda>_. Some ''b''), en_state = Some ''s'', en_oob = 0, en_exchange = None, en_identity = None,
     en_sealed = None, en_page_status = 200 \<rparr>"

definition sample_config :: server_config where
  "sample_config = new_config \<lparr> op_client_id = '''', op_client_secret = '''', op_allowed_logins = [],
     op_public_url = ''http://localhost'', op_thresholds = default_thresholds, op_interval = 0,
     op_token_lifetime = 0, op_has_key = False, op_metrics_enabled = False, op_metrics_token = '''',
     op_requests_per_minute = 0, op_auth_per_minute = 0, op_trust_forwarded = False \<rparr>"

definition sample_server :: "db \<Rightarrow> server" where
  "sample_server d = \<lparr> sv_db = d, sv_heartbeats = 0, sv_restarts = 0, sv_agent_errors = 0, sv_rate_limited = 0,
     sv_requests = (\<lambda>_. 0), sv_general = None, sv_auth = None, sv_fleet = no_counts \<rparr>"

definition sample_request :: "string \<Rightarrow> string list \<Rightarrow> string \<Rightarrow> body \<Rightarrow> request" where
  "sample_request m p authz b = \<lparr> rq_method = m, rq_path = p, rq_authorization = authz, rq_forwarded_for = '''',
     rq_remote = ''10.0.0.1:4242'', rq_cookies = [], rq_query = [], rq_body = b \<rparr>"

definition sample_heartbeat :: body where
  "sample_heartbeat = BodyHeartbeat \<lparr> hr_status = ''online'', hr_detail = '''', hr_cpu = 1, hr_memory = 2,
     hr_disk = 3, hr_runner_version = '''', hr_agent_version = '''' \<rparr>"

lemma sample_bearer:
  "bearer_token (sample_request m p ''Bearer rnr_machine_a'' b) = ''rnr_machine_a''"
  "bearer_token (sample_request m p ''Bearer rnr_enroll_x'' b) = ''rnr_enroll_x''"
  "bearer_token (sample_request m p '''' b) = ''''"
  by (simp_all add: bearer_token_def sample_request_def trim_space_def trim_left_def trim_right_def is_space_def)

lemma sample_authenticated:
  "\<exists>r d. authenticate_machine (en_hash sample_env) (en_dbnow sample_env) ''rnr_machine_a'' enrolled_db = (Inr r, d)
     \<and> rn_id r = sample_id"
  by (simp add: authenticate_machine_def get_runner_def machine_prefix_def stmt_def enrolled_db_def
      empty_db_def is_uuid_sample sample_runner_def registered_row_def sample_env_def)

theorem agents_isolated_witness:
  "others sample_id (sv_db (snd (serve EAgentHeartbeat sample_env sample_config
      (sample_request ''POST'' [] ''Bearer rnr_machine_a'' sample_heartbeat) (sample_server enrolled_db))))
    = others sample_id enrolled_db"
proof -
  obtain r d where a: "authenticate_machine (en_hash sample_env) (en_dbnow sample_env) ''rnr_machine_a'' enrolled_db
      = (Inr r, d)" "rn_id r = sample_id" using sample_authenticated by blast
  show ?thesis
    using agents_isolated [of "sample_server enrolled_db" EAgentHeartbeat sample_env
        "sample_request ''POST'' [] ''Bearer rnr_machine_a'' sample_heartbeat" r d sample_config]
      a db_ok_enrolled by (simp add: sample_bearer) (simp add: sample_server_def)
qed

theorem heartbeat_keeps_access_witness:
  "let rq = sample_request ''POST'' [] ''Bearer rnr_machine_a'' sample_heartbeat;
       (resp, s') = serve EAgentHeartbeat sample_env sample_config rq (sample_server enrolled_db)
   in \<exists>r' d'. authenticate_machine id 20 (held_token rq resp) ((sv_db s')\<lparr>db_faults := []\<rparr>) = (Inr r', d')
        \<and> rn_id r' = sample_id"
proof -
  let ?rq = "sample_request ''POST'' [] ''Bearer rnr_machine_a'' sample_heartbeat"
  obtain r d where a: "authenticate_machine (en_hash sample_env) (en_dbnow sample_env) ''rnr_machine_a'' enrolled_db
      = (Inr r, d)" "rn_id r = sample_id" using sample_authenticated by blast
  have h: "en_hash sample_env = id" by (simp add: sample_env_def)
  obtain resp s' where s: "serve EAgentHeartbeat sample_env sample_config ?rq (sample_server enrolled_db) = (resp, s')"
    by fastforce
  have "\<exists>r' d'. authenticate_machine (en_hash sample_env) 20 (held_token ?rq resp) ((sv_db s')\<lparr>db_faults := []\<rparr>)
      = (Inr r', d') \<and> rn_id r' = rn_id r"
    by (rule heartbeat_keeps_access [OF _ _ s, of r d])
      (use a db_ok_enrolled in \<open>simp_all add: sample_bearer sample_server_def\<close>)
  then show ?thesis unfolding Let_def s h prod.case a(2) .
qed



definition one_use_db :: db where
  "one_use_db = empty_db\<lparr>db_enroll := [sample_token]\<rparr>"

lemma one_use_redeemed:
  "redeem_enrollment_token id 10 ''rnr_enroll_x'' one_use_db
     = (Inr (use_token sample_token), one_use_db\<lparr>db_enroll := [use_token sample_token]\<rparr>)"
  by (simp add: one_use_db_def redeem_enrollment_token_def sample_token_def enrollment_prefix_def stmt_def empty_db_def
      redeemable_def update_where_def)

definition used_db :: db where
  "used_db = one_use_db\<lparr>db_enroll := [use_token sample_token]\<rparr>"

lemma used_registered:
  "\<exists>r. upsert_runner sample_id 10 sample_registration used_db = (Inr r, used_db\<lparr>db_runners := [r]\<rparr>)
     \<and> rn_id r = sample_id"
  by (simp add: upsert_runner_def sample_registration_def Let_def stmt_def used_db_def one_use_db_def empty_db_def
      is_uuid_sample registered_row_def runner_exists_def scope_ok_def)

lemma used_issued:
  "rn_id r = sample_id \<Longrightarrow>
     \<exists>d. issue_machine_token id other_id (Some ''b'') 10 sample_id (used_db\<lparr>db_runners := [r]\<rparr>)
       = (Inr ''rnr_machine_b'', d)"
  by (simp add: issue_machine_token_def new_token_def machine_prefix_def stmt_def used_db_def one_use_db_def
      empty_db_def is_uuid_sample is_uuid_other update_where_def runner_exists_def)

lemma sample_decoded: "decode body_register (sample_request m p a (BodyRegister q)) = Inr q"
  by (simp add: decode_def sample_request_def)

theorem enrollment_gives_access_witness:
  "\<exists>resp s' r n. handle_agent_register sample_env sample_config
      (sample_request ''POST'' [] ''Bearer rnr_enroll_x'' (BodyRegister sample_registration))
      (sample_server one_use_db) = (resp, s')
    \<and> rs_reply resp = RRegistered r ''rnr_machine_b'' n
    \<and> (\<exists>r' d'. authenticate_machine id 20 ''rnr_machine_b'' ((sv_db s')\<lparr>db_faults := []\<rparr>) = (Inr r', d')
        \<and> rn_id r' = rn_id r)"
proof -
  let ?rq = "sample_request ''POST'' [] ''Bearer rnr_enroll_x'' (BodyRegister sample_registration)"
  have h: "en_hash sample_env = id" by (simp add: sample_env_def)
  obtain resp s' where r: "handle_agent_register sample_env sample_config ?rq (sample_server one_use_db) = (resp, s')"
    by (metis prod.collapse)
  obtain x where x: "upsert_runner sample_id 10 sample_registration used_db = (Inr x, used_db\<lparr>db_runners := [x]\<rparr>)"
    "rn_id x = sample_id" using used_registered by blast
  obtain d where d: "issue_machine_token id other_id (Some ''b'') 10 sample_id (used_db\<lparr>db_runners := [x]\<rparr>)
    = (Inr ''rnr_machine_b'', d)" using used_issued [OF x(2)] by blast
  have reply: "\<exists>r n. rs_reply resp = RRegistered r ''rnr_machine_b'' n"
    using r by (auto simp: handle_agent_register_def sample_bearer sample_decoded on_db_def sample_server_def
        sample_env_def one_use_redeemed used_db_def [symmetric] x d Let_def write_json_def sample_registration_def [THEN arg_cong, of rr_name]
        sample_registration_def [THEN arg_cong, of rr_scope_id] sample_registration_def [THEN arg_cong, of rr_scope])
  moreover have "db_ok (sv_db (sample_server one_use_db))" using db_ok_sample_token by (simp add: sample_server_def one_use_db_def)
  ultimately obtain y n where y: "rs_reply resp = RRegistered y ''rnr_machine_b'' n"
    and ok: "db_ok (sv_db (sample_server one_use_db))" by blast
  from enrollment_gives_access [OF r y ok, of 20] r y show ?thesis unfolding h by fast
qed

end
