(* ===== verification/Server_Operators.thy ===== *)
theory Server_Operators
  imports Server_Agents
begin

text \<open>
  Operators: a session comes only from a sign-in that GitHub vouched for, a deleted runner is locked
  out, and what a request for an enrollment token really grants.
\<close>

section \<open>Where sessions come from\<close>

definition sessions_in :: "session_row set \<Rightarrow> db \<Rightarrow> bool" where
  "sessions_in S d \<longleftrightarrow> set (db_sessions d) \<subseteq> S"

lemma keeps_sessions:
  "(\<And>d r d'. f d = (r, d') \<Longrightarrow> set (db_sessions d') \<subseteq> set (db_sessions d)) \<Longrightarrow> keeps (sessions_in S) f"
  by (rule keepsI) (simp add: sessions_in_def, blast)

lemma sessions_update_runner: "update_runner i f v d = (res, d') \<Longrightarrow> db_sessions d' = db_sessions d"
  by (auto simp: update_runner_def Let_def split: prod.splits if_splits option.splits dest!: stmtD)

lemma sessions_insert_event: "insert_event now e d = (res, d') \<Longrightarrow> db_sessions d' = db_sessions d"
  by (auto elim: insert_event_cases)

lemma sessions_insert_events: "insert_events now es n d = (res, d') \<Longrightarrow> db_sessions d' = db_sessions d"
proof (induction now es n d rule: insert_events.induct)
  case (2 now e es n d)
  obtain r d1 where i: "insert_event now e d = (r, d1)" by fastforce
  then show ?case using 2 sessions_insert_event [OF i] by (cases r) (auto split: if_splits)
qed simp

lemma sessions_record_events: "record_events now es d = (res, d') \<Longrightarrow> db_sessions d' = db_sessions d"
  by (auto simp: record_events_def Let_def split: prod.splits if_splits sum.splits
      dest!: stmtD sessions_insert_events)

lemma sessions_issue: "issue_machine_token hash i rnd now j d = (res, d') \<Longrightarrow> db_sessions d' = db_sessions d"
  by (auto elim: issue_machine_token_cases)

lemma sessions_insert_command:
  "insert_command i now j cmd who d = (res, d') \<Longrightarrow> db_sessions d' = db_sessions d"
  by (auto simp: insert_command_def Let_def split: prod.splits if_splits dest!: stmtD)

lemma sessions_pending: "pending_command j cmd d = (res, d') \<Longrightarrow> db_sessions d' = db_sessions d"
  by (auto simp: pending_command_def Let_def split: prod.splits if_splits list.splits dest!: stmtD)

lemmas session_defs = get_runner_def list_runners_def delete_runner_def create_enrollment_token_def
  redeem_enrollment_token_def list_enrollment_tokens_def revoke_enrollment_token_def
  authenticate_machine_def rotate_machine_token_if_old_def
  pending_command_def take_commands_def complete_command_def list_commands_def
  record_event_def list_events_def list_audit_def record_audit_def authenticate_session_def
  delete_session_def

interpretation sessions: store_invariant "sessions_in S" for S
proof unfold_locales
  show "keeps (sessions_in S) (upsert_runner i now q)" for i now q
    by (rule keeps_sessions) (auto simp: upsert_runner_def Let_def split: prod.splits if_splits option.splits dest!: stmtD)
  show "keeps (sessions_in S) (record_heartbeat now j hb)" "keeps (sessions_in S) (retire_runner now j why)" for now j hb why
    by (rule keeps_sessions, simp add: record_heartbeat_def retire_runner_def Let_def sessions_update_runner)+
  show "keeps (sessions_in S) (count_runners now th)" for now th
    by (rule keeps_sessions) (auto simp: count_runners_def list_runners_def Let_def
        split: prod.splits sum.splits if_splits dest!: stmtD)
  show "keeps (sessions_in S) (issue_machine_token hash i rnd now j)" for hash i rnd now j
    by (rule keeps_sessions) (simp add: sessions_issue)
  show "keeps (sessions_in S) (queue_command i now j cmd who)" for i now j cmd who
    by (rule keeps_sessions) (auto simp: queue_command_def Let_def
        split: prod.splits sum.splits option.splits if_splits dest!: sessions_pending sessions_insert_command)
  show "keeps (sessions_in S) (record_events now es)" for now es
    by (rule keeps_sessions) (simp add: sessions_record_events)
  show "keeps (sessions_in S) (stmt b)" for b
    by (rule keeps_sessions) (auto dest!: stmtD)
qed (rule keeps_sessions, auto simp: session_defs Let_def split: prod.splits if_splits option.splits sum.splits list.splits
      dest!: stmtD sessions_insert_event sessions_issue)+

lemma upsert_user_result:
  assumes "upsert_user i now g sealed d = (Inr u, d')"
  shows "u \<in> set (db_users d') \<and> us_github_id u = gu_id g \<and> us_login u = gu_login g \<and> db_sessions d' = db_sessions d"
proof -
  have "find (\<lambda>x. us_github_id x = gu_id g) (db_users d) = Some y \<Longrightarrow> y \<in> set (db_users d) \<and> us_github_id y = gu_id g" for y
    by (rule find_Some_conv)
  then show ?thesis using assms
    by (auto simp: upsert_user_def Let_def set_update_where split: if_splits prod.splits option.splits dest!: stmtD)
qed

lemma upsert_user_failed: "upsert_user i now g sealed d = (Inl e, d') \<Longrightarrow> db_sessions d' = db_sessions d"
  by (auto simp: upsert_user_def Let_def split: if_splits prod.splits option.splits dest!: stmtD)

lemma create_session_result:
  assumes "create_session hash i rnd now j d = (res, d')"
  shows "db_users d' = db_users d \<and> (\<forall>x\<in>set (db_sessions d'). x \<in> set (db_sessions d) \<or> se_user x = j)"
  using assms by (auto simp: create_session_def Let_def split: sum.splits if_splits prod.splits dest!: stmtD)

lemma note_audit_users:
  "db_users (sv_db (note_audit env a b c dt s)) = db_users (sv_db s)"
  "db_sessions (sv_db (note_audit env a b c dt s)) = db_sessions (sv_db s)"
  by (auto simp: note_audit_def on_db_def record_audit_def Let_def split: prod.splits dest!: stmtD)

text \<open>Whom GitHub vouched for: the request came back from GitHub in the browser that was sent there.\<close>

definition vouched_for :: "env \<Rightarrow> server_config \<Rightarrow> request \<Rightarrow> github_user \<Rightarrow> bool" where
  "vouched_for env cfg rq g \<longleftrightarrow> sign_in_ready cfg \<and> cookie rq oauth_cookie = query rq ''state''
     \<and> query rq ''state'' \<noteq> '''' \<and> query rq ''code'' \<noteq> '''' \<and> en_exchange env \<noteq> None
     \<and> en_identity env = Some g \<and> login_allowed cfg (gu_login g)"

lemma callback_session:
  assumes "x \<in> set (db_sessions (sv_db (snd (handle_auth_callback env cfg rq s))))" "x \<notin> set (db_sessions (sv_db s))"
  shows "\<exists>g. vouched_for env cfg rq g \<and>
    (\<exists>u\<in>set (db_users (sv_db (snd (handle_auth_callback env cfg rq s)))). us_id u = se_user x
        \<and> us_github_id u = gu_id g \<and> us_login u = gu_login g)"
proof -
  let ?out = "handle_auth_callback env cfg rq s"
  have early: "sv_db (snd ?out) \<noteq> sv_db s" using assms by auto
  then obtain tok g where g: "en_exchange env = Some tok" "en_identity env = Some g" "login_allowed cfg (gu_login g)"
    "sign_in_ready cfg" "query rq ''state'' \<noteq> ''''" "cookie rq oauth_cookie = query rq ''state''" "query rq ''code'' \<noteq> ''''"
    "query rq ''error'' = ''''"
    by (auto simp: handle_auth_callback_def secure_compare_def split: if_splits option.splits)
  then have v: "vouched_for env cfg rq g" by (simp add: vouched_for_def)
  let ?sealed = "if sc_has_key cfg then en_sealed env else None"
  obtain r1 d1 where 1: "upsert_user (en_id env 0) (en_dbnow env) g ?sealed (sv_db s) = (r1, d1)" by fastforce
  obtain r2 d2 where 2: "create_session (en_hash env) (en_id env 1) (en_rand env 0) (en_now env) (us_id (projr r1)) d1
      = (r2, d2)" by fastforce
  have key: "\<not> (sc_has_key cfg \<and> en_sealed env = None)"
    using early g by (cases "en_sealed env") (auto simp: handle_auth_callback_def secure_compare_def)
  have out: "?out = (case r1 of Inl e \<Rightarrow> (clear_state fail_internal, s\<lparr>sv_db := d1\<rparr>) | Inr user \<Rightarrow>
      (case on_db (create_session (en_hash env) (en_id env 1) (en_rand env 0) (en_now env) (us_id user)) (s\<lparr>sv_db := d1\<rparr>) of
         (Inl e, s) \<Rightarrow> (clear_state fail_internal, s)
       | (Inr (session, expires), s) \<Rightarrow>
           let s = note_audit env (us_login user) ''user.login'' (us_login user) [] s
           in ((set_cookie session_cookie session (trunc_rat (dur_seconds (time_sub expires (en_now env))))
                  (clear_state (write_json 302 REmpty)))\<lparr>rs_location := Some ''/''\<rparr>, s)))"
    using g key 1 by (auto simp: handle_auth_callback_def on_db_def secure_compare_def Let_def split: sum.splits)
  show ?thesis
  proof (cases r1)
    case (Inl e)
    then show ?thesis using assms out upsert_user_failed 1 by auto
  next
    case (Inr u)
    note u = upsert_user_result [OF 1 [unfolded Inr]]
    note c = create_session_result [OF 2]
    have end_db: "db_sessions (sv_db (snd ?out)) = db_sessions d2" "db_users (sv_db (snd ?out)) = db_users d2"
      using out 2 Inr by (auto simp: on_db_def Let_def note_audit_users split: sum.splits)
    then have "se_user x = us_id u" using assms c u Inr by auto
    then show ?thesis using v u c end_db by force
  qed
qed

lemma request_serves:
  "\<exists>s'. sv_db s' = sv_db s \<and> (sv_db (snd (handle_request env cfg rq s)) = sv_db s \<or>
     sv_db (snd (handle_request env cfg rq s)) = sv_db (snd (serve (route (rq_method rq) (rq_path rq)) env cfg rq s')))"
proof (cases "sv_general s")
  case None
  then show ?thesis
    by (intro exI [of _ s]) (auto simp: handle_request_def with_request_log_def limited_def mux_def Let_def split_beta)
next
  case (Some l)
  obtain ok w l' where "allow (en_oob env) (en_now env) (client_key cfg rq) l = ((ok, w), l')"
    by (metis prod.collapse)
  then show ?thesis using Some
    by (intro exI [of _ "put_general l' s"])
      (auto simp: handle_request_def with_request_log_def limited_def mux_def Let_def split_beta put_general_def
        split: bool.splits)
qed

lemma limited_auth_serves:
  "\<exists>s'. sv_db s' = sv_db s \<and> (sv_db (snd (limited_auth h env cfg rq s)) = sv_db s \<or>
     sv_db (snd (limited_auth h env cfg rq s)) = sv_db (snd (h env cfg rq s')))"
proof (cases "sv_auth s")
  case None
  then show ?thesis by (intro exI [of _ s]) (auto simp: limited_auth_def limited_def)
next
  case (Some l)
  obtain ok w l' where "allow (en_oob env) (en_now env) (client_key cfg rq) l = ((ok, w), l')"
    by (metis prod.collapse)
  then show ?thesis using Some
    by (intro exI [of _ "put_auth l' s"]) (auto simp: limited_auth_def limited_def Let_def put_auth_def split: bool.splits)
qed

text \<open>
  C1: only GitHub's word signs anyone in: whatever is requested, a session that was not there before
  belongs to a user whose identity GitHub confirmed in this very request, whose login the configuration
  allows, and whose browser brought back the state it had been given.
\<close>

theorem sessions_only_by_sign_in:
  assumes "x \<in> set (db_sessions (sv_db (snd (handle_request env cfg rq s))))" "x \<notin> set (db_sessions (sv_db s))"
  shows "\<exists>g. vouched_for env cfg rq g \<and>
    (\<exists>u\<in>set (db_users (sv_db (snd (handle_request env cfg rq s)))). us_id u = se_user x
        \<and> us_github_id u = gu_id g \<and> us_login u = gu_login g)"
proof -
  have "route (rq_method rq) (rq_path rq) = EAuthCallback"
  proof (rule ccontr)
    assume "route (rq_method rq) (rq_path rq) \<noteq> EAuthCallback"
    then have "kept (sessions_in (set (db_sessions (sv_db s)))) env cfg rq handle_request"
      using sessions.request_kept by blast
    then show False using assms by (auto simp: kept_def sessions_in_def)
  qed
  moreover obtain s' where s': "sv_db s' = sv_db s" "sv_db (snd (handle_request env cfg rq s)) = sv_db s \<or>
     sv_db (snd (handle_request env cfg rq s)) = sv_db (snd (serve (route (rq_method rq) (rq_path rq)) env cfg rq s'))"
    using request_serves by blast
  moreover obtain s'' where s'': "sv_db s'' = sv_db s'" "sv_db (snd (limited_auth handle_auth_callback env cfg rq s')) = sv_db s' \<or>
     sv_db (snd (limited_auth handle_auth_callback env cfg rq s')) = sv_db (snd (handle_auth_callback env cfg rq s''))"
    using limited_auth_serves by blast
  ultimately have "sv_db (snd (handle_request env cfg rq s)) = sv_db (snd (handle_auth_callback env cfg rq s''))"
    using assms by auto
  with callback_session [of x env cfg rq s''] assms s'(1) s''(1) show ?thesis by simp
qed

section \<open>Deleted runners\<close>

lemma delete_runnerD:
  "delete_runner i d = (Inr u, d') \<Longrightarrow> i \<notin> rn_id ` set (db_runners d') \<and> (\<forall>t\<in>set (db_machine d'). mt_runner t \<noteq> i)
     \<and> (\<forall>c\<in>set (db_commands d'). cm_runner c \<noteq> i)"
  by (auto simp: delete_runner_def Let_def split: prod.splits if_splits)

text \<open>
  Deleting a runner locks its agent out: once the deletion has been confirmed no credential
  authenticates as that runner, and no command is left for it.
\<close>

theorem deleted_runner_locked_out:
  assumes "handle_delete_runner i user env cfg rq s = (resp, s')" "rs_reply resp = RDeleted name"
  shows "(\<forall>hash now token r d. authenticate_machine hash now token (sv_db s') = (Inr r, d) \<longrightarrow> rn_id r \<noteq> i)
    \<and> (\<forall>c\<in>set (db_commands (sv_db s')). cm_runner c \<noteq> i)"
proof -
  obtain r1 d1 where 1: "get_runner i (sv_db s) = (r1, d1)" by fastforce
  obtain r2 d2 where 2: "delete_runner i d1 = (r2, d2)" by fastforce
  have nf: "rs_reply (fail_store e) \<noteq> RDeleted name" for e
    by (simp add: fail_store_def fail_internal_def fail_def write_json_def)
  note h = assms(1) [unfolded handle_delete_runner_def Let_def, unfolded on_db_def 1, simplified]
  obtain x1 where x1: "r1 = Inr x1" using h assms(2) nf by (cases r1) auto
  obtain x2 where x2: "r2 = Inr x2" using h assms(2) nf x1 2 by (cases r2) auto
  have s': "s' = note_audit env (us_login user) ''runner.delete'' (rn_name x1) [(''scope'', rn_scope_id x1)] (s\<lparr>sv_db := d2\<rparr>)"
    using h x1 x2 2 by auto
  have "db_runners (sv_db (note_audit env a b c dt s)) = db_runners (sv_db s)"
    "db_commands (sv_db (note_audit env a b c dt s)) = db_commands (sv_db s)" for a b c dt s
    by (auto simp: note_audit_def on_db_def record_audit_def Let_def split: prod.splits dest!: stmtD)
  then have "i \<notin> rn_id ` set (db_runners (sv_db s'))" "\<forall>c\<in>set (db_commands (sv_db s')). cm_runner c \<noteq> i"
    using delete_runnerD 2 x2 s' by auto
  then show ?thesis using authenticate_machine_sound_lemma by fast
qed

section \<open>Requests for enrollment tokens\<close>

lemma wrap64_id: "- (2 ^ 63) \<le> k \<Longrightarrow> k < 2 ^ 63 \<Longrightarrow> wrap64 k = k"
  by (simp add: wrap64_def)

lemma created_expiry:
  assumes "handle_create_enrollment_token user env cfg rq s = (resp, s')" "rs_reply resp = RToken t secret"
    and "rq_body rq = BodyToken req"
  shows "et_max_uses t = tr_max_uses req \<and> et_uses t = 0 \<and> et_hash t = en_hash env secret
    \<and> (case tr_max_uses req of None \<Rightarrow> True | Some m \<Rightarrow> 1 \<le> m) \<and> 0 \<le> tr_expires_in_hours req
    \<and> et_expires t = (if 0 < tr_expires_in_hours req
                       then Some (en_now env + wrap64 (tr_expires_in_hours req * hour)) else None)"
  using assms
  by (auto simp: handle_create_enrollment_token_def decode_def on_db_def Let_def create_enrollment_token_def
      fail_def fail_internal_def write_json_def split: if_splits option.splits sum.splits prod.splits)

text \<open>
  An operator gets the enrollment token asked for: the reply's token may be used as often as the
  request says, and expires that many hours from now, as long as they are at most 2562047, the most
  that fit a duration.
\<close>

theorem enrollment_token_as_requested:
  assumes "handle_create_enrollment_token user env cfg rq s = (resp, s')" "rs_reply resp = RToken t secret"
    and "rq_body rq = BodyToken req" "tr_expires_in_hours req \<le> 2562047"
  shows "et_max_uses t = tr_max_uses req \<and> et_uses t = 0 \<and> et_hash t = en_hash env secret
    \<and> et_expires t = (if tr_expires_in_hours req = 0 then None
                       else Some (en_now env + tr_expires_in_hours req * hour))"
proof -
  have "wrap64 (tr_expires_in_hours req * hour) = tr_expires_in_hours req * hour"
    if "0 \<le> tr_expires_in_hours req"
    using that assms(4) by (intro wrap64_id) (simp_all add: hour_def)
  then show ?thesis using created_expiry [OF assms(1-3)] by auto
qed

text \<open>
  Beyond that the product wraps around: a token requested for 5124096 hours, some 584 years,
  expires within half an hour.
\<close>

theorem enrollment_expiry_wraps:
  assumes "handle_create_enrollment_token user env cfg rq s = (resp, s')" "rs_reply resp = RToken t secret"
    and "rq_body rq = BodyToken req" "tr_expires_in_hours req = 5124096"
  shows "\<exists>e. et_expires t = Some e \<and> e < en_now env + 30 * minute"
  using created_expiry [OF assms(1-3)] assms(4) by (simp add: wrap64_def hour_def minute_def)

section \<open>Concrete requests\<close>

definition sample_identity :: github_user where
  "sample_identity = \<lparr> gu_id = 7, gu_login = ''octocat'', gu_name = '''', gu_avatar = '''' \<rparr>"

definition sign_in_env :: env where
  "sign_in_env = sample_env\<lparr>en_exchange := Some ''t'', en_identity := Some sample_identity\<rparr>"

definition sign_in_config :: server_config where
  "sign_in_config = sample_config\<lparr>sc_client_id := ''c'', sc_client_secret := ''s''\<rparr>"

definition sign_in_request :: request where
  "sign_in_request = (sample_request ''GET'' [''api'', ''v1'', ''auth'', ''github'', ''callback''] '''' BodyInvalid)
     \<lparr>rq_cookies := [(oauth_cookie, ''st'')], rq_query := [(''state'', ''st''), (''code'', ''x'')]\<rparr>"

lemma sign_in_ready_sample: "sign_in_ready sign_in_config"
  by (simp add: sign_in_ready_def sign_in_config_def sample_config_def new_config_def oauth_configured_def
      trim_right_def)

lemma sign_in_fields:
  "query sign_in_request ''error'' = ''''" "query sign_in_request ''state'' = ''st''"
  "query sign_in_request ''code'' = ''x''" "cookie sign_in_request oauth_cookie = ''st''"
  "route (rq_method sign_in_request) (rq_path sign_in_request) = EAuthCallback"
  "sc_allowed_logins sign_in_config = []" "\<not> sc_has_key sign_in_config"
  by (simp_all add: query_def cookie_def sign_in_request_def sample_request_def oauth_cookie_def route_def
      route_v1_def route_auth_def is_get_def sign_in_config_def sample_config_def new_config_def)

lemma sign_in_creates:
  "\<exists>x. x \<in> set (db_sessions (sv_db (snd (handle_request sign_in_env sign_in_config sign_in_request (sample_server empty_db)))))"
proof -
  have e: "en_exchange sign_in_env = Some ''t''" "en_identity sign_in_env = Some sample_identity"
    "en_hash sign_in_env = id" "en_id sign_in_env 0 = sample_id" "en_id sign_in_env (Suc 0) = other_id"
    "en_rand sign_in_env 0 = Some ''b''" "en_dbnow sign_in_env = 10" "en_now sign_in_env = 10"
    by (simp_all add: sign_in_env_def sample_env_def)
  obtain u d1 where 1: "upsert_user sample_id 10 sample_identity None empty_db = (Inr u, d1)"
    "d1 = empty_db\<lparr>db_users := [u]\<rparr>"
    by (simp add: upsert_user_def sample_identity_def Let_def stmt_def empty_db_def is_uuid_sample)
  then have "\<exists>p d2. create_session id other_id (Some ''b'') 10 (us_id u) d1 = (Inr p, d2) \<and> db_sessions d2 \<noteq> []"
    by (simp add: create_session_def new_token_def session_prefix_def Let_def stmt_def empty_db_def is_uuid_other)
  then obtain tok exp d2 where 2: "create_session id other_id (Some ''b'') 10 (us_id u) d1 = (Inr (tok, exp), d2)"
    "db_sessions d2 \<noteq> []" by auto
  have "sv_general (sample_server empty_db) = None" "sv_auth (sample_server empty_db) = None"
    "sv_db (sample_server empty_db) = empty_db" by (simp_all add: sample_server_def)
  then have "db_sessions (sv_db (snd (handle_request sign_in_env sign_in_config sign_in_request (sample_server empty_db)))) \<noteq> []"
    using 1(1) 2 by (simp add: handle_request_def with_request_log_def limited_def mux_def split_beta Let_def sign_in_fields
        limited_auth_def handle_auth_callback_def sign_in_ready_sample e secure_compare_def login_allowed_def on_db_def
        note_audit_users)
  then show ?thesis by (cases "db_sessions (sv_db (snd (handle_request sign_in_env sign_in_config sign_in_request (sample_server empty_db))))") auto
qed

theorem sessions_only_by_sign_in_witness:
  "\<exists>x\<in>set (db_sessions (sv_db (snd (handle_request sign_in_env sign_in_config sign_in_request (sample_server empty_db))))).
     \<exists>g. vouched_for sign_in_env sign_in_config sign_in_request g \<and>
       (\<exists>u\<in>set (db_users (sv_db (snd (handle_request sign_in_env sign_in_config sign_in_request (sample_server empty_db))))).
          us_id u = se_user x \<and> us_github_id u = gu_id g \<and> us_login u = gu_login g)"
proof -
  obtain x where x: "x \<in> set (db_sessions (sv_db (snd (handle_request sign_in_env sign_in_config sign_in_request
      (sample_server empty_db)))))" using sign_in_creates by blast
  have "x \<notin> set (db_sessions (sv_db (sample_server empty_db)))" by (simp add: sample_server_def empty_db_def)
  from sessions_only_by_sign_in [OF x this] x show ?thesis by blast
qed

definition operator :: user_row where
  "operator = \<lparr> us_id = sample_id, us_github_id = 7, us_login = ''octocat'', us_name = '''', us_avatar = '''',
     us_token = None, us_created = 0, us_last_login = 0 \<rparr>"

theorem deleted_runner_locked_out_witness:
  "\<exists>resp s'. handle_delete_runner sample_id operator sample_env sample_config (sample_request ''DELETE'' [] '''' BodyInvalid)
       (sample_server enrolled_db) = (resp, s') \<and> rs_reply resp = RDeleted (rn_name sample_runner)
     \<and> (\<forall>hash now token r d. authenticate_machine hash now token (sv_db s') = (Inr r, d) \<longrightarrow> rn_id r \<noteq> sample_id)"
proof -
  have f: "db_faults enrolled_db = []" "find (\<lambda>x. rn_id x = sample_id) (db_runners enrolled_db) = Some sample_runner"
    "runner_exists enrolled_db sample_id"
    by (simp_all add: enrolled_db_def empty_db_def sample_runner_def registered_row_def runner_exists_def)
  obtain resp s' where h: "handle_delete_runner sample_id operator sample_env sample_config
      (sample_request ''DELETE'' [] '''' BodyInvalid) (sample_server enrolled_db) = (resp, s')"
    by (metis prod.collapse)
  moreover have r: "rs_reply resp = RDeleted (rn_name sample_runner)"
    using h f by (auto simp: handle_delete_runner_def on_db_def sample_server_def get_runner_def delete_runner_def
        stmt_no_fault is_uuid_sample write_json_def Let_def)
  ultimately show ?thesis using deleted_runner_locked_out [OF h r] by blast
qed

definition token_body :: "int \<Rightarrow> request" where
  "token_body h = sample_request ''POST'' [] '''' (BodyToken \<lparr> tr_description = '''', tr_max_uses = Some 1, tr_expires_in_hours = h \<rparr>)"

lemma token_created:
  assumes "0 \<le> h"
  shows "\<exists>resp s' t. handle_create_enrollment_token operator sample_env sample_config (token_body h) (sample_server empty_db)
     = (resp, s') \<and> rs_reply resp = RToken t ''rnr_enroll_b''"
  using assms
  by (simp add: handle_create_enrollment_token_def token_body_def decode_def sample_request_def on_db_def
      sample_server_def create_enrollment_token_def sample_env_def new_token_def enrollment_prefix_def stmt_def empty_db_def
      is_uuid_sample write_json_def Let_def)

theorem enrollment_token_as_requested_witness:
  "\<exists>resp s' t. handle_create_enrollment_token operator sample_env sample_config (token_body 24) (sample_server empty_db)
     = (resp, s') \<and> rs_reply resp = RToken t ''rnr_enroll_b'' \<and> et_expires t = Some (10 + 24 * hour)"
proof -
  obtain resp s' t where h: "handle_create_enrollment_token operator sample_env sample_config (token_body 24)
     (sample_server empty_db) = (resp, s')" "rs_reply resp = RToken t ''rnr_enroll_b''"
    using token_created [of 24] by auto
  have "rq_body (token_body 24) = BodyToken \<lparr> tr_description = '''', tr_max_uses = Some 1, tr_expires_in_hours = 24 \<rparr>"
    by (simp add: token_body_def sample_request_def)
  from enrollment_token_as_requested [OF h this] h show ?thesis by (auto simp: sample_env_def)
qed

theorem enrollment_expiry_wraps_witness:
  "\<exists>resp s' t e. handle_create_enrollment_token operator sample_env sample_config (token_body 5124096) (sample_server empty_db)
     = (resp, s') \<and> rs_reply resp = RToken t ''rnr_enroll_b'' \<and> et_expires t = Some e \<and> e < 10 + 30 * minute"
proof -
  obtain resp s' t where h: "handle_create_enrollment_token operator sample_env sample_config (token_body 5124096)
     (sample_server empty_db) = (resp, s')" "rs_reply resp = RToken t ''rnr_enroll_b''"
    using token_created [of 5124096] by auto
  have "rq_body (token_body 5124096) = BodyToken \<lparr> tr_description = '''', tr_max_uses = Some 1, tr_expires_in_hours = 5124096 \<rparr>"
    by (simp add: token_body_def sample_request_def)
  from enrollment_expiry_wraps [OF h this] h show ?thesis by (auto simp: sample_env_def)
qed

end
