(* ===== verification/Docker.thy ===== *)
theory Docker
  imports Go_Strings "HOL-Library.List_Lexorder" "HOL-Library.Char_ord"
begin

text \<open>
  \<open>internal/docker\<close>: the client that inspects Docker and removes what a job left behind. The daemon
  behind the \<open>docker\<close> command line is a parameter, \<open>env\<close>: what a command prints and whether it fails
  may depend on the daemon's state in any way, its own timeouts included. The client's commands are
  recorded in the order it issues them.
\<close>

section \<open>Running commands\<close>

type_synonym 'd docker_env = "string list \<Rightarrow> 'd \<Rightarrow> (string \<times> string option) \<times> 'd"

record 'd daemon =
  dm_state :: 'd
  dm_calls :: "string list list"

text \<open>\<open>strings.Join\<close> with a space, and the first line of a command's output.\<close>

definition newline :: char where "newline = CHR 0x0A"

definition words :: "string list \<Rightarrow> string" where
  "words = join_on CHR '' ''"

definition first_line :: "string \<Rightarrow> string" where
  "first_line s =
     (if s = '''' then ''no output''
      else case cut_at newline s of (a, _, True) \<Rightarrow> trim_space a | _ \<Rightarrow> s)"

definition docker_run :: "'d docker_env \<Rightarrow> string list \<Rightarrow> 'd daemon \<Rightarrow> (string + string) \<times> 'd daemon" where
  "docker_run env args dm =
     (let ((out, err), s) = env args (dm_state dm);
          dm = \<lparr> dm_state = s, dm_calls = dm_calls dm @ [args] \<rparr>;
          text = trim_space out
      in case err of
           Some e \<Rightarrow> (Inl (''docker '' @ words args @ '': '' @ e @ '': '' @ first_line text), dm)
         | None \<Rightarrow> (Inr text, dm))"

definition lines :: "string \<Rightarrow> string list" where
  "lines out = filter (\<lambda>l. l \<noteq> '''') (map trim_space (split_on newline out))"

record docker_info =
  di_version :: string
  di_driver :: string
  di_root :: string

definition nth_or_empty :: "string list \<Rightarrow> nat \<Rightarrow> string" where
  "nth_or_empty ps n = (if n < length ps then ps ! n else '''')"

definition docker_info_of :: "'d docker_env \<Rightarrow> 'd daemon \<Rightarrow> (string + docker_info) \<times> 'd daemon" where
  "docker_info_of env dm =
     (case docker_run env [''info'', ''--format'',
              ''{{.ServerVersion}}'' @ [newline] @ ''{{.Driver}}'' @ [newline] @ ''{{.DockerRootDir}}''] dm of
        (Inl e, dm) \<Rightarrow> (Inl (''the Docker daemon is not reachable: '' @ e), dm)
      | (Inr out, dm) \<Rightarrow>
          let ps = lines out
          in (Inr \<lparr> di_version = nth_or_empty ps 0, di_driver = nth_or_empty ps 1,
                     di_root = nth_or_empty ps 2 \<rparr>, dm))"

section \<open>Snapshots\<close>

record snapshot =
  sn_containers :: "string list"
  sn_volumes :: "string list"
  sn_networks :: "string list"

definition no_snapshot :: snapshot where
  "no_snapshot = \<lparr> sn_containers = [], sn_volumes = [], sn_networks = [] \<rparr>"

definition docker_ids :: "'d docker_env \<Rightarrow> string list \<Rightarrow> 'd daemon \<Rightarrow> (string + string list) \<times> 'd daemon" where
  "docker_ids env args dm =
     (case docker_run env args dm of
        (Inl e, dm) \<Rightarrow> (Inl e, dm)
      | (Inr out, dm) \<Rightarrow> (Inr (sort (lines out)), dm))"

definition take_snapshot :: "'d docker_env \<Rightarrow> 'd daemon \<Rightarrow> (string + snapshot) \<times> 'd daemon" where
  "take_snapshot env dm =
     (case docker_ids env [''ps'', ''--all'', ''--quiet'', ''--no-trunc''] dm of
        (Inl e, dm) \<Rightarrow> (Inl e, dm)
      | (Inr cs, dm) \<Rightarrow>
          (case docker_ids env [''volume'', ''ls'', ''--quiet''] dm of
             (Inl e, dm) \<Rightarrow> (Inl e, dm)
           | (Inr vs, dm) \<Rightarrow>
               (case docker_ids env [''network'', ''ls'', ''--quiet'', ''--no-trunc''] dm of
                  (Inl e, dm) \<Rightarrow> (Inl e, dm)
                | (Inr ns, dm) \<Rightarrow> (Inr \<lparr> sn_containers = cs, sn_volumes = vs, sn_networks = ns \<rparr>, dm))))"

definition difference :: "string list \<Rightarrow> string list \<Rightarrow> string list" where
  "difference from_list without = filter (\<lambda>i. i \<notin> set without) from_list"

definition added :: "snapshot \<Rightarrow> snapshot \<Rightarrow> snapshot" where
  "added base after = \<lparr> sn_containers = difference (sn_containers after) (sn_containers base),
     sn_volumes = difference (sn_volumes after) (sn_volumes base),
     sn_networks = difference (sn_networks after) (sn_networks base) \<rparr>"

definition snapshot_empty :: "snapshot \<Rightarrow> bool" where
  "snapshot_empty s \<longleftrightarrow> length (sn_containers s) = 0 \<and> length (sn_volumes s) = 0 \<and> length (sn_networks s) = 0"

definition snapshot_total :: "snapshot \<Rightarrow> int" where
  "snapshot_total s = int (length (sn_containers s)) + int (length (sn_volumes s)) + int (length (sn_networks s))"

section \<open>Removal\<close>

record cleanup_result =
  cr_containers :: int
  cr_volumes :: int
  cr_networks :: int
  cr_images :: int
  cr_problems :: "string list"

definition cleanup_removed :: "cleanup_result \<Rightarrow> int" where
  "cleanup_removed r = cr_containers r + cr_volumes r + cr_networks r + cr_images r"

definition problem :: "string \<Rightarrow> string \<Rightarrow> string \<Rightarrow> string" where
  "problem kind i err = kind @ '' '' @ take 12 i @ '': '' @ first_line err"

text \<open>One of the three loops of \<open>Remove\<close>: how many went, and the problems.\<close>

fun remove_each ::
  "'d docker_env \<Rightarrow> (string \<Rightarrow> string list) \<Rightarrow> string \<Rightarrow> string list \<Rightarrow> 'd daemon \<Rightarrow> (int \<times> string list) \<times> 'd daemon"
where
  "remove_each env cmd kind [] dm = ((0, []), dm)"
| "remove_each env cmd kind (i # is) dm =
     (case docker_run env (cmd i) dm of
        (Inl e, dm) \<Rightarrow>
          (let ((n, ps), dm) = remove_each env cmd kind is dm in ((n, problem kind i e # ps), dm))
      | (Inr _, dm) \<Rightarrow>
          (let ((n, ps), dm) = remove_each env cmd kind is dm in ((n + 1, ps), dm)))"

definition rm_container :: "string \<Rightarrow> string list" where
  "rm_container i = [''rm'', ''--force'', ''--volumes'', i]"

definition rm_volume :: "string \<Rightarrow> string list" where
  "rm_volume i = [''volume'', ''rm'', ''--force'', i]"

definition rm_network :: "string \<Rightarrow> string list" where
  "rm_network i = [''network'', ''rm'', i]"

definition prune_images :: "string list" where
  "prune_images = [''image'', ''prune'', ''--force'']"

definition remove_snapshot :: "'d docker_env \<Rightarrow> snapshot \<Rightarrow> bool \<Rightarrow> 'd daemon \<Rightarrow> cleanup_result \<times> 'd daemon" where
  "remove_snapshot env snap prune dm =
     (let ((c, p1), dm) = remove_each env rm_container ''container'' (sn_containers snap) dm;
          ((v, p2), dm) = remove_each env rm_volume ''volume'' (sn_volumes snap) dm;
          ((n, p3), dm) = remove_each env rm_network ''network'' (sn_networks snap) dm;
          r = \<lparr> cr_containers = c, cr_volumes = v, cr_networks = n, cr_images = 0, cr_problems = p1 @ p2 @ p3 \<rparr>
      in if prune
         then (case docker_run env prune_images dm of
                 (Inl e, dm) \<Rightarrow> (r\<lparr>cr_problems := cr_problems r @ [''dangling images: '' @ e]\<rparr>, dm)
               | (Inr _, dm) \<Rightarrow> (r\<lparr>cr_images := 1\<rparr>, dm))
         else (r, dm))"

section \<open>Which commands are issued\<close>

lemma docker_run_calls: "docker_run env args dm = (r, dm') \<Longrightarrow> dm_calls dm' = dm_calls dm @ [args]"
  by (auto simp: docker_run_def Let_def split: prod.splits option.splits)

lemma docker_ids_calls: "docker_ids env args dm = (r, dm') \<Longrightarrow> dm_calls dm' = dm_calls dm @ [args]"
  by (auto simp: docker_ids_def split: prod.splits sum.splits dest: docker_run_calls)

definition snapshot_calls :: "string list list" where
  "snapshot_calls = [[''ps'', ''--all'', ''--quiet'', ''--no-trunc''], [''volume'', ''ls'', ''--quiet''],
     [''network'', ''ls'', ''--quiet'', ''--no-trunc'']]"

lemma take_snapshot_calls:
  "take_snapshot env dm = (r, dm') \<Longrightarrow> \<exists>cs. dm_calls dm' = dm_calls dm @ cs \<and> set cs \<subseteq> set snapshot_calls"
  by (auto simp: take_snapshot_def snapshot_calls_def split: prod.splits sum.splits dest!: docker_ids_calls)

lemma remove_each_calls:
  "remove_each env cmd kind is dm = (r, dm') \<Longrightarrow> dm_calls dm' = dm_calls dm @ map cmd is"
proof (induction "is" arbitrary: dm r dm')
  case (Cons i "is")
  obtain q dm1 where q: "docker_run env (cmd i) dm = (q, dm1)" by fastforce
  obtain r2 dm2 where r2: "remove_each env cmd kind is dm1 = (r2, dm2)" by fastforce
  have "dm' = dm2" using Cons.prems q r2 by (cases q) (auto split: prod.splits)
  then show ?case using Cons.IH [OF r2] docker_run_calls [OF q] by simp
qed simp

lemma remove_each_counts:
  "remove_each env cmd kind is dm = ((n, ps), dm') \<Longrightarrow> n + int (length ps) = int (length is)"
proof (induction "is" arbitrary: dm n ps dm')
  case (Cons i "is")
  obtain q dm1 where q: "docker_run env (cmd i) dm = (q, dm1)" by fastforce
  obtain m qs dm2 where r2: "remove_each env cmd kind is dm1 = ((m, qs), dm2)" by (metis prod.collapse)
  show ?case using Cons.prems Cons.IH [OF r2] q r2 by (cases q) auto
qed simp

lemma remove_snapshot_calls:
  assumes "remove_snapshot env snap prune dm = (r, dm')"
  shows "dm_calls dm' = dm_calls dm @ map rm_container (sn_containers snap) @ map rm_volume (sn_volumes snap)
     @ map rm_network (sn_networks snap) @ (if prune then [prune_images] else [])"
proof -
  obtain a dm1 where a: "remove_each env rm_container ''container'' (sn_containers snap) dm = (a, dm1)" by fastforce
  obtain b dm2 where b: "remove_each env rm_volume ''volume'' (sn_volumes snap) dm1 = (b, dm2)" by fastforce
  obtain c dm3 where c: "remove_each env rm_network ''network'' (sn_networks snap) dm2 = (c, dm3)" by fastforce
  show ?thesis using assms remove_each_calls [OF a] remove_each_calls [OF b] remove_each_calls [OF c] a b c
    by (auto simp: remove_snapshot_def Let_def split: prod.splits sum.splits if_splits dest: docker_run_calls)
qed

text \<open>
  A removal accounts for everything: of each kind, the objects removed and the problems reported
  add up to what was asked for, so that nothing is dropped silently, and no failure stops the rest.
\<close>

theorem removal_accounts:
  "case remove_snapshot env snap False dm of (r, dm') \<Rightarrow>
     cleanup_removed r + int (length (cr_problems r)) = snapshot_total snap
     \<and> dm_calls dm' = dm_calls dm @ map rm_container (sn_containers snap) @ map rm_volume (sn_volumes snap)
         @ map rm_network (sn_networks snap)"
proof -
  obtain a x dm1 where a: "remove_each env rm_container ''container'' (sn_containers snap) dm = ((a, x), dm1)"
    by (metis prod.collapse)
  obtain b y dm2 where b: "remove_each env rm_volume ''volume'' (sn_volumes snap) dm1 = ((b, y), dm2)"
    by (metis prod.collapse)
  obtain c z dm3 where c: "remove_each env rm_network ''network'' (sn_networks snap) dm2 = ((c, z), dm3)"
    by (metis prod.collapse)
  show ?thesis
    using remove_each_counts [OF a] remove_each_counts [OF b] remove_each_counts [OF c] a b c
      remove_each_calls [OF a] remove_each_calls [OF b] remove_each_calls [OF c]
    by (simp add: remove_snapshot_def cleanup_removed_def snapshot_total_def)
qed

text \<open>Nothing of the earlier snapshot is named.\<close>

lemma added_new:
  "set (sn_containers (added base after)) = set (sn_containers after) - set (sn_containers base)"
  "set (sn_volumes (added base after)) = set (sn_volumes after) - set (sn_volumes base)"
  "set (sn_networks (added base after)) = set (sn_networks after) - set (sn_networks base)"
  by (auto simp: added_def difference_def)

lemma rm_inject [simp]:
  "rm_container i = rm_container j \<longleftrightarrow> i = j" "rm_volume i = rm_volume j \<longleftrightarrow> i = j" "rm_network i = rm_network j \<longleftrightarrow> i = j"
  "rm_container i \<noteq> rm_volume j" "rm_container i \<noteq> rm_network j" "rm_volume i \<noteq> rm_network j"
  "rm_volume i \<noteq> rm_container j" "rm_network i \<noteq> rm_container j" "rm_network i \<noteq> rm_volume j"
  "rm_container i \<noteq> prune_images" "rm_volume i \<noteq> prune_images" "rm_network i \<noteq> prune_images"
  by (simp_all add: rm_container_def rm_volume_def rm_network_def prune_images_def)

lemma rm_not_snapshot [simp]:
  "rm_container i \<notin> set snapshot_calls" "rm_volume i \<notin> set snapshot_calls" "rm_network i \<notin> set snapshot_calls"
  by (simp_all add: rm_container_def rm_volume_def rm_network_def snapshot_calls_def)

end
