(* ===== verification/Local_Files.thy ===== *)
theory Local_Files
  imports Go_Strings
begin

text \<open>
  The files a machine keeps for itself, as the Go code sees them through \<open>os\<close>. A file holds either a
  document, decoded, or bytes that do not decode. Each call may fail, which a script of faults decides;
  \<open>dk_seen\<close> records every state of the directory that another process may have observed.
\<close>

section \<open>The disk\<close>

datatype 'a contents = Doc 'a | Garbage

type_synonym 'a files = "string \<Rightarrow> 'a contents option"

record 'a disk =
  dk_files :: "'a files"
  dk_faults :: "bool list"
  dk_seen :: "'a files list"

datatype file_error = NotExist | IOError | ParseError

definition faulty :: "'a disk \<Rightarrow> bool" where
  "faulty d = (case dk_faults d of f # _ \<Rightarrow> f | [] \<Rightarrow> False)"

text \<open>The directory becomes \<open>m\<close>, and one call has been made.\<close>

definition put_files :: "'a files \<Rightarrow> 'a disk \<Rightarrow> 'a disk" where
  "put_files m d = d\<lparr>dk_files := m, dk_seen := dk_seen d @ [m]\<rparr>"

definition next_call :: "'a disk \<Rightarrow> 'a disk" where
  "next_call d = d\<lparr>dk_faults := tl (dk_faults d)\<rparr>"

definition mkdir_all :: "'a disk \<Rightarrow> bool \<times> 'a disk" where
  "mkdir_all d = (\<not> faulty d, next_call d)"

text \<open>\<open>os.WriteFile\<close> truncates before it writes; failing, it leaves the file incomplete.\<close>

definition write_file :: "string \<Rightarrow> 'a \<Rightarrow> 'a disk \<Rightarrow> bool \<times> 'a disk" where
  "write_file p v d =
     (let d' = put_files ((dk_files d)(p \<mapsto> Garbage)) (next_call d)
      in if faulty d then (False, d') else (True, put_files ((dk_files d)(p \<mapsto> Doc v)) d'))"

definition rename_file :: "string \<Rightarrow> string \<Rightarrow> 'a disk \<Rightarrow> bool \<times> 'a disk" where
  "rename_file a b d =
     (if faulty d \<or> dk_files d a = None then (False, next_call d)
      else (True, put_files ((dk_files d)(b := dk_files d a, a := None)) (next_call d)))"

definition remove_file :: "string \<Rightarrow> 'a disk \<Rightarrow> (file_error + unit) \<times> 'a disk" where
  "remove_file p d =
     (if faulty d then (Inl IOError, next_call d)
      else if dk_files d p = None then (Inl NotExist, next_call d)
      else (Inr (), put_files ((dk_files d)(p := None)) (next_call d)))"

definition read_file :: "string \<Rightarrow> 'a disk \<Rightarrow> (file_error + 'a) \<times> 'a disk" where
  "read_file p d =
     (let r = (if faulty d then Inl IOError
               else case dk_files d p of
                      None \<Rightarrow> Inl NotExist
                    | Some Garbage \<Rightarrow> Inl ParseError
                    | Some (Doc v) \<Rightarrow> Inr v)
      in (r, next_call d))"

section \<open>Facts\<close>

lemma next_call_simps [simp]:
  "dk_files (next_call d) = dk_files d" "dk_seen (next_call d) = dk_seen d"
  "dk_faults (next_call d) = tl (dk_faults d)"
  by (simp_all add: next_call_def)

lemma put_files_simps [simp]:
  "dk_files (put_files m d) = m" "dk_seen (put_files m d) = dk_seen d @ [m]"
  "dk_faults (put_files m d) = dk_faults d"
  by (simp_all add: put_files_def)

lemma faulty_Nil [simp]: "dk_faults d = [] \<Longrightarrow> \<not> faulty d"
  by (simp add: faulty_def)

lemma read_file_disk [simp]: "snd (read_file p d) = next_call d"
  by (simp add: read_file_def Let_def)

lemma read_fileD: "read_file p d = (r, d') \<Longrightarrow> d' = next_call d"
  using read_file_disk [of p d] by simp

lemma read_file_ok:
  "read_file p d = (Inr v, d') \<Longrightarrow> dk_files d p = Some (Doc v)"
  by (auto simp: read_file_def Let_def split: if_splits option.splits contents.splits)

lemma read_file_missing:
  "read_file p d = (Inl NotExist, d') \<Longrightarrow> dk_files d p = None"
  by (auto simp: read_file_def Let_def split: if_splits option.splits contents.splits)

lemma read_file_doc: "dk_files d p = Some (Doc v) \<Longrightarrow> \<not> faulty d \<Longrightarrow> read_file p d = (Inr v, next_call d)"
  by (simp add: read_file_def)

lemma read_file_none: "dk_files d p = None \<Longrightarrow> \<not> faulty d \<Longrightarrow> read_file p d = (Inl NotExist, next_call d)"
  by (simp add: read_file_def)

lemma write_fileD:
  "write_file p v d = (ok, d') \<Longrightarrow> dk_files d' = (dk_files d)(p \<mapsto> (if ok then Doc v else Garbage))
     \<and> dk_faults d' = tl (dk_faults d)
     \<and> dk_seen d' = dk_seen d @ (dk_files d)(p \<mapsto> Garbage) # (if ok then [(dk_files d)(p \<mapsto> Doc v)] else [])"
  by (auto simp: write_file_def Let_def split: if_splits)

lemma mkdir_allD: "mkdir_all d = (ok, d') \<Longrightarrow> d' = next_call d"
  by (simp add: mkdir_all_def)

lemma remove_fileD:
  "remove_file p d = (r, d') \<Longrightarrow> dk_faults d' = tl (dk_faults d)
     \<and> dk_files d' = (if r = Inr () then (dk_files d)(p := None) else dk_files d)
     \<and> (r = Inl NotExist \<longrightarrow> dk_files d p = None)
     \<and> dk_seen d' = dk_seen d @ (if r = Inr () then [(dk_files d)(p := None)] else [])"
  by (auto simp: remove_file_def split: if_splits)

lemma rename_fileD:
  "rename_file a b d = (ok, d') \<Longrightarrow> dk_faults d' = tl (dk_faults d)
     \<and> dk_files d' = (if ok then (dk_files d)(b := dk_files d a, a := None) else dk_files d)
     \<and> dk_seen d' = dk_seen d @ (if ok then [(dk_files d)(b := dk_files d a, a := None)] else [])"
  by (auto simp: rename_file_def split: if_splits)

end
