(* ===== verification/Job_Hooks.thy ===== *)
theory Job_Hooks
  imports Docker Local_Files Go_Time
begin

text \<open>
  \<open>internal/jobstate\<close> and \<open>internal/cli/hook.go\<close>: the file that says what the runner is doing, the
  scripts GitHub's runner calls around a job, and what Runnerly does when they are called.
\<close>

section \<open>The job file\<close>

definition status_idle :: string where "status_idle = ''idle''"
definition status_running :: string where "status_running = ''running''"

record job_state =
  js_status :: string
  js_repository :: string
  js_workflow :: string
  js_job :: string
  js_run_id :: string
  js_started :: go_time
  js_finished :: go_time
  js_docker :: snapshot

definition empty_job :: job_state where
  "empty_job = \<lparr> js_status = '''', js_repository = '''', js_workflow = '''', js_job = '''', js_run_id = '''',
     js_started = zero_time, js_finished = zero_time, js_docker = no_snapshot \<rparr>"

definition idle_job :: job_state where
  "idle_job = empty_job\<lparr>js_status := status_idle\<rparr>"

definition job_running :: "job_state \<Rightarrow> bool" where
  "job_running s \<longleftrightarrow> js_status s = status_running"

definition ran_a_job :: "job_state \<Rightarrow> bool" where
  "ran_a_job s \<longleftrightarrow> \<not> is_zero_time (js_started s)"

definition finished_a_job :: "job_state \<Rightarrow> bool" where
  "finished_a_job s \<longleftrightarrow> ran_a_job s \<and> \<not> is_zero_time (js_finished s) \<and> js_status s = status_idle"

definition job_duration :: "job_state \<Rightarrow> duration" where
  "job_duration s = (if \<not> finished_a_job s then 0 else time_sub (js_finished s) (js_started s))"

definition describe_job :: "job_state \<Rightarrow> string" where
  "describe_job s =
     (if js_repository s \<noteq> '''' \<and> js_workflow s \<noteq> '''' then js_repository s @ '' / '' @ js_workflow s
      else if js_repository s \<noteq> '''' then js_repository s
      else if job_running s \<or> ran_a_job s then ''a job''
      else '''')"

text \<open>\<open>Read\<close> returns a state even when it reports an error.\<close>

definition read_job :: "string \<Rightarrow> job_state disk \<Rightarrow> (job_state \<times> file_error option) \<times> job_state disk" where
  "read_job path d =
     (case read_file path d of
        (Inl NotExist, d) \<Rightarrow> ((idle_job, None), d)
      | (Inl e, d) \<Rightarrow> ((idle_job, Some e), d)
      | (Inr s, d) \<Rightarrow> ((if js_status s = '''' then s\<lparr>js_status := status_idle\<rparr> else s, None), d))"

definition temp_path :: "string \<Rightarrow> string" where
  "temp_path path = path @ ''.tmp''"

definition write_job :: "string \<Rightarrow> job_state \<Rightarrow> job_state disk \<Rightarrow> bool \<times> job_state disk" where
  "write_job path s d =
     (let (ok, d) = mkdir_all d
      in if \<not> ok then (False, d)
         else let (ok, d) = write_file (temp_path path) s d
              in if \<not> ok then (False, d)
                 else let (ok, d) = rename_file (temp_path path) path d
                      in if \<not> ok then (False, snd (remove_file (temp_path path) d)) else (True, d))"

section \<open>Hook scripts\<close>

definition quote_char :: char where "quote_char = CHR 0x27"

definition shell_quote :: "string \<Rightarrow> string" where
  "shell_quote s = [quote_char] @ replace_char quote_char [quote_char, CHR 0x5C, quote_char, quote_char] s @ [quote_char]"

definition powershell_quote :: "string \<Rightarrow> string" where
  "powershell_quote s = [quote_char] @ replace_char quote_char [quote_char, quote_char] s @ [quote_char]"

text \<open>The line of each script that runs; the rest are comments, and \<open>exit 0\<close> on Windows.\<close>

definition hook_line :: "string \<Rightarrow> string \<Rightarrow> string \<Rightarrow> string \<Rightarrow> string" where
  "hook_line binary name state_path config_path =
     shell_quote binary @ '' agent hook '' @ name @ '' --state '' @ shell_quote state_path
       @ '' --config '' @ shell_quote config_path @ '' || true''"

definition powershell_line :: "string \<Rightarrow> string \<Rightarrow> string \<Rightarrow> string \<Rightarrow> string" where
  "powershell_line binary name state_path config_path =
     ''& '' @ powershell_quote binary @ '' agent hook '' @ name @ '' --state '' @ powershell_quote state_path
       @ '' --config '' @ powershell_quote config_path"

definition job_from_environment :: "(string \<Rightarrow> string) \<Rightarrow> job_state" where
  "job_from_environment getenv = empty_job\<lparr>js_repository := getenv ''GITHUB_REPOSITORY'',
     js_workflow := getenv ''GITHUB_WORKFLOW'', js_job := getenv ''GITHUB_JOB'', js_run_id := getenv ''GITHUB_RUN_ID''\<rparr>"

section \<open>What the hooks do\<close>

text \<open>The part of the configuration they read, and the machine they run on.\<close>

record hook_config =
  hc_executor :: string
  hc_cleanup :: string
  hc_prune :: bool

definition cleanup_after_job :: "hook_config \<Rightarrow> bool" where
  "cleanup_after_job cfg \<longleftrightarrow> (if hc_executor cfg \<noteq> ''docker'' then False else hc_cleanup cfg \<noteq> ''never'')"

record 'd host =
  ho_disk :: "job_state disk"
  ho_docker :: "'d daemon"

definition hook_started ::
  "'d docker_env \<Rightarrow> hook_config \<Rightarrow> string \<Rightarrow> (string \<Rightarrow> string) \<Rightarrow> go_time \<Rightarrow> 'd host \<Rightarrow> 'd host"
where
  "hook_started env cfg path getenv now h =
     (let s = (job_from_environment getenv)\<lparr>js_status := status_running, js_started := now\<rparr>;
          (s, dm) = (if cleanup_after_job cfg
                     then (case take_snapshot env (ho_docker h) of
                             (Inl _, dm) \<Rightarrow> (s, dm)
                           | (Inr snap, dm) \<Rightarrow> (s\<lparr>js_docker := snap\<rparr>, dm))
                     else (s, ho_docker h));
          (ok, d) = write_job path s (ho_disk h)
      in h\<lparr>ho_disk := d, ho_docker := dm\<rparr>)"

definition cleanup_job :: "'d docker_env \<Rightarrow> hook_config \<Rightarrow> job_state \<Rightarrow> 'd daemon \<Rightarrow> 'd daemon" where
  "cleanup_job env cfg previous dm =
     (case take_snapshot env dm of
        (Inl _, dm) \<Rightarrow> dm
      | (Inr after, dm) \<Rightarrow>
          let new = added (js_docker previous) after
          in if snapshot_empty new then dm else snd (remove_snapshot env new (hc_prune cfg) dm))"

definition hook_completed ::
  "'d docker_env \<Rightarrow> hook_config \<Rightarrow> string \<Rightarrow> go_time \<Rightarrow> 'd host \<Rightarrow> 'd host"
where
  "hook_completed env cfg path now h =
     (let ((previous, _), d) = read_job path (ho_disk h);
          dm = (if cleanup_after_job cfg then cleanup_job env cfg previous (ho_docker h) else ho_docker h);
          (ok, d) = write_job path (empty_job\<lparr>js_status := status_idle, js_repository := js_repository previous,
             js_workflow := js_workflow previous, js_job := js_job previous, js_run_id := js_run_id previous,
             js_started := js_started previous, js_finished := now\<rparr>) d
      in h\<lparr>ho_disk := d, ho_docker := dm\<rparr>)"

text \<open>The hook command itself; \<open>cfg\<close> is None when the configuration does not load.\<close>

definition run_hook ::
  "'d docker_env \<Rightarrow> hook_config option \<Rightarrow> string \<Rightarrow> string \<Rightarrow> (string \<Rightarrow> string) \<Rightarrow> go_time \<Rightarrow> 'd host \<Rightarrow> 'd host"
where
  "run_hook env cfg name path getenv now h =
     (if path = '''' then h
      else case cfg of
             None \<Rightarrow> h
           | Some c \<Rightarrow>
               if name = ''started'' then hook_started env c path getenv now h
               else if name = ''completed'' then hook_completed env c path now h
               else h)"

section \<open>The job file is replaced in one step\<close>

lemma temp_path_ne [simp]: "temp_path p \<noteq> p" "p \<noteq> temp_path p"
  by (simp_all add: temp_path_def)

lemma write_jobD:
  assumes "write_job path s d = (ok, d')"
  shows "dk_files d' path = (if ok then Some (Doc s) else dk_files d path)"
    and "\<exists>new. dk_seen d' = dk_seen d @ new \<and> (\<forall>m\<in>set new. m path = dk_files d path \<or> m path = Some (Doc s))"
proof -
  obtain ok1 d1 where 1: "mkdir_all d = (ok1, d1)" by fastforce
  obtain ok2 d2 where 2: "write_file (temp_path path) s d1 = (ok2, d2)" by fastforce
  obtain ok3 d3 where 3: "rename_file (temp_path path) path d2 = (ok3, d3)" by fastforce
  obtain r4 d4 where 4: "remove_file (temp_path path) d3 = (r4, d4)" by fastforce
  note f = mkdir_allD [OF 1] write_fileD [OF 2] rename_fileD [OF 3] remove_fileD [OF 4]
  have w: "write_job path s d = (if \<not> ok1 then (False, d1) else if \<not> ok2 then (False, d2)
      else if \<not> ok3 then (False, d4) else (True, d3))"
    using 1 2 3 4 by (simp add: write_job_def Let_def)
  show "dk_files d' path = (if ok then Some (Doc s) else dk_files d path)"
    using assms f unfolding w by (auto split: if_splits)
  show "\<exists>new. dk_seen d' = dk_seen d @ new \<and> (\<forall>m\<in>set new. m path = dk_files d path \<or> m path = Some (Doc s))"
    using assms f unfolding w by (auto split: if_splits)
qed

text \<open>
  C17: whoever reads the job file while it is being replaced sees the old contents or the new, never
  a part of one: in every state of the directory that the write passes through, whichever of its calls
  fails, the file is as it was or holds the new state.
\<close>

theorem job_file_atomic:
  "case write_job path s d of (ok, d') \<Rightarrow>
     (\<exists>new. dk_seen d' = dk_seen d @ new \<and> (\<forall>m\<in>set new. m path = dk_files d path \<or> m path = Some (Doc s)))
     \<and> dk_files d' path = (if ok then Some (Doc s) else dk_files d path)"
  using write_jobD [of path s d] by (auto split: prod.splits)

theorem job_file_atomic_witness:
  "case write_job ''job.json'' idle_job \<lparr> dk_files = (\<lambda>_. None), dk_faults = [False, True], dk_seen = [] \<rparr> of
     (ok, d') \<Rightarrow> \<not> ok \<and> dk_files d' ''job.json'' = None"
  using job_file_atomic [where path = "''job.json''" and s = idle_job
      and d = "\<lparr> dk_files = (\<lambda>_. None), dk_faults = [False, True], dk_seen = [] \<rparr>"]
  by (simp add: write_job_def mkdir_all_def write_file_def faulty_def next_call_def put_files_def Let_def)

lemma write_job_no_fault:
  assumes "dk_faults d = []"
  shows "\<exists>d'. write_job path s d = (True, d') \<and> dk_faults d' = [] \<and> dk_files d' path = Some (Doc s)"
  using assms by (simp add: write_job_def mkdir_all_def write_file_def rename_file_def Let_def)

lemma read_job_doc:
  assumes "dk_files d path = Some (Doc s)" "js_status s \<noteq> ''''" "\<not> faulty d"
  shows "read_job path d = ((s, None), next_call d)"
  using assms by (simp add: read_job_def read_file_doc)

section \<open>Completion\<close>

text \<open>
  Completing a job never leaves the runner busy: whatever the job file held, whether it could be
  read, and whatever Docker answered, once the file has been written it says idle, with the time the
  job finished, and it names the job and the start that were on record.
\<close>

theorem completion_marks_idle:
  assumes "path \<noteq> ''''" "dk_faults (ho_disk h) = []" "now \<noteq> zero_time"
  shows "\<exists>s. dk_files (ho_disk (run_hook env (Some cfg) ''completed'' path getenv now h)) path = Some (Doc s)
    \<and> \<not> job_running s \<and> js_finished s = now
    \<and> (\<forall>p. dk_files (ho_disk h) path = Some (Doc p) \<longrightarrow> describe_job (s\<lparr>js_status := js_status p\<rparr>) = describe_job p
          \<and> js_started s = js_started p \<and> (ran_a_job p \<longrightarrow> finished_a_job s))"
proof -
  obtain previous e d where r: "read_job path (ho_disk h) = ((previous, e), d)" by (metis prod.collapse)
  have d: "d = next_call (ho_disk h)" using r
    by (auto simp: read_job_def split: prod.splits sum.splits file_error.splits dest!: read_fileD)
  let ?s = "empty_job\<lparr>js_status := status_idle, js_repository := js_repository previous,
             js_workflow := js_workflow previous, js_job := js_job previous, js_run_id := js_run_id previous,
             js_started := js_started previous, js_finished := now\<rparr>"
  have "dk_faults d = []" using assms(2) d by simp
  then obtain d' where w: "write_job path ?s d = (True, d')" "dk_files d' path = Some (Doc ?s)"
    using write_job_no_fault by blast
  have out: "ho_disk (run_hook env (Some cfg) ''completed'' path getenv now h) = d'"
    using assms(1) r w by (simp add: run_hook_def hook_completed_def Let_def)
  have prev: "previous = (if js_status p = '''' then p\<lparr>js_status := status_idle\<rparr> else p)"
    if "dk_files (ho_disk h) path = Some (Doc p)" for p
    using r that assms(2) by (auto simp: read_job_def read_file_doc split: if_splits)
  show ?thesis unfolding out using w assms(3) prev
    by (intro exI [of _ ?s]) (auto simp: job_running_def status_idle_def status_running_def describe_job_def ran_a_job_def
        finished_a_job_def is_zero_time_def)
qed

section \<open>What a job's cleanup touches\<close>

lemma cleanup_job_calls:
  "\<exists>cs. dm_calls (cleanup_job env cfg previous dm) = dm_calls dm @ cs
     \<and> (\<forall>i. (rm_container i \<in> set cs \<longrightarrow> i \<notin> set (sn_containers (js_docker previous)))
         \<and> (rm_volume i \<in> set cs \<longrightarrow> i \<notin> set (sn_volumes (js_docker previous)))
         \<and> (rm_network i \<in> set cs \<longrightarrow> i \<notin> set (sn_networks (js_docker previous))))"
proof -
  obtain r dm1 where t: "take_snapshot env dm = (r, dm1)" by fastforce
  obtain cs where cs: "dm_calls dm1 = dm_calls dm @ cs" "set cs \<subseteq> set snapshot_calls"
    using take_snapshot_calls [OF t] by blast
  have no: "rm_container i \<notin> set cs" "rm_volume i \<notin> set cs" "rm_network i \<notin> set cs" for i
    using cs(2) by (auto dest: subsetD)
  show ?thesis
  proof (cases r)
    case (Inl e)
    then show ?thesis using t cs(1) no by (auto simp: cleanup_job_def)
  next
    case (Inr after)
    let ?new = "added (js_docker previous) after"
    obtain q dm2 where q: "remove_snapshot env ?new (hc_prune cfg) dm1 = (q, dm2)" by fastforce
    have out: "cleanup_job env cfg previous dm = (if snapshot_empty ?new then dm1 else dm2)"
      using t Inr q by (simp add: cleanup_job_def Let_def)
    show ?thesis
    proof (cases "snapshot_empty ?new")
      case True
      then show ?thesis using out cs(1) no by auto
    next
      case False
      let ?cs = "cs @ map rm_container (sn_containers ?new) @ map rm_volume (sn_volumes ?new)
        @ map rm_network (sn_networks ?new) @ (if hc_prune cfg then [prune_images] else [])"
      have "dm_calls (cleanup_job env cfg previous dm) = dm_calls dm @ ?cs"
        using out False remove_snapshot_calls [OF q] cs(1) by simp
      then show ?thesis using no by (intro exI [of _ ?cs]) (auto simp: added_new)
    qed
  qed
qed

lemma hook_started_file:
  assumes "cleanup_after_job cfg" "take_snapshot env (ho_docker h) = (Inr snap, dm)" "dk_faults (ho_disk h) = []"
  shows "\<exists>s. dk_files (ho_disk (hook_started env cfg path getenv now h)) path = Some (Doc s) \<and> js_docker s = snap
    \<and> job_running s \<and> js_started s = now"
proof -
  let ?s = "(job_from_environment getenv)\<lparr>js_status := status_running, js_started := now, js_docker := snap\<rparr>"
  obtain d' where w: "write_job path ?s (ho_disk h) = (True, d')" "dk_files d' path = Some (Doc ?s)"
    using write_job_no_fault [OF assms(3)] by blast
  then show ?thesis using assms(1,2)
    by (intro exI [of _ ?s]) (simp add: hook_started_def Let_def job_running_def)
qed


lemma hook_started_failed_file:
  assumes "cleanup_after_job cfg" "take_snapshot env (ho_docker h) = (Inl e, dm)" "dk_faults (ho_disk h) = []"
  shows "\<exists>s. dk_files (ho_disk (hook_started env cfg path getenv now h)) path = Some (Doc s) \<and> js_docker s = no_snapshot
    \<and> job_running s"
proof -
  let ?s = "(job_from_environment getenv)\<lparr>js_status := status_running, js_started := now\<rparr>"
  obtain d' where w: "write_job path ?s (ho_disk h) = (True, d')" "dk_files d' path = Some (Doc ?s)"
    using write_job_no_fault [OF assms(3)] by blast
  then show ?thesis using assms(1,2)
    by (intro exI [of _ ?s]) (simp add: hook_started_def Let_def job_running_def job_from_environment_def empty_job_def)
qed

text \<open>
  C30: when the state of Docker could not be recorded at the start, the completed hook removes every
  container, volume and network that it finds, those that have nothing to do with the job included.
\<close>

theorem failed_snapshot_removes_everything:
  assumes "cleanup_after_job cfg" "take_snapshot env (ho_docker h) = (Inl e, dm)"
    and "path \<noteq> ''''" "dk_faults (ho_disk h) = []"
    and "h1 = run_hook env (Some cfg) ''started'' path getenv t1 h"
    and "h2 = h1\<lparr>ho_disk := (ho_disk h1)\<lparr>dk_faults := []\<rparr>, ho_docker := \<lparr> dm_state = later, dm_calls = [] \<rparr>\<rparr>"
    and "take_snapshot env \<lparr> dm_state = later, dm_calls = [] \<rparr> = (Inr found, dm2)"
  shows "rm_container ` set (sn_containers found) \<union> rm_volume ` set (sn_volumes found) \<union> rm_network ` set (sn_networks found)
    \<subseteq> set (dm_calls (ho_docker (run_hook env (Some cfg) ''completed'' path getenv t2 h2)))"
proof -
  obtain s where s: "dk_files (ho_disk h2) path = Some (Doc s)" "js_docker s = no_snapshot" "job_running s"
    using hook_started_failed_file [OF assms(1,2,4), where path = path and getenv = getenv and now = t1] assms(3,5,6) by (auto simp: run_hook_def)
  have "dk_faults (ho_disk h2) = []" using assms(6) by simp
  then have "read_job path (ho_disk h2) = ((s, None), next_call (ho_disk h2))"
    using s by (intro read_job_doc) (simp_all add: job_running_def status_running_def)
  then have out: "ho_docker (run_hook env (Some cfg) ''completed'' path getenv t2 h2) = cleanup_job env cfg s (ho_docker h2)"
    using assms(1,3) by (simp add: run_hook_def hook_completed_def Let_def split: prod.splits)
  have "added no_snapshot found = found" by (simp add: added_def difference_def no_snapshot_def)
  then have c: "cleanup_job env cfg s (ho_docker h2) =
      (if snapshot_empty found then dm2 else snd (remove_snapshot env found (hc_prune cfg) dm2))"
    using assms(6,7) s(2) by (simp add: cleanup_job_def Let_def)
  show ?thesis
  proof (cases "snapshot_empty found")
    case False
    obtain q dm3 where q: "remove_snapshot env found (hc_prune cfg) dm2 = (q, dm3)" by fastforce
    then show ?thesis unfolding out c using False remove_snapshot_calls [OF q] by auto
  qed (simp add: snapshot_empty_def)
qed

section \<open>A small Docker\<close>

text \<open>A daemon that holds containers only, and may be down when it is first asked.\<close>

fun small_docker :: "string list \<Rightarrow> bool \<times> string list \<Rightarrow> (string \<times> string option) \<times> bool \<times> string list" where
  "small_docker args (down, cs) =
     (if down then (('''', Some ''exit status 1''), (False, cs))
      else if take 1 args = [''ps''] then ((join_on newline cs, None), (down, cs))
      else if take 1 args = [''rm''] then (('''', None), (down, filter (\<lambda>c. c \<noteq> last args) cs))
      else (('''', None), (down, cs)))"

definition fresh_disk :: "job_state disk" where
  "fresh_disk = \<lparr> dk_files = (\<lambda>_. None), dk_faults = [], dk_seen = [] \<rparr>"

definition docker_hooks :: hook_config where
  "docker_hooks = \<lparr> hc_executor = ''docker'', hc_cleanup = '''', hc_prune = False \<rparr>"

lemma small_lists:
  "take_snapshot small_docker \<lparr> dm_state = (False, [''b'', ''a'']), dm_calls = [] \<rparr>
     = (Inr \<lparr> sn_containers = [''a'', ''b''], sn_volumes = [], sn_networks = [] \<rparr>,
        \<lparr> dm_state = (False, [''b'', ''a'']), dm_calls = snapshot_calls \<rparr>)"
  by (simp add: take_snapshot_def docker_ids_def docker_run_def lines_def newline_def trim_space_def trim_left_def
      trim_right_def is_space_def snapshot_calls_def less_char_def)

lemma small_down:
  "take_snapshot small_docker \<lparr> dm_state = (True, [''b'', ''a'']), dm_calls = [] \<rparr>
     = (Inl (''docker ps --all --quiet --no-trunc: exit status 1: no output''),
        \<lparr> dm_state = (False, [''b'', ''a'']), dm_calls = [[''ps'', ''--all'', ''--quiet'', ''--no-trunc'']] \<rparr>)"
  by (simp add: take_snapshot_def docker_ids_def docker_run_def words_def first_line_def)

theorem completion_marks_idle_witness:
  "\<exists>s. dk_files (ho_disk (run_hook small_docker (Some docker_hooks) ''completed'' ''j'' (\<lambda>_. '''') 5
          \<lparr> ho_disk = fresh_disk, ho_docker = \<lparr> dm_state = (True, []), dm_calls = [] \<rparr> \<rparr>)) ''j'' = Some (Doc s)
    \<and> \<not> job_running s \<and> js_finished s = 5"
  using completion_marks_idle [of "''j''" "\<lparr> ho_disk = fresh_disk, ho_docker = \<lparr> dm_state = (True, []), dm_calls = [] \<rparr> \<rparr>" 5
      small_docker docker_hooks "\<lambda>_. ''''"]
  by (auto simp: fresh_disk_def zero_time_def)


theorem failed_snapshot_removes_everything_witness:
  "let h = \<lparr> ho_disk = fresh_disk, ho_docker = \<lparr> dm_state = (True, [''b'', ''a'']), dm_calls = [] \<rparr> \<rparr>;
       h1 = run_hook small_docker (Some docker_hooks) ''started'' ''j'' (\<lambda>_. '''') 5 h;
       h2 = h1\<lparr>ho_disk := (ho_disk h1)\<lparr>dk_faults := []\<rparr>,
               ho_docker := \<lparr> dm_state = (False, [''b'', ''a'']), dm_calls = [] \<rparr>\<rparr>
   in {rm_container ''a'', rm_container ''b''}
        \<subseteq> set (dm_calls (ho_docker (run_hook small_docker (Some docker_hooks) ''completed'' ''j'' (\<lambda>_. '''') 9 h2)))"
proof -
  let ?h = "\<lparr> ho_disk = fresh_disk, ho_docker = \<lparr> dm_state = (True, [''b'', ''a'']), dm_calls = [] \<rparr> \<rparr>"
  have c: "cleanup_after_job docker_hooks" by (simp add: cleanup_after_job_def docker_hooks_def)
  have t: "take_snapshot small_docker (ho_docker ?h)
     = (Inl (''docker ps --all --quiet --no-trunc: exit status 1: no output''),
        \<lparr> dm_state = (False, [''b'', ''a'']), dm_calls = [[''ps'', ''--all'', ''--quiet'', ''--no-trunc'']] \<rparr>)"
    using small_down by simp
  have "''j'' \<noteq> ''''" "dk_faults (ho_disk ?h) = []" by (simp_all add: fresh_disk_def)
  note s = failed_snapshot_removes_everything [OF c t this refl refl small_lists, where getenv = "\<lambda>_. ''''" and ?t1.0 = 5 and ?t2.0 = 9]
  show ?thesis unfolding Let_def using s by auto
qed

section \<open>Quoting\<close>

text \<open>
  How a POSIX shell splits a line into words, as far as quoting matters here: spaces separate words,
  nothing is special between single quotes, and a backslash outside them makes the next character
  literal.
\<close>

fun sh_scan :: "bool \<Rightarrow> string \<Rightarrow> string \<times> string \<times> bool" where
  "sh_scan q [] = ([], [], \<not> q)"
| "sh_scan True (c # s) =
     (if c = quote_char then sh_scan False s else (let (w, r, ok) = sh_scan True s in (c # w, r, ok)))"
| "sh_scan False (c # s) =
     (if c = quote_char then sh_scan True s
      else if c = CHR '' '' then ([], s, True)
      else if c = CHR 0x5C then (case s of [] \<Rightarrow> ([], [], False)
             | x # r \<Rightarrow> (let (w, r, ok) = sh_scan False r in (x # w, r, ok)))
      else (let (w, r, ok) = sh_scan False s in (c # w, r, ok)))"

lemma sh_scan_quoted:
  "sh_scan True (replace_char quote_char [quote_char, CHR 0x5C, quote_char, quote_char] s @ quote_char # r)
     = (let (w, rest, ok) = sh_scan False r in (s @ w, rest, ok))"
proof (induction s)
  case (Cons c s)
  then show ?case by (auto simp: replace_char_def quote_char_def Let_def split: prod.splits)
qed (simp add: replace_char_def split: prod.splits)

lemma sh_scan_shell_quote: "sh_scan False (shell_quote s @ CHR '' '' # r) = (s, r, True)"
proof -
  have "sh_scan False (shell_quote s @ CHR '' '' # r) =
      sh_scan True (replace_char quote_char [quote_char, CHR 0x5C, quote_char, quote_char] s @ quote_char # CHR '' '' # r)"
    by (simp add: shell_quote_def)
  then show ?thesis unfolding sh_scan_quoted by (simp add: quote_char_def)
qed

text \<open>The first \<open>n\<close> words of a line, and what follows them.\<close>

fun sh_words :: "nat \<Rightarrow> string \<Rightarrow> (string list \<times> string) option" where
  "sh_words 0 s = Some ([], s)"
| "sh_words (Suc n) s =
     (case sh_scan False s of
        (w, r, True) \<Rightarrow> (case sh_words n r of None \<Rightarrow> None | Some (ws, t) \<Rightarrow> Some (w # ws, t))
      | _ \<Rightarrow> None)"

definition plain_word :: "string \<Rightarrow> bool" where
  "plain_word w \<longleftrightarrow> (\<forall>c\<in>set w. c \<noteq> quote_char \<and> c \<noteq> CHR '' '' \<and> c \<noteq> CHR 0x5C)"

lemma sh_scan_plain: "plain_word w \<Longrightarrow> sh_scan False (w @ CHR '' '' # r) = (w, r, True)"
  by (induction w) (auto simp: plain_word_def quote_char_def)

text \<open>
  C29: the hook script calls Runnerly with exactly the arguments intended: whatever characters the paths
  contain, quotes included, the shell reads the line as eight words that are the binary, the hook, the
  state file and the configuration, followed by what makes the script succeed.
\<close>

theorem hook_line_words:
  assumes "plain_word name"
  shows "sh_words 8 (hook_line binary name state_path config_path) =
    Some ([binary, ''agent'', ''hook'', name, ''--state'', state_path, ''--config'', config_path], ''|| true'')"
proof -
  have w: "plain_word ''agent''" "plain_word ''hook''" "plain_word ''--state''" "plain_word ''--config''"
    by (simp_all add: plain_word_def quote_char_def)
  have line: "hook_line binary name state_path config_path =
      shell_quote binary @ CHR '' '' # ''agent'' @ CHR '' '' # ''hook'' @ CHR '' '' # name @ CHR '' '' # ''--state''
        @ CHR '' '' # shell_quote state_path @ CHR '' '' # ''--config'' @ CHR '' '' # shell_quote config_path
        @ CHR '' '' # ''|| true''"
    by (simp add: hook_line_def)
  have step: "sh_words (Suc n) s = (case sh_words n r of None \<Rightarrow> None | Some (ws, t) \<Rightarrow> Some (x # ws, t))"
    if "sh_scan False s = (x, r, True)" for n s x r
    using that by simp
  have "8 = Suc (Suc (Suc (Suc (Suc (Suc (Suc (Suc 0)))))))" by simp
  then show ?thesis unfolding line
    by (simp only: step [OF sh_scan_shell_quote] step [OF sh_scan_plain [OF assms]] step [OF sh_scan_plain [OF w(1)]]
        step [OF sh_scan_plain [OF w(2)]] step [OF sh_scan_plain [OF w(3)]] step [OF sh_scan_plain [OF w(4)]]
        sh_words.simps(1) option.case prod.case)
qed

theorem hook_line_words_witness:
  "sh_words 8 (hook_line ''/opt/it's here/runnerly'' ''started'' ''/r/.runnerly/job.json'' ''/e/c'') =
    Some ([''/opt/it's here/runnerly'', ''agent'', ''hook'', ''started'', ''--state'', ''/r/.runnerly/job.json'',
      ''--config'', ''/e/c''], ''|| true'')"
  by (rule hook_line_words) (simp add: plain_word_def quote_char_def)

end
