(* ===== verification/Extract.thy ===== *)
theory Extract
  imports Go_Strings "HOL-Library.Word" "HOL-Library.AList"
begin

text \<open>
  \<open>internal/runner/extract.go\<close>: unpacking a release. The file system has symbolic links and inodes, so
  that the lexical check of the code and what the kernel does with a path can be compared. Paths are
  absolute, lists of segments without separators. Every system call may fail, as a script of faults
  decides. Reading the archive is a parameter: an archive is the list of its entries.
\<close>

unbundle bit_operations_syntax

section \<open>A file system\<close>

datatype node = DirN | FileN nat | LinkN string

type_synonym path = "string list"

record file_data =
  fd_bytes :: string
  fd_mode :: "32 word"

record fsys =
  fs_nodes :: "(path \<times> node) list"
  fs_data :: "nat \<Rightarrow> file_data"
  fs_next :: nat
  fs_faults :: "bool list"

definition fs_node :: "fsys \<Rightarrow> path \<Rightarrow> node option" where
  "fs_node fs = map_of (fs_nodes fs)"

definition dot :: string where "dot = ''.''"
definition dotdot :: string where "dotdot = ''..''"
definition slash :: char where "slash = CHR ''/''"

lemmas dots = dot_def dotdot_def

definition is_abs :: "string \<Rightarrow> bool" where
  "is_abs s \<longleftrightarrow> prefix [slash] s"

text \<open>How the kernel resolves a path: links are followed, at most \<open>fuel\<close> of them (Linux allows 40).\<close>

function resolve :: "nat \<Rightarrow> (path \<Rightarrow> node option) \<Rightarrow> path \<Rightarrow> path \<Rightarrow> path option" where
  "resolve fuel m cur [] = Some cur"
| "resolve fuel m cur (s # rest) =
     (if s = [] \<or> s = dot then resolve fuel m cur rest
      else if s = dotdot then resolve fuel m (butlast cur) rest
      else case m (cur @ [s]) of
             None \<Rightarrow> if rest = [] then Some (cur @ [s]) else None
           | Some DirN \<Rightarrow> resolve fuel m (cur @ [s]) rest
           | Some (FileN i) \<Rightarrow> if rest = [] then Some (cur @ [s]) else None
           | Some (LinkN l) \<Rightarrow>
               (case fuel of
                  0 \<Rightarrow> None
                | Suc n \<Rightarrow> resolve n m (if is_abs l then [] else cur) (split_on slash l @ rest)))"
  by pat_completeness auto
termination
  by (relation "inv_image (less_than <*lex*> less_than) (\<lambda>(fuel, m, cur, rest). (fuel, length rest))") auto

definition max_links :: nat where "max_links = 40"

definition locate :: "fsys \<Rightarrow> path \<Rightarrow> path option" where
  "locate fs p = resolve max_links (fs_node fs) [] p"

definition is_dir :: "fsys \<Rightarrow> path \<Rightarrow> bool" where
  "is_dir fs p \<longleftrightarrow> p = [] \<or> fs_node fs p = Some DirN"

text \<open>Where the last segment of a path lives, without following it.\<close>

definition locate_entry :: "fsys \<Rightarrow> path \<Rightarrow> path option" where
  "locate_entry fs p =
     (if p = [] then None
      else case locate fs (butlast p) of
             None \<Rightarrow> None
           | Some q \<Rightarrow> if is_dir fs q then Some (q @ [last p]) else None)"

definition set_node :: "path \<Rightarrow> node option \<Rightarrow> fsys \<Rightarrow> fsys" where
  "set_node p n fs = fs\<lparr>fs_nodes :=
     (case n of None \<Rightarrow> AList.delete p (fs_nodes fs) | Some v \<Rightarrow> AList.update p v (fs_nodes fs))\<rparr>"

definition nonempty :: "fsys \<Rightarrow> path \<Rightarrow> bool" where
  "nonempty fs q \<longleftrightarrow> list_ex (\<lambda>(p, n). p \<noteq> [] \<and> butlast p = q) (fs_nodes fs)"

definition sys_fault :: "fsys \<Rightarrow> bool \<times> fsys" where
  "sys_fault fs = (case fs_faults fs of [] \<Rightarrow> (False, fs) | f # r \<Rightarrow> (f, fs\<lparr>fs_faults := r\<rparr>))"

section \<open>System calls\<close>

text \<open>\<open>os.MkdirAll\<close>, one segment after the other.\<close>

fun mkdir_walk :: "path \<Rightarrow> path \<Rightarrow> fsys \<Rightarrow> bool \<times> fsys" where
  "mkdir_walk cur [] fs = (True, fs)"
| "mkdir_walk cur (s # rest) fs =
     (case fs_node fs (cur @ [s]) of
        None \<Rightarrow>
          let (bad, fs) = sys_fault fs
          in if bad then (False, fs) else mkdir_walk (cur @ [s]) rest (set_node (cur @ [s]) (Some DirN) fs)
      | Some DirN \<Rightarrow> mkdir_walk (cur @ [s]) rest fs
      | Some (FileN i) \<Rightarrow> (False, fs)
      | Some (LinkN l) \<Rightarrow>
          (case resolve max_links (fs_node fs) cur [s] of
             None \<Rightarrow> (False, fs)
           | Some q \<Rightarrow> if is_dir fs q then mkdir_walk q rest fs else (False, fs)))"

definition os_mkdir_all :: "path \<Rightarrow> fsys \<Rightarrow> bool \<times> fsys" where
  "os_mkdir_all p fs = mkdir_walk [] p fs"

text \<open>Open for writing, created if need be and truncated; follows links.\<close>

definition os_open :: "path \<Rightarrow> 32 word \<Rightarrow> fsys \<Rightarrow> nat option \<times> fsys" where
  "os_open p mode fs =
     (let (bad, fs) = sys_fault fs
      in if bad then (None, fs)
         else case locate fs p of
                None \<Rightarrow> (None, fs)
              | Some q \<Rightarrow>
                  (case fs_node fs q of
                     None \<Rightarrow>
                       let i = fs_next fs
                       in (Some i, (set_node q (Some (FileN i)) fs)
                             \<lparr>fs_next := Suc i, fs_data := (fs_data fs)(i := \<lparr> fd_bytes = [], fd_mode = mode \<rparr>)\<rparr>)
                   | Some (FileN i) \<Rightarrow> (Some i, fs\<lparr>fs_data := (fs_data fs)(i := (fs_data fs i)\<lparr>fd_bytes := []\<rparr>)\<rparr>)
                   | _ \<Rightarrow> (None, fs)))"

definition os_write :: "nat \<Rightarrow> string \<Rightarrow> fsys \<Rightarrow> bool \<times> fsys" where
  "os_write i bytes fs =
     (let (bad, fs) = sys_fault fs;
          b = (if bad then take (length bytes div 2) bytes else bytes)
      in (\<not> bad, fs\<lparr>fs_data := (fs_data fs)(i := (fs_data fs i)\<lparr>fd_bytes := b\<rparr>)\<rparr>))"

definition os_chmod :: "path \<Rightarrow> 32 word \<Rightarrow> fsys \<Rightarrow> bool \<times> fsys" where
  "os_chmod p mode fs =
     (let (bad, fs) = sys_fault fs
      in if bad then (False, fs)
         else case locate fs p of
                None \<Rightarrow> (False, fs)
              | Some q \<Rightarrow>
                  (case fs_node fs q of
                     Some (FileN i) \<Rightarrow> (True, fs\<lparr>fs_data := (fs_data fs)(i := (fs_data fs i)\<lparr>fd_mode := mode\<rparr>)\<rparr>)
                   | _ \<Rightarrow> (False, fs)))"

text \<open>\<open>os.Remove\<close>: not of a directory that holds something.\<close>

definition os_remove :: "path \<Rightarrow> fsys \<Rightarrow> bool \<times> fsys" where
  "os_remove p fs =
     (let (bad, fs) = sys_fault fs
      in if bad then (False, fs)
         else case locate_entry fs p of
                None \<Rightarrow> (False, fs)
              | Some q \<Rightarrow>
                  (case fs_node fs q of
                     None \<Rightarrow> (False, fs)
                   | Some n \<Rightarrow> if n = DirN \<and> nonempty fs q then (False, fs) else (True, set_node q None fs)))"

definition os_symlink :: "string \<Rightarrow> path \<Rightarrow> fsys \<Rightarrow> bool \<times> fsys" where
  "os_symlink l p fs =
     (let (bad, fs) = sys_fault fs
      in if bad \<or> l = [] then (False, fs)
         else case locate_entry fs p of
                None \<Rightarrow> (False, fs)
              | Some q \<Rightarrow> if fs_node fs q \<noteq> None then (False, fs) else (True, set_node q (Some (LinkN l)) fs))"

text \<open>\<open>os.Link\<close>: the new name is for the same node, a link included; not for a directory.\<close>

definition os_link :: "path \<Rightarrow> path \<Rightarrow> fsys \<Rightarrow> bool \<times> fsys" where
  "os_link source p fs =
     (let (bad, fs) = sys_fault fs
      in if bad then (False, fs)
         else case (locate_entry fs source, locate_entry fs p) of
                (Some a, Some q) \<Rightarrow>
                  (if fs_node fs q \<noteq> None then (False, fs)
                   else case fs_node fs a of
                          None \<Rightarrow> (False, fs)
                        | Some DirN \<Rightarrow> (False, fs)
                        | n \<Rightarrow> (True, set_node q n fs))
              | _ \<Rightarrow> (False, fs))"

section \<open>The code\<close>

datatype extract_error = NoName | AbsoluteName | OutsideRoot | TooLarge | LinkOutside | SymlinkInZip | OSFailure | BadArchive

definition max_entry_size :: int where
  "max_entry_size = 2147483648"

text \<open>\<open>filepath.Clean\<close> of a clean absolute path followed by more segments.\<close>

fun clean_onto :: "path \<Rightarrow> path \<Rightarrow> path" where
  "clean_onto cur [] = cur"
| "clean_onto cur (s # rest) =
     (if s = [] \<or> s = dot then clean_onto cur rest
      else if s = dotdot then clean_onto (butlast cur) rest
      else clean_onto (cur @ [s]) rest)"

text \<open>The check of the code on strings: equal to the root, or the root and a separator are a prefix.\<close>

definition inside_root :: "path \<Rightarrow> path \<Rightarrow> bool" where
  "inside_root root p \<longleftrightarrow> p = root \<or> (root \<noteq> [] \<and> prefix root p)"

definition safe_join :: "path \<Rightarrow> string \<Rightarrow> extract_error + path" where
  "safe_join root name =
     (if name = '''' then Inl NoName
      else if is_abs name then Inl AbsoluteName
      else let target = clean_onto root (split_on slash name)
           in if \<not> inside_root root target then Inl OutsideRoot else Inr target)"

definition entry_mode :: "int \<Rightarrow> 32 word \<Rightarrow> 32 word" where
  "entry_mode m fallback =
     (let mode = word_of_int m AND 0x1FF
      in if mode = 0 then fallback else mode AND NOT 0x12)"

definition write_entry :: "path \<Rightarrow> string \<Rightarrow> 32 word \<Rightarrow> int \<Rightarrow> fsys \<Rightarrow> (extract_error + unit) \<times> fsys" where
  "write_entry target bytes mode sz fs =
     (let (ok, fs) = os_mkdir_all (butlast target) fs
      in if \<not> ok then (Inl OSFailure, fs)
         else case os_open target mode fs of
                (None, fs) \<Rightarrow> (Inl OSFailure, fs)
              | (Some i, fs) \<Rightarrow>
                  let (ok, fs) = os_write i (take (nat sz) bytes) fs
                  in if \<not> ok then (Inl OSFailure, fs)
                     else let (ok, fs) = os_chmod target mode fs
                          in (if \<not> ok then Inl OSFailure else Inr (), fs))"

definition write_symlink ::
  "path \<Rightarrow> path \<Rightarrow> string \<Rightarrow> fsys \<Rightarrow> (extract_error + unit) \<times> fsys"
where
  "write_symlink root target l fs =
     (let resolved = clean_onto (if is_abs l then [] else butlast target) (split_on slash l)
      in if \<not> inside_root root resolved then (Inl LinkOutside, fs)
         else let (ok, fs) = os_mkdir_all (butlast target) fs
              in if \<not> ok then (Inl OSFailure, fs)
                 else let (_, fs) = os_remove target fs;
                          (ok, fs) = os_symlink l target fs
                      in (if \<not> ok then Inl OSFailure else Inr (), fs))"

datatype entry_kind = KDir | KFile | KSymlink | KHardLink | KOther

record entry =
  ent_kind :: entry_kind
  ent_name :: string
  ent_link :: string
  ent_mode :: int
  ent_size :: int
  ent_bytes :: string

text \<open>One entry of a tar archive, and of a zip archive.\<close>

definition tar_entry :: "path \<Rightarrow> entry \<Rightarrow> fsys \<Rightarrow> (extract_error + unit) \<times> fsys" where
  "tar_entry root e fs =
     (case safe_join root (ent_name e) of
        Inl x \<Rightarrow> (Inl x, fs)
      | Inr target \<Rightarrow>
          (case ent_kind e of
             KDir \<Rightarrow> (let (ok, fs) = os_mkdir_all target fs in (if ok then Inr () else Inl OSFailure, fs))
           | KFile \<Rightarrow>
               if max_entry_size < ent_size e then (Inl TooLarge, fs)
               else write_entry target (ent_bytes e) (entry_mode (ent_mode e) 0x180) (ent_size e) fs
           | KSymlink \<Rightarrow> write_symlink root target (ent_link e) fs
           | KHardLink \<Rightarrow>
               (case safe_join root (ent_link e) of
                  Inl x \<Rightarrow> (Inl x, fs)
                | Inr source \<Rightarrow>
                    let (_, fs) = os_remove target fs;
                        (ok, fs) = os_link source target fs
                    in (if ok then Inr () else Inl OSFailure, fs))
           | KOther \<Rightarrow> (Inr (), fs)))"

definition zip_entry :: "path \<Rightarrow> entry \<Rightarrow> fsys \<Rightarrow> (extract_error + unit) \<times> fsys" where
  "zip_entry root e fs =
     (case safe_join root (ent_name e) of
        Inl x \<Rightarrow> (Inl x, fs)
      | Inr target \<Rightarrow>
          (case ent_kind e of
             KDir \<Rightarrow> (let (ok, fs) = os_mkdir_all target fs in (if ok then Inr () else Inl OSFailure, fs))
           | KSymlink \<Rightarrow> (Inl SymlinkInZip, fs)
           | KFile \<Rightarrow>
               if max_entry_size < ent_size e then (Inl TooLarge, fs)
               else write_entry target (ent_bytes e) (entry_mode (ent_mode e) 0x180) (ent_size e) fs
           | _ \<Rightarrow> (Inr (), fs)))"

text \<open>The loop: the first error ends it. An archive that cannot be read further ends in \<open>None\<close>.\<close>

fun extract_all ::
  "(entry \<Rightarrow> fsys \<Rightarrow> (extract_error + unit) \<times> fsys) \<Rightarrow> entry option list \<Rightarrow> fsys \<Rightarrow> (extract_error + unit) \<times> fsys"
where
  "extract_all f [] fs = (Inr (), fs)"
| "extract_all f (None # es) fs = (Inl BadArchive, fs)"
| "extract_all f (Some e # es) fs =
     (case f e fs of (Inl x, fs) \<Rightarrow> (Inl x, fs) | (Inr _, fs) \<Rightarrow> extract_all f es fs)"

definition extract_archive :: "string \<Rightarrow> path \<Rightarrow> entry option list \<Rightarrow> fsys \<Rightarrow> (extract_error + unit) \<times> fsys" where
  "extract_archive archive root es fs =
     (if suffix ''.zip'' (to_lower archive) then extract_all (zip_entry root) es fs
      else extract_all (tar_entry root) es fs)"

end
