(* ===== verification/Extract_Safety.thy ===== *)
theory Extract_Safety
  imports Extract
begin

text \<open>
  Unpacking stays inside the directory it was given, for zip archives and for tar archives whose links do
  not climb; and a tar archive that gets out although every entry passes the checks.
\<close>

section \<open>Reads after writes\<close>

lemma set_node_simps [simp]:
  "fs_node (set_node p n fs) = (fs_node fs)(p := n)" "fs_data (set_node p n fs) = fs_data fs"
  "fs_next (set_node p n fs) = fs_next fs"
  by (auto simp: set_node_def fs_node_def fun_eq_iff update_conv' delete_conv' split: option.splits)

lemma fs_node_update [simp]:
  "fs_node (fs\<lparr>fs_data := d\<rparr>) = fs_node fs" "fs_node (fs\<lparr>fs_next := k\<rparr>) = fs_node fs"
  "fs_node (fs\<lparr>fs_faults := l\<rparr>) = fs_node fs"
  by (simp_all add: fs_node_def)

lemma sys_faultD: "sys_fault fs = (b, fs') \<Longrightarrow> fs_node fs' = fs_node fs \<and> fs_data fs' = fs_data fs \<and> fs_next fs' = fs_next fs"
  by (auto simp: sys_fault_def split: list.splits)

section \<open>Paths\<close>

definition clean_path :: "path \<Rightarrow> bool" where
  "clean_path p \<longleftrightarrow> (\<forall>s\<in>set p. s \<noteq> [] \<and> s \<noteq> dot \<and> s \<noteq> dotdot)"

lemma clean_path_simps [simp]:
  "clean_path []" "clean_path (p @ q) \<longleftrightarrow> clean_path p \<and> clean_path q"
  "clean_path (s # p) \<longleftrightarrow> s \<noteq> [] \<and> s \<noteq> dot \<and> s \<noteq> dotdot \<and> clean_path p"
  by (auto simp: clean_path_def)

lemma clean_path_butlast: "clean_path p \<Longrightarrow> clean_path (butlast p)"
  by (auto simp: clean_path_def dest: in_set_butlastD)

lemma clean_onto_clean: "clean_path cur \<Longrightarrow> clean_path (clean_onto cur rest)"
  by (induction cur rest rule: clean_onto.induct) (simp_all add: clean_path_butlast)

lemma safe_join_inside:
  "safe_join root name = Inr t \<Longrightarrow> clean_path root \<Longrightarrow> root \<noteq> [] \<Longrightarrow> prefix root t \<and> clean_path t"
  by (auto simp: safe_join_def inside_root_def Let_def clean_onto_clean split: if_splits)

text \<open>A link that does not climb.\<close>

definition low_link :: "string \<Rightarrow> bool" where
  "low_link l \<longleftrightarrow> \<not> is_abs l \<and> dotdot \<notin> set (split_on slash l)"

definition links_low :: "path \<Rightarrow> (path \<Rightarrow> node option) \<Rightarrow> bool" where
  "links_low root m \<longleftrightarrow> (\<forall>p l. prefix root p \<longrightarrow> m p = Some (LinkN l) \<longrightarrow> low_link l)"

definition real_dir :: "path \<Rightarrow> (path \<Rightarrow> node option) \<Rightarrow> bool" where
  "real_dir root m \<longleftrightarrow> (\<forall>p. p \<noteq> [] \<longrightarrow> prefix p root \<longrightarrow> m p = Some DirN)"

lemma resolve_under:
  "resolve fuel m cur rest = Some q \<Longrightarrow> prefix root cur \<Longrightarrow> dotdot \<notin> set rest \<Longrightarrow> links_low root m \<Longrightarrow> prefix root q"
proof (induction fuel m cur rest rule: resolve.induct)
  case (2 fuel m cur s rest)
  have up: "prefix root (cur @ [s])" using "2.prems"(2) by (rule prefix_prefix)
  consider "s = [] \<or> s = dot" | "s \<noteq> []" "s \<noteq> dot" by auto
  then show ?case
  proof cases
    case 2
    have sd: "s \<noteq> dotdot" using "2.prems"(3) by auto
    show ?thesis
    proof (cases "m (cur @ [s])")
      case None
      then show ?thesis using 2 "2.prems"(1) sd up by (auto split: if_splits)
    next
      case (Some n)
      show ?thesis
      proof (cases n)
        case DirN
        then show ?thesis using 2 "2.IH"(3) [of n] "2.prems" Some sd up by auto
      next
        case (FileN i)
        then show ?thesis using 2 "2.prems"(1) Some sd up by (auto split: if_splits)
      next
        case (LinkN l)
        then have l: "low_link l" using "2.prems"(4) Some up unfolding links_low_def by blast
        then show ?thesis using 2 "2.IH"(4) [OF _ _ Some LinkN] "2.prems" Some LinkN sd
          by (auto simp: low_link_def split: nat.splits)
      qed
    qed
  qed (use 2 in auto)
qed simp

lemma resolve_real:
  "clean_path a \<Longrightarrow> (\<And>p. p \<noteq> [] \<Longrightarrow> prefix p a \<Longrightarrow> m (cur @ p) = Some DirN) \<Longrightarrow>
     resolve fuel m cur (a @ rest) = resolve fuel m (cur @ a) rest"
proof (induction a arbitrary: cur)
  case (Cons s a)
  have "m (cur @ [s]) = Some DirN" using Cons.prems(2) [of "[s]"] by simp
  moreover have "m ((cur @ [s]) @ p) = Some DirN" if "p \<noteq> []" "prefix p a" for p
    using Cons.prems(2) [of "s # p"] that by simp
  ultimately show ?case using Cons.IH [of "cur @ [s]"] Cons.prems(1) by (simp add: clean_path_def)
qed simp

lemma resolve_root:
  assumes "clean_path root" "real_dir root m"
  shows "resolve fuel m [] (root @ rest) = resolve fuel m root rest"
  using resolve_real [OF assms(1), of m "[]" fuel rest] assms(2) by (simp add: real_dir_def)

section \<open>What is confined to a directory\<close>

definition confined :: "path \<Rightarrow> fsys \<Rightarrow> fsys \<Rightarrow> bool" where
  "confined root fs0 fs \<longleftrightarrow>
     real_dir root (fs_node fs) \<and> links_low root (fs_node fs)
   \<and> (\<forall>p. \<not> prefix root p \<longrightarrow> fs_node fs p = fs_node fs0 p)
   \<and> (\<forall>p i. fs_node fs p = Some (FileN i) \<longrightarrow> i < fs_next fs)
   \<and> (\<forall>p q i. prefix root p \<longrightarrow> \<not> prefix root q \<longrightarrow> fs_node fs p = Some (FileN i) \<longrightarrow> fs_node fs q \<noteq> Some (FileN i))
   \<and> (\<forall>q i. \<not> prefix root q \<longrightarrow> fs_node fs0 q = Some (FileN i) \<longrightarrow> fs_data fs i = fs_data fs0 i)"

text \<open>A node may be put below the root if it is no climbing link and no file of the outside.\<close>

definition may_put :: "path \<Rightarrow> fsys \<Rightarrow> node option \<Rightarrow> bool" where
  "may_put root fs n \<longleftrightarrow> (case n of
      Some (LinkN l) \<Rightarrow> low_link l
    | Some (FileN i) \<Rightarrow> i < fs_next fs \<and> (\<forall>q. \<not> prefix root q \<longrightarrow> fs_node fs q \<noteq> Some (FileN i))
    | _ \<Rightarrow> True)"

lemma confinedI:
  assumes "real_dir root (fs_node fs)" "links_low root (fs_node fs)"
    and "\<And>p. \<not> prefix root p \<Longrightarrow> fs_node fs p = fs_node fs0 p"
    and "\<And>p i. fs_node fs p = Some (FileN i) \<Longrightarrow> i < fs_next fs"
    and "\<And>p q i. prefix root p \<Longrightarrow> \<not> prefix root q \<Longrightarrow> fs_node fs p = Some (FileN i) \<Longrightarrow> fs_node fs q \<noteq> Some (FileN i)"
    and "\<And>q i. \<not> prefix root q \<Longrightarrow> fs_node fs0 q = Some (FileN i) \<Longrightarrow> fs_data fs i = fs_data fs0 i"
  shows "confined root fs0 fs"
  unfolding confined_def using assms by blast

lemma confinedD:
  assumes "confined root fs0 fs"
  shows "real_dir root (fs_node fs)" "links_low root (fs_node fs)"
    and "\<And>p. \<not> prefix root p \<Longrightarrow> fs_node fs p = fs_node fs0 p"
    and "\<And>p i. fs_node fs p = Some (FileN i) \<Longrightarrow> i < fs_next fs"
    and "\<And>p q i. prefix root p \<Longrightarrow> \<not> prefix root q \<Longrightarrow> fs_node fs p = Some (FileN i) \<Longrightarrow> fs_node fs q \<noteq> Some (FileN i)"
    and "\<And>q i. \<not> prefix root q \<Longrightarrow> fs_node fs0 q = Some (FileN i) \<Longrightarrow> fs_data fs i = fs_data fs0 i"
  using assms unfolding confined_def by blast+

lemma confined_set_node:
  assumes "confined root fs0 fs" "prefix root q" "q \<noteq> root" "may_put root fs n"
  shows "confined root fs0 (set_node q n fs)"
proof (rule confinedI)
  note c = confinedD [OF assms(1)]
  have nq: "\<not> prefix q root" using assms(2,3) by (metis prefix_order.antisym)
  then show "real_dir root (fs_node (set_node q n fs))" using c(1) by (auto simp: real_dir_def)
  show "links_low root (fs_node (set_node q n fs))" using c(2) assms(4) by (auto simp: links_low_def may_put_def)
  show "fs_node (set_node q n fs) p = fs_node fs0 p" if "\<not> prefix root p" for p
    using c(3) [OF that] that assms(2) by auto
  show "i < fs_next (set_node q n fs)" if "fs_node (set_node q n fs) p = Some (FileN i)" for p i
    using that c(4) assms(4) by (auto simp: may_put_def split: if_splits)
  show "fs_node (set_node q n fs) y \<noteq> Some (FileN i)"
    if "prefix root x" "\<not> prefix root y" "fs_node (set_node q n fs) x = Some (FileN i)" for x y i
    using that c(5) [of x y i] assms(2,4) by (auto simp: may_put_def split: if_splits)
  show "fs_data (set_node q n fs) i = fs_data fs0 i" if "\<not> prefix root y" "fs_node fs0 y = Some (FileN i)" for y i
    using c(6) [OF that] by simp
qed

lemma confined_data:
  assumes "confined root fs0 fs" "fs_node fs p = Some (FileN i)" "prefix root p"
  shows "confined root fs0 (fs\<lparr>fs_data := (fs_data fs)(i := d)\<rparr>)"
proof (rule confinedI)
  note c = confinedD [OF assms(1)]
  show "fs_data (fs\<lparr>fs_data := (fs_data fs)(i := d)\<rparr>) j = fs_data fs0 j"
    if "\<not> prefix root y" "fs_node fs0 y = Some (FileN j)" for y j
  proof -
    have "fs_node fs y = Some (FileN j)" using c(3) [OF that(1)] that(2) by simp
    then have "j \<noteq> i" using c(5) [OF assms(3) that(1) assms(2)] by auto
    then show ?thesis using c(6) [OF that] by simp
  qed
qed (use confinedD [OF assms(1)] in auto)

lemma confined_same:
  "confined root fs0 fs \<Longrightarrow> fs_node fs' = fs_node fs \<Longrightarrow> fs_data fs' = fs_data fs \<Longrightarrow> fs_next fs' = fs_next fs \<Longrightarrow>
     confined root fs0 fs'"
  unfolding confined_def by metis

lemma confined_fault: "confined root fs0 fs \<Longrightarrow> sys_fault fs = (b, fs') \<Longrightarrow> confined root fs0 fs'"
  using sys_faultD confined_same by metis

lemma confined_new_file:
  assumes "confined root fs0 fs" "prefix root q" "q \<noteq> root"
  shows "confined root fs0 ((set_node q (Some (FileN (fs_next fs))) fs)
      \<lparr>fs_next := Suc (fs_next fs), fs_data := (fs_data fs)(fs_next fs := d)\<rparr>)"
proof (rule confinedI)
  note c = confinedD [OF assms(1)]
  let ?fs = "(set_node q (Some (FileN (fs_next fs))) fs)
      \<lparr>fs_next := Suc (fs_next fs), fs_data := (fs_data fs)(fs_next fs := d)\<rparr>"
  have nq: "\<not> prefix q root" using assms(2,3) by (metis prefix_order.antisym)
  have fresh: "fs_node fs p \<noteq> Some (FileN (fs_next fs))" for p using c(4) [of p "fs_next fs"] by auto
  show "real_dir root (fs_node ?fs)" using c(1) nq by (auto simp: real_dir_def)
  show "links_low root (fs_node ?fs)" using c(2) by (auto simp: links_low_def)
  show "fs_node ?fs p = fs_node fs0 p" if "\<not> prefix root p" for p using c(3) [OF that] that assms(2) by auto
  show "i < fs_next ?fs" if "fs_node ?fs p = Some (FileN i)" for p i
    using that c(4) [of p i] by (auto split: if_splits)
  show "fs_node ?fs y \<noteq> Some (FileN i)" if "prefix root x" "\<not> prefix root y" "fs_node ?fs x = Some (FileN i)" for x y i
    using that c(5) [of x y i] assms(2) fresh [of y] by (auto split: if_splits)
  show "fs_data ?fs i = fs_data fs0 i" if "\<not> prefix root y" "fs_node fs0 y = Some (FileN i)" for y i
    using c(6) [OF that] c(3) [OF that(1)] that(2) fresh [of y] by auto
qed

text \<open>Where the system calls find what the code names.\<close>

lemma locate_under:
  assumes "confined root fs0 fs" "clean_path root" "prefix root t" "clean_path t" "locate fs t = Some q"
  shows "prefix root q"
proof -
  obtain rest where t: "t = root @ rest" using assms(3) by (auto elim: prefixE)
  have "resolve max_links (fs_node fs) root rest = Some q"
    using assms(5) resolve_root [OF assms(2)] assms(1) by (simp add: locate_def t confined_def)
  then show ?thesis
    by (rule resolve_under) (use assms(1,4) in \<open>auto simp: t confined_def clean_path_def\<close>)
qed

lemma locate_entry_under:
  assumes "confined root fs0 fs" "clean_path root" "prefix root t" "clean_path t" "t \<noteq> root"
    and "locate_entry fs t = Some q"
  shows "prefix root q \<and> q \<noteq> root"
proof -
  obtain rest where t: "t = root @ rest" "rest \<noteq> []" using assms(3,5) by (auto elim: prefixE)
  then have b: "prefix root (butlast t)" "clean_path (butlast t)"
    using assms(4) by (auto simp: butlast_append clean_path_def dest: in_set_butlastD)
  obtain p where p: "locate fs (butlast t) = Some p" "q = p @ [last t]"
    using assms(6) by (auto simp: locate_entry_def split: if_splits option.splits)
  have "prefix root p" by (rule locate_under [OF assms(1,2) b p(1)])
  then show ?thesis using p(2) by (auto simp: prefix_def)
qed

section \<open>Every call stays inside\<close>

lemma mkdir_walk_real:
  "clean_path a \<Longrightarrow> (\<And>p. p \<noteq> [] \<Longrightarrow> prefix p a \<Longrightarrow> fs_node fs (cur @ p) = Some DirN) \<Longrightarrow>
     mkdir_walk cur (a @ rest) fs = mkdir_walk (cur @ a) rest fs"
proof (induction a arbitrary: cur)
  case (Cons s a)
  have "fs_node fs (cur @ [s]) = Some DirN" using Cons.prems(2) [of "[s]"] by simp
  moreover have "fs_node fs ((cur @ [s]) @ p) = Some DirN" if "p \<noteq> []" "prefix p a" for p
    using Cons.prems(2) [of "s # p"] that by simp
  ultimately show ?case using Cons.IH [of "cur @ [s]"] Cons.prems(1) by (simp add: clean_path_def)
qed simp

lemma mkdir_walk_confined:
  "confined root fs0 fs \<Longrightarrow> prefix root cur \<Longrightarrow> dotdot \<notin> set rest \<Longrightarrow> mkdir_walk cur rest fs = (ok, fs') \<Longrightarrow>
     confined root fs0 fs'"
proof (induction cur rest fs rule: mkdir_walk.induct)
  case (2 cur s rest fs)
  have up: "prefix root (cur @ [s])" "cur @ [s] \<noteq> root" using 2(5) by (auto simp: prefix_def)
  show ?case
  proof (cases "fs_node fs (cur @ [s])")
    case None
    obtain bad fs1 where f: "sys_fault fs = (bad, fs1)" by fastforce
    have "confined root fs0 (set_node (cur @ [s]) (Some DirN) fs1)"
      by (rule confined_set_node [OF confined_fault [OF 2(4) f] up]) (simp add: may_put_def)
    then show ?thesis using 2 None f up confined_fault [OF 2(4) f] by (cases bad) auto
  next
    case (Some n)
    show ?thesis
    proof (cases n)
      case (LinkN l)
      show ?thesis
      proof (cases "resolve max_links (fs_node fs) cur [s]")
        case (Some q)
        have "prefix root q" by (rule resolve_under [OF Some 2(5)]) (use 2(4,6) in \<open>auto simp: confined_def\<close>)
        then show ?thesis using 2 \<open>fs_node fs (cur @ [s]) = Some n\<close> LinkN Some by (auto split: if_splits)
      qed (use 2 Some LinkN in auto)
    qed (use 2 Some up in auto)
  qed
qed simp

lemma mkdir_confined:
  assumes "confined root fs0 fs" "clean_path root" "clean_path t" "prefix root t \<or> prefix t root"
    and "os_mkdir_all t fs = (ok, fs')"
  shows "confined root fs0 fs'"
proof -
  have real: "real_dir root (fs_node fs)" using assms(1) by (simp add: confined_def)
  show ?thesis
  proof (cases "prefix root t")
    case True
    then obtain rest where t: "t = root @ rest" by (auto elim: prefixE)
    have "mkdir_walk [] (root @ rest) fs = mkdir_walk root rest fs"
      using mkdir_walk_real [OF assms(2), of fs "[]" rest] real by (simp add: real_dir_def)
    then have "mkdir_walk root rest fs = (ok, fs')" using assms(5) by (simp add: os_mkdir_all_def t)
    from mkdir_walk_confined [OF assms(1) prefix_order.refl _ this] show ?thesis
      using assms(3) by (auto simp: t clean_path_def)
  next
    case False
    then have "prefix t root" using assms(4) by simp
    then have "fs_node fs ([] @ p) = Some DirN" if "p \<noteq> []" "prefix p t" for p
      using real that prefix_order.trans unfolding real_dir_def by auto
    from mkdir_walk_real [OF assms(3) this, of "[]"] have "mkdir_walk [] (t @ []) fs = mkdir_walk t [] fs" by simp
    then show ?thesis using assms(1,5) by (simp add: os_mkdir_all_def)
  qed
qed

lemma butlast_inside:
  "prefix root t \<Longrightarrow> clean_path t \<Longrightarrow> clean_path (butlast t) \<and> (prefix root (butlast t) \<or> prefix (butlast t) root)"
proof
  assume a: "prefix root t" "clean_path t"
  show "clean_path (butlast t)" by (rule clean_path_butlast [OF a(2)])
  show "prefix root (butlast t) \<or> prefix (butlast t) root"
    using a(1) prefixeq_butlast [of t] prefix_same_cases by blast
qed

lemma open_confined:
  assumes "confined root fs0 fs" "clean_path root" "root \<noteq> []" "prefix root t" "clean_path t" "os_open t mode fs = (r, fs')"
  shows "confined root fs0 fs' \<and> (case r of None \<Rightarrow> True | Some i \<Rightarrow> \<exists>p. prefix root p \<and> fs_node fs' p = Some (FileN i))"
proof -
  obtain bad fs1 where f: "sys_fault fs = (bad, fs1)" by fastforce
  have c1: "confined root fs0 fs1" by (rule confined_fault [OF assms(1) f])
  show ?thesis
  proof (cases "bad \<or> locate fs1 t = None")
    case False
    then obtain q where q: "locate fs1 t = Some q" by auto
    have u: "prefix root q" by (rule locate_under [OF c1 assms(2,4,5) q])
    have rootd: "fs_node fs1 root = Some DirN" using c1 assms(3) by (auto simp: confined_def real_dir_def)
    show ?thesis
    proof (cases "fs_node fs1 q")
      case None
      then have "q \<noteq> root" using rootd by auto
      from confined_new_file [OF c1 u this] show ?thesis using assms(6) f False q None u
        by (auto simp: os_open_def Let_def split: if_splits)
    next
      case (Some n)
      show ?thesis
      proof (cases n)
        case (FileN i)
        from confined_data [OF c1 Some [unfolded FileN] u] show ?thesis
          using assms(6) f False q Some FileN u by (auto simp: os_open_def Let_def split: if_splits)
      qed (use assms(6) f False q Some c1 in \<open>auto simp: os_open_def Let_def split: if_splits\<close>)
    qed
  qed (use assms(6) f c1 in \<open>auto simp: os_open_def Let_def split: if_splits option.splits\<close>)
qed

lemma write_confined:
  assumes "confined root fs0 fs" "fs_node fs p = Some (FileN i)" "prefix root p" "os_write i b fs = (ok, fs')"
  shows "confined root fs0 fs'"
proof -
  obtain bad fs1 where f: "sys_fault fs = (bad, fs1)" by fastforce
  have "fs_node fs1 p = Some (FileN i)" using sys_faultD [OF f] assms(2) by simp
  from confined_data [OF confined_fault [OF assms(1) f] this assms(3)] show ?thesis
    using assms(4) f by (auto simp: os_write_def Let_def)
qed

lemma chmod_confined:
  assumes "confined root fs0 fs" "clean_path root" "prefix root t" "clean_path t" "os_chmod t mode fs = (ok, fs')"
  shows "confined root fs0 fs'"
proof -
  obtain bad fs1 where f: "sys_fault fs = (bad, fs1)" by fastforce
  have c1: "confined root fs0 fs1" by (rule confined_fault [OF assms(1) f])
  show ?thesis using assms(5) f c1 locate_under [OF c1 assms(2-4)]
    by (auto simp: os_chmod_def Let_def split: if_splits option.splits node.splits intro: confined_data)
qed

lemma remove_confined:
  assumes "confined root fs0 fs" "clean_path root" "prefix root t" "clean_path t" "t \<noteq> root" "os_remove t fs = (ok, fs')"
  shows "confined root fs0 fs'"
proof -
  obtain bad fs1 where f: "sys_fault fs = (bad, fs1)" by fastforce
  have c1: "confined root fs0 fs1" by (rule confined_fault [OF assms(1) f])
  show ?thesis using assms(6) f c1 locate_entry_under [OF c1 assms(2-5)]
    by (auto simp: os_remove_def Let_def may_put_def split: if_splits option.splits intro!: confined_set_node)
qed

lemma symlink_confined:
  assumes "confined root fs0 fs" "clean_path root" "prefix root t" "clean_path t" "t \<noteq> root" "low_link l"
    and "os_symlink l t fs = (ok, fs')"
  shows "confined root fs0 fs'"
proof -
  obtain bad fs1 where f: "sys_fault fs = (bad, fs1)" by fastforce
  have c1: "confined root fs0 fs1" by (rule confined_fault [OF assms(1) f])
  show ?thesis using assms(6,7) f c1 locate_entry_under [OF c1 assms(2-5)]
    by (auto simp: os_symlink_def Let_def may_put_def split: if_splits option.splits intro!: confined_set_node)
qed

lemma link_confined:
  assumes "confined root fs0 fs" "clean_path root" "prefix root t" "clean_path t" "t \<noteq> root"
    and "prefix root a" "clean_path a" "root \<noteq> []" "os_link a t fs = (ok, fs')"
  shows "confined root fs0 fs'"
proof -
  obtain bad fs1 where f: "sys_fault fs = (bad, fs1)" by fastforce
  have c1: "confined root fs0 fs1" by (rule confined_fault [OF assms(1) f])
  have src: "may_put root fs1 (Some n)" if "locate_entry fs1 a = Some p" "fs_node fs1 p = Some n" "n \<noteq> DirN" for p n
  proof (cases "a = root")
    case True
    have "p = root"
    proof -
      have "fs_node fs1 ([] @ p) = Some DirN" if "p \<noteq> []" "prefix p (butlast root)" for p
        using confinedD(1) [OF c1] that prefixeq_butlast [of root] prefix_order.trans unfolding real_dir_def by auto
      from resolve_real [where cur = "[]" and m = "fs_node fs1", OF clean_path_butlast [OF assms(2)] this, of max_links "[]"]
      have "locate fs1 (butlast root) = Some (butlast root)" by (simp add: locate_def)
      then show ?thesis using that(1) True assms(8) by (auto simp: locate_entry_def split: if_splits)
    qed
    then have "n = DirN" using that c1 assms(8) by (auto simp: confined_def real_dir_def)
    then show ?thesis using that(3) by simp
  next
    case False
    have "prefix root p" using locate_entry_under [OF c1 assms(2,6,7) False that(1)] by simp
    then show ?thesis using that(2) c1 by (cases n) (auto simp: may_put_def confined_def links_low_def)
  qed
  show ?thesis
  proof (cases "ok")
    case True
    then obtain p q n where n: "locate_entry fs1 a = Some p" "locate_entry fs1 t = Some q" "fs_node fs1 p = Some n"
      "n \<noteq> DirN" "fs' = set_node q (Some n) fs1"
      using assms(9) f by (auto simp: os_link_def Let_def split: if_splits option.splits node.splits)
    have "prefix root q \<and> q \<noteq> root" by (rule locate_entry_under [OF c1 assms(2-5) n(2)])
    then show ?thesis unfolding n(5) by (intro confined_set_node [OF c1] src [OF n(1,3,4)]) auto
  next
    case False
    then have "fs' = fs1"
      using assms(9) f by (auto simp: os_link_def Let_def split: if_splits option.splits node.splits)
    then show ?thesis using c1 by simp
  qed
qed

section \<open>Whole archives\<close>

lemma write_entry_confined:
  assumes "confined root fs0 fs" "clean_path root" "root \<noteq> []" "prefix root t" "clean_path t"
    and "write_entry t b mode sz fs = (r, fs')"
  shows "confined root fs0 fs'"
proof -
  obtain ok1 fs1 where 1: "os_mkdir_all (butlast t) fs = (ok1, fs1)" by fastforce
  have c1: "confined root fs0 fs1"
    using mkdir_confined [OF assms(1,2) _ _ 1] butlast_inside [OF assms(4,5)] by blast
  obtain r2 fs2 where 2: "os_open t mode fs1 = (r2, fs2)" by fastforce
  note c2 = open_confined [OF c1 assms(2-5) 2]
  show ?thesis
  proof (cases r2)
    case (Some i)
    then obtain p where p: "prefix root p" "fs_node fs2 p = Some (FileN i)" using c2 by auto
    obtain ok3 fs3 where 3: "os_write i (take (nat sz) b) fs2 = (ok3, fs3)" by fastforce
    have c3: "confined root fs0 fs3" using write_confined [OF _ p(2,1) 3] c2 by blast
    obtain ok4 fs4 where 4: "os_chmod t mode fs3 = (ok4, fs4)" by fastforce
    have "confined root fs0 fs4" by (rule chmod_confined [OF c3 assms(2,4,5) 4])
    then show ?thesis using assms(6) 1 2 3 4 Some c1 c3
      by (cases ok1; cases ok3) (simp_all add: write_entry_def)
  qed (use assms(6) 1 2 c1 c2 in \<open>auto simp: write_entry_def split: if_splits\<close>)
qed

lemma write_symlink_confined:
  assumes "confined root fs0 fs" "clean_path root" "prefix root t" "clean_path t" "t \<noteq> root" "low_link l"
    and "write_symlink root t l fs = (r, fs')"
  shows "confined root fs0 fs'"
proof -
  obtain ok1 fs1 where 1: "os_mkdir_all (butlast t) fs = (ok1, fs1)" by fastforce
  have c1: "confined root fs0 fs1"
    using mkdir_confined [OF assms(1,2) _ _ 1] butlast_inside [OF assms(3,4)] by blast
  obtain ok2 fs2 where 2: "os_remove t fs1 = (ok2, fs2)" by fastforce
  have c2: "confined root fs0 fs2" by (rule remove_confined [OF c1 assms(2-5) 2])
  obtain ok3 fs3 where 3: "os_symlink l t fs2 = (ok3, fs3)" by fastforce
  have "confined root fs0 fs3" by (rule symlink_confined [OF c2 assms(2-6) 3])
  then show ?thesis using assms(1,7) 1 2 3 c1 by (auto simp: write_symlink_def Let_def split: if_splits)
qed

text \<open>A link entry stays below the root and, when symbolic, does not climb.\<close>

definition modest_entry :: "path \<Rightarrow> entry \<Rightarrow> bool" where
  "modest_entry root e \<longleftrightarrow>
     (ent_kind e \<in> {KSymlink, KHardLink} \<longrightarrow> safe_join root (ent_name e) \<noteq> Inr root)
   \<and> (ent_kind e = KSymlink \<longrightarrow> low_link (ent_link e))"

lemma tar_entry_confined:
  assumes "confined root fs0 fs" "clean_path root" "root \<noteq> []" "modest_entry root e" "tar_entry root e fs = (r, fs')"
  shows "confined root fs0 fs'"
proof (cases "safe_join root (ent_name e)")
  case (Inr t)
  note t = safe_join_inside [OF Inr assms(2,3)]
  show ?thesis
  proof (cases "ent_kind e")
    case KDir
    obtain ok fs1 where "os_mkdir_all t fs = (ok, fs1)" by fastforce
    with mkdir_confined [OF assms(1,2) _ _ this] t show ?thesis using assms(5) Inr KDir by (simp add: tar_entry_def)
  next
    case KFile
    then show ?thesis using assms(1,5) Inr write_entry_confined [OF assms(1-3)] t
      by (auto simp: tar_entry_def split: if_splits)
  next
    case KSymlink
    then have "t \<noteq> root" "low_link (ent_link e)" using assms(4) Inr by (auto simp: modest_entry_def)
    then show ?thesis using assms(5) Inr KSymlink write_symlink_confined [OF assms(1,2)] t
      by (auto simp: tar_entry_def)
  next
    case KHardLink
    then have ne: "t \<noteq> root" using assms(4) Inr by (auto simp: modest_entry_def)
    show ?thesis
    proof (cases "safe_join root (ent_link e)")
      case (Inr a)
      note a = safe_join_inside [OF Inr assms(2,3)]
      obtain ok1 fs1 where 1: "os_remove t fs = (ok1, fs1)" by fastforce
      have c1: "confined root fs0 fs1" using remove_confined [OF assms(1,2) _ _ ne 1] t by blast
      obtain ok2 fs2 where 2: "os_link a t fs1 = (ok2, fs2)" by fastforce
      have "confined root fs0 fs2" using link_confined [OF c1 assms(2) _ _ ne _ _ assms(3) 2] t a by blast
      then show ?thesis using assms(5) KHardLink \<open>safe_join root (ent_name e) = Inr t\<close> Inr 1 2
        by (simp add: tar_entry_def Let_def)
    qed (use assms(1,5) Inr KHardLink in \<open>simp add: tar_entry_def\<close>)
  qed (use assms(1,5) Inr in \<open>simp add: tar_entry_def\<close>)
qed (use assms(1,5) in \<open>simp add: tar_entry_def\<close>)

lemma zip_entry_confined:
  assumes "confined root fs0 fs" "clean_path root" "root \<noteq> []" "zip_entry root e fs = (r, fs')"
  shows "confined root fs0 fs'"
proof (cases "safe_join root (ent_name e)")
  case (Inr t)
  note t = safe_join_inside [OF Inr assms(2,3)]
  show ?thesis
  proof (cases "ent_kind e")
    case KDir
    obtain ok fs1 where "os_mkdir_all t fs = (ok, fs1)" by fastforce
    with mkdir_confined [OF assms(1,2) _ _ this] t show ?thesis using assms(4) Inr KDir by (simp add: zip_entry_def)
  next
    case KFile
    then show ?thesis using assms(1,4) Inr write_entry_confined [OF assms(1-3)] t
      by (auto simp: zip_entry_def split: if_splits)
  qed (use assms(1,4) Inr in \<open>simp_all add: zip_entry_def\<close>)
qed (use assms(1,4) in \<open>simp add: zip_entry_def\<close>)

lemma extract_all_confined:
  assumes "\<And>e fs r fs'. Some e \<in> set es \<Longrightarrow> confined root fs0 fs \<Longrightarrow> f e fs = (r, fs') \<Longrightarrow> confined root fs0 fs'"
    and "confined root fs0 fs" "extract_all f es fs = (r, fs')"
  shows "confined root fs0 fs'"
  using assms
proof (induction es arbitrary: fs)
  case (Cons x es)
  show ?case
  proof (cases x)
    case (Some e)
    obtain r1 fs1 where 1: "f e fs = (r1, fs1)" by fastforce
    have c1: "confined root fs0 fs1" using Cons.prems(1) [OF _ Cons.prems(2) 1] Some by simp
    show ?thesis
    proof (cases r1)
      case (Inr u)
      then have "extract_all f es fs1 = (r, fs')" using Cons.prems(3) Some 1 by simp
      from Cons.IH [OF _ c1 this] Cons.prems(1) show ?thesis by auto
    qed (use Cons.prems(3) Some 1 c1 in auto)
  qed (use Cons.prems in auto)
qed simp

text \<open>
  C14: unpacking stays inside its directory: a zip archive, whatever its entries, and a tar archive whose
  symbolic links do not climb, changes no name and no contents outside the directory it is unpacked into,
  even when it ends with an error half way. Before, nothing in that directory may lead out of it.
\<close>

theorem extraction_contained:
  assumes "clean_path root" "root \<noteq> []" "confined root fs fs"
    and "suffix ''.zip'' (to_lower archive) \<or> (\<forall>e. Some e \<in> set es \<longrightarrow> modest_entry root e)"
    and "extract_archive archive root es fs = (r, fs')" "\<not> prefix root p"
  shows "fs_node fs' p = fs_node fs p
    \<and> (\<forall>i. fs_node fs p = Some (FileN i) \<longrightarrow> fs_data fs' i = fs_data fs i)"
proof -
  have "confined root fs fs'"
  proof (cases "suffix ''.zip'' (to_lower archive)")
    case True
    then have "extract_all (zip_entry root) es fs = (r, fs')" using assms(5) by (simp add: extract_archive_def)
    then show ?thesis by (rule extract_all_confined [OF _ assms(3), rotated]) (rule zip_entry_confined [OF _ assms(1,2)])
  next
    case False
    then have "extract_all (tar_entry root) es fs = (r, fs')" using assms(5) by (simp add: extract_archive_def)
    then show ?thesis
      by (rule extract_all_confined [OF _ assms(3), rotated])
        (use assms(4) False in \<open>auto intro: tar_entry_confined [OF _ assms(1,2)]\<close>)
  qed
  from confinedD(3,6) [OF this] assms(6) show ?thesis by blast
qed

section \<open>A way out\<close>

text \<open>Unpacking into \<open>/r\<close>, where nothing else is.\<close>

definition fresh_fs :: fsys where
  "fresh_fs = \<lparr> fs_nodes = [([''r''], DirN)], fs_data = (\<lambda>_. \<lparr> fd_bytes = [], fd_mode = 0 \<rparr>), fs_next = 0, fs_faults = [] \<rparr>"

definition link_entry :: "string \<Rightarrow> string \<Rightarrow> entry" where
  "link_entry n l = \<lparr> ent_kind = KSymlink, ent_name = n, ent_link = l, ent_mode = 0, ent_size = 0, ent_bytes = [] \<rparr>"

definition file_entry :: "string \<Rightarrow> string \<Rightarrow> entry" where
  "file_entry n b = \<lparr> ent_kind = KFile, ent_name = n, ent_link = [], ent_mode = 0x1FF, ent_size = int (length b), ent_bytes = b \<rparr>"

definition climbing_archive :: "entry option list" where
  "climbing_archive = [Some (link_entry ''d/up'' ''..''), Some (link_entry ''e'' ''d/up/..''), Some (file_entry ''e/evil'' ''x'')]"

text \<open>
  The checks of a tar archive are lexical and miss what links do: this archive of three entries is
  unpacked without an error into the directory r, and creates a file beside that directory. The first
  link leads from r/d/up to r, so that the second, d/up/.., leads out of r although its text, taken
  literally, does not.
\<close>

theorem extraction_escapes:
  "case extract_archive ''runner.tar.gz'' [''r''] climbing_archive fresh_fs of
     (r, fs') \<Rightarrow> r = Inr () \<and> fs_node fresh_fs [''evil''] = None
       \<and> (case fs_node fs' [''evil''] of Some (FileN i) \<Rightarrow> fd_bytes (fs_data fs' i) = ''x'' | _ \<Rightarrow> False)"
  by code_simp

lemma fresh_confined: "confined [''r''] fresh_fs fresh_fs"
proof (rule confinedI)
  have n: "fs_node fresh_fs p = (if p = [''r''] then Some DirN else None)" for p
    by (simp add: fs_node_def fresh_fs_def)
  show "real_dir [''r''] (fs_node fresh_fs)" by (auto simp: real_dir_def n prefix_Cons)
  show "links_low [''r''] (fs_node fresh_fs)" by (simp add: links_low_def n)
  show "i < fs_next fresh_fs" if "fs_node fresh_fs p = Some (FileN i)" for p i
    using that by (simp add: n split: if_splits)
  show "fs_node fresh_fs q \<noteq> Some (FileN i)" if "fs_node fresh_fs p = Some (FileN i)" for p q i
    using that by (simp add: n split: if_splits)
qed simp_all

theorem extraction_contained_witness:
  "fs_node (snd (extract_archive ''actions-runner-win-x64.zip'' [''r''] climbing_archive fresh_fs)) [''evil''] = None"
proof -
  have "suffix ''.zip'' (to_lower ''actions-runner-win-x64.zip'')" by code_simp
  moreover obtain r fs' where "extract_archive ''actions-runner-win-x64.zip'' [''r''] climbing_archive fresh_fs = (r, fs')"
    by fastforce
  moreover have "fs_node fresh_fs [''evil''] = None" by (simp add: fs_node_def fresh_fs_def)
  ultimately show ?thesis
    using extraction_contained [of "[''r'']" fresh_fs "''actions-runner-win-x64.zip''" climbing_archive r fs' "[''evil'']"]
      fresh_confined by (simp add: clean_path_def dots)
qed

section \<open>Permissions\<close>

text \<open>
  Nothing unpacked can be written by the group or others, and nothing is set-user-id or
  set-group-id, whatever mode the archive records.
\<close>

theorem extracted_mode_restricted:
  "entry_mode m 0x180 AND 0xE12 = 0 \<and> entry_mode m 0x1E8 AND 0xE12 = 0"
proof (cases "word_of_int m AND 0x1FF = (0 :: 32 word)")
  case False
  have "((x AND 0x1FF) AND NOT 0x12) AND 0xE12 = 0" for x :: "32 word"
  proof -
    have "((x AND 0x1FF) AND NOT 0x12) AND 0xE12 = x AND ((0x1FF AND NOT 0x12) AND 0xE12)"
      by (simp only: and.assoc)
    also have "(0x1FF AND NOT 0x12) AND 0xE12 = (0 :: 32 word)" by simp
    finally show ?thesis by simp
  qed
  then show ?thesis unfolding entry_mode_def Let_def if_not_P [OF False] by blast
qed (simp add: entry_mode_def)

end
