(* ===== verification/Github.thy ===== *)
theory Github
  imports Go_Strings Go_Time
begin

text \<open>
  \<open>internal/github\<close>: scopes, the client for GitHub's REST API and the meaning of its errors. GitHub itself is
  the parameter \<open>gh\<close>: what it answers a request may depend on its state in any way, the network failing
  included. A JSON body is its decoded value, \<open>GUndecodable\<close> when it does not decode. Of an error's text
  the program's own parts are kept, not the prefixes added on the way up.
\<close>

section \<open>Scopes\<close>

datatype scope_kind = KindRepository | KindOrganization | KindOther string

record scope =
  sp_kind :: scope_kind
  sp_owner :: string
  sp_repo :: string

definition is_letter :: "char \<Rightarrow> bool" where
  "is_letter c \<longleftrightarrow> (let n = of_char c :: nat in 65 \<le> n \<and> n \<le> 90 \<or> 97 \<le> n \<and> n \<le> 122)"

definition is_alnum :: "char \<Rightarrow> bool" where
  "is_alnum c \<longleftrightarrow> is_letter c \<or> is_digit c"

definition owner_pattern :: "string \<Rightarrow> bool" where
  "owner_pattern s \<longleftrightarrow> s \<noteq> [] \<and> is_alnum (hd s) \<and> is_alnum (last s) \<and> list_all (\<lambda>c. is_alnum c \<or> c = CHR ''-'') s"

definition repo_pattern :: "string \<Rightarrow> bool" where
  "repo_pattern s \<longleftrightarrow> s \<noteq> [] \<and> list_all (\<lambda>c. is_alnum c \<or> c = CHR ''.'' \<or> c = CHR ''_'' \<or> c = CHR ''-'') s"

datatype scope_error = NotARepository | BadOwner | BadRepo | BadOrganization | OrgWithRepo | BadKind

definition validate_scope :: "scope \<Rightarrow> scope_error option" where
  "validate_scope s =
     (case sp_kind s of
        KindRepository \<Rightarrow>
          if \<not> owner_pattern (sp_owner s) then Some BadOwner
          else if \<not> repo_pattern (sp_repo s) then Some BadRepo else None
      | KindOrganization \<Rightarrow>
          if \<not> owner_pattern (sp_owner s) then Some BadOrganization
          else if sp_repo s \<noteq> '''' then Some OrgWithRepo else None
      | KindOther _ \<Rightarrow> Some BadKind)"

definition slash_char :: char where "slash_char = CHR ''/''"

text \<open>The part of \<open>ParseRepository\<close> that takes a URL or an ssh address apart.\<close>

definition strip_address :: "string \<Rightarrow> string" where
  "strip_address s =
     (case index_of s ''://'' of
        Some i \<Rightarrow>
          let rest = drop (i + 3) s
          in (case index_of rest ''/'' of Some j \<Rightarrow> drop (Suc j) rest | None \<Rightarrow> s)
      | None \<Rightarrow>
          (case index_of s '':'' of
             Some i \<Rightarrow> if CHR ''@'' \<in> set (take i s) then drop (Suc i) s else s
           | None \<Rightarrow> s))"

definition parse_repository :: "string \<Rightarrow> scope_error + scope" where
  "parse_repository raw =
     (let s = trim_both (\<lambda>c. c = slash_char) (strip_address (trim_suffix ''.git'' (trim_space raw)));
          (owner, repo, ok) = cut_at slash_char s
      in if \<not> ok \<or> owner = '''' \<or> repo = '''' \<or> slash_char \<in> set repo then Inl NotARepository
         else let scope = \<lparr> sp_kind = KindRepository, sp_owner = owner, sp_repo = repo \<rparr>
              in (case validate_scope scope of Some e \<Rightarrow> Inl e | None \<Rightarrow> Inr scope))"

definition for_organization :: "string \<Rightarrow> scope" where
  "for_organization login = \<lparr> sp_kind = KindOrganization, sp_owner = trim_space login, sp_repo = '''' \<rparr>"

definition scope_string :: "scope \<Rightarrow> string" where
  "scope_string s = (if sp_kind s = KindRepository then sp_owner s @ ''/'' @ sp_repo s else sp_owner s)"

definition api_path :: "scope \<Rightarrow> string" where
  "api_path s = (if sp_kind s = KindRepository then ''repos/'' @ sp_owner s @ ''/'' @ sp_repo s
                 else ''orgs/'' @ sp_owner s)"

definition bare_host :: "string \<Rightarrow> string" where
  "bare_host host = trim_right (\<lambda>c. c = slash_char)
     (trim_prefix ''http://'' (trim_prefix ''https://'' (trim_space host)))"

definition api_base_url :: "string \<Rightarrow> string" where
  "api_base_url host =
     (let h = bare_host host
      in if h = '''' \<or> h = ''github.com'' \<or> h = ''www.github.com'' then ''https://api.github.com''
         else ''https://'' @ h @ ''/api/v3'')"

definition web_url :: "string \<Rightarrow> string" where
  "web_url host = (let h = bare_host host in ''https://'' @ (if h = '''' then ''github.com'' else h))"

definition scope_web_url :: "string \<Rightarrow> scope \<Rightarrow> string" where
  "scope_web_url host s = web_url host @ ''/'' @ scope_string s"

section \<open>What GitHub sends\<close>

record gh_account =
  ga_login :: string
  ga_id :: int
  ga_name :: string
  ga_type :: string
  ga_avatar :: string

record gh_label =
  lb_id :: int
  lb_name :: string
  lb_type :: string

record gh_runner =
  gr_id :: int
  gr_name :: string
  gr_os :: string
  gr_status :: string
  gr_busy :: bool
  gr_labels :: "gh_label list"
  gr_ephemeral :: bool

definition label_names :: "gh_runner \<Rightarrow> string list" where
  "label_names r = map lb_name (gr_labels r)"

definition runner_state :: "gh_runner \<Rightarrow> string" where
  "runner_state r = (if gr_status r \<noteq> ''online'' then ''offline'' else if gr_busy r then ''busy'' else ''online'')"

record reg_token =
  rt_token :: string
  rt_expires :: go_time

definition token_expired :: "go_time \<Rightarrow> reg_token \<Rightarrow> bool" where
  "token_expired now t \<longleftrightarrow> \<not> is_zero_time (rt_expires t) \<and> \<not> now < rt_expires t"

record download =
  dl_os :: string
  dl_arch :: string
  dl_url :: string
  dl_filename :: string
  dl_sha256 :: string

record repository =
  rp_id :: int
  rp_name :: string
  rp_full_name :: string
  rp_private :: bool
  rp_archived :: bool
  rp_fork :: bool
  rp_url :: string
  rp_owner :: string
  rp_owner_type :: string
  rp_admin :: bool
  rp_push :: bool
  rp_pull :: bool

definition repository_scope :: "repository \<Rightarrow> scope" where
  "repository_scope r = \<lparr> sp_kind = KindRepository, sp_owner = rp_owner r, sp_repo = rp_name r \<rparr>"

record error_detail =
  ed_resource :: string
  ed_field :: string
  ed_code :: string
  ed_message :: string

datatype gh_body =
    GUndecodable
  | GRunners int "gh_runner list"
  | GRunner gh_runner
  | GToken reg_token
  | GDownloads "download list"
  | GUser gh_account
  | GRepository repository
  | GRepositories "repository list"
  | GRelease string
  | GError string "error_detail list"

record gh_request =
  gq_method :: string
  gq_url :: string
  gq_token :: string

record gh_response =
  gs_status :: int
  gs_headers :: "(string \<times> string) list"
  gs_body :: gh_body

type_synonym 'w github = "gh_request \<Rightarrow> 'w \<Rightarrow> (string + gh_response) \<times> 'w"

section \<open>Errors\<close>

record gh_rate_limit =
  rl_limit :: int
  rl_remaining :: int
  rl_reset :: go_time

record api_error =
  ge_status :: int
  ge_message :: string
  ge_details :: "error_detail list"
  ge_scopes :: "string list"
  ge_accepted :: "string list"
  ge_rate :: gh_rate_limit
  ge_authenticated :: bool

datatype gh_error =
    Unreachable string
  | ApiError api_error
  | BadResponse
  | InvalidScope scope_error
  | RunnerNotFound
  | NoRelease
  | EmptyToken
  | NoDownload "string list"
  | WrongKind

definition header :: "(string \<times> string) list \<Rightarrow> string \<Rightarrow> string" where
  "header hs n = (case map_of hs n of None \<Rightarrow> '''' | Some v \<Rightarrow> v)"

definition split_header_list :: "string \<Rightarrow> string list" where
  "split_header_list v =
     (if trim_space v = '''' then []
      else filter (\<lambda>p. p \<noteq> '''') (map trim_space (split_on CHR '','' v)))"

text \<open>\<open>v, _ = strconv.Atoi(s)\<close>: out of range it is the nearest number, although there is an error.\<close>

definition atoi_or_zero :: "string \<Rightarrow> int" where
  "atoi_or_zero s =
     (case atoi s of
        Some k \<Rightarrow> k
      | None \<Rightarrow>
          let ds = (case s of c # r \<Rightarrow> if c = CHR ''-'' \<or> c = CHR ''+'' then r else s | [] \<Rightarrow> [])
          in if ds = [] \<or> \<not> list_all is_digit ds then 0
             else if hd s = CHR ''-'' then - 9223372036854775808 else 9223372036854775807)"

definition parse_rate_limit :: "(string \<times> string) list \<Rightarrow> gh_rate_limit" where
  "parse_rate_limit hs = \<lparr> rl_limit = atoi_or_zero (header hs ''X-RateLimit-Limit''),
     rl_remaining = atoi_or_zero (header hs ''X-RateLimit-Remaining''),
     rl_reset = (case atoi (header hs ''X-RateLimit-Reset'') of
                   Some sec \<Rightarrow> if 0 < sec then sec * second else zero_time | None \<Rightarrow> zero_time) \<rparr>"

definition is_rate_limited :: "api_error \<Rightarrow> bool" where
  "is_rate_limited e \<longleftrightarrow>
     (if ge_status e \<noteq> 403 \<and> ge_status e \<noteq> 429 then False
      else if 0 < rl_limit (ge_rate e) \<and> rl_remaining (ge_rate e) = 0 then True
      else contains (to_lower (ge_message e)) ''rate limit'')"

datatype hint = NoHint | HintNoToken | HintBadToken | HintAnonymousLimit go_time | HintLimit go_time
  | HintScopes "string list" "string list" | HintForbidden | HintPrivate | HintMissing | HintGitHubDown

definition error_hint :: "api_error \<Rightarrow> hint" where
  "error_hint e =
     (if ge_status e = 401 then (if \<not> ge_authenticated e then HintNoToken else HintBadToken)
      else if is_rate_limited e
      then (if \<not> ge_authenticated e then HintAnonymousLimit (rl_reset (ge_rate e)) else HintLimit (rl_reset (ge_rate e)))
      else if ge_status e = 403
      then (if ge_accepted e \<noteq> [] then HintScopes (ge_accepted e) (ge_scopes e) else HintForbidden)
      else if ge_status e = 404 then (if \<not> ge_authenticated e then HintPrivate else HintMissing)
      else if 500 \<le> ge_status e then HintGitHubDown
      else NoHint)"

definition has_status :: "int \<Rightarrow> gh_error \<Rightarrow> bool" where
  "has_status code e = (case e of ApiError a \<Rightarrow> ge_status a = code | _ \<Rightarrow> False)"

definition is_not_found :: "gh_error \<Rightarrow> bool" where
  "is_not_found = has_status 404"

definition new_error :: "string \<Rightarrow> gh_response \<Rightarrow> api_error" where
  "new_error token r = \<lparr> ge_status = gs_status r,
     ge_message = (case gs_body r of GError m _ \<Rightarrow> m | _ \<Rightarrow> ''''),
     ge_details = (case gs_body r of GError _ ds \<Rightarrow> ds | _ \<Rightarrow> []),
     ge_scopes = split_header_list (header (gs_headers r) ''X-OAuth-Scopes''),
     ge_accepted = split_header_list (header (gs_headers r) ''X-Accepted-OAuth-Scopes''),
     ge_rate = parse_rate_limit (gs_headers r), ge_authenticated = (token \<noteq> '''') \<rparr>"

section \<open>The client\<close>

record gh_client =
  gc_base :: string
  gc_token :: string

definition new_for_host :: "string \<Rightarrow> string \<Rightarrow> gh_client" where
  "new_for_host host token = \<lparr> gc_base = trim_right (\<lambda>c. c = slash_char) (api_base_url host), gc_token = token \<rparr>"

text \<open>\<open>do\<close>: the headers and what the body decodes to; \<open>select\<close> says whether it is of the type wanted.
  With 204 there is no body, and what should have been filled in is left at its \<open>zero\<close>.\<close>

definition gh_do ::
  "'w github \<Rightarrow> gh_client \<Rightarrow> string \<Rightarrow> string \<Rightarrow> 'a \<Rightarrow> (gh_body \<Rightarrow> 'a option) \<Rightarrow> 'w
   \<Rightarrow> (gh_error + (string \<times> string) list \<times> 'a) \<times> 'w"
where
  "gh_do gh c mth path zero select w =
     (case gh \<lparr> gq_method = mth, gq_url = gc_base c @ ''/'' @ trim_left (\<lambda>c. c = slash_char) path, gq_token = gc_token c \<rparr> w of
        (Inl e, w) \<Rightarrow> (Inl (Unreachable e), w)
      | (Inr r, w) \<Rightarrow>
          if gs_status r < 200 \<or> 299 < gs_status r then (Inl (ApiError (new_error (gc_token c) r)), w)
          else if gs_status r = 204 then (Inr (gs_headers r, zero), w)
          else (case select (gs_body r) of
                  None \<Rightarrow> (Inl BadResponse, w)
                | Some v \<Rightarrow> (Inr (gs_headers r, v), w)))"

fun get_runners :: "gh_body \<Rightarrow> (int \<times> gh_runner list) option" where
  "get_runners (GRunners n rs) = Some (n, rs)" | "get_runners _ = None"
fun get_runner_body :: "gh_body \<Rightarrow> gh_runner option" where
  "get_runner_body (GRunner r) = Some r" | "get_runner_body _ = None"
fun get_token :: "gh_body \<Rightarrow> reg_token option" where
  "get_token (GToken t) = Some t" | "get_token _ = None"
fun get_downloads :: "gh_body \<Rightarrow> download list option" where
  "get_downloads (GDownloads ds) = Some ds" | "get_downloads _ = None"
fun get_user_body :: "gh_body \<Rightarrow> gh_account option" where
  "get_user_body (GUser u) = Some u" | "get_user_body _ = None"
fun get_repository :: "gh_body \<Rightarrow> repository option" where
  "get_repository (GRepository r) = Some r" | "get_repository _ = None"
fun get_repositories :: "gh_body \<Rightarrow> repository list option" where
  "get_repositories (GRepositories rs) = Some rs" | "get_repositories _ = None"
fun get_release :: "gh_body \<Rightarrow> string option" where
  "get_release (GRelease t) = Some t" | "get_release _ = None"

text \<open>The zero values.\<close>

definition no_gh_runner :: gh_runner where
  "no_gh_runner = \<lparr> gr_id = 0, gr_name = '''', gr_os = '''', gr_status = '''', gr_busy = False, gr_labels = [],
     gr_ephemeral = False \<rparr>"
definition no_reg_token :: reg_token where "no_reg_token = \<lparr> rt_token = '''', rt_expires = zero_time \<rparr>"
definition no_user :: gh_account where
  "no_user = \<lparr> ga_login = '''', ga_id = 0, ga_name = '''', ga_type = '''', ga_avatar = '''' \<rparr>"
definition no_repository :: repository where
  "no_repository = \<lparr> rp_id = 0, rp_name = '''', rp_full_name = '''', rp_private = False, rp_archived = False,
     rp_fork = False, rp_url = '''', rp_owner = '''', rp_owner_type = '''', rp_admin = False, rp_push = False,
     rp_pull = False \<rparr>"

definition per_page :: nat where "per_page = 100"
definition max_pages :: nat where "max_pages = 100"

definition runners_path :: "scope \<Rightarrow> nat \<Rightarrow> string" where
  "runners_path s page = api_path s @ ''/actions/runners?per_page='' @ itoa (int per_page) @ ''&page='' @ itoa (int page)"

text \<open>The loop over the pages, of which \<open>left\<close> are left.\<close>

fun list_runners_loop ::
  "'w github \<Rightarrow> gh_client \<Rightarrow> scope \<Rightarrow> nat \<Rightarrow> nat \<Rightarrow> gh_runner list \<Rightarrow> 'w \<Rightarrow> (gh_error + gh_runner list) \<times> 'w"
where
  "list_runners_loop gh c s page 0 found w = (Inr found, w)"
| "list_runners_loop gh c s page (Suc left) found w =
     (case gh_do gh c ''GET'' (runners_path s page) (0, []) get_runners w of
        (Inl e, w) \<Rightarrow> (Inl e, w)
      | (Inr (_, count, rs), w) \<Rightarrow>
          if rs = [] \<or> count \<le> int (length (found @ rs)) then (Inr (found @ rs), w)
          else list_runners_loop gh c s (Suc page) left (found @ rs) w)"

definition list_gh_runners :: "'w github \<Rightarrow> gh_client \<Rightarrow> scope \<Rightarrow> 'w \<Rightarrow> (gh_error + gh_runner list) \<times> 'w" where
  "list_gh_runners gh c s w =
     (case validate_scope s of
        Some e \<Rightarrow> (Inl (InvalidScope e), w)
      | None \<Rightarrow> list_runners_loop gh c s 1 max_pages [] w)"

definition get_gh_runner :: "'w github \<Rightarrow> gh_client \<Rightarrow> scope \<Rightarrow> int \<Rightarrow> 'w \<Rightarrow> (gh_error + gh_runner) \<times> 'w" where
  "get_gh_runner gh c s i w =
     (case validate_scope s of
        Some e \<Rightarrow> (Inl (InvalidScope e), w)
      | None \<Rightarrow>
          (case gh_do gh c ''GET'' (api_path s @ ''/actions/runners/'' @ itoa i) no_gh_runner get_runner_body w of
             (Inl e, w) \<Rightarrow> (Inl e, w)
           | (Inr (_, r), w) \<Rightarrow> (Inr r, w)))"

definition find_runner_by_name ::
  "'w github \<Rightarrow> gh_client \<Rightarrow> scope \<Rightarrow> string \<Rightarrow> 'w \<Rightarrow> (gh_error + gh_runner) \<times> 'w"
where
  "find_runner_by_name gh c s name w =
     (case list_gh_runners gh c s w of
        (Inl e, w) \<Rightarrow> (Inl e, w)
      | (Inr rs, w) \<Rightarrow>
          (case find (\<lambda>r. equal_fold (gr_name r) name) rs of
             Some r \<Rightarrow> (Inr r, w)
           | None \<Rightarrow> (Inl RunnerNotFound, w)))"

definition delete_gh_runner :: "'w github \<Rightarrow> gh_client \<Rightarrow> scope \<Rightarrow> int \<Rightarrow> 'w \<Rightarrow> (gh_error + unit) \<times> 'w" where
  "delete_gh_runner gh c s i w =
     (case validate_scope s of
        Some e \<Rightarrow> (Inl (InvalidScope e), w)
      | None \<Rightarrow>
          (case gh_do gh c ''DELETE'' (api_path s @ ''/actions/runners/'' @ itoa i) () (\<lambda>_. Some ()) w of
             (Inl e, w) \<Rightarrow> (Inl e, w)
           | (Inr _, w) \<Rightarrow> (Inr (), w)))"

definition create_token :: "string \<Rightarrow> 'w github \<Rightarrow> gh_client \<Rightarrow> scope \<Rightarrow> 'w \<Rightarrow> (gh_error + reg_token) \<times> 'w" where
  "create_token kind gh c s w =
     (case validate_scope s of
        Some e \<Rightarrow> (Inl (InvalidScope e), w)
      | None \<Rightarrow>
          (case gh_do gh c ''POST'' (api_path s @ ''/actions/runners/'' @ kind) no_reg_token get_token w of
             (Inl e, w) \<Rightarrow> (Inl e, w)
           | (Inr (_, t), w) \<Rightarrow> (if rt_token t = '''' then Inl EmptyToken else Inr t, w)))"

definition create_registration_token :: "'w github \<Rightarrow> gh_client \<Rightarrow> scope \<Rightarrow> 'w \<Rightarrow> (gh_error + reg_token) \<times> 'w" where
  "create_registration_token = create_token ''registration-token''"

definition create_remove_token :: "'w github \<Rightarrow> gh_client \<Rightarrow> scope \<Rightarrow> 'w \<Rightarrow> (gh_error + reg_token) \<times> 'w" where
  "create_remove_token = create_token ''remove-token''"

definition list_downloads :: "'w github \<Rightarrow> gh_client \<Rightarrow> scope \<Rightarrow> 'w \<Rightarrow> (gh_error + download list) \<times> 'w" where
  "list_downloads gh c s w =
     (case validate_scope s of
        Some e \<Rightarrow> (Inl (InvalidScope e), w)
      | None \<Rightarrow>
          (case gh_do gh c ''GET'' (api_path s @ ''/actions/runners/downloads'') [] get_downloads w of
             (Inl e, w) \<Rightarrow> (Inl e, w)
           | (Inr (_, ds), w) \<Rightarrow> (Inr ds, w)))"

definition find_download ::
  "'w github \<Rightarrow> gh_client \<Rightarrow> scope \<Rightarrow> string \<Rightarrow> string \<Rightarrow> 'w \<Rightarrow> (gh_error + download) \<times> 'w"
where
  "find_download gh c s os arch w =
     (case list_downloads gh c s w of
        (Inl e, w) \<Rightarrow> (Inl e, w)
      | (Inr ds, w) \<Rightarrow>
          (case find (\<lambda>d. dl_os d = os \<and> dl_arch d = arch) ds of
             Some d \<Rightarrow> (Inr d, w)
           | None \<Rightarrow> (Inl (NoDownload (map (\<lambda>d. dl_os d @ ''/'' @ dl_arch d) ds)), w)))"

text \<open>\<open>repos.go\<close>.\<close>

record identity =
  id_user :: gh_account
  id_scopes :: "string list"
  id_fine_grained :: bool

definition viewer :: "'w github \<Rightarrow> gh_client \<Rightarrow> 'w \<Rightarrow> (gh_error + gh_account) \<times> 'w" where
  "viewer gh c w =
     (case gh_do gh c ''GET'' ''user'' no_user get_user_body w of
        (Inl e, w) \<Rightarrow> (Inl e, w)
      | (Inr (_, u), w) \<Rightarrow> (Inr u, w))"

definition identify :: "'w github \<Rightarrow> gh_client \<Rightarrow> 'w \<Rightarrow> (gh_error + identity) \<times> 'w" where
  "identify gh c w =
     (case gh_do gh c ''GET'' ''user'' no_user get_user_body w of
        (Inl e, w) \<Rightarrow> (Inl e, w)
      | (Inr (hs, u), w) \<Rightarrow>
          let scopes = split_header_list (header hs ''X-OAuth-Scopes'')
          in (Inr \<lparr> id_user = u, id_scopes = scopes, id_fine_grained = (length scopes = 0) \<rparr>, w))"

definition required_scope :: "scope_kind \<Rightarrow> string" where
  "required_scope k = (if k = KindOrganization then ''admin:org'' else ''repo'')"

definition missing_scope :: "scope_kind \<Rightarrow> string list \<Rightarrow> string" where
  "missing_scope k scopes =
     (if scopes = [] then ''''
      else if required_scope k \<in> set scopes then '''' else required_scope k)"

definition latest_release :: "'w github \<Rightarrow> gh_client \<Rightarrow> string \<Rightarrow> string \<Rightarrow> 'w \<Rightarrow> (gh_error + string) \<times> 'w" where
  "latest_release gh c owner repo w =
     (case gh_do gh c ''GET'' (''repos/'' @ owner @ ''/'' @ repo @ ''/releases/latest'') '''' get_release w of
        (Inl e, w) \<Rightarrow> (Inl (if is_not_found e then NoRelease else e), w)
      | (Inr (_, tag), w) \<Rightarrow> (if tag = '''' then Inl NoRelease else Inr tag, w))"

definition get_repository_info :: "'w github \<Rightarrow> gh_client \<Rightarrow> scope \<Rightarrow> 'w \<Rightarrow> (gh_error + repository) \<times> 'w" where
  "get_repository_info gh c s w =
     (if sp_kind s \<noteq> KindRepository then (Inl WrongKind, w)
      else case validate_scope s of
             Some e \<Rightarrow> (Inl (InvalidScope e), w)
           | None \<Rightarrow>
               (case gh_do gh c ''GET'' (''repos/'' @ sp_owner s @ ''/'' @ sp_repo s) no_repository get_repository w of
                  (Inl e, w) \<Rightarrow> (Inl e, w)
                | (Inr (_, r), w) \<Rightarrow> (Inr r, w)))"

definition default_repository_limit :: int where
  "default_repository_limit = 200"

definition repositories_path :: "nat \<Rightarrow> string" where
  "repositories_path page = ''user/repos?sort=pushed&page='' @ itoa (int page) @ ''&per_page='' @ itoa (int per_page)"

text \<open>The inner loop: repositories are added until there are \<open>limit\<close>.\<close>

fun add_repositories :: "bool \<Rightarrow> nat \<Rightarrow> repository list \<Rightarrow> repository list \<Rightarrow> repository list" where
  "add_repositories admin limit out [] = out"
| "add_repositories admin limit out (r # rs) =
     (if admin \<and> \<not> rp_admin r then add_repositories admin limit out rs
      else if limit \<le> length (out @ [r]) then out @ [r]
      else add_repositories admin limit (out @ [r]) rs)"

fun list_repositories_loop ::
  "'w github \<Rightarrow> gh_client \<Rightarrow> bool \<Rightarrow> nat \<Rightarrow> nat \<Rightarrow> nat \<Rightarrow> repository list \<Rightarrow> 'w \<Rightarrow> (gh_error + repository list) \<times> 'w"
where
  "list_repositories_loop gh c admin limit page 0 out w = (Inr out, w)"
| "list_repositories_loop gh c admin limit page (Suc left) out w =
     (if limit \<le> length out then (Inr out, w)
      else case gh_do gh c ''GET'' (repositories_path page) [] get_repositories w of
             (Inl e, w) \<Rightarrow> (Inl e, w)
           | (Inr (_, batch), w) \<Rightarrow>
               if batch = [] then (Inr out, w)
               else let out = add_repositories admin limit out batch
                    in if length batch < per_page then (Inr out, w)
                       else list_repositories_loop gh c admin limit (Suc page) left out w)"

definition list_repositories :: "'w github \<Rightarrow> gh_client \<Rightarrow> int \<Rightarrow> bool \<Rightarrow> 'w \<Rightarrow> (gh_error + repository list) \<times> 'w" where
  "list_repositories gh c limit admin w =
     (let limit = (if limit \<le> 0 then default_repository_limit else limit)
      in list_repositories_loop gh c admin (nat limit) 1 max_pages [] w)"

definition search_repositories ::
  "'w github \<Rightarrow> gh_client \<Rightarrow> string \<Rightarrow> int \<Rightarrow> bool \<Rightarrow> 'w \<Rightarrow> (gh_error + repository list) \<times> 'w"
where
  "search_repositories gh c q limit admin w =
     (case list_repositories gh c limit admin w of
        (Inl e, w) \<Rightarrow> (Inl e, w)
      | (Inr repos, w) \<Rightarrow>
          let q = to_lower (trim_space q)
          in if q = '''' then (Inr repos, w)
             else (Inr (filter (\<lambda>r. contains (to_lower (rp_full_name r)) q) repos), w))"

end
