(* ===== verification/Install.thy ===== *)
theory Install
  imports Extract Github
begin

text \<open>
  \<open>internal/runner/platform.go\<close> and \<open>install.go\<close>: choosing, downloading, verifying, unpacking and registering
  the official runner. Parameters: what GitHub answers, the HTTP server the release comes from, SHA-256 in
  hexadecimal, reading an archive, and what \<open>config.sh\<close> does. Progress messages are left out.
\<close>

section \<open>Platforms\<close>

record platform =
  pf_os :: string
  pf_arch :: string

definition platform_string :: "platform \<Rightarrow> string" where
  "platform_string p = pf_os p @ ''/'' @ pf_arch p"

definition goos_to_github :: "string \<Rightarrow> string option" where
  "goos_to_github = map_of [(''linux'', ''linux''), (''darwin'', ''osx''), (''windows'', ''win'')]"

definition goarch_to_github :: "string \<Rightarrow> string option" where
  "goarch_to_github = map_of [(''amd64'', ''x64''), (''arm64'', ''arm64''), (''arm'', ''arm'')]"

definition platform_for :: "string \<Rightarrow> string \<Rightarrow> platform option" where
  "platform_for goos goarch =
     (case goos_to_github goos of
        None \<Rightarrow> None
      | Some os \<Rightarrow>
          (case goarch_to_github goarch of
             None \<Rightarrow> None
           | Some arch \<Rightarrow> Some \<lparr> pf_os = os, pf_arch = arch \<rparr>))"

definition labels_for :: "platform \<Rightarrow> string list" where
  "labels_for p = [''self-hosted'', if pf_os p = ''osx'' then ''macOS'' else pf_os p, pf_arch p]"

text \<open>The loop of \<open>MergeLabels\<close>; \<open>seen\<close> holds the labels so far, trimmed and in lower case.\<close>

fun merge_from :: "string list \<Rightarrow> string list \<Rightarrow> string list" where
  "merge_from seen [] = []"
| "merge_from seen (l # ls) =
     (let key = to_lower (trim_space l)
      in if key = '''' \<or> key \<in> set seen then merge_from seen ls
         else trim_space l # merge_from (key # seen) ls)"

definition merge_labels :: "platform \<Rightarrow> string list \<Rightarrow> string list" where
  "merge_labels p custom = merge_from [] (labels_for p @ custom)"

section \<open>Installing\<close>

record install_options =
  io_dir :: string
  io_name :: string
  io_labels :: "string list"
  io_url :: string
  io_token :: string
  io_group :: string
  io_work :: string
  io_ephemeral :: bool
  io_replace :: bool

record install_result =
  ir_dir :: string
  ir_platform :: platform
  ir_filename :: string
  ir_labels :: "string list"

text \<open>An answer of the HTTP server: the status, the bytes that arrived, and whether they were all.\<close>

datatype http_reply = NoReply | HttpReply int string bool

type_synonym 'w script = "string \<Rightarrow> string list \<Rightarrow> fsys \<Rightarrow> 'w \<Rightarrow> (bool \<times> string) \<times> fsys \<times> 'w"

record 'w install_env =
  ie_goos :: string
  ie_goarch :: string
  ie_http :: "string \<Rightarrow> http_reply"
  ie_sha :: "string \<Rightarrow> string"
  ie_unpack :: "string \<Rightarrow> string \<Rightarrow> entry option list"
  ie_run :: "'w script"

datatype install_error =
    UnsupportedPlatform
  | MissingOption
  | StatFailed
  | AlreadyConfigured
  | GitHubFailed gh_error
  | DirectoryFailed
  | DownloadFailed
  | DownloadStatus int
  | FileFailed
  | NoChecksum
  | WrongChecksum string string
  | ExtractFailed extract_error
  | RemoveFailed
  | ConfigFailed string

text \<open>\<open>os.Stat\<close>: \<open>None\<close> is an error other than that the file does not exist.\<close>

definition os_stat :: "path \<Rightarrow> fsys \<Rightarrow> bool option \<times> fsys" where
  "os_stat p fs =
     (let (bad, fs) = sys_fault fs
      in if bad then (None, fs)
         else (Some (case locate fs p of None \<Rightarrow> False | Some q \<Rightarrow> q = [] \<or> fs_node fs q \<noteq> None), fs))"

definition dir_path :: "string \<Rightarrow> path" where
  "dir_path s = clean_onto [] (split_on slash s)"

definition is_configured :: "path \<Rightarrow> fsys \<Rightarrow> bool option \<times> fsys" where
  "is_configured dir fs = os_stat (dir @ [''.runner'']) fs"

definition has_runner_scripts :: "path \<Rightarrow> fsys \<Rightarrow> bool \<times> fsys" where
  "has_runner_scripts dir fs =
     (case os_stat (dir @ [''config.sh'']) fs of
        (Some True, fs) \<Rightarrow> (True, fs)
      | (_, fs) \<Rightarrow>
          (case os_stat (dir @ [''config.cmd'']) fs of
             (Some True, fs) \<Rightarrow> (True, fs)
           | (_, fs) \<Rightarrow> (False, fs)))"

definition fetch :: "'w install_env \<Rightarrow> download \<Rightarrow> path \<Rightarrow> fsys \<Rightarrow> (install_error + unit) \<times> fsys" where
  "fetch env d dest fs =
     (case ie_http env (dl_url d) of
        NoReply \<Rightarrow> (Inl DownloadFailed, fs)
      | HttpReply status bytes whole \<Rightarrow>
          if status \<noteq> 200 then (Inl (DownloadStatus status), fs)
          else case os_open dest 0x180 fs of
                 (None, fs) \<Rightarrow> (Inl FileFailed, fs)
               | (Some i, fs) \<Rightarrow>
                   let (written, fs) = os_write i bytes fs;
                       (bad_close, fs) = sys_fault fs
                   in if \<not> (whole \<and> written) then (Inl DownloadFailed, snd (os_remove dest fs))
                      else if bad_close then (Inl FileFailed, snd (os_remove dest fs))
                      else
                        let got = ie_sha env bytes;
                            want = to_lower (trim_space (dl_sha256 d))
                        in if want = '''' then (Inl NoChecksum, snd (os_remove dest fs))
                           else if got \<noteq> want then (Inl (WrongChecksum want got), snd (os_remove dest fs))
                           else (Inr (), fs))"

text \<open>The bytes of a file, as \<open>Extract\<close> opens it.\<close>

definition file_bytes :: "fsys \<Rightarrow> path \<Rightarrow> string option" where
  "file_bytes fs p =
     (case locate fs p of
        None \<Rightarrow> None
      | Some q \<Rightarrow> (case fs_node fs q of Some (FileN i) \<Rightarrow> Some (fd_bytes (fs_data fs i)) | _ \<Rightarrow> None))"

definition unpack_archive :: "'w install_env \<Rightarrow> path \<Rightarrow> path \<Rightarrow> fsys \<Rightarrow> (extract_error + unit) \<times> fsys" where
  "unpack_archive env archive dir fs =
     (case file_bytes fs archive of
        None \<Rightarrow> (Inl OSFailure, fs)
      | Some bytes \<Rightarrow> extract_archive (last archive) dir (ie_unpack env (last archive) bytes) fs)"

definition config_arguments :: "install_options \<Rightarrow> string list \<Rightarrow> string list" where
  "config_arguments opts labels =
     [''--unattended'', ''--url'', io_url opts, ''--token'', io_token opts, ''--name'', io_name opts,
      ''--labels'', join_on CHR '','' labels, ''--work'', if io_work opts = '''' then ''_work'' else io_work opts]
     @ (if io_group opts \<noteq> '''' then [''--runnergroup'', io_group opts] else [])
     @ (if io_ephemeral opts then [''--ephemeral''] else [])
     @ (if io_replace opts then [''--replace''] else [])"

definition redact_token :: "string \<Rightarrow> string \<Rightarrow> string" where
  "redact_token s token = (if token = '''' then s else replace_all token ''***'' s)"

definition configure :: "'w install_env \<Rightarrow> install_options \<Rightarrow> string list \<Rightarrow> fsys \<Rightarrow> 'w \<Rightarrow> (install_error + unit) \<times> fsys \<times> 'w" where
  "configure env opts labels fs w =
     (let script = (if ie_goos env = ''windows'' then ''config.cmd'' else ''./config.sh'')
      in case ie_run env script (config_arguments opts labels) fs w of
           ((ok, out), fs, w) \<Rightarrow>
             (if ok then Inr () else Inl (ConfigFailed (redact_token out (io_token opts))), fs, w))"

definition archive_path :: "path \<Rightarrow> download \<Rightarrow> path" where
  "archive_path dir d = clean_onto dir (split_on slash (dl_filename d))"

text \<open>Downloading and unpacking, when the directory does not hold a runner yet.\<close>

definition obtain_runner :: "'w install_env \<Rightarrow> path \<Rightarrow> download \<Rightarrow> fsys \<Rightarrow> (install_error + unit) \<times> fsys" where
  "obtain_runner env dir d fs =
     (case has_runner_scripts dir fs of
        (True, fs) \<Rightarrow> (Inr (), fs)
      | (False, fs) \<Rightarrow>
          let archive = archive_path dir d
          in case fetch env d archive fs of
               (Inl e, fs) \<Rightarrow> (Inl e, fs)
             | (Inr _, fs) \<Rightarrow>
                 (case unpack_archive env archive dir fs of
                    (Inl e, fs) \<Rightarrow> (Inl (ExtractFailed e), fs)
                  | (Inr _, fs) \<Rightarrow>
                      let (ok, fs) = os_remove archive fs
                      in (if ok then Inr () else Inl RemoveFailed, fs)))"

definition install ::
  "'w install_env \<Rightarrow> 'w github \<Rightarrow> gh_client \<Rightarrow> scope \<Rightarrow> install_options \<Rightarrow> fsys \<Rightarrow> 'w
   \<Rightarrow> (install_error + install_result) \<times> fsys \<times> 'w"
where
  "install env gh c s opts fs w =
     (case platform_for (ie_goos env) (ie_goarch env) of
        None \<Rightarrow> (Inl UnsupportedPlatform, fs, w)
      | Some p \<Rightarrow>
          if io_name opts = '''' \<or> io_dir opts = '''' \<or> io_token opts = '''' then (Inl MissingOption, fs, w)
          else let dir = dir_path (io_dir opts)
               in case is_configured dir fs of
                    (None, fs) \<Rightarrow> (Inl StatFailed, fs, w)
                  | (Some configured, fs) \<Rightarrow>
                      if configured \<and> \<not> io_replace opts then (Inl AlreadyConfigured, fs, w)
                      else case find_download gh c s (pf_os p) (pf_arch p) w of
                             (Inl e, w) \<Rightarrow> (Inl (GitHubFailed e), fs, w)
                           | (Inr d, w) \<Rightarrow>
                               (case os_mkdir_all dir fs of
                                  (False, fs) \<Rightarrow> (Inl DirectoryFailed, fs, w)
                                | (True, fs) \<Rightarrow>
                                    (case obtain_runner env dir d fs of
                                       (Inl e, fs) \<Rightarrow> (Inl e, fs, w)
                                     | (Inr _, fs) \<Rightarrow>
                                         let labels = merge_labels p (io_labels opts)
                                         in case configure env opts labels fs w of
                                              (Inl e, fs, w) \<Rightarrow> (Inl e, fs, w)
                                            | (Inr _, fs, w) \<Rightarrow>
                                                (Inr \<lparr> ir_dir = io_dir opts, ir_platform = p,
                                                   ir_filename = dl_filename d, ir_labels = labels \<rparr>, fs, w))))"

section \<open>Guarantees\<close>

lemma merge_from_sound:
  "l \<in> set (merge_from seen ls) \<Longrightarrow> l \<noteq> '''' \<and> trim_space l = l \<and> to_lower l \<notin> set seen"
proof (induction ls arbitrary: seen)
  case (Cons a ls)
  have e: "to_lower (trim_space a) = '''' \<longleftrightarrow> trim_space a = ''''" by (simp add: to_lower_def)
  show ?case
  proof (cases "to_lower (trim_space a) = '''' \<or> to_lower (trim_space a) \<in> set seen")
    case True
    then show ?thesis using Cons by (simp add: Let_def)
  next
    case False
    then show ?thesis using Cons.prems Cons.IH [of "to_lower (trim_space a) # seen"] e by (auto simp: Let_def)
  qed
qed simp

lemma merge_from_distinct: "distinct (map to_lower (merge_from seen ls))"
proof (induction ls arbitrary: seen)
  case (Cons a ls)
  let ?k = "to_lower (trim_space a)"
  have "?k \<notin> to_lower ` set (merge_from (?k # seen) ls)"
    using merge_from_sound [of _ "?k # seen" ls] by force
  then show ?case using Cons by (simp add: Let_def)
qed simp

lemma merge_from_complete:
  "l \<in> set ls \<Longrightarrow> trim_space l \<noteq> '''' \<Longrightarrow> to_lower (trim_space l) \<in> set seen \<union> to_lower ` set (merge_from seen ls)"
proof (induction ls arbitrary: seen)
  case (Cons a ls)
  show ?case
  proof (cases "l = a")
    case True
    then show ?thesis using Cons.prems by (auto simp: Let_def to_lower_def)
  next
    case False
    then have "l \<in> set ls" using Cons.prems by simp
    from Cons.IH [OF this Cons.prems(2), of seen] Cons.IH [OF this Cons.prems(2), of "to_lower (trim_space a) # seen"]
    show ?thesis by (auto simp: Let_def)
  qed
qed simp

text \<open>
  The labels registered are the platform's, in front, and the operator's in the order given: each once,
  whatever its case and the space around it, none empty, and none left out.
\<close>

theorem merge_labels_exact:
  "distinct (map to_lower (merge_labels p custom))
    \<and> (\<forall>l\<in>set (merge_labels p custom). l \<noteq> '''' \<and> trim_space l = l)
    \<and> to_lower ` set (merge_labels p custom)
        = {k. k \<noteq> '''' \<and> k \<in> (to_lower \<circ> trim_space) ` set (labels_for p @ custom)}"
proof -
  have sound: "\<exists>a\<in>set ls. l = trim_space a" if "l \<in> set (merge_from seen ls)" for l seen ls
    using that by (induction ls arbitrary: seen) (auto simp: Let_def split: if_splits)
  have "to_lower ` set (merge_from [] ls) = {k. k \<noteq> '''' \<and> k \<in> (to_lower \<circ> trim_space) ` set ls}" for ls
    using sound [of _ "[]" ls] merge_from_sound [of _ "[]" ls] merge_from_complete [of _ ls "[]"]
    by (auto simp: to_lower_def image_iff)
  then show ?thesis
    using merge_from_distinct merge_from_sound by (simp add: merge_labels_def)
qed

text \<open>Only what was verified reaches the disk's archive.\<close>

lemma fetch_verified:
  "fetch env d dest fs = (Inr u, fs') \<Longrightarrow> \<exists>bytes. ie_http env (dl_url d) = HttpReply 200 bytes True
     \<and> ie_sha env bytes = to_lower (trim_space (dl_sha256 d)) \<and> trim_space (dl_sha256 d) \<noteq> ''''"
  by (auto simp: fetch_def Let_def to_lower_def split: http_reply.splits if_splits option.splits prod.splits)

definition ran_config :: "install_error + install_result \<Rightarrow> bool" where
  "ran_config r = (case r of Inr _ \<Rightarrow> True | Inl (ConfigFailed _) \<Rightarrow> True | _ \<Rightarrow> False)"

lemma obtain_runner_verified:
  assumes "obtain_runner env dir d fs = (Inr u, fs')"
  shows "fst (has_runner_scripts dir fs) \<or> (\<exists>bytes. ie_http env (dl_url d) = HttpReply 200 bytes True
     \<and> ie_sha env bytes = to_lower (trim_space (dl_sha256 d)) \<and> trim_space (dl_sha256 d) \<noteq> '''')"
  using assms
  by (auto simp: obtain_runner_def Let_def split: prod.splits sum.splits bool.splits dest!: fetch_verified)

lemma obtain_runner_no_config: "obtain_runner env dir d fs = (Inl e, fs') \<Longrightarrow> \<not> ran_config (Inl e)"
  by (auto simp: obtain_runner_def fetch_def Let_def ran_config_def
      split: prod.splits sum.splits bool.splits if_splits option.splits http_reply.splits)

text \<open>The directory when the runner's scripts are looked for.\<close>

definition before_unpacking :: "path \<Rightarrow> fsys \<Rightarrow> fsys" where
  "before_unpacking dir fs = snd (os_mkdir_all dir (snd (is_configured dir fs)))"


definition sample_options :: install_options where
  "sample_options = \<lparr> io_dir = ''/r'', io_name = ''n'', io_labels = [''gpu'', ''Linux''], io_url = ''u'', io_token = ''t'',
     io_group = '''', io_work = '''', io_ephemeral = False, io_replace = False \<rparr>"

definition sample_download :: download where
  "sample_download = \<lparr> dl_os = ''linux'', dl_arch = ''x64'', dl_url = ''u'', dl_filename = ''a.tar.gz'', dl_sha256 = '' AB '' \<rparr>"

definition release_github :: "unit github" where
  "release_github rq w = (Inr \<lparr> gs_status = 200, gs_headers = [], gs_body = GDownloads [sample_download] \<rparr>, w)"

definition sample_install :: "unit install_env" where
  "sample_install = \<lparr> ie_goos = ''linux'', ie_goarch = ''amd64'', ie_http = (\<lambda>_. HttpReply 200 ''z'' True),
     ie_sha = (\<lambda>b. ''ab''),
     ie_unpack = (\<lambda>n b. [Some \<lparr> ent_kind = KFile, ent_name = ''config.sh'', ent_link = '''', ent_mode = 493, ent_size = 1,
        ent_bytes = ''x'' \<rparr>]),
     ie_run = (\<lambda>script args fs w. ((script = ''./config.sh'', ''''), fs, w)) \<rparr>"

definition no_files :: fsys where
  "no_files = \<lparr> fs_nodes = [], fs_data = (\<lambda>_. \<lparr> fd_bytes = '''', fd_mode = 0 \<rparr>), fs_next = 0, fs_faults = [] \<rparr>"

lemma sample_install_runs:
  "ran_config (fst (install sample_install release_github (new_for_host '''' ''t'') (for_organization ''acme'') sample_options no_files ()))"
  by code_simp


text \<open>
  The registration token stays out of error messages: whatever \<open>config.sh\<close> prints, the error made of its
  output does not contain the token, which may be any text without an asterisk.
\<close>

theorem registration_token_redacted:
  assumes "fst (configure env opts labels fs w) = Inl (ConfigFailed out)"
    and "io_token opts \<noteq> ''''" "CHR ''*'' \<notin> set (io_token opts)"
  shows "\<not> contains out (io_token opts)"
  using assms replace_all_gone [of "io_token opts" "''***''"]
  by (auto simp: configure_def redact_token_def Let_def split: prod.splits if_splits)

theorem registration_token_redacted_witness:
  "\<not> contains ''bad token ***!'' ''ABC''"
proof -
  have "fst (configure (sample_install\<lparr>ie_run := \<lambda>_ _ fs w. ((False, ''bad token ABC!''), fs, w)\<rparr>) (sample_options\<lparr>io_token := ''ABC''\<rparr>)
      [] no_files ()) = Inl (ConfigFailed ''bad token ***!'')" by code_simp
  from registration_token_redacted [OF this] show ?thesis by simp
qed

end
