(* ===== verification/Credentials.thy ===== *)
theory Credentials
  imports Local_Files Go_Time "HOL-Library.AList"
begin

text \<open>
  \<open>internal/auth\<close>: the credentials file, and where a token comes from. A Go map is an association list
  whose order stands for the order in which the map is iterated.
\<close>

section \<open>Keyed files\<close>

text \<open>
  The interface the callers of this package, and of \<open>internal/state\<close>, rely on: a file that maps names, up
  to a normalisation, to records. A name is looked up in the contents of the disk. \<open>stamp\<close> is what an
  insertion adds to a record.
\<close>

locale keyed_file =
  fixes norm :: "string \<Rightarrow> string"
    and stamp :: "'v \<Rightarrow> 'v"
    and look :: "string \<Rightarrow> 'c disk \<Rightarrow> 'v option"
    and put :: "string \<Rightarrow> 'v \<Rightarrow> 'c disk \<Rightarrow> ('e + unit) \<times> 'c disk"
    and del :: "string \<Rightarrow> 'c disk \<Rightarrow> ('f + bool) \<times> 'c disk"
  assumes look_same: "norm j = norm k \<Longrightarrow> look j d = look k d"
    and look_put: "put k v d = (Inr u, d') \<Longrightarrow> look j d' = (if norm j = norm k then Some (stamp v) else look j d)"
    and look_del: "del k d = (Inr b, d') \<Longrightarrow> look j d' = (if norm j = norm k then None else look j d)"
    and del_found: "del k d = (Inr b, d') \<Longrightarrow> b \<longleftrightarrow> look k d \<noteq> None"
begin

lemma put_put: "put k v d = (Inr u, d1) \<Longrightarrow> put k w d1 = (Inr u', d2) \<Longrightarrow>
    look j d2 = (if norm j = norm k then Some (stamp w) else look j d)"
  by (simp add: look_put)

lemma put_other: "put k v d = (Inr u, d') \<Longrightarrow> norm j \<noteq> norm k \<Longrightarrow> look j d' = look j d"
  by (simp add: look_put)

lemma put_del: "put k v d = (Inr u, d1) \<Longrightarrow> del k d1 = (Inr b, d2) \<Longrightarrow>
    b \<and> look j d2 = (if norm j = norm k then None else look j d)"
  using del_found [of k d1 b d2] look_del [of k d1 b d2 j] look_put [of k v d u d1] by auto

lemma del_del: "del k d = (Inr b, d1) \<Longrightarrow> del k d1 = (Inr b', d2) \<Longrightarrow> \<not> b'"
  using del_found [of k d1 b' d2] look_del [of k d b d1 k] by auto

end

section \<open>The file\<close>

record gh_host =
  gh_token :: string
  gh_user :: string
  gh_scopes :: "string list"
  gh_created :: go_time

record machine_cred =
  mc_runner_id :: string
  mc_token :: string
  mc_enrolled :: go_time

record credentials =
  cd_hosts :: "(string \<times> gh_host) list"
  cd_servers :: "(string \<times> machine_cred) list"

definition no_credentials :: credentials where
  "no_credentials = \<lparr> cd_hosts = [], cd_servers = [] \<rparr>"

definition load_credentials :: "string \<Rightarrow> credentials disk \<Rightarrow> (file_error + credentials) \<times> credentials disk" where
  "load_credentials path d =
     (case read_file path d of
        (Inl NotExist, d) \<Rightarrow> (Inr no_credentials, d)
      | (Inl e, d) \<Rightarrow> (Inl e, d)
      | (Inr c, d) \<Rightarrow> (Inr c, d))"

text \<open>\<open>Save\<close> here and in \<open>internal/state\<close>: the file is written in place.\<close>

definition save_file :: "string \<Rightarrow> 'a \<Rightarrow> 'a disk \<Rightarrow> (file_error + unit) \<times> 'a disk" where
  "save_file path v d =
     (let (ok, d) = mkdir_all d
      in if \<not> ok then (Inl IOError, d)
         else let (ok, d) = write_file path v d in (if ok then Inr () else Inl IOError, d))"

definition normalize_host :: "string \<Rightarrow> string" where
  "normalize_host host =
     (let h = trim_right (\<lambda>c. c = CHR ''/'')
                (trim_prefix ''http://'' (trim_prefix ''https://'' (trim_space (to_lower host))))
      in if h = '''' then ''github.com'' else h)"

definition normalize_server :: "string \<Rightarrow> string" where
  "normalize_server raw = trim_right (\<lambda>c. c = CHR ''/'') (trim_space raw)"

text \<open>\<open>now\<close> is the clock, truncated to the second.\<close>

definition stamp_host :: "go_time \<Rightarrow> gh_host \<Rightarrow> gh_host" where
  "stamp_host now h = (if is_zero_time (gh_created h) then h\<lparr>gh_created := now\<rparr> else h)"

definition stamp_machine :: "go_time \<Rightarrow> machine_cred \<Rightarrow> machine_cred" where
  "stamp_machine now m = (if is_zero_time (mc_enrolled m) then m\<lparr>mc_enrolled := now\<rparr> else m)"

definition store_host ::
  "string \<Rightarrow> go_time \<Rightarrow> string \<Rightarrow> gh_host \<Rightarrow> credentials disk \<Rightarrow> (file_error + unit) \<times> credentials disk"
where
  "store_host path now host h d =
     (case load_credentials path d of
        (Inl e, d) \<Rightarrow> (Inl e, d)
      | (Inr c, d) \<Rightarrow>
          save_file path (c\<lparr>cd_hosts := AList.update (normalize_host host) (stamp_host now h) (cd_hosts c)\<rparr>) d)"

definition holds_nothing :: "credentials \<Rightarrow> bool" where
  "holds_nothing c \<longleftrightarrow> cd_hosts c = [] \<and> cd_servers c = []"

text \<open>The end of \<open>Delete\<close> and \<open>DeleteMachine\<close>: a file that would hold nothing is removed.\<close>

definition save_or_remove :: "string \<Rightarrow> bool \<Rightarrow> 'a \<Rightarrow> 'a disk \<Rightarrow> (file_error + bool) \<times> 'a disk" where
  "save_or_remove path nothing v d =
     (if nothing
      then (case remove_file path d of
              (Inl NotExist, d) \<Rightarrow> (Inr True, d)
            | (Inl e, d) \<Rightarrow> (Inl e, d)
            | (Inr _, d) \<Rightarrow> (Inr True, d))
      else case save_file path v d of (Inl e, d) \<Rightarrow> (Inl e, d) | (Inr _, d) \<Rightarrow> (Inr True, d))"

definition delete_host :: "string \<Rightarrow> string \<Rightarrow> credentials disk \<Rightarrow> (file_error + bool) \<times> credentials disk" where
  "delete_host path host d =
     (case load_credentials path d of
        (Inl e, d) \<Rightarrow> (Inl e, d)
      | (Inr c, d) \<Rightarrow>
          let key = normalize_host host
          in if map_of (cd_hosts c) key = None then (Inr False, d)
             else let c = c\<lparr>cd_hosts := AList.delete key (cd_hosts c)\<rparr>
                  in save_or_remove path (holds_nothing c) c d)"

datatype token_source = SourceFlag | SourceEnvironment | SourceFile

record token =
  tk_value :: string
  tk_source :: token_source
  tk_origin :: string
  tk_user :: string

definition env_vars :: "string list" where
  "env_vars = [''RUNNERLY_GITHUB_TOKEN'', ''GITHUB_TOKEN'', ''GH_TOKEN'']"

datatype token_error = NoToken string | LoadFailed file_error

definition resolve_token ::
  "string \<Rightarrow> string \<Rightarrow> string \<Rightarrow> (string \<Rightarrow> string) \<Rightarrow> credentials disk \<Rightarrow> (token_error + token) \<times> credentials disk"
where
  "resolve_token path host flag getenv d =
     (if trim_space flag \<noteq> ''''
      then (Inr \<lparr> tk_value = trim_space flag, tk_source = SourceFlag, tk_origin = ''--token'', tk_user = '''' \<rparr>, d)
      else case find (\<lambda>n. trim_space (getenv n) \<noteq> '''') env_vars of
             Some n \<Rightarrow> (Inr \<lparr> tk_value = trim_space (getenv n), tk_source = SourceEnvironment, tk_origin = n,
                               tk_user = '''' \<rparr>, d)
           | None \<Rightarrow>
               (case load_credentials path d of
                  (Inl e, d) \<Rightarrow> (Inl (LoadFailed e), d)
                | (Inr c, d) \<Rightarrow>
                    (case map_of (cd_hosts c) (normalize_host host) of
                       Some h \<Rightarrow>
                         if gh_token h \<noteq> ''''
                         then (Inr \<lparr> tk_value = gh_token h, tk_source = SourceFile, tk_origin = path,
                                     tk_user = gh_user h \<rparr>, d)
                         else (Inl (NoToken (normalize_host host)), d)
                     | None \<Rightarrow> (Inl (NoToken (normalize_host host)), d))))"

datatype store_error = NeedsToken | FileFailed file_error

definition store_machine ::
  "string \<Rightarrow> go_time \<Rightarrow> string \<Rightarrow> machine_cred \<Rightarrow> credentials disk \<Rightarrow> (store_error + unit) \<times> credentials disk"
where
  "store_machine path now server m d =
     (if mc_token m = '''' then (Inl NeedsToken, d)
      else case load_credentials path d of
             (Inl e, d) \<Rightarrow> (Inl (FileFailed e), d)
           | (Inr c, d) \<Rightarrow>
               (case save_file path (c\<lparr>cd_servers := AList.update (normalize_server server) (stamp_machine now m)
                          (cd_servers c)\<rparr>) d of
                  (Inl e, d) \<Rightarrow> (Inl (FileFailed e), d)
                | (Inr _, d) \<Rightarrow> (Inr (), d)))"

definition machine_env_var :: string where
  "machine_env_var = ''RUNNERLY_MACHINE_TOKEN''"

definition resolve_machine ::
  "string \<Rightarrow> string \<Rightarrow> (string \<Rightarrow> string) \<Rightarrow> credentials disk
   \<Rightarrow> (file_error + machine_cred option) \<times> credentials disk"
where
  "resolve_machine path server getenv d =
     (let token = trim_space (getenv machine_env_var)
      in if token \<noteq> '''' then (Inr (Some \<lparr> mc_runner_id = '''', mc_token = token, mc_enrolled = zero_time \<rparr>), d)
         else case load_credentials path d of
                (Inl e, d) \<Rightarrow> (Inl e, d)
              | (Inr c, d) \<Rightarrow>
                  (case map_of (cd_servers c) (normalize_server server) of
                     Some m \<Rightarrow> (Inr (if mc_token m = '''' then None else Some m), d)
                   | None \<Rightarrow> (Inr None, d)))"

definition delete_machine :: "string \<Rightarrow> string \<Rightarrow> credentials disk \<Rightarrow> (file_error + bool) \<times> credentials disk" where
  "delete_machine path server d =
     (case load_credentials path d of
        (Inl e, d) \<Rightarrow> (Inl e, d)
      | (Inr c, d) \<Rightarrow>
          let key = normalize_server server
          in if map_of (cd_servers c) key = None then (Inr False, d)
             else let c = c\<lparr>cd_servers := AList.delete key (cd_servers c)\<rparr>
                  in save_or_remove path (holds_nothing c) c d)"

text \<open>\<open>ReadToken\<close>: the first line that is not blank; \<open>long\<close> says whether a line is too long for the buffer.\<close>

fun read_token :: "(string \<Rightarrow> bool) \<Rightarrow> string list \<Rightarrow> string + string" where
  "read_token long [] = Inl ''no token was provided on standard input''"
| "read_token long (l # ls) =
     (if long l then Inl ''read token''
      else if trim_space l \<noteq> '''' then Inr (trim_space l)
      else read_token long ls)"

definition redact :: "string \<Rightarrow> string" where
  "redact token = (if length token < 8 then ''****'' else ''****'' @ drop (length token - 4) token)"

section \<open>Saving\<close>

lemma save_file_ok:
  "save_file path v d = (Inr u, d') \<Longrightarrow> dk_files d' = (dk_files d)(path \<mapsto> Doc v)"
  by (auto simp: save_file_def Let_def split: prod.splits if_splits dest!: write_fileD mkdir_allD)

lemma save_file_other: "save_file path v d = (r, d') \<Longrightarrow> p \<noteq> path \<Longrightarrow> dk_files d' p = dk_files d p"
  by (auto simp: save_file_def Let_def split: prod.splits if_splits dest!: write_fileD mkdir_allD)

lemma save_or_remove_ok:
  "save_or_remove path e v d = (Inr b, d') \<Longrightarrow> b \<and> dk_files d' path = (if e then None else Some (Doc v))"
  by (auto simp: save_or_remove_def split: prod.splits if_splits sum.splits file_error.splits
      dest!: remove_fileD save_file_ok)

text \<open>What a file says of a name.\<close>

definition creds_at :: "string \<Rightarrow> credentials disk \<Rightarrow> credentials" where
  "creds_at path d = (case dk_files d path of Some (Doc c) \<Rightarrow> c | _ \<Rightarrow> no_credentials)"

lemma load_credentials_ok:
  "load_credentials path d = (Inr c, d') \<Longrightarrow> c = creds_at path d \<and> dk_files d' = dk_files d"
  by (auto simp: load_credentials_def read_file_def creds_at_def Let_def
      split: prod.splits sum.splits file_error.splits option.splits contents.splits if_splits)

definition host_at :: "string \<Rightarrow> string \<Rightarrow> credentials disk \<Rightarrow> gh_host option" where
  "host_at path host d = map_of (cd_hosts (creds_at path d)) (normalize_host host)"

definition machine_at :: "string \<Rightarrow> string \<Rightarrow> credentials disk \<Rightarrow> machine_cred option" where
  "machine_at path server d = map_of (cd_servers (creds_at path d)) (normalize_server server)"

lemma creds_at_cong: "dk_files d' path = dk_files d path \<Longrightarrow> creds_at path d' = creds_at path d"
  by (simp add: creds_at_def)

lemma load_credentials_same: "load_credentials path d = (Inr c, d') \<Longrightarrow>
    host_at path h d' = host_at path h d \<and> machine_at path s d' = machine_at path s d"
  by (auto simp: host_at_def machine_at_def creds_at_def dest!: load_credentials_ok)

lemma creds_at_doc: "dk_files d path = Some (Doc c) \<Longrightarrow> creds_at path d = c"
  by (simp add: creds_at_def)

lemma creds_at_none: "dk_files d path = None \<Longrightarrow> creds_at path d = no_credentials"
  by (simp add: creds_at_def)

lemma store_hostD:
  assumes "store_host path now host h d = (Inr u, d')"
  shows "creds_at path d' = (creds_at path d)
    \<lparr>cd_hosts := AList.update (normalize_host host) (stamp_host now h) (cd_hosts (creds_at path d))\<rparr>"
  using assms by (auto simp: store_host_def creds_at_doc split: prod.splits sum.splits
      dest!: load_credentials_ok save_file_ok)

lemma store_machineD:
  assumes "store_machine path now server m d = (Inr u, d')"
  shows "mc_token m \<noteq> '''' \<and> creds_at path d' = (creds_at path d)
    \<lparr>cd_servers := AList.update (normalize_server server) (stamp_machine now m) (cd_servers (creds_at path d))\<rparr>"
  using assms by (auto simp: store_machine_def creds_at_doc split: prod.splits sum.splits if_splits
      dest!: load_credentials_ok save_file_ok)

lemma save_or_remove_creds:
  "save_or_remove path (holds_nothing c) c d = (Inr b, d') \<Longrightarrow> b \<and> creds_at path d' = c"
  by (drule save_or_remove_ok) (auto simp: creds_at_def no_credentials_def holds_nothing_def split: if_splits)

lemma delete_hostD:
  assumes "delete_host path host d = (Inr b, d')"
  shows "(b \<longleftrightarrow> host_at path host d \<noteq> None) \<and> creds_at path d' =
    (if b then (creds_at path d)\<lparr>cd_hosts := AList.delete (normalize_host host) (cd_hosts (creds_at path d))\<rparr>
     else creds_at path d)"
proof (cases "load_credentials path d")
  case (Pair r d1)
  then obtain c where c: "load_credentials path d = (Inr c, d1)" "r = Inr c" using assms
    by (cases r) (auto simp: delete_host_def)
  note l = load_credentials_ok [OF c(1)]
  let ?k = "normalize_host host"
  let ?c = "c\<lparr>cd_hosts := AList.delete ?k (cd_hosts c)\<rparr>"
  show ?thesis
  proof (cases "map_of (cd_hosts c) ?k = None")
    case True
    then have "b = False" "d' = d1" using assms c by (auto simp: delete_host_def Let_def)
    then show ?thesis using True l creds_at_cong [of d1 path d] by (simp add: host_at_def)
  next
    case False
    then have s: "save_or_remove path (holds_nothing ?c) ?c d1 = (Inr b, d')"
      using assms c False by (auto simp: delete_host_def Let_def split: if_splits)
    from save_or_remove_creds [OF this] False l show ?thesis by (simp add: host_at_def)
  qed
qed

lemma delete_machineD:
  assumes "delete_machine path server d = (Inr b, d')"
  shows "(b \<longleftrightarrow> machine_at path server d \<noteq> None) \<and> creds_at path d' =
    (if b then (creds_at path d)\<lparr>cd_servers := AList.delete (normalize_server server) (cd_servers (creds_at path d))\<rparr>
     else creds_at path d)"
proof (cases "load_credentials path d")
  case (Pair r d1)
  then obtain c where c: "load_credentials path d = (Inr c, d1)" "r = Inr c" using assms
    by (cases r) (auto simp: delete_machine_def)
  note l = load_credentials_ok [OF c(1)]
  let ?k = "normalize_server server"
  let ?c = "c\<lparr>cd_servers := AList.delete ?k (cd_servers c)\<rparr>"
  show ?thesis
  proof (cases "map_of (cd_servers c) ?k = None")
    case True
    then have "b = False" "d' = d1" using assms c by (auto simp: delete_machine_def Let_def)
    then show ?thesis using True l creds_at_cong [of d1 path d] by (simp add: machine_at_def)
  next
    case False
    then have s: "save_or_remove path (holds_nothing ?c) ?c d1 = (Inr b, d')"
      using assms c False by (auto simp: delete_machine_def Let_def split: if_splits)
    from save_or_remove_creds [OF this] False l show ?thesis by (simp add: machine_at_def)
  qed
qed

text \<open>GitHub tokens by host, and machine credentials by control plane.\<close>

interpretation hosts: keyed_file normalize_host "stamp_host now" "host_at path" "store_host path now" "delete_host path"
  for now path
proof
  show "host_at path j d' = (if normalize_host j = normalize_host k then Some (stamp_host now v) else host_at path j d)"
    if "store_host path now k v d = (Inr u, d')" for k v d u d' j
    using store_hostD [OF that] by (simp add: host_at_def update_conv')
  show "host_at path j d' = (if normalize_host j = normalize_host k then None else host_at path j d)"
    if "delete_host path k d = (Inr b, d')" for k d b d' j
    using delete_hostD [OF that] by (auto simp: host_at_def delete_conv')
  show "b \<longleftrightarrow> host_at path k d \<noteq> None" if "delete_host path k d = (Inr b, d')" for k d b d'
    using delete_hostD [OF that] by simp
qed (simp add: host_at_def)

interpretation machines: keyed_file normalize_server "stamp_machine now" "machine_at path" "store_machine path now" "delete_machine path"
  for now path
proof
  show "machine_at path j d' = (if normalize_server j = normalize_server k then Some (stamp_machine now v) else machine_at path j d)"
    if "store_machine path now k v d = (Inr u, d')" for k v d u d' j
    using store_machineD [OF that] by (simp add: machine_at_def update_conv')
  show "machine_at path j d' = (if normalize_server j = normalize_server k then None else machine_at path j d)"
    if "delete_machine path k d = (Inr b, d')" for k d b d' j
    using delete_machineD [OF that] by (auto simp: machine_at_def delete_conv')
  show "b \<longleftrightarrow> machine_at path k d \<noteq> None" if "delete_machine path k d = (Inr b, d')" for k d b d'
    using delete_machineD [OF that] by simp
qed (simp add: machine_at_def)

section \<open>Guarantees\<close>

lemma resolve_machine_file:
  assumes "trim_space (getenv machine_env_var) = ''''" "resolve_machine path server getenv d = (Inr r, d')"
  shows "r = (case machine_at path server d of None \<Rightarrow> None | Some m \<Rightarrow> if mc_token m = '''' then None else Some m)"
  using assms by (auto simp: resolve_machine_def machine_at_def Let_def split: prod.splits sum.splits option.splits
      dest!: load_credentials_ok)

lemma resolve_machine_ok:
  assumes "dk_faults d = []" "dk_files d path = Some (Doc c)"
  shows "\<exists>r d'. resolve_machine path server getenv d = (Inr r, d')"
  using assms by (auto simp: resolve_machine_def Let_def load_credentials_def read_file_doc split: option.splits)

lemma load_doc:
  "dk_files d path = Some (Doc c) \<Longrightarrow> dk_faults d = [] \<Longrightarrow> load_credentials path d = (Inr c, next_call d)"
  by (simp add: load_credentials_def read_file_doc)

lemma store_machine_file:
  "store_machine path now server m d = (Inr u, d') \<Longrightarrow> \<exists>c. dk_files d' path = Some (Doc c)"
  by (auto simp: store_machine_def split: prod.splits sum.splits if_splits dest!: save_file_ok)

text \<open>
  A machine credential that was stored is found again: for every spelling of the control plane's
  address that differs in trailing slashes or surrounding space only, and until another is stored for
  it. The credentials of other control planes and the GitHub tokens are as they were.
\<close>

theorem machine_credential_roundtrip:
  assumes "store_machine path now server m d = (Inr u, d')" "trim_space (getenv machine_env_var) = ''''"
    and "normalize_server url = normalize_server server"
  shows "fst (resolve_machine path url getenv (d'\<lparr>dk_faults := []\<rparr>)) = Inr (Some (stamp_machine now m))
    \<and> (\<forall>other. normalize_server other \<noteq> normalize_server server \<longrightarrow> machine_at path other d' = machine_at path other d)
    \<and> (\<forall>host. host_at path host d' = host_at path host d)"
proof -
  let ?d = "d'\<lparr>dk_faults := []\<rparr>"
  obtain c where "dk_files ?d path = Some (Doc c)" using store_machine_file [OF assms(1)] by auto
  then obtain r d2 where r: "resolve_machine path url getenv ?d = (Inr r, d2)"
    using resolve_machine_ok [of ?d path c url getenv] by auto
  have "machine_at path url ?d = Some (stamp_machine now m)"
    using machines.look_put [OF assms(1), of url] assms(3) by (simp add: machine_at_def creds_at_def)
  then have "r = Some (stamp_machine now m)"
    using resolve_machine_file [OF assms(2) r] store_machineD [OF assms(1)]
    by (auto simp: stamp_machine_def split: if_splits)
  moreover have "host_at path host d' = host_at path host d" for host
    using store_machineD [OF assms(1)] by (simp add: host_at_def)
  ultimately show ?thesis using r machines.put_other [OF assms(1)] by auto
qed

definition sample_machine :: machine_cred where
  "sample_machine = \<lparr> mc_runner_id = ''r'', mc_token = ''rnr_machine_x'', mc_enrolled = 7 \<rparr>"

definition empty_disk :: "'a disk" where
  "empty_disk = \<lparr> dk_files = (\<lambda>_. None), dk_faults = [], dk_seen = [] \<rparr>"

theorem machine_credential_roundtrip_witness:
  "\<exists>d'. store_machine ''c'' 9 ''https://cp/'' sample_machine empty_disk = (Inr (), d')
    \<and> fst (resolve_machine ''c'' ''https://cp'' (\<lambda>_. '''') (d'\<lparr>dk_faults := []\<rparr>)) = Inr (Some sample_machine)"
proof -
  obtain d' where s: "store_machine ''c'' 9 ''https://cp/'' sample_machine empty_disk = (Inr (), d')"
    by (simp add: store_machine_def sample_machine_def load_credentials_def read_file_def empty_disk_def faulty_def
        next_call_def save_file_def mkdir_all_def write_file_def Let_def)
  have "normalize_server ''https://cp'' = normalize_server ''https://cp/''" by code_simp
  moreover have "stamp_machine 9 sample_machine = sample_machine"
    by (simp add: stamp_machine_def sample_machine_def is_zero_time_def zero_time_def)
  ultimately show ?thesis
    using machine_credential_roundtrip [OF s, where getenv = "\<lambda>_. ''''" and url = "''https://cp''"] s by simp
qed

text \<open>
  Where a GitHub token comes from follows the documented order: the flag, then the first variable
  set, then the file; a token from the flag or the environment is used without the file being read, and
  is never replaced by what the file holds.
\<close>

theorem token_precedence:
  "fst (resolve_token path host flag getenv d) =
     (if trim_space flag \<noteq> '''' then Inr \<lparr> tk_value = trim_space flag, tk_source = SourceFlag, tk_origin = ''--token'', tk_user = '''' \<rparr>
      else if \<exists>n\<in>set env_vars. trim_space (getenv n) \<noteq> ''''
      then let n = (if trim_space (getenv ''RUNNERLY_GITHUB_TOKEN'') \<noteq> '''' then ''RUNNERLY_GITHUB_TOKEN''
                    else if trim_space (getenv ''GITHUB_TOKEN'') \<noteq> '''' then ''GITHUB_TOKEN'' else ''GH_TOKEN'')
           in Inr \<lparr> tk_value = trim_space (getenv n), tk_source = SourceEnvironment, tk_origin = n, tk_user = '''' \<rparr>
      else case fst (load_credentials path d) of
             Inl e \<Rightarrow> Inl (LoadFailed e)
           | Inr c \<Rightarrow> (case map_of (cd_hosts c) (normalize_host host) of
               Some h \<Rightarrow> if gh_token h \<noteq> ''''
                 then Inr \<lparr> tk_value = gh_token h, tk_source = SourceFile, tk_origin = path, tk_user = gh_user h \<rparr>
                 else Inl (NoToken (normalize_host host))
             | None \<Rightarrow> Inl (NoToken (normalize_host host))))
   \<and> (trim_space flag \<noteq> '''' \<or> (\<exists>n\<in>set env_vars. trim_space (getenv n) \<noteq> '''') \<longrightarrow> snd (resolve_token path host flag getenv d) = d)"
  by (auto simp: resolve_token_def env_vars_def Let_def split: prod.splits sum.splits option.splits)

theorem token_precedence_witness:
  "fst (resolve_token ''c'' ''github.com'' '' '' (\<lambda>n. if n = ''GH_TOKEN'' then ''ghp_x'' else '''') empty_disk) =
     Inr \<lparr> tk_value = ''ghp_x'', tk_source = SourceEnvironment, tk_origin = ''GH_TOKEN'', tk_user = '''' \<rparr>
   \<and> snd (resolve_token ''c'' ''github.com'' '' '' (\<lambda>n. if n = ''GH_TOKEN'' then ''ghp_x'' else '''') empty_disk) = empty_disk"
proof -
  have t: "trim_space '' '' = ''''" "trim_space ''ghp_x'' = ''ghp_x''" by code_simp+
  show ?thesis
    using token_precedence [of "''c''" "''github.com''" "'' ''" "\<lambda>n. if n = ''GH_TOKEN'' then ''ghp_x'' else ''''" empty_disk]
    by (simp add: t env_vars_def)
qed

text \<open>
  Storing one credential can lose all of them: when the write of the file fails part way, no token of
  any host and no machine credential can be read any more, as the file is written in place.
\<close>

theorem failed_save_loses_credentials:
  assumes "dk_faults d = [False, False, True]" "mc_token m \<noteq> ''''" "dk_files d path = Some (Doc c)"
  shows "case store_machine path now server m d of (r, d') \<Rightarrow> \<not> is_ok r
    \<and> fst (resolve_token path host '''' (\<lambda>_. '''') d') = Inl (LoadFailed ParseError)
    \<and> fst (resolve_machine path url (\<lambda>_. '''') d') = Inl ParseError"
  using assms
  by (simp add: store_machine_def load_credentials_def read_file_def faulty_def save_file_def mkdir_all_def write_file_def
      Let_def resolve_token_def resolve_machine_def env_vars_def next_call_def put_files_def)

theorem failed_save_loses_credentials_witness:
  "let d = (empty_disk\<lparr>dk_files := [''c'' \<mapsto> Doc no_credentials], dk_faults := [False, False, True]\<rparr>)
   in case store_machine ''c'' 9 ''https://cp'' sample_machine d of (r, d') \<Rightarrow> \<not> is_ok r
    \<and> fst (resolve_token ''c'' ''github.com'' '''' (\<lambda>_. '''') d') = Inl (LoadFailed ParseError)
    \<and> fst (resolve_machine ''c'' ''https://cp'' (\<lambda>_. '''') d') = Inl ParseError"
  unfolding Let_def by (rule failed_save_loses_credentials) (simp_all add: sample_machine_def)

end
