(* ===== verification/Github_Correct.thy ===== *)
theory Github_Correct
  imports Github
begin

text \<open>
  What the GitHub client gets right: the names of repositories people paste are understood, and the pages of
  a listing are put together to what GitHub holds, up to the bound on the pages.
\<close>

section \<open>Names of repositories\<close>

definition plain_char :: "char \<Rightarrow> bool" where
  "plain_char c \<longleftrightarrow> \<not> is_space c \<and> c \<noteq> slash_char \<and> c \<noteq> CHR '':'' \<and> c \<noteq> CHR ''@''"

lemma not_alnum:
  "\<not> is_alnum CHR '':''" "\<not> is_alnum CHR ''@''" "\<not> is_alnum slash_char"
  "\<not> is_alnum CHR '' ''" "\<not> is_alnum (CHR 0x09)" "\<not> is_alnum (CHR 0x0A)" "\<not> is_alnum (CHR 0x0B)"
  "\<not> is_alnum (CHR 0x0C)" "\<not> is_alnum (CHR 0x0D)"
  by code_simp+

lemma is_space_cases: "is_space c \<Longrightarrow> c \<in> {CHR '' '', CHR 0x09, CHR 0x0A, CHR 0x0B, CHR 0x0C, CHR 0x0D}"
  by (simp add: is_space_def)

lemma alnum_plain: "is_alnum c \<Longrightarrow> plain_char c"
  using is_space_cases [of c] not_alnum by (auto simp: plain_char_def)

lemma mark_plain: "plain_char CHR ''-''" "plain_char CHR ''.''" "plain_char CHR ''_''"
  by (simp_all add: plain_char_def is_space_def slash_char_def)

lemma owner_plain: "owner_pattern s \<Longrightarrow> s \<noteq> [] \<and> list_all plain_char s"
  using alnum_plain mark_plain by (auto simp: owner_pattern_def list_all_iff)

lemma repo_plain: "repo_pattern s \<Longrightarrow> s \<noteq> [] \<and> list_all plain_char s"
proof -
  assume r: "repo_pattern s"
  have "plain_char c" if "c \<in> set s" for c
  proof -
    have "is_alnum c \<or> c = CHR ''.'' \<or> c = CHR ''_'' \<or> c = CHR ''-''"
      using r that unfolding repo_pattern_def list_all_iff by blast
    then show ?thesis using alnum_plain mark_plain by blast
  qed
  then show "s \<noteq> [] \<and> list_all plain_char s"
    using r unfolding repo_pattern_def list_all_iff by blast
qed

text \<open>A text of the form \<open>owner/repo\<close> with a valid scope in it.\<close>

definition repository_text :: "scope \<Rightarrow> string" where
  "repository_text s = sp_owner s @ slash_char # sp_repo s"

lemma scope_string_text: "sp_kind s = KindRepository \<Longrightarrow> scope_string s = repository_text s"
  by (simp add: scope_string_def repository_text_def slash_char_def)

lemma trim_suffix_append [simp]: "trim_suffix p (s @ p) = s"
  by (simp add: trim_suffix_def suffix_def)

lemma trim_suffix_none: "\<not> suffix p s \<Longrightarrow> trim_suffix p s = s"
  by (simp add: trim_suffix_def)

lemma repository_text_parts:
  assumes "owner_pattern a" "repo_pattern b"
  shows "a \<noteq> []" "b \<noteq> []" "slash_char \<notin> set a" "slash_char \<notin> set b" "CHR '':'' \<notin> set (a @ slash_char # b)"
    "\<not> is_space (hd a)" "\<not> is_space (last b)" "last b \<noteq> slash_char" "hd a \<noteq> slash_char"
  using owner_plain [OF assms(1)] repo_plain [OF assms(2)]
  by (auto simp: list_all_iff plain_char_def slash_char_def)

text \<open>The end of \<open>ParseRepository\<close>, once the address has been taken apart.\<close>

lemma parse_stripped:
  assumes "sp_kind s = KindRepository" "validate_scope s = None"
    and "strip_address (trim_suffix ''.git'' (trim_space raw)) = repository_text s"
  shows "parse_repository raw = Inr s"
proof -
  have p: "owner_pattern (sp_owner s)" "repo_pattern (sp_repo s)"
    using assms(1,2) by (auto simp: validate_scope_def split: if_splits)
  note parts = repository_text_parts [OF p]
  have "trim_both (\<lambda>c. c = slash_char) (repository_text s) = repository_text s"
    using parts by (simp add: trim_both_def repository_text_def trim_left_id trim_right_id)
  moreover have "cut_at slash_char (repository_text s) = (sp_owner s, sp_repo s, True)"
    using parts by (simp add: repository_text_def cut_at_append)
  ultimately show ?thesis using assms parts by (cases s) (simp add: parse_repository_def Let_def)
qed

lemma strip_plain: "CHR '':'' \<notin> set t \<Longrightarrow> strip_address t = t"
  by (simp add: strip_address_def index_of_absent)

lemma strip_url:
  assumes "slash_char \<notin> set h"
  shows "strip_address (''https://'' @ h @ slash_char # t) = t"
proof -
  have "index_of (''https://'' @ h @ slash_char # t) ''://'' = Some 5" by simp
  moreover have "index_of (h @ slash_char # t) ''/'' = Some (length h)"
    using index_of_first [of "''/''" h t] assms by (simp add: slash_char_def)
  ultimately show ?thesis by (simp add: strip_address_def)
qed

lemma strip_ssh:
  assumes "CHR '':'' \<notin> set h" "CHR '':'' \<notin> set t" "hd t \<noteq> CHR ''/''"
  shows "strip_address (''git@'' @ h @ CHR '':'' # t) = t"
proof -
  let ?p = "''git@'' @ h"
  have p: "CHR '':'' \<notin> set ?p" using assms by simp
  have i: "index_of (?p @ CHR '':'' # t) '':'' = Some (length ?p)"
    using index_of_first [of "'':''" ?p t] p by simp
  have "index_of (u @ CHR '':'' # t) ''://'' = None" if "CHR '':'' \<notin> set u" for u
    using that assms(2,3) index_of_absent [of "''://''" t] by (induction u) (auto simp: neq_Nil_conv prefix_Cons prefix_def)
  from this [OF p] have "index_of (?p @ CHR '':'' # t) ''://'' = None" .
  then show ?thesis using i by (simp add: strip_address_def)
qed

lemma parsed_repository:
  assumes "sp_kind s = KindRepository" "validate_scope s = None"
  shows "\<not> suffix ''.git'' (sp_repo s) \<Longrightarrow> parse_repository (repository_text s) = Inr s"
    and "parse_repository (repository_text s @ ''.git'') = Inr s"
    and "slash_char \<notin> set h \<Longrightarrow> parse_repository (''https://'' @ h @ slash_char # repository_text s @ ''.git'') = Inr s"
    and "CHR '':'' \<notin> set h \<Longrightarrow> parse_repository (''git@'' @ h @ CHR '':'' # repository_text s @ ''.git'') = Inr s"
proof -
  have p: "owner_pattern (sp_owner s)" "repo_pattern (sp_repo s)"
    using assms by (auto simp: validate_scope_def split: if_splits)
  note parts = repository_text_parts [OF p]
  have ends: "repository_text s \<noteq> []" "\<not> is_space (hd (repository_text s))" "\<not> is_space (last (repository_text s))"
    "CHR '':'' \<notin> set (repository_text s)" "hd (repository_text s) \<noteq> slash_char"
    using parts by (auto simp: repository_text_def)
  show "parse_repository (repository_text s) = Inr s" if "\<not> suffix ''.git'' (sp_repo s)"
  proof -
    have "\<not> suffix ''.git'' (repository_text s)"
    proof
      assume "suffix ''.git'' (repository_text s)"
      then consider "suffix ''.git'' (slash_char # sp_repo s)" | zs where "''.git'' = zs @ slash_char # sp_repo s"
        unfolding repository_text_def suffix_append by blast
      then show False
      proof cases
        case 1
        then show False using that by (auto simp: suffix_Cons slash_char_def)
      next
        case 2
        then have "slash_char \<in> set ''.git''" by (metis in_set_conv_decomp)
        then show False by (simp add: slash_char_def)
      qed
    qed
    then show ?thesis using ends
      by (intro parse_stripped [OF assms]) (simp add: trim_space_id trim_suffix_none strip_plain)
  qed
  show "parse_repository (repository_text s @ ''.git'') = Inr s" using ends
    by (intro parse_stripped [OF assms]) (simp add: trim_space_id is_space_def strip_plain)
  show "parse_repository (''https://'' @ h @ slash_char # repository_text s @ ''.git'') = Inr s"
    if "slash_char \<notin> set h"
  proof -
    let ?u = "''https://'' @ h @ slash_char # repository_text s"
    have "trim_space (?u @ ''.git'') = ?u @ ''.git''" by (rule trim_space_id) (simp add: is_space_def)
    then have "strip_address (trim_suffix ''.git'' (trim_space (?u @ ''.git''))) = repository_text s"
      using strip_url [OF that] by (simp only: trim_suffix_append)
    from parse_stripped [OF assms this] show ?thesis by simp
  qed
  show "parse_repository (''git@'' @ h @ CHR '':'' # repository_text s @ ''.git'') = Inr s"
    if "CHR '':'' \<notin> set h"
  proof -
    let ?u = "''git@'' @ h @ CHR '':'' # repository_text s"
    have "trim_space (?u @ ''.git'') = ?u @ ''.git''" by (rule trim_space_id) (simp add: is_space_def)
    then have "strip_address (trim_suffix ''.git'' (trim_space (?u @ ''.git''))) = repository_text s"
      using strip_ssh [OF that ends(4)] ends(5) by (simp only: trim_suffix_append slash_char_def simp_thms)
    from parse_stripped [OF assms this] show ?thesis by simp
  qed
qed

lemma parse_repository_valid:
  "parse_repository raw = Inr s \<Longrightarrow> sp_kind s = KindRepository \<and> validate_scope s = None"
  by (auto simp: parse_repository_def Let_def split_beta split: if_splits option.splits)

text \<open>
  The names of repositories that people paste are understood: a valid scope is read back from
  \<open>owner/repo\<close>, with or without \<open>.git\<close> behind it, from the URL of its page or of its clone on any host, and
  from the ssh address; and whatever is pasted, only a valid scope is ever returned.
\<close>

theorem pasted_repository_understood:
  assumes "sp_kind s = KindRepository" "validate_scope s = None"
    and "slash_char \<notin> set url_host" "CHR '':'' \<notin> set ssh_host"
  shows "(suffix ''.git'' (sp_repo s) \<or> parse_repository (scope_string s) = Inr s)
    \<and> parse_repository (scope_string s @ ''.git'') = Inr s
    \<and> parse_repository (''https://'' @ url_host @ ''/'' @ scope_string s @ ''.git'') = Inr s
    \<and> parse_repository (''git@'' @ ssh_host @ '':'' @ scope_string s @ ''.git'') = Inr s
    \<and> (\<forall>raw t. parse_repository raw = Inr t \<longrightarrow> sp_kind t = KindRepository \<and> validate_scope t = None)"
  using parsed_repository [OF assms(1,2)] assms(3,4) parse_repository_valid
  by (auto simp: scope_string_text [OF assms(1)] slash_char_def)

theorem pasted_repository_understood_witness:
  "parse_repository ''https://github.com/bablilayoub/runnerly.git''
     = Inr \<lparr> sp_kind = KindRepository, sp_owner = ''bablilayoub'', sp_repo = ''runnerly'' \<rparr>"
proof -
  let ?s = "\<lparr> sp_kind = KindRepository, sp_owner = ''bablilayoub'', sp_repo = ''runnerly'' \<rparr>"
  have "validate_scope ?s = None" by code_simp
  from pasted_repository_understood [OF _ this, of "''github.com''" "''github.com''"]
  show ?thesis by (simp add: scope_string_def slash_char_def)
qed

section \<open>Pages\<close>

definition page_of :: "nat \<Rightarrow> 'a list \<Rightarrow> 'a list" where
  "page_of page xs = take per_page (drop (per_page * (page - 1)) xs)"

lemma take_page: "1 \<le> page \<Longrightarrow> take (per_page * (page - 1)) xs @ page_of page xs = take (per_page * page) xs"
  by (cases page) (simp_all add: page_of_def take_add [symmetric] add.commute)

text \<open>A GitHub that answers the request for each page with that page of the runners it holds.\<close>

definition serves_runners ::
  "'w github \<Rightarrow> gh_client \<Rightarrow> scope \<Rightarrow> gh_runner list \<Rightarrow> bool"
where
  "serves_runners gh c s runners \<longleftrightarrow>
     (\<forall>w. \<forall>page\<in>{1..max_pages}.
        gh \<lparr> gq_method = ''GET'', gq_url = gc_base c @ ''/'' @ runners_path s page, gq_token = gc_token c \<rparr> w
          = (Inr \<lparr> gs_status = 200, gs_headers = [], gs_body = GRunners (int (length runners)) (page_of page runners) \<rparr>, w))"

lemma runners_path_relative: "trim_left (\<lambda>c. c = slash_char) (runners_path s page) = runners_path s page"
  by (rule trim_left_id) (simp add: runners_path_def api_path_def slash_char_def)

lemma serves_runnersD:
  "serves_runners gh c s rs \<Longrightarrow> page \<in> {1..max_pages} \<Longrightarrow>
   gh_do gh c ''GET'' (runners_path s page) (0, []) get_runners w = (Inr ([], int (length rs), page_of page rs), w)"
  unfolding serves_runners_def gh_do_def by (simp add: runners_path_relative)

lemma list_runners_loop_pages:
  assumes "serves_runners gh c s rs"
  shows "page + left = Suc max_pages \<Longrightarrow> 1 \<le> page \<Longrightarrow>
    list_runners_loop gh c s page left (take (per_page * (page - 1)) rs) w = (Inr (take (per_page * max_pages) rs), w)"
proof (induction left arbitrary: page)
  case 0
  then show ?case by simp
next
  case (Suc left)
  then have p: "page \<in> {1..max_pages}" by simp
  have q: "gh_do gh c ''GET'' (runners_path s page) (0, []) get_runners w = (Inr ([], int (length rs), page_of page rs), w)"
    by (rule serves_runnersD [OF assms p])
  obtain found where f: "found = take (per_page * (page - 1)) rs" by simp
  have t: "found @ page_of page rs = take (per_page * page) rs"
    unfolding f using Suc.prems by (intro take_page) simp
  have all: "take (per_page * page) rs = take (per_page * max_pages) rs"
    if "page_of page rs = [] \<or> length rs \<le> length (take (per_page * page) rs)"
  proof -
    have "length rs \<le> per_page * page" using that Suc.prems by (auto simp: page_of_def per_page_def)
    moreover have "per_page * page \<le> per_page * max_pages" using p by simp
    ultimately have "length rs \<le> per_page * max_pages" by (rule order_trans)
    then show ?thesis using \<open>length rs \<le> per_page * page\<close> by simp
  qed
  have IH: "list_runners_loop gh c s (Suc page) left (take (per_page * page) rs) w = (Inr (take (per_page * max_pages) rs), w)"
    using Suc.IH [of "Suc page"] Suc.prems by simp
  show ?case unfolding f [symmetric] using IH all by (simp add: q t del: length_append length_take)
qed

text \<open>
  Listing the runners of a scope puts the pages together: the list is what GitHub holds, in its order,
  each runner once, up to ten thousand; what lies beyond is left out without an error.
\<close>

theorem list_runners_complete:
  assumes "validate_scope s = None" "serves_runners gh c s runners"
  shows "list_gh_runners gh c s w = (Inr (take 10000 runners), w)"
  using list_runners_loop_pages [OF assms(2), of 1 max_pages w] assms(1)
  by (simp add: list_gh_runners_def per_page_def max_pages_def)

definition one_runner :: gh_runner where
  "one_runner = no_gh_runner\<lparr>gr_id := 7, gr_name := ''builder''\<rparr>"

text \<open>A GitHub that holds one runner, which it puts on the first page.\<close>

definition small_github :: "gh_client \<Rightarrow> scope \<Rightarrow> unit github" where
  "small_github c s rq w =
     (Inr \<lparr> gs_status = 200, gs_headers = [],
        gs_body = GRunners 1 (if gq_url rq = gc_base c @ ''/'' @ runners_path s 1 then [one_runner] else []) \<rparr>, w)"

lemma runners_path_inj: "runners_path s p = runners_path s 1 \<Longrightarrow> p \<le> max_pages \<Longrightarrow> p = 1"
  using atoi_itoa [of "int p"] atoi_itoa [of 1] by (simp add: runners_path_def max_pages_def)

theorem list_runners_complete_witness:
  "list_gh_runners (small_github (new_for_host ''github.com'' ''t'') (for_organization ''acme''))
     (new_for_host ''github.com'' ''t'') (for_organization ''acme'') () = (Inr [one_runner], ())"
proof -
  let ?c = "new_for_host ''github.com'' ''t''" and ?s = "for_organization ''acme''"
  have "serves_runners (small_github ?c ?s) ?c ?s [one_runner]"
    unfolding serves_runners_def
  proof (intro allI ballI)
    fix w :: unit and page assume p: "page \<in> {1..max_pages}"
    have "page = 1 \<longleftrightarrow> runners_path ?s page = runners_path ?s 1" using p runners_path_inj [of ?s page] by auto
    moreover have "page_of page [one_runner] = (if page = 1 then [one_runner] else [])"
      using p by (auto simp: page_of_def per_page_def)
    ultimately show "small_github ?c ?s \<lparr> gq_method = ''GET'', gq_url = gc_base ?c @ ''/'' @ runners_path ?s page, gq_token = gc_token ?c \<rparr> w
        = (Inr \<lparr> gs_status = 200, gs_headers = [], gs_body = GRunners (int (length [one_runner])) (page_of page [one_runner]) \<rparr>, w)"
      by (simp add: small_github_def)
  qed
  moreover have "validate_scope ?s = None" by code_simp
  ultimately show ?thesis using list_runners_complete [of ?s "small_github ?c ?s" ?c "[one_runner]" "()"] by simp
qed

text \<open>The same for the repositories, of which only those the token administers may be asked for.\<close>

definition serves_repositories :: "'w github \<Rightarrow> gh_client \<Rightarrow> repository list \<Rightarrow> bool" where
  "serves_repositories gh c repos \<longleftrightarrow>
     (\<forall>w. \<forall>page\<in>{1..max_pages}.
        gh \<lparr> gq_method = ''GET'', gq_url = gc_base c @ ''/'' @ repositories_path page, gq_token = gc_token c \<rparr> w
          = (Inr \<lparr> gs_status = 200, gs_headers = [], gs_body = GRepositories (page_of page repos) \<rparr>, w))"

lemma serves_repositoriesD:
  "serves_repositories gh c rs \<Longrightarrow> page \<in> {1..max_pages} \<Longrightarrow>
   gh_do gh c ''GET'' (repositories_path page) [] get_repositories w = (Inr ([], page_of page rs), w)"
proof -
  have "trim_left (\<lambda>c. c = slash_char) (repositories_path page) = repositories_path page"
    by (rule trim_left_id) (simp add: repositories_path_def slash_char_def)
  then show "serves_repositories gh c rs \<Longrightarrow> page \<in> {1..max_pages} \<Longrightarrow> ?thesis"
    unfolding serves_repositories_def gh_do_def by simp
qed

lemma add_repositories_take:
  "length out < limit \<Longrightarrow>
   add_repositories admin limit out rs = take limit (out @ filter (\<lambda>r. admin \<longrightarrow> rp_admin r) rs)"
  by (induction admin limit out rs rule: add_repositories.induct) (auto simp: not_le take_Cons')

lemma list_repositories_loop_pages:
  assumes "serves_repositories gh c rs" "0 < limit"
  shows "page + left = Suc max_pages \<Longrightarrow> 1 \<le> page \<Longrightarrow>
    out = take limit (filter (\<lambda>r. admin \<longrightarrow> rp_admin r) (take (per_page * (page - 1)) rs)) \<Longrightarrow>
    list_repositories_loop gh c admin limit page left out w
      = (Inr (take limit (filter (\<lambda>r. admin \<longrightarrow> rp_admin r) (take (per_page * max_pages) rs))), w)"
proof (induction left arbitrary: page out)
  case 0
  then show ?case by simp
next
  case (Suc left)
  let ?f = "filter (\<lambda>r. admin \<longrightarrow> rp_admin r)"
  have p: "page \<in> {1..max_pages}" using Suc.prems by simp
  note q = serves_repositoriesD [OF assms(1) p]
  obtain seen where seen: "seen = take (per_page * (page - 1)) rs" by simp
  have t: "seen @ page_of page rs = take (per_page * page) rs"
    unfolding seen using Suc.prems by (intro take_page) simp
  obtain rest where rest: "take (per_page * max_pages) rs = seen @ page_of page rs @ rest"
  proof -
    have "per_page * page \<le> per_page * max_pages" using p by simp
    then obtain k where "per_page * max_pages = per_page * page + k" using le_Suc_ex by blast
    then have "take (per_page * max_pages) rs = seen @ page_of page rs @ take k (drop (per_page * page) rs)"
      using t by (simp add: take_add append_assoc [symmetric] del: append_assoc)
    then show ?thesis by (rule that)
  qed
  have out: "out = take limit (?f seen)" using Suc.prems by (simp add: seen)
  show ?case
  proof (cases "limit \<le> length out")
    case True
    then show ?thesis using out rest by simp
  next
    case False
    then have small: "length (?f seen) < limit" and o: "out = ?f seen" using out by auto
    have add: "add_repositories admin limit out (page_of page rs) = take limit (?f (seen @ page_of page rs))"
      using add_repositories_take [of out limit] False o by simp
    have last: "rest = []" if "length (page_of page rs) < per_page"
    proof -
      have "length rs < per_page * page" using that Suc.prems by (cases page) (auto simp: page_of_def per_page_def)
      then have "take (per_page * page) rs = rs" by simp
      then have "length (seen @ page_of page rs @ rest) \<le> length (seen @ page_of page rs)"
        unfolding rest [symmetric] t by simp
      then show ?thesis by simp
    qed
    have IH: "list_repositories_loop gh c admin limit (Suc page) left (take limit (?f (seen @ page_of page rs))) w
        = (Inr (take limit (?f (take (per_page * max_pages) rs))), w)"
      using Suc.IH [of "Suc page"] Suc.prems t by simp
    have pp: "0 < per_page" by (simp add: per_page_def)
    show ?thesis
    proof (cases "page_of page rs = []")
      case True
      then show ?thesis using False last pp small o q rest by simp
    next
      case ne: False
      show ?thesis using False ne last IH add q rest by (simp add: Let_def)
    qed
  qed
qed

text \<open>
  The repositories offered are the first ones, in GitHub's order, that may be offered: as many as were
  asked for, or two hundred, of the first ten thousand, those that the token cannot administer left out
  when they are not wanted.
\<close>

theorem list_repositories_first:
  assumes "serves_repositories gh c repos"
  shows "list_repositories gh c limit admin w =
    (Inr (take (if limit \<le> 0 then 200 else nat limit)
       (filter (\<lambda>r. admin \<longrightarrow> rp_admin r) (take 10000 repos))), w)"
  using list_repositories_loop_pages [OF assms, of "if limit \<le> 0 then 200 else nat limit" 1 max_pages "[]" admin w]
  by (cases "limit \<le> 0")
    (simp_all add: list_repositories_def default_repository_limit_def per_page_def max_pages_def Let_def)

theorem list_repositories_first_witness:
  "list_repositories (\<lambda>rq w. (Inr \<lparr> gs_status = 200, gs_headers = [], gs_body = GRepositories [] \<rparr>, w))
     (new_for_host '''' '''') 5 True () = (Inr [], ())"
proof -
  have "serves_repositories (\<lambda>rq w. (Inr \<lparr> gs_status = 200, gs_headers = [], gs_body = GRepositories [] \<rparr>, w))
      (new_for_host '''' '''') []"
    by (simp add: serves_repositories_def page_of_def)
  from list_repositories_first [OF this] show ?thesis by simp
qed

end
