(* ===== verification/Runner_State.thy ===== *)
theory Runner_State
  imports Credentials Github "HOL-Library.List_Lexorder" "HOL-Library.Char_ord"
begin

text \<open>
  \<open>internal/state\<close>: the file that records the runners installed on a machine. Go walks through a map in an
  order that it chooses at random for every walk: the parameter \<open>walk\<close> arranges the entries. The record is
  found ignoring case, but stored under the name as it is spelled.
\<close>

section \<open>The code\<close>

record installed =
  in_name :: string
  in_scope :: scope
  in_host :: string
  in_dir :: string
  in_labels :: "string list"
  in_ephemeral :: bool
  in_release :: string
  in_at :: go_time

type_synonym runners_file = "(string \<times> installed) list"

definition fill_name :: "string \<times> installed \<Rightarrow> string \<times> installed" where
  "fill_name e = (case e of (k, r) \<Rightarrow> (k, if in_name r = '''' then r\<lparr>in_name := k\<rparr> else r))"

definition load_runners :: "string \<Rightarrow> runners_file disk \<Rightarrow> (file_error + runners_file) \<times> runners_file disk" where
  "load_runners path d =
     (case read_file path d of
        (Inl NotExist, d) \<Rightarrow> (Inr [], d)
      | (Inl e, d) \<Rightarrow> (Inl e, d)
      | (Inr f, d) \<Rightarrow> (Inr (map fill_name f), d))"

datatype state_error = NeedsName | NotInstalled string | NeedsOne "string list" | StateFile file_error

definition stamp_installed :: "go_time \<Rightarrow> installed \<Rightarrow> installed" where
  "stamp_installed now r = (if is_zero_time (in_at r) then r\<lparr>in_at := now\<rparr> else r)"

definition put_installed ::
  "string \<Rightarrow> go_time \<Rightarrow> installed \<Rightarrow> runners_file disk \<Rightarrow> (state_error + unit) \<times> runners_file disk"
where
  "put_installed path now r d =
     (if in_name r = '''' then (Inl NeedsName, d)
      else case load_runners path d of
             (Inl e, d) \<Rightarrow> (Inl (StateFile e), d)
           | (Inr f, d) \<Rightarrow>
               (case save_file path (AList.update (in_name r) (stamp_installed now r) f) d of
                  (Inl e, d) \<Rightarrow> (Inl (StateFile e), d)
                | (Inr _, d) \<Rightarrow> (Inr (), d)))"

definition get_installed ::
  "(runners_file \<Rightarrow> runners_file) \<Rightarrow> string \<Rightarrow> string \<Rightarrow> runners_file disk \<Rightarrow> (state_error + installed) \<times> runners_file disk"
where
  "get_installed walk path name d =
     (case load_runners path d of
        (Inl e, d) \<Rightarrow> (Inl (StateFile e), d)
      | (Inr f, d) \<Rightarrow>
          (case find (\<lambda>(k, _). equal_fold k name) (walk f) of
             Some (_, r) \<Rightarrow> (Inr r, d)
           | None \<Rightarrow> (Inl (NotInstalled name), d)))"

text \<open>Both results: whether something was removed, and the error.\<close>

definition delete_installed ::
  "(runners_file \<Rightarrow> runners_file) \<Rightarrow> string \<Rightarrow> string \<Rightarrow> runners_file disk \<Rightarrow> (bool \<times> file_error option) \<times> runners_file disk"
where
  "delete_installed walk path name d =
     (case load_runners path d of
        (Inl e, d) \<Rightarrow> ((False, Some e), d)
      | (Inr f, d) \<Rightarrow>
          (case find (\<lambda>(k, _). equal_fold k name) (walk f) of
             None \<Rightarrow> ((False, None), d)
           | Some (k, _) \<Rightarrow>
               let f = AList.delete k f
               in if f = []
                  then (case remove_file path d of
                          (Inl NotExist, d) \<Rightarrow> ((True, None), d)
                        | (Inl e, d) \<Rightarrow> ((False, Some e), d)
                        | (Inr _, d) \<Rightarrow> ((True, None), d))
                  else (case save_file path f d of
                          (Inl e, d) \<Rightarrow> ((True, Some e), d)
                        | (Inr _, d) \<Rightarrow> ((True, None), d))))"

definition list_installed ::
  "(runners_file \<Rightarrow> runners_file) \<Rightarrow> string \<Rightarrow> runners_file disk \<Rightarrow> (state_error + installed list) \<times> runners_file disk"
where
  "list_installed walk path d =
     (case load_runners path d of
        (Inl e, d) \<Rightarrow> (Inl (StateFile e), d)
      | (Inr f, d) \<Rightarrow> (Inr (sort_key in_name (map snd (walk f))), d))"

definition only_installed ::
  "(runners_file \<Rightarrow> runners_file) \<Rightarrow> string \<Rightarrow> runners_file disk \<Rightarrow> (state_error + installed) \<times> runners_file disk"
where
  "only_installed walk path d =
     (case list_installed walk path d of
        (Inl e, d) \<Rightarrow> (Inl e, d)
      | (Inr [], d) \<Rightarrow> (Inl (NotInstalled ''''), d)
      | (Inr [r], d) \<Rightarrow> (Inr r, d)
      | (Inr rs, d) \<Rightarrow> (Inl (NeedsOne (map in_name rs)), d))"

section \<open>Facts\<close>

text \<open>What a file records.\<close>

definition recorded :: "string \<Rightarrow> runners_file disk \<Rightarrow> runners_file" where
  "recorded path d = (case dk_files d path of Some (Doc f) \<Rightarrow> map fill_name f | _ \<Rightarrow> [])"

lemma load_runners_ok:
  "load_runners path d = (Inr f, d') \<Longrightarrow> f = recorded path d \<and> dk_files d' = dk_files d"
  by (auto simp: load_runners_def read_file_def recorded_def Let_def
      split: prod.splits sum.splits file_error.splits option.splits contents.splits if_splits)

lemma load_runners_quiet:
  "dk_faults d = [] \<Longrightarrow> dk_files d path \<noteq> Some Garbage \<Longrightarrow> load_runners path d = (Inr (recorded path d), next_call d)"
  by (auto simp: load_runners_def read_file_def recorded_def Let_def
      split: option.splits contents.splits)

lemma fill_name_idem [simp]: "fill_name (fill_name e) = fill_name e"
  by (auto simp: fill_name_def split: prod.splits)

lemma fill_name_fst [simp]: "fst (fill_name e) = fst e"
  by (auto simp: fill_name_def split: prod.splits)

text \<open>Names that differ are told apart without regard to case.\<close>

definition names_clear :: "runners_file \<Rightarrow> bool" where
  "names_clear f \<longleftrightarrow> distinct (map (to_lower \<circ> fst) f)"

text \<open>An order in which Go may walk through a map.\<close>

definition walks :: "(runners_file \<Rightarrow> runners_file) \<Rightarrow> bool" where
  "walks walk \<longleftrightarrow> (\<forall>f. set (walk f) = set f)"

lemma find_someD: "find P xs = Some x \<Longrightarrow> x \<in> set xs \<and> P x"
  by (induction xs) (auto split: if_splits)

lemma find_clear:
  assumes "walks walk" "names_clear f" "(k, r) \<in> set f" "equal_fold k name"
  shows "find (\<lambda>(k, _). equal_fold k name) (walk f) = Some (k, r)"
proof -
  have u: "e = (k, r)" if "e \<in> set f" "equal_fold (fst e) name" for e
  proof -
    have "to_lower (fst e) = to_lower k"
      using that(2) assms(4) by (simp add: equal_fold_def)
    then show ?thesis
      using assms(2,3) that(1) unfolding names_clear_def distinct_map
      by (auto dest!: inj_onD [where x = e and y = "(k, r)"])
  qed
  have "find (\<lambda>(k, _). equal_fold k name) (walk f) \<noteq> None"
    using assms by (auto simp: find_None_iff walks_def)
  then obtain e where e: "find (\<lambda>(k, _). equal_fold k name) (walk f) = Some e" by blast
  from find_someD [OF e] have "e \<in> set f" "equal_fold (fst e) name"
    using assms(1) by (auto simp: walks_def split_beta)
  with u e show ?thesis by simp
qed

lemma find_other:
  assumes "walks walk" "\<forall>k\<in>fst ` set f. \<not> equal_fold k name"
  shows "find (\<lambda>(k, _). equal_fold k name) (walk f) = None"
  using assms by (auto simp: find_None_iff walks_def)

lemma names_clear_keys: "names_clear f \<longleftrightarrow> distinct (map to_lower (map fst f))"
  by (simp add: names_clear_def comp_def)

lemma names_clear_distinct: "names_clear f \<Longrightarrow> distinct (map fst f)"
  unfolding names_clear_keys by (rule distinct_map [THEN iffD1, THEN conjunct1])

lemma names_clear_update:
  assumes "names_clear f" "\<forall>j\<in>fst ` set f. equal_fold j k \<longrightarrow> j = k"
  shows "names_clear (AList.update k v f)"
proof (cases "k \<in> set (map fst f)")
  case True
  then show ?thesis using assms(1) by (simp add: names_clear_keys update_keys del: map_map)
next
  case False
  then have "to_lower k \<notin> set (map to_lower (map fst f))" using assms(2) by (auto simp: equal_fold_def)
  then show ?thesis using assms(1) False by (auto simp: names_clear_keys update_keys)
qed

lemma fill_update:
  "in_name v = k \<Longrightarrow> k \<noteq> '''' \<Longrightarrow> \<forall>e\<in>set f. fill_name e = e \<Longrightarrow>
   map fill_name (AList.update k v f) = AList.update k v f"
proof -
  assume "in_name v = k" "k \<noteq> ''''"
  then have "fill_name (k, v) = (k, v)" by (simp add: fill_name_def)
  then show "\<forall>e\<in>set f. fill_name e = e \<Longrightarrow> ?thesis"
    by (induction f) (auto simp: map_idI)
qed

lemma recorded_filled: "\<forall>e\<in>set (recorded path d). fill_name e = e"
  by (auto simp: recorded_def split: option.splits contents.splits)

lemma stamp_name [simp]: "in_name (stamp_installed now r) = in_name r"
  by (simp add: stamp_installed_def)

lemma put_installedD:
  assumes "put_installed path now r d = (Inr u, d')"
  shows "in_name r \<noteq> ''''"
    and "dk_files d' path = Some (Doc (AList.update (in_name r) (stamp_installed now r) (recorded path d)))"
    and "recorded path d' = AList.update (in_name r) (stamp_installed now r) (recorded path d)"
proof -
  show n: "in_name r \<noteq> ''''" using assms by (auto simp: put_installed_def)
  show f: "dk_files d' path = Some (Doc (AList.update (in_name r) (stamp_installed now r) (recorded path d)))"
    using assms by (auto simp: put_installed_def split: prod.splits sum.splits if_splits
        dest!: load_runners_ok save_file_ok)
  show "recorded path d' = AList.update (in_name r) (stamp_installed now r) (recorded path d)"
    using fill_update [OF _ n recorded_filled, of "stamp_installed now r" path d] f by (simp add: recorded_def)
qed

lemma get_installed_found:
  assumes "dk_faults d = []" "dk_files d path \<noteq> Some Garbage" "walks walk" "names_clear (recorded path d)"
    and "(k, r) \<in> set (recorded path d)" "equal_fold k name"
  shows "get_installed walk path name d = (Inr r, next_call d)"
  using find_clear [OF assms(3-6)] by (simp add: get_installed_def load_runners_quiet [OF assms(1,2)])

lemma get_installed_absent:
  assumes "dk_faults d = []" "dk_files d path \<noteq> Some Garbage" "walks walk"
    and "\<forall>k\<in>fst ` set (recorded path d). \<not> equal_fold k name"
  shows "get_installed walk path name d = (Inl (NotInstalled name), next_call d)"
  using find_other [OF assms(3,4)] by (simp add: get_installed_def load_runners_quiet [OF assms(1,2)])

lemma delete_installed_found:
  assumes "dk_faults d = []" "dk_files d path = Some (Doc f)" "walks walk" "names_clear (recorded path d)"
    and "(k, r) \<in> set (recorded path d)" "equal_fold k name"
  shows "\<exists>d'. delete_installed walk path name d = ((True, None), d') \<and> dk_faults d' = []
    \<and> recorded path d' = AList.delete k (recorded path d) \<and> dk_files d' path \<noteq> Some Garbage"
proof -
  have ne: "dk_files d path \<noteq> Some Garbage" using assms(2) by simp
  have filled: "map fill_name (AList.delete k (recorded path d)) = AList.delete k (recorded path d)"
    using recorded_filled [of path d] by (auto simp: AList.delete_eq intro!: map_idI)
  show ?thesis
    using find_clear [OF assms(3-6)] assms(1,2) filled
    by (simp add: delete_installed_def load_runners_quiet [OF assms(1) ne] remove_file_def save_file_def mkdir_all_def
        write_file_def Let_def recorded_def)
qed

section \<open>Guarantees\<close>

text \<open>
  A runner that was recorded is found again, removed, and then no longer found, whatever the case its
  name is written in and whatever order Go walks through the map; the records of the others are as they
  were. Before, no two names may differ in case only, the new one included.
\<close>

theorem installed_roundtrip:
  assumes "walks walk" "names_clear (recorded path d)"
    and "\<forall>k\<in>fst ` set (recorded path d). equal_fold k (in_name r) \<longrightarrow> k = in_name r"
    and "put_installed path now r d = (Inr u, d1)" "equal_fold (in_name r) name"
    and "d2 = d1\<lparr>dk_faults := []\<rparr>"
  shows "fst (get_installed walk path name d2) = Inr (stamp_installed now r)
    \<and> (\<forall>(k, v)\<in>set (recorded path d). k \<noteq> in_name r \<longrightarrow> fst (get_installed walk path k d2) = Inr v)
    \<and> (case delete_installed walk path name d2 of (found, d3) \<Rightarrow>
         found = (True, None) \<and> fst (get_installed walk path name d3) = Inl (NotInstalled name)
         \<and> (\<forall>(k, v)\<in>set (recorded path d). k \<noteq> in_name r \<longrightarrow> fst (get_installed walk path k d3) = Inr v))"
proof -
  let ?n = "in_name r" and ?v = "stamp_installed now r" and ?f = "recorded path d"
  note p = put_installedD [OF assms(4)]
  have f2: "recorded path d2 = AList.update ?n ?v ?f" using p(3) assms(6) by (simp add: recorded_def)
  have doc: "dk_files d2 path = Some (Doc (AList.update ?n ?v ?f))" using p(2) assms(6) by simp
  then have ng: "dk_files d2 path \<noteq> Some Garbage" by simp
  have q: "dk_faults d2 = []" using assms(6) by simp
  have clear: "names_clear (recorded path d2)" unfolding f2 by (rule names_clear_update [OF assms(2,3)])
  then have dist: "distinct (map fst (recorded path d2))" by (rule names_clear_distinct)
  have dist0: "distinct (map fst ?f)" using assms(2) by (rule names_clear_distinct)
  have mem: "(?n, ?v) \<in> set (recorded path d2)"
    by (rule map_of_SomeD) (simp add: f2 update_conv')
  have others: "(k, v) \<in> set (recorded path d2)" if "(k, v) \<in> set ?f" "k \<noteq> ?n" for k v
    by (rule map_of_SomeD) (simp add: f2 update_conv' that map_of_is_SomeI [OF dist0 that(1)])
  obtain d3 where d3: "delete_installed walk path name d2 = ((True, None), d3)" "dk_faults d3 = []"
      "recorded path d3 = AList.delete ?n (recorded path d2)" "dk_files d3 path \<noteq> Some Garbage"
    using delete_installed_found [OF q doc assms(1) clear mem assms(5)] by blast
  have clear3: "names_clear (recorded path d3)"
    using clear by (auto simp: d3(3) names_clear_def AList.delete_eq intro!: distinct_map_filter)
  have inj: "inj_on to_lower (set (map fst (recorded path d2)))"
    using clear unfolding names_clear_keys by (rule distinct_map [THEN iffD1, THEN conjunct2])
  have n: "?n \<in> set (map fst (recorded path d2))" using mem by force
  have gone: "\<forall>k\<in>fst ` set (recorded path d3). \<not> equal_fold k name"
  proof
    fix k assume "k \<in> fst ` set (recorded path d3)"
    then have k: "k \<in> set (map fst (recorded path d2))" "k \<noteq> ?n"
      by (auto simp: d3(3) AList.delete_eq)
    have "to_lower k \<noteq> to_lower ?n"
      using inj_onD [OF inj _ k(1) n] k(2) by blast
    then show "\<not> equal_fold k name" using assms(5) by (simp add: equal_fold_def)
  qed
  have others3: "(k, v) \<in> set (recorded path d3)" if "(k, v) \<in> set ?f" "k \<noteq> ?n" for k v
    using others [OF that] that(2) by (simp add: d3(3) AList.delete_eq)
  show ?thesis
    using get_installed_found [OF q ng assms(1) clear mem assms(5)] d3(1)
      get_installed_absent [OF d3(2,4) assms(1) gone]
      get_installed_found [OF q ng assms(1) clear others] get_installed_found [OF d3(2,4) assms(1) clear3 others3]
    by auto
qed

definition sample_installed :: installed where
  "sample_installed = \<lparr> in_name = ''Builder'', in_scope = for_organization ''acme'', in_host = ''github.com'',
     in_dir = ''/opt/a'', in_labels = [], in_ephemeral = False, in_release = '''', in_at = 7 \<rparr>"

definition no_runners_disk :: "runners_file disk" where
  "no_runners_disk = \<lparr> dk_files = (\<lambda>_. None), dk_faults = [], dk_seen = [] \<rparr>"

theorem installed_roundtrip_witness:
  "fst (get_installed rev ''f'' ''BUILDER'' ((snd (put_installed ''f'' 9 sample_installed no_runners_disk))\<lparr>dk_faults := []\<rparr>))
     = Inr sample_installed"
proof -
  have "put_installed ''f'' 9 sample_installed no_runners_disk
      = (Inr (), snd (put_installed ''f'' 9 sample_installed no_runners_disk))"
    by (simp add: put_installed_def sample_installed_def load_runners_def read_file_def no_runners_disk_def faulty_def
        save_file_def mkdir_all_def write_file_def Let_def next_call_def put_files_def)
  moreover have "recorded ''f'' no_runners_disk = []" by (simp add: recorded_def no_runners_disk_def)
  moreover have "equal_fold (in_name sample_installed) ''BUILDER''" by code_simp
  moreover have "stamp_installed 9 sample_installed = sample_installed"
    by (simp add: stamp_installed_def sample_installed_def is_zero_time_def zero_time_def)
  ultimately show ?thesis
    using installed_roundtrip [of rev "''f''" no_runners_disk sample_installed 9 "()" _ "''BUILDER''" "_\<lparr>dk_faults := []\<rparr>"]
    by (simp add: walks_def names_clear_def)
qed

text \<open>
  Names that differ in case are two runners when they are recorded and one when they are looked up:
  both are kept, and which of the two is found or removed depends on the order in which Go happens to walk
  through the map, even when the name is spelled exactly as the other was recorded.
\<close>

theorem names_in_two_cases:
  "let d = snd (put_installed ''f'' 9 (sample_installed\<lparr>in_name := ''builder''\<rparr>) (snd (put_installed ''f'' 9 sample_installed no_runners_disk)))
   in map fst (recorded ''f'' d) = [''Builder'', ''builder'']
     \<and> map_sum id in_name (fst (get_installed id ''f'' ''builder'' d)) = Inr ''Builder''
     \<and> map_sum id in_name (fst (get_installed rev ''f'' ''builder'' d)) = Inr ''builder''
     \<and> map fst (recorded ''f'' (snd (delete_installed id ''f'' ''builder'' d))) = [''builder'']"
  by code_simp

end
