(* ===== verification/Control_Plane.thy ===== *)
theory Control_Plane
  imports Server_Handlers Runner_State Job_Hooks
begin

text \<open>
  The agent's side of the control plane: the client (\<open>internal/controlplane\<close>) and enrollment
  (\<open>internal/agent/enroll.go\<close>). The control plane is a parameter \<open>plane\<close> with a state of its own, so that the
  client can be studied against any server that may answer anything, and against the model of Runnerly's.
  Bodies and replies are the decoded values of the server's model. An answer of another endpoint that is
  JSON leaves what the client reads at its zero value; the text of errors is left out.
\<close>

section \<open>The client\<close>

record cp_client =
  cl_base :: string
  cl_token :: string

definition new_client :: "string \<Rightarrow> string \<Rightarrow> cp_client" where
  "new_client base token = \<lparr> cl_base = trim_right (\<lambda>c. c = CHR ''/'') base, cl_token = token \<rparr>"

record cp_request =
  cq_method :: string
  cq_base :: string
  cq_path :: "string list"
  cq_token :: string
  cq_body :: "body option"

record cp_response =
  cs_status :: int
  cs_reply :: reply

type_synonym 'w plane = "cp_request \<Rightarrow> 'w \<Rightarrow> cp_response option \<times> 'w"

datatype cp_error = Unreachable | Unauthorized int string | Refused int string | BadReply | NoMachineToken

definition response_error :: "cp_response \<Rightarrow> cp_error" where
  "response_error r =
     (let code = (case cs_reply r of RError c \<Rightarrow> c | _ \<Rightarrow> '''')
      in if cs_status r = 401 \<or> cs_status r = 403 then Unauthorized (cs_status r) code
         else Refused (cs_status r) code)"

definition is_json :: "reply \<Rightarrow> bool" where
  "is_json r = (case r of RMetrics \<Rightarrow> False | RPage \<Rightarrow> False | REmpty \<Rightarrow> False | _ \<Rightarrow> True)"

text \<open>\<open>read\<close> says what is made of the reply; \<open>None\<close> when the caller does not want it.\<close>

definition cp_do ::
  "'w plane \<Rightarrow> cp_client \<Rightarrow> string \<Rightarrow> string list \<Rightarrow> string \<Rightarrow> body option \<Rightarrow> bool \<Rightarrow> 'w \<Rightarrow> (cp_error + reply) \<times> 'w"
where
  "cp_do plane c mth path token b wanted w =
     (case plane \<lparr> cq_method = mth, cq_base = cl_base c, cq_path = [''api'', ''v1''] @ path, cq_token = token, cq_body = b \<rparr> w of
        (None, w) \<Rightarrow> (Inl Unreachable, w)
      | (Some r, w) \<Rightarrow>
          if cs_status r < 200 \<or> 299 < cs_status r then (Inl (response_error r), w)
          else if wanted \<and> \<not> is_json (cs_reply r) then (Inl BadReply, w)
          else (Inr (cs_reply r), w))"

text \<open>\<open>Config.Interval\<close>.\<close>

definition config_interval :: "int \<Rightarrow> duration" where
  "config_interval seconds = (if seconds \<le> 0 then 20 * second else wrap64 (seconds * second))"

record registered =
  rg_runner :: string
  rg_token :: string
  rg_seconds :: int

definition read_registered :: "reply \<Rightarrow> registered" where
  "read_registered r =
     (case r of
        RRegistered row token n \<Rightarrow> \<lparr> rg_runner = rn_id row, rg_token = token, rg_seconds = n \<rparr>
      | _ \<Rightarrow> \<lparr> rg_runner = '''', rg_token = '''', rg_seconds = 0 \<rparr>)"

definition cp_register ::
  "'w plane \<Rightarrow> cp_client \<Rightarrow> string \<Rightarrow> register_runner \<Rightarrow> 'w \<Rightarrow> (cp_error + registered) \<times> 'w"
where
  "cp_register plane c enrollment req w =
     (case cp_do plane c ''POST'' [''agent'', ''register''] enrollment (Some (BodyRegister req)) True w of
        (Inl e, w) \<Rightarrow> (Inl e, w)
      | (Inr r, w) \<Rightarrow>
          (if rg_token (read_registered r) = '''' then Inl NoMachineToken else Inr (read_registered r), w))"

text \<open>The commands and the replacement credential of a heartbeat's reply.\<close>

definition read_heartbeat :: "reply \<Rightarrow> (string \<times> string) list \<times> string" where
  "read_heartbeat r = (case r of RHeartbeat row n commands token \<Rightarrow> (commands, token) | _ \<Rightarrow> ([], ''''))"

definition cp_heartbeat ::
  "'w plane \<Rightarrow> heartbeat_request \<Rightarrow> cp_client \<Rightarrow> 'w \<Rightarrow> (cp_error + (string \<times> string) list \<times> string) \<times> cp_client \<times> 'w"
where
  "cp_heartbeat plane req c w =
     (case cp_do plane c ''POST'' [''agent'', ''heartbeat''] (cl_token c) (Some (BodyHeartbeat req)) True w of
        (Inl e, w) \<Rightarrow> (Inl e, c, w)
      | (Inr r, w) \<Rightarrow>
          let (commands, token) = read_heartbeat r
          in (Inr (commands, token), if token \<noteq> '''' then c\<lparr>cl_token := token\<rparr> else c, w))"

definition cp_send_events :: "'w plane \<Rightarrow> agent_event list \<Rightarrow> cp_client \<Rightarrow> 'w \<Rightarrow> (cp_error + int) \<times> 'w" where
  "cp_send_events plane es c w =
     (if es = [] then (Inr 0, w)
      else case cp_do plane c ''POST'' [''agent'', ''events''] (cl_token c) (Some (BodyEvents es)) True w of
             (Inl e, w) \<Rightarrow> (Inl e, w)
           | (Inr r, w) \<Rightarrow> (Inr (case r of RStored n \<Rightarrow> n | _ \<Rightarrow> 0), w))"

definition cp_complete_command :: "'w plane \<Rightarrow> string \<Rightarrow> string \<Rightarrow> cp_client \<Rightarrow> 'w \<Rightarrow> (cp_error + unit) \<times> 'w" where
  "cp_complete_command plane i failure c w =
     (case cp_do plane c ''POST'' [''agent'', ''commands'', i, ''result''] (cl_token c) (Some (BodyCommandResult failure)) False w of
        (Inl e, w) \<Rightarrow> (Inl e, w)
      | (Inr _, w) \<Rightarrow> (Inr (), w))"

definition cp_retire :: "'w plane \<Rightarrow> string \<Rightarrow> cp_client \<Rightarrow> 'w \<Rightarrow> (cp_error + unit) \<times> 'w" where
  "cp_retire plane reason c w =
     (case cp_do plane c ''POST'' [''agent'', ''retire''] (cl_token c) (Some (BodyRetire reason)) False w of
        (Inl e, w) \<Rightarrow> (Inl e, w)
      | (Inr _, w) \<Rightarrow> (Inr (), w))"

definition cp_health :: "'w plane \<Rightarrow> cp_client \<Rightarrow> 'w \<Rightarrow> (cp_error + unit) \<times> 'w" where
  "cp_health plane c w =
     (case cp_do plane c ''GET'' [''health''] '''' None False w of
        (Inl e, w) \<Rightarrow> (Inl e, w)
      | (Inr _, w) \<Rightarrow> (Inr (), w))"

section \<open>Enrollment\<close>

text \<open>What the machine says of itself.\<close>

record machine_facts =
  mf_goos :: string
  mf_goarch :: string
  mf_cpus :: int
  mf_memory :: int
  mf_disk :: "string \<Rightarrow> int"
  mf_version :: string

record enroll_options =
  eo_server :: string
  eo_token :: string
  eo_credentials :: string
  eo_runner :: installed

record enrollment =
  nr_client :: cp_client
  nr_runner :: string
  nr_interval :: duration
  nr_enrolled :: bool

datatype enroll_error = NeedEnrollmentToken | CredentialsFailed file_error | EnrollFailed cp_error | CannotStore store_error

definition persist_machine_token ::
  "go_time \<Rightarrow> string \<Rightarrow> string \<Rightarrow> string \<Rightarrow> string \<Rightarrow> credentials disk \<Rightarrow> (store_error + unit) \<times> credentials disk"
where
  "persist_machine_token now path server runner_id token d =
     store_machine path now server \<lparr> mc_runner_id = runner_id, mc_token = token, mc_enrolled = zero_time \<rparr> d"

definition from_env :: "string \<Rightarrow> (string \<Rightarrow> string) \<Rightarrow> string \<Rightarrow> string" where
  "from_env name getenv configured =
     (if trim_space (getenv name) \<noteq> '''' then trim_space (getenv name) else trim_space configured)"

definition enrollment_token_from :: "(string \<Rightarrow> string) \<Rightarrow> string \<Rightarrow> string" where
  "enrollment_token_from = from_env ''RUNNERLY_ENROLLMENT_TOKEN''"

definition server_url_from :: "(string \<Rightarrow> string) \<Rightarrow> string \<Rightarrow> string" where
  "server_url_from = from_env ''RUNNERLY_SERVER_URL''"

definition kind_text :: "scope_kind \<Rightarrow> string" where
  "kind_text k = (case k of KindRepository \<Rightarrow> ''repository'' | KindOrganization \<Rightarrow> ''organization'' | KindOther s \<Rightarrow> s)"

definition default_string :: "string \<Rightarrow> string \<Rightarrow> string" where
  "default_string v fallback = (if v = '''' then fallback else v)"

definition registration_for :: "machine_facts \<Rightarrow> installed \<Rightarrow> register_runner" where
  "registration_for mf r = \<lparr> rr_name = in_name r, rr_host = default_string (in_host r) ''github.com'',
     rr_scope = default_string (kind_text (sp_kind (in_scope r))) ''repository'', rr_scope_id = scope_string (in_scope r),
     rr_os = mf_goos mf, rr_arch = mf_goarch mf, rr_cpu_count = mf_cpus mf, rr_memory = mf_memory mf,
     rr_disk = mf_disk mf (in_dir r), rr_labels = in_labels r, rr_ephemeral = in_ephemeral r,
     rr_runner_version = '''', rr_agent_version = mf_version mf \<rparr>"

definition enroll ::
  "'w plane \<Rightarrow> machine_facts \<Rightarrow> (string \<Rightarrow> string) \<Rightarrow> go_time \<Rightarrow> enroll_options \<Rightarrow> credentials disk \<Rightarrow> 'w
   \<Rightarrow> (enroll_error + enrollment option) \<times> credentials disk \<times> 'w"
where
  "enroll plane mf getenv now opts d w =
     (if eo_server opts = '''' then (Inr None, d, w)
      else case resolve_machine (eo_credentials opts) (eo_server opts) getenv d of
             (Inl e, d) \<Rightarrow> (Inl (CredentialsFailed e), d, w)
           | (Inr (Some m), d) \<Rightarrow>
               (Inr (Some \<lparr> nr_client = new_client (eo_server opts) (mc_token m), nr_runner = mc_runner_id m,
                  nr_interval = 0, nr_enrolled = False \<rparr>), d, w)
           | (Inr None, d) \<Rightarrow>
               if eo_token opts = '''' then (Inl NeedEnrollmentToken, d, w)
               else case cp_register plane (new_client (eo_server opts) '''') (eo_token opts)
                           (registration_for mf (eo_runner opts)) w of
                      (Inl e, w) \<Rightarrow> (Inl (EnrollFailed e), d, w)
                    | (Inr r, w) \<Rightarrow>
                        (case persist_machine_token now (eo_credentials opts) (eo_server opts) (rg_runner r) (rg_token r) d of
                           (Inl e, d) \<Rightarrow> (Inl (CannotStore e), d, w)
                         | (Inr _, d) \<Rightarrow>
                             (Inr (Some \<lparr> nr_client = new_client (eo_server opts) (rg_token r), nr_runner = rg_runner r,
                                nr_interval = config_interval (rg_seconds r), nr_enrolled = True \<rparr>), d, w)))"

end
