(* ===== verification/Agent_Report.thy ===== *)
theory Agent_Report
  imports Control_Plane Supervisor
begin

text \<open>
  \<open>internal/agent/report.go\<close>: the reporter, which forwards the runner's status and events to the control
  plane while the supervisor goes on. The two goroutines meet in a state of their own: a step is a call of
  \<open>observe\<close> by the supervisor, or one round of the loop of \<open>run\<close>. What a round needs from outside (the
  machine's load, the job file) is an input of the step. Logging is left out.
\<close>

section \<open>State\<close>

text \<open>The callbacks of a reporter, and the texts that \<open>encoding/json\<close> and errors have.\<close>

record ('d, 'w) report_env =
  re_plane :: "'w plane"
  re_on_token :: "(string \<Rightarrow> 'd \<Rightarrow> bool \<times> 'd) option"
  re_can_restart :: bool
  re_job_hooks :: bool
  re_version :: string
  re_float :: "rat \<Rightarrow> string"
  re_error :: "proc_error \<Rightarrow> string"

record ('d, 'w) reporter =
  rp_status :: string
  rp_detail :: string
  rp_runner_version :: string
  rp_dropped :: nat
  rp_events :: "agent_event list"
  rp_last_token :: string
  rp_refused :: bool
  rp_done :: bool
  rp_interval :: duration
  rp_client :: cp_client
  rp_restarts :: nat
  rp_store :: 'd
  rp_world :: 'w

definition event_buffer :: nat where "event_buffer = 256"
definition max_batch :: nat where "max_batch = 100"

definition new_reporter :: "cp_client \<Rightarrow> duration \<Rightarrow> string \<Rightarrow> 'd \<Rightarrow> 'w \<Rightarrow> ('d, 'w) reporter" where
  "new_reporter c interval version d w = \<lparr> rp_status = ''starting'', rp_detail = '''', rp_runner_version = version,
     rp_dropped = 0, rp_events = [], rp_last_token = '''', rp_refused = False, rp_done = False,
     rp_interval = (if interval \<le> 0 then 20 * second else interval), rp_client = c, rp_restarts = 0,
     rp_store = d, rp_world = w \<rparr>"

section \<open>Observing the supervisor\<close>

definition set_status :: "string \<Rightarrow> string \<Rightarrow> ('d, 'w) reporter \<Rightarrow> ('d, 'w) reporter" where
  "set_status status detail r = r\<lparr>rp_status := status, rp_detail := detail\<rparr>"

text \<open>The channel has room for \<open>event_buffer\<close> events; an event that finds it full is dropped.\<close>

definition enqueue :: "agent_event \<Rightarrow> ('d, 'w) reporter \<Rightarrow> ('d, 'w) reporter" where
  "enqueue e r =
     (if length (rp_events r) < event_buffer then r\<lparr>rp_events := rp_events r @ [e]\<rparr>
      else r\<lparr>rp_dropped := rp_dropped r + 1\<rparr>)"

fun kind_name :: "event_kind \<Rightarrow> string" where
  "kind_name EventStarting = ''starting''"
| "kind_name EventStarted = ''started''"
| "kind_name EventExited = ''exited''"
| "kind_name EventRestarting = ''restarting''"
| "kind_name EventHealthy = ''healthy''"
| "kind_name EventGaveUp = ''gave_up''"
| "kind_name EventStopping = ''stopping''"
| "kind_name EventKilled = ''killed''"
| "kind_name EventStopped = ''stopped''"
| "kind_name EventCompleted = ''completed''"

definition severity_for :: "event_kind \<Rightarrow> string \<times> string" where
  "severity_for k =
     (case k of
        EventGaveUp \<Rightarrow> (''error'', ''the agent gave up restarting the runner'')
      | EventExited \<Rightarrow> (''warn'', ''the runner exited'')
      | EventRestarting \<Rightarrow> (''warn'', ''the runner is being restarted'')
      | EventKilled \<Rightarrow> (''warn'', ''the runner was killed after a graceful stop timed out'')
      | _ \<Rightarrow> (''info'', ''''))"

definition event_data :: "('d, 'w) report_env \<Rightarrow> event \<Rightarrow> json_object" where
  "event_data env e =
     (if ev_pid e \<noteq> 0 then [(''pid'', itoa (ev_pid e))] else [])
     @ (if ev_attempt e \<noteq> 0 then [(''attempt'', itoa (ev_attempt e))] else [])
     @ (if ev_kind e = EventExited
        then [(''exit_code'', itoa (ev_exit_code e)), (''uptime_seconds'', re_float env (dur_seconds (ev_uptime e)))] else [])
     @ (if 0 < ev_delay e then [(''delay_seconds'', re_float env (dur_seconds (ev_delay e)))] else [])
     @ (case ev_err e of None \<Rightarrow> [] | Some x \<Rightarrow> [(''error'', re_error env x)])"

definition observed_event :: "('d, 'w) report_env \<Rightarrow> event \<Rightarrow> agent_event" where
  "observed_event env e = \<lparr> ae_event = ''runner_'' @ kind_name (ev_kind e), ae_severity = fst (severity_for (ev_kind e)),
     ae_message = snd (severity_for (ev_kind e)), ae_data = event_data env e \<rparr>"

definition observe_status :: "event_kind \<Rightarrow> ('d, 'w) reporter \<Rightarrow> ('d, 'w) reporter" where
  "observe_status k =
     (case k of
        EventStarting \<Rightarrow> set_status ''starting'' ''''
      | EventStarted \<Rightarrow> set_status ''online'' ''''
      | EventExited \<Rightarrow> set_status ''starting'' ''the runner exited and is being restarted''
      | EventGaveUp \<Rightarrow> set_status ''error'' ''the runner failed too many times and is not being restarted''
      | EventStopping \<Rightarrow> set_status ''stopping'' ''''
      | EventStopped \<Rightarrow> set_status ''offline'' ''''
      | _ \<Rightarrow> id)"

definition observe :: "('d, 'w) report_env \<Rightarrow> event \<Rightarrow> ('d, 'w) reporter \<Rightarrow> ('d, 'w) reporter" where
  "observe env e r = enqueue (observed_event env e) (observe_status (ev_kind e) r)"

section \<open>Reporting\<close>

text \<open>\<open>SendEvents\<close>; a batch that could not be sent is gone.\<close>

definition send_batch :: "('d, 'w) report_env \<Rightarrow> agent_event list \<Rightarrow> ('d, 'w) reporter \<Rightarrow> ('d, 'w) reporter" where
  "send_batch env batch r = r\<lparr>rp_world := snd (cp_send_events (re_plane env) batch (rp_client r) (rp_world r))\<rparr>"

definition drain :: "nat \<Rightarrow> ('d, 'w) reporter \<Rightarrow> agent_event list \<times> ('d, 'w) reporter" where
  "drain limit r = (take limit (rp_events r), r\<lparr>rp_events := drop limit (rp_events r)\<rparr>)"

text \<open>\<open>flushEvents\<close> of the event the loop has taken from the channel.\<close>

definition flush_events :: "('d, 'w) report_env \<Rightarrow> agent_event \<Rightarrow> ('d, 'w) reporter \<Rightarrow> ('d, 'w) reporter" where
  "flush_events env e r = (let (more, r) = drain (max_batch - 1) r in send_batch env (e # more) r)"

definition persist_token :: "('d, 'w) report_env \<Rightarrow> string \<Rightarrow> ('d, 'w) reporter \<Rightarrow> ('d, 'w) reporter" where
  "persist_token env token r =
     (case re_on_token env of
        None \<Rightarrow> r
      | Some f \<Rightarrow>
          if token = '''' \<or> token = rp_last_token r then r
          else r\<lparr>rp_last_token := token, rp_store := snd (f token (rp_store r))\<rparr>)"

definition run_command :: "('d, 'w) report_env \<Rightarrow> string \<Rightarrow> ('d, 'w) reporter \<Rightarrow> string \<times> ('d, 'w) reporter" where
  "run_command env command r =
     (if command = ''restart''
      then (if \<not> re_can_restart env then (''this agent cannot restart its runner'', r)
            else ('''', r\<lparr>rp_restarts := rp_restarts r + 1\<rparr>))
      else (''this agent does not understand the command '' @ command, r))"

fun run_commands :: "('d, 'w) report_env \<Rightarrow> (string \<times> string) list \<Rightarrow> ('d, 'w) reporter \<Rightarrow> ('d, 'w) reporter" where
  "run_commands env [] r = r"
| "run_commands env ((i, command) # cs) r =
     (let (failure, r) = run_command env command r;
          (_, w) = cp_complete_command (re_plane env) i failure (rp_client r) (rp_world r)
      in run_commands env cs (r\<lparr>rp_world := w\<rparr>))"

record load =
  ld_cpu :: rat
  ld_memory :: rat
  ld_disk :: rat

text \<open>What a heartbeat says; \<open>load\<close> and \<open>job\<close> are what \<open>Latest\<close> and the job file hold.\<close>

definition heartbeat_body :: "('d, 'w) report_env \<Rightarrow> load \<Rightarrow> job_state \<Rightarrow> ('d, 'w) reporter \<Rightarrow> heartbeat_request" where
  "heartbeat_body env load job r =
     (let busy = re_job_hooks env \<and> rp_status r = ''online'' \<and> job_running job
      in \<lparr> hr_status = (if busy then ''busy'' else rp_status r), hr_detail = (if busy then describe_job job else rp_detail r),
           hr_cpu = ld_cpu load, hr_memory = ld_memory load, hr_disk = ld_disk load,
           hr_runner_version = rp_runner_version r, hr_agent_version = re_version env \<rparr>)"

definition send_heartbeat :: "('d, 'w) report_env \<Rightarrow> load \<Rightarrow> job_state \<Rightarrow> ('d, 'w) reporter \<Rightarrow> ('d, 'w) reporter" where
  "send_heartbeat env load job r =
     (let req = heartbeat_body env load job r;
          r = r\<lparr>rp_dropped := 0\<rparr>;
          (res, c, w) = cp_heartbeat (re_plane env) req (rp_client r) (rp_world r);
          r = r\<lparr>rp_client := c, rp_world := w\<rparr>
      in case res of
           Inr (commands, token) \<Rightarrow> run_commands env commands (persist_token env token r)
         | Inl (Unauthorized _ _) \<Rightarrow> r\<lparr>rp_refused := True\<rparr>
         | Inl _ \<Rightarrow> r)"

definition final_report :: "('d, 'w) report_env \<Rightarrow> load \<Rightarrow> job_state \<Rightarrow> ('d, 'w) reporter \<Rightarrow> ('d, 'w) reporter" where
  "final_report env load job r =
     (let (remaining, r) = drain max_batch r;
          r = (if remaining = [] then r else send_batch env remaining r)
      in send_heartbeat env load job (set_status ''offline'' ''the agent stopped'' r))"

section \<open>The loop\<close>

datatype report_input =
    Observe event                 \<comment> \<open>the supervisor's callback\<close>
  | EventReady                    \<comment> \<open>the loop takes an event from the channel\<close>
  | Tick load job_state           \<comment> \<open>the ticker fires\<close>
  | ContextDone load job_state    \<comment> \<open>the context ends\<close>

text \<open>A step; \<open>None\<close> when the loop cannot make it: it has ended, or the channel is empty.\<close>

fun report_step :: "('d, 'w) report_env \<Rightarrow> report_input \<Rightarrow> ('d, 'w) reporter \<Rightarrow> ('d, 'w) reporter option" where
  "report_step env (Observe e) r = Some (observe env e r)"
| "report_step env EventReady r =
     (if rp_done r then None
      else case rp_events r of [] \<Rightarrow> None | e # es \<Rightarrow> Some (flush_events env e (r\<lparr>rp_events := es\<rparr>)))"
| "report_step env (Tick load job) r =
     (if rp_done r then None
      else let r = send_heartbeat env load job r in Some (if rp_refused r then r\<lparr>rp_done := True\<rparr> else r))"
| "report_step env (ContextDone load job) r =
     (if rp_done r then None else Some ((final_report env load job r)\<lparr>rp_done := True\<rparr>))"

text \<open>Inputs that find no step are skipped.\<close>

fun report_run :: "('d, 'w) report_env \<Rightarrow> report_input list \<Rightarrow> ('d, 'w) reporter \<Rightarrow> ('d, 'w) reporter" where
  "report_run env [] r = r"
| "report_run env (i # ins) r =
     (case report_step env i r of None \<Rightarrow> report_run env ins r | Some r' \<Rightarrow> report_run env ins r')"

end
