(* ===== verification/Agent_Correct.thy ===== *)
theory Agent_Correct
  imports Agent_Report
begin

text \<open>
  What the reporter guarantees whatever the control plane answers. The requests it makes are read from the
  log that \<open>recording\<close> keeps around an arbitrary control plane.
\<close>

section \<open>The requests made\<close>

definition recording :: "'w plane \<Rightarrow> (cp_request list \<times> 'w) plane" where
  "recording plane rq lw = (case plane rq (snd lw) of (res, w) \<Rightarrow> (res, (fst lw @ [rq], w)))"

definition request_of :: "cp_client \<Rightarrow> string list \<Rightarrow> body \<Rightarrow> cp_request" where
  "request_of c path b = \<lparr> cq_method = ''POST'', cq_base = cl_base c, cq_path = [''api'', ''v1''] @ path,
     cq_token = cl_token c, cq_body = Some b \<rparr>"

abbreviation heartbeat_rq :: "cp_client \<Rightarrow> heartbeat_request \<Rightarrow> cp_request" where
  "heartbeat_rq c h \<equiv> request_of c [''agent'', ''heartbeat''] (BodyHeartbeat h)"

abbreviation events_rq :: "cp_client \<Rightarrow> agent_event list \<Rightarrow> cp_request" where
  "events_rq c es \<equiv> request_of c [''agent'', ''events''] (BodyEvents es)"

abbreviation result_rq :: "cp_client \<Rightarrow> string \<Rightarrow> string \<Rightarrow> cp_request" where
  "result_rq c i failure \<equiv> request_of c [''agent'', ''commands'', i, ''result''] (BodyCommandResult failure)"

lemma cp_do_logged:
  "cp_do (recording p) c ''POST'' path (cl_token c) (Some b) wanted w = (res, w') \<Longrightarrow> fst w' = fst w @ [request_of c path b]"
  by (auto simp: cp_do_def recording_def request_of_def split: prod.splits option.splits if_splits)

lemma cp_heartbeat_logged:
  assumes "cp_heartbeat (recording p) req c w = (res, c', w')"
  shows "fst w' = fst w @ [heartbeat_rq c req]"
proof -
  obtain res' w1 where d: "cp_do (recording p) c ''POST'' [''agent'', ''heartbeat''] (cl_token c) (Some (BodyHeartbeat req)) True w
      = (res', w1)" by (metis prod.collapse)
  then have "w' = w1" using assms by (auto simp: cp_heartbeat_def Let_def split_beta split: sum.splits)
  then show ?thesis using cp_do_logged [OF d] by simp
qed

lemma send_batch_log:
  assumes "re_plane env = recording p" "batch \<noteq> []"
  shows "fst (rp_world (send_batch env batch r)) = fst (rp_world r) @ [events_rq (rp_client r) batch]"
proof -
  obtain res w where d: "cp_do (recording p) (rp_client r) ''POST'' [''agent'', ''events''] (cl_token (rp_client r))
      (Some (BodyEvents batch)) True (rp_world r) = (res, w)" by (metis prod.collapse)
  then have "rp_world (send_batch env batch r) = w" using assms
    by (cases res) (auto simp: send_batch_def cp_send_events_def)
  then show ?thesis using cp_do_logged [OF d] by simp
qed

lemma send_batch_fields [simp]:
  "rp_events (send_batch env b r) = rp_events r" "rp_client (send_batch env b r) = rp_client r"
  "rp_done (send_batch env b r) = rp_done r" "rp_status (send_batch env b r) = rp_status r"
  "rp_refused (send_batch env b r) = rp_refused r" "rp_dropped (send_batch env b r) = rp_dropped r"
  by (simp_all add: send_batch_def)

lemma persist_token_fields [simp]:
  "rp_events (persist_token env t r) = rp_events r" "rp_client (persist_token env t r) = rp_client r"
  "rp_done (persist_token env t r) = rp_done r" "rp_status (persist_token env t r) = rp_status r"
  "rp_refused (persist_token env t r) = rp_refused r" "rp_world (persist_token env t r) = rp_world r"
  "rp_restarts (persist_token env t r) = rp_restarts r"
  by (simp_all add: persist_token_def split: option.splits)

definition answer :: "('d, 'w) report_env \<Rightarrow> string \<Rightarrow> string" where
  "answer env command =
     (if command = ''restart'' then (if re_can_restart env then '''' else ''this agent cannot restart its runner'')
      else ''this agent does not understand the command '' @ command)"

lemma run_command_eq:
  "run_command env command r = (answer env command,
     if command = ''restart'' \<and> re_can_restart env then r\<lparr>rp_restarts := rp_restarts r + 1\<rparr> else r)"
  by (simp add: run_command_def answer_def)

lemma run_commands_fields [simp]:
  "rp_events (run_commands env cs r) = rp_events r" "rp_client (run_commands env cs r) = rp_client r"
  "rp_done (run_commands env cs r) = rp_done r" "rp_status (run_commands env cs r) = rp_status r"
  "rp_refused (run_commands env cs r) = rp_refused r"
  by (induction cs arbitrary: r) (auto simp: run_command_eq split_beta split: if_splits)

lemma run_commands_log:
  assumes "re_plane env = recording p"
  shows "fst (rp_world (run_commands env cs r))
    = fst (rp_world r) @ map (\<lambda>(i, command). result_rq (rp_client r) i (answer env command)) cs"
  using assms
proof (induction env cs r rule: run_commands.induct)
  case (2 env i command cs r)
  obtain failure r1 where r1: "run_command env command r = (failure, r1)" by (metis prod.collapse)
  obtain x w where x: "cp_complete_command (re_plane env) i failure (rp_client r1) (rp_world r1) = (x, w)"
    by (metis prod.collapse)
  have same: "rp_client r1 = rp_client r" "rp_world r1 = rp_world r" "failure = answer env command"
    using r1 by (auto simp: run_command_eq)
  obtain res where "cp_do (recording p) (rp_client r) ''POST'' [''agent'', ''commands'', i, ''result''] (cl_token (rp_client r))
      (Some (BodyCommandResult failure)) False (rp_world r) = (res, w)"
    using x same 2(2) by (auto simp: cp_complete_command_def split: prod.splits sum.splits)
  from cp_do_logged [OF this] 2 r1 x same show ?case by simp
qed simp

lemma run_commands_restarts:
  "rp_restarts (run_commands env cs r) = rp_restarts r
     + (if re_can_restart env then length (filter (\<lambda>(i, command). command = ''restart'') cs) else 0)"
  by (induction cs arbitrary: r) (auto simp: run_command_eq split_beta)

text \<open>A heartbeat's requests: itself, and the results of the commands that its reply carries.\<close>

definition heartbeat_commands :: "('d, 'w) report_env \<Rightarrow> load \<Rightarrow> job_state \<Rightarrow> ('d, 'w) reporter \<Rightarrow> (string \<times> string) list" where
  "heartbeat_commands env load job r =
     (case fst (cp_heartbeat (re_plane env) (heartbeat_body env load job r) (rp_client r) (rp_world r)) of
        Inr (commands, token) \<Rightarrow> commands | Inl _ \<Rightarrow> [])"

lemma send_heartbeat_log:
  assumes "re_plane env = recording p"
  shows "fst (rp_world (send_heartbeat env load job r)) = fst (rp_world r)
      @ heartbeat_rq (rp_client r) (heartbeat_body env load job r)
      # map (\<lambda>(i, command). result_rq (rp_client (send_heartbeat env load job r)) i (answer env command))
          (heartbeat_commands env load job r)"
    and "rp_restarts (send_heartbeat env load job r) = rp_restarts r
      + (if re_can_restart env then length (filter (\<lambda>(i, command). command = ''restart'') (heartbeat_commands env load job r)) else 0)"
proof -
  let ?h = "heartbeat_body env load job r"
  obtain res c w where h: "cp_heartbeat (re_plane env) ?h (rp_client r) (rp_world r) = (res, c, w)"
    by (metis prod.collapse)
  note log = cp_heartbeat_logged [OF h [unfolded assms]]
  show "fst (rp_world (send_heartbeat env load job r)) = fst (rp_world r)
      @ heartbeat_rq (rp_client r) ?h
      # map (\<lambda>(i, command). result_rq (rp_client (send_heartbeat env load job r)) i (answer env command))
          (heartbeat_commands env load job r)"
    using h log run_commands_log [OF assms]
    by (cases res) (auto simp: send_heartbeat_def heartbeat_commands_def Let_def split: cp_error.splits prod.splits)
  show "rp_restarts (send_heartbeat env load job r) = rp_restarts r
      + (if re_can_restart env then length (filter (\<lambda>(i, command). command = ''restart'') (heartbeat_commands env load job r)) else 0)"
    using h
    by (cases res) (auto simp: run_commands_restarts send_heartbeat_def heartbeat_commands_def Let_def split: cp_error.splits prod.splits)
qed

lemma send_heartbeat_fields [simp]:
  "rp_events (send_heartbeat env load job r) = rp_events r" "rp_status (send_heartbeat env load job r) = rp_status r"
  "rp_done (send_heartbeat env load job r) = rp_done r"
  by (auto simp: send_heartbeat_def Let_def split_beta split: sum.splits cp_error.splits)

lemma enqueue_fields [simp]:
  "rp_world (enqueue e r) = rp_world r" "rp_status (enqueue e r) = rp_status r" "rp_done (enqueue e r) = rp_done r"
  "rp_client (enqueue e r) = rp_client r" "rp_refused (enqueue e r) = rp_refused r"
  by (simp_all add: enqueue_def)

lemma observe_status_fields [simp]:
  "rp_world (observe_status k r) = rp_world r" "rp_events (observe_status k r) = rp_events r"
  "rp_done (observe_status k r) = rp_done r" "rp_client (observe_status k r) = rp_client r"
  "rp_refused (observe_status k r) = rp_refused r"
  by (cases k; simp add: observe_status_def set_status_def)+

lemma set_status_fields [simp]:
  "rp_world (set_status s t r) = rp_world r" "rp_events (set_status s t r) = rp_events r"
  "rp_done (set_status s t r) = rp_done r" "rp_client (set_status s t r) = rp_client r"
  "rp_refused (set_status s t r) = rp_refused r" "rp_status (set_status s t r) = s"
  by (simp_all add: set_status_def)

section \<open>Events\<close>

text \<open>The batches of events that were handed to the control plane, and the events observed.\<close>

fun batch_of :: "cp_request \<Rightarrow> agent_event list list" where
  "batch_of rq = (case cq_body rq of Some (BodyEvents es) \<Rightarrow> [es] | _ \<Rightarrow> [])"

definition batches :: "cp_request list \<Rightarrow> agent_event list list" where
  "batches rqs = concat (map batch_of rqs)"

lemma batches_simps [simp]:
  "batches [] = []" "batches (a @ b) = batches a @ batches b" "batches (x # b) = batch_of x @ batches b"
  by (simp_all add: batches_def)

lemma batch_of_rqs [simp]:
  "batch_of (heartbeat_rq c h) = []" "batch_of (events_rq c es) = [es]" "batch_of (result_rq c i x) = []"
  by (simp_all add: request_of_def)

declare batch_of.simps [simp del]

lemma batches_results [simp]: "batches (map (\<lambda>(i, command). result_rq c i (f command)) cs) = []"
  by (induction cs) auto

fun observed :: "('d, 'w) report_env \<Rightarrow> report_input list \<Rightarrow> agent_event list" where
  "observed env [] = []"
| "observed env (Observe e # ins) = observed_event env e # observed env ins"
| "observed env (_ # ins) = observed env ins"

lemma observed_append [simp]: "observed env (a @ b) = observed env a @ observed env b"
  by (induction env a rule: observed.induct) simp_all

text \<open>What holds of the events between rounds; \<open>seen\<close> are the events observed so far.\<close>

definition events_kept :: "agent_event list \<Rightarrow> ('d, cp_request list \<times> 'w) reporter \<Rightarrow> bool" where
  "events_kept seen r \<longleftrightarrow>
     subseq (concat (batches (fst (rp_world r))) @ rp_events r) seen
     \<and> length (rp_events r) \<le> event_buffer
     \<and> (\<forall>b\<in>set (batches (fst (rp_world r))). b \<noteq> [] \<and> length b \<le> max_batch)
     \<and> (length seen \<le> event_buffer \<longrightarrow> concat (batches (fst (rp_world r))) @ rp_events r = seen)"

lemma events_kept_observe:
  assumes "events_kept seen r"
  shows "events_kept (seen @ [observed_event env e]) (observe env e r)"
proof (cases "length (rp_events r) < event_buffer")
  case True
  let ?x = "observed_event env e" and ?s = "concat (batches (fst (rp_world r)))"
  have "subseq (?s @ rp_events r) seen" using assms by (simp add: events_kept_def)
  then have "subseq ((?s @ rp_events r) @ [?x]) (seen @ [?x])" by (intro list_emb_append_mono) auto
  moreover have "length seen \<le> event_buffer \<longrightarrow> ?s @ rp_events r = seen" using assms by (simp add: events_kept_def)
  moreover have "rp_events (observe env e r) = rp_events r @ [?x]" "rp_world (observe env e r) = rp_world r"
    using True by (simp_all add: observe_def enqueue_def)
  ultimately show ?thesis using assms True by (simp add: events_kept_def)
next
  case False
  have "subseq (concat (batches (fst (rp_world r))) @ rp_events r) (seen @ [x])" for x
    using assms by (auto simp: events_kept_def intro: subseq_order.order_trans)
  moreover have "\<not> length (seen @ [x]) \<le> event_buffer" for x
    using assms False by (auto simp: events_kept_def dest!: list_emb_length)
  ultimately show ?thesis using assms False
    by (auto simp: events_kept_def observe_def enqueue_def)
qed

lemma events_kept_send:
  assumes "re_plane env = recording p" "events_kept seen r" "rp_events r = batch @ rest" "batch \<noteq> []"
    "length batch \<le> max_batch"
  shows "events_kept seen (send_batch env batch (r\<lparr>rp_events := rest\<rparr>))"
  using assms by (auto simp: events_kept_def send_batch_log)

lemma events_kept_heartbeat:
  assumes "re_plane env = recording p" "events_kept seen r"
  shows "events_kept seen (send_heartbeat env load job r)"
proof -
  have "batches (fst (rp_world (send_heartbeat env load job r))) = batches (fst (rp_world r))"
    by (simp add: send_heartbeat_log(1) [OF assms(1)])
  then show ?thesis using assms(2) by (simp add: events_kept_def)
qed

lemma events_kept_cong:
  "events_kept seen r \<Longrightarrow> rp_events r' = rp_events r \<Longrightarrow> rp_world r' = rp_world r \<Longrightarrow> events_kept seen r'"
  by (simp add: events_kept_def)

lemma events_kept_step:
  assumes "re_plane env = recording p" "events_kept seen r" "report_step env i r = Some r'"
  shows "events_kept (seen @ observed env [i]) r'"
proof (cases i)
  case (Observe e)
  then show ?thesis using assms events_kept_observe by auto
next
  case EventReady
  then obtain e es where e: "rp_events r = e # es" "r' = flush_events env e (r\<lparr>rp_events := es\<rparr>)"
    using assms(3) by (auto split: if_splits list.splits)
  have "r' = send_batch env (e # take (max_batch - 1) es) (r\<lparr>rp_events := drop (max_batch - 1) es\<rparr>)"
    using e by (simp add: flush_events_def drain_def)
  moreover have "events_kept seen (send_batch env (e # take (max_batch - 1) es) (r\<lparr>rp_events := drop (max_batch - 1) es\<rparr>))"
    by (rule events_kept_send [OF assms(1,2)]) (simp_all add: e max_batch_def)
  ultimately show ?thesis using EventReady by simp
next
  case (Tick l j)
  then show ?thesis using assms events_kept_heartbeat [OF assms(1,2), of l j]
    by (auto simp: Let_def split: if_splits elim: events_kept_cong)
next
  case (ContextDone l j)
  let ?b = "take max_batch (rp_events r)"
  let ?r = "r\<lparr>rp_events := drop max_batch (rp_events r)\<rparr>"
  have "events_kept seen (if ?b = [] then ?r else send_batch env ?b ?r)"
    using events_kept_send [OF assms(1,2), of ?b "drop max_batch (rp_events r)"] assms(2)
    by (auto simp: max_batch_def elim!: events_kept_cong)
  then have "events_kept seen (set_status ''offline'' ''the agent stopped'' (if ?b = [] then ?r else send_batch env ?b ?r))"
    by (rule events_kept_cong) simp_all
  from events_kept_heartbeat [OF assms(1) this, of l j] show ?thesis
    using assms(3) ContextDone
    by (auto simp: final_report_def drain_def Let_def split: if_splits elim!: events_kept_cong)
qed

lemma events_kept_run:
  assumes "re_plane env = recording p"
  shows "events_kept seen r \<Longrightarrow> events_kept (seen @ observed env ins) (report_run env ins r)"
proof (induction ins arbitrary: seen r)
  case (Cons i ins)
  show ?case
  proof (cases "report_step env i r")
    case None
    then have "observed env [i] = []" by (cases i) (auto split: if_splits)
    then have "observed env (i # ins) = observed env ins" by (cases i) auto
    then show ?thesis using Cons None by simp
  next
    case (Some r')
    from Cons.IH [OF events_kept_step [OF assms Cons.prems Some]] show ?thesis
      using Some observed_append [of env "[i]" ins] by (simp del: observed_append)
  qed
qed simp

text \<open>A reporter that has just been made, with an empty log.\<close>

definition fresh_reporter :: "('d, cp_request list \<times> 'w) reporter \<Rightarrow> bool" where
  "fresh_reporter r \<longleftrightarrow> (\<exists>c i v d w. r = new_reporter c i v d ([], w))"

lemma fresh_events_kept: "fresh_reporter r \<Longrightarrow> events_kept [] r"
  by (auto simp: fresh_reporter_def events_kept_def new_reporter_def)

text \<open>
  Events are reported in order, once, or not at all, and never hold up the supervisor: whatever the
  control plane does, what has been sent followed by what is waiting is a selection, in order, of the events
  observed, all of them while there have been no more than the buffer holds; at most 256 wait, and every
  request carries between 1 and 100.
\<close>

theorem events_reported_in_order:
  assumes "re_plane env = recording p" "fresh_reporter r" "r' = report_run env ins r"
  shows "subseq (concat (batches (fst (rp_world r'))) @ rp_events r') (observed env ins)
    \<and> (length (observed env ins) \<le> 256 \<longrightarrow> concat (batches (fst (rp_world r'))) @ rp_events r' = observed env ins)
    \<and> length (rp_events r') \<le> 256
    \<and> (\<forall>b\<in>set (batches (fst (rp_world r'))). 1 \<le> length b \<and> length b \<le> 100)"
  using events_kept_run [OF assms(1) fresh_events_kept [OF assms(2)], of ins] assms(3)
  by (auto simp: events_kept_def event_buffer_def max_batch_def Suc_le_eq)

definition quiet_plane :: "unit plane" where
  "quiet_plane rq w = (Some \<lparr> cs_status = 200, cs_reply = RStored 1 \<rparr>, w)"

definition sample_report :: "(unit, cp_request list \<times> unit) report_env" where
  "sample_report = \<lparr> re_plane = recording quiet_plane, re_on_token = None, re_can_restart = True, re_job_hooks = True,
     re_version = ''1'', re_float = (\<lambda>_. ''0''), re_error = (\<lambda>_. ''e'') \<rparr>"

definition sample_reporter :: "(unit, cp_request list \<times> unit) reporter" where
  "sample_reporter = new_reporter (new_client ''http://c'' ''t'') 0 '''' () ([], ())"

lemma sample_fresh: "fresh_reporter sample_reporter"
  unfolding fresh_reporter_def sample_reporter_def by blast

theorem events_reported_in_order_witness:
  "let r' = report_run sample_report [Observe (no_event EventStarting), EventReady, Observe (no_event EventStarted)] sample_reporter
   in concat (batches (fst (rp_world r'))) @ rp_events r'
      = [observed_event sample_report (no_event EventStarting), observed_event sample_report (no_event EventStarted)]"
  using events_reported_in_order [OF _ sample_fresh refl, of sample_report quiet_plane
      "[Observe (no_event EventStarting), EventReady, Observe (no_event EventStarted)]"]
  by (simp add: sample_report_def Let_def)

section \<open>What the control plane is sent\<close>

text \<open>What the server checks of a report.\<close>

definition acceptable :: "cp_request \<Rightarrow> bool" where
  "acceptable rq \<longleftrightarrow>
     (case cq_body rq of
        Some (BodyHeartbeat h) \<Rightarrow> status_ok (hr_status h)
      | Some (BodyEvents es) \<Rightarrow> length es \<le> max_events_per_request
          \<and> list_all (\<lambda>e. ae_event e \<noteq> '''' \<and> severity_ok (ae_severity e)) es
      | _ \<Rightarrow> True)"

lemma acceptable_rqs [simp]:
  "acceptable (heartbeat_rq c h) = status_ok (hr_status h)" "acceptable (result_rq c i x)"
  "acceptable (events_rq c es) \<longleftrightarrow> length es \<le> max_events_per_request
     \<and> list_all (\<lambda>e. ae_event e \<noteq> '''' \<and> severity_ok (ae_severity e)) es"
  by (simp_all add: acceptable_def request_of_def)

definition well_reported :: "('d, cp_request list \<times> 'w) reporter \<Rightarrow> bool" where
  "well_reported r \<longleftrightarrow> status_ok (rp_status r)
     \<and> list_all (\<lambda>e. ae_event e \<noteq> '''' \<and> severity_ok (ae_severity e)) (rp_events r)
     \<and> list_all acceptable (fst (rp_world r))"

lemma observed_event_ok: "ae_event (observed_event env e) \<noteq> '''' \<and> severity_ok (ae_severity (observed_event env e))"
  by (cases "ev_kind e") (auto simp: observed_event_def severity_for_def severity_ok_def)

lemma observe_well_reported: "well_reported r \<Longrightarrow> well_reported (observe env e r)"
  using observed_event_ok [of env e]
  by (cases "ev_kind e")
    (auto simp: well_reported_def observe_def enqueue_def observe_status_def set_status_def status_ok_def)

lemma heartbeat_body_status: "status_ok (rp_status r) \<Longrightarrow> status_ok (hr_status (heartbeat_body env load job r))"
  by (auto simp: heartbeat_body_def status_ok_def Let_def)

lemma results_acceptable: "list_all acceptable (map (\<lambda>(i, command). result_rq c i (f command)) cs)"
  by (induction cs) auto

lemma heartbeat_well_reported:
  assumes "re_plane env = recording p" "well_reported r"
  shows "well_reported (send_heartbeat env load job r)"
proof -
  have "list_all acceptable (fst (rp_world (send_heartbeat env load job r)))"
    unfolding send_heartbeat_log(1) [OF assms(1)]
    using assms(2) heartbeat_body_status [of r env load job] results_acceptable by (simp add: well_reported_def)
  then show ?thesis using assms(2) by (simp add: well_reported_def)
qed

lemma send_well_reported:
  assumes "re_plane env = recording p" "well_reported r" "rp_events r = batch @ rest" "batch \<noteq> []" "length batch \<le> max_batch"
  shows "well_reported (send_batch env batch (r\<lparr>rp_events := rest\<rparr>))"
  using assms by (auto simp: well_reported_def send_batch_log max_batch_def max_events_per_request_def)

lemma well_reported_cong:
  "well_reported r \<Longrightarrow> rp_events r' = rp_events r \<Longrightarrow> rp_world r' = rp_world r \<Longrightarrow> status_ok (rp_status r') \<Longrightarrow> well_reported r'"
  by (simp add: well_reported_def)

lemma well_reported_step:
  assumes "re_plane env = recording p" "well_reported r" "report_step env i r = Some r'"
  shows "well_reported r'"
proof (cases i)
  case (Observe e)
  then show ?thesis using assms observe_well_reported by auto
next
  case EventReady
  then obtain e es where e: "rp_events r = e # es" "r' = flush_events env e (r\<lparr>rp_events := es\<rparr>)"
    using assms(3) by (auto split: if_splits list.splits)
  have "r' = send_batch env (e # take (max_batch - 1) es) (r\<lparr>rp_events := drop (max_batch - 1) es\<rparr>)"
    using e by (simp add: flush_events_def drain_def)
  moreover have "well_reported (send_batch env (e # take (max_batch - 1) es) (r\<lparr>rp_events := drop (max_batch - 1) es\<rparr>))"
    by (rule send_well_reported [OF assms(1,2)]) (simp_all add: e max_batch_def)
  ultimately show ?thesis by simp
next
  case (Tick l j)
  then show ?thesis using assms heartbeat_well_reported [OF assms(1,2), of l j]
    by (auto simp: Let_def well_reported_def split: if_splits)
next
  case (ContextDone l j)
  let ?b = "take max_batch (rp_events r)"
  let ?r = "r\<lparr>rp_events := drop max_batch (rp_events r)\<rparr>"
  let ?s = "if ?b = [] then ?r else send_batch env ?b ?r"
  have "well_reported ?s"
    using send_well_reported [OF assms(1,2), of ?b "drop max_batch (rp_events r)"] assms(2)
    by (auto simp: max_batch_def well_reported_def)
  then have "well_reported (set_status ''offline'' ''the agent stopped'' ?s)"
    by (rule well_reported_cong) (simp_all add: status_ok_def)
  from heartbeat_well_reported [OF assms(1) this, of l j] show ?thesis
    using assms(3) ContextDone
    by (auto simp: final_report_def drain_def Let_def well_reported_def split: if_splits)
qed

lemma well_reported_run:
  "re_plane env = recording p \<Longrightarrow> well_reported r \<Longrightarrow> well_reported (report_run env ins r)"
  by (induction ins arbitrary: r) (auto split: option.splits dest: well_reported_step)



section \<open>Commands\<close>

text \<open>
  No command is left unanswered: of the commands that a heartbeat's reply carries, each is answered with
  one request, in their order and right after the heartbeat, with the credential the agent holds after it;
  a restart it can make is made and reported as done, every other command as failed, with a reason.
\<close>

theorem commands_answered:
  assumes "re_plane env = recording p"
  shows "let r' = send_heartbeat env load job r; cs = heartbeat_commands env load job r
    in fst (rp_world r') = fst (rp_world r) @ heartbeat_rq (rp_client r) (heartbeat_body env load job r)
        # map (\<lambda>(i, command). result_rq (rp_client r') i (answer env command)) cs
      \<and> rp_restarts r' = rp_restarts r + (if re_can_restart env then length (filter (\<lambda>(i, c). c = ''restart'') cs) else 0)
      \<and> (\<forall>command. answer env command = '''' \<longleftrightarrow> command = ''restart'' \<and> re_can_restart env)"
  using send_heartbeat_log [OF assms, of load job r] by (simp add: Let_def answer_def)

definition commanding_plane :: "unit plane" where
  "commanding_plane rq w = (Some \<lparr> cs_status = 200,
     cs_reply = RHeartbeat undefined 20 [(''1'', ''restart''), (''2'', ''dance'')] '''' \<rparr>, w)"

theorem commands_answered_witness:
  "let env = sample_report\<lparr>re_plane := recording commanding_plane\<rparr>;
       r' = send_heartbeat env \<lparr> ld_cpu = 0, ld_memory = 0, ld_disk = 0 \<rparr> empty_job sample_reporter
   in rp_restarts r' = 1 \<and> length (fst (rp_world r')) = 3"
proof -
  let ?env = "sample_report\<lparr>re_plane := recording commanding_plane\<rparr>"
  let ?l = "\<lparr> ld_cpu = 0, ld_memory = 0, ld_disk = 0 \<rparr>"
  have c: "heartbeat_commands ?env ?l empty_job sample_reporter = [(''1'', ''restart''), (''2'', ''dance'')]"
    by (simp add: heartbeat_commands_def cp_heartbeat_def cp_do_def recording_def commanding_plane_def is_json_def read_heartbeat_def)
  have "re_plane ?env = recording commanding_plane" by simp
  from commands_answered [OF this, of ?l empty_job sample_reporter] c show ?thesis
    by (simp add: sample_report_def sample_reporter_def new_reporter_def Let_def)
qed

section \<open>When reporting ends\<close>

definition refuses :: "cp_response option \<Rightarrow> bool" where
  "refuses res = (case res of Some s \<Rightarrow> cs_status s = 401 \<or> cs_status s = 403 | None \<Rightarrow> False)"

lemma cp_do_unauthorized:
  "cp_do plane c m path tok b wanted w = (Inl (Unauthorized x y), w') \<Longrightarrow> \<exists>rq. refuses (fst (plane rq w))"
  by (auto simp: cp_do_def response_error_def refuses_def Let_def
      split: prod.splits option.splits if_splits dest: arg_cong [where f = fst]) (metis fst_conv option.simps(5))+

lemma send_heartbeat_refused:
  assumes "rp_refused (send_heartbeat env load job r)" "\<not> rp_refused r"
  shows "\<exists>rq. refuses (fst (re_plane env rq (rp_world r)))"
proof -
  let ?h = "heartbeat_body env load job r"
  obtain res c w where h: "cp_heartbeat (re_plane env) ?h (rp_client r) (rp_world r) = (res, c, w)"
    by (metis prod.collapse)
  obtain x y where "res = Inl (Unauthorized x y)"
    using assms h by (cases res) (auto simp: send_heartbeat_def Let_def split: cp_error.splits prod.splits)
  then obtain w' where "cp_do (re_plane env) (rp_client r) ''POST'' [''agent'', ''heartbeat''] (cl_token (rp_client r))
      (Some (BodyHeartbeat ?h)) True (rp_world r) = (Inl (Unauthorized x y), w')"
    using h by (cases "cp_do (re_plane env) (rp_client r) ''POST'' [''agent'', ''heartbeat''] (cl_token (rp_client r))
      (Some (BodyHeartbeat ?h)) True (rp_world r)")
      (auto simp: cp_heartbeat_def Let_def split_beta split: sum.splits)
  from cp_do_unauthorized [OF this] show ?thesis .
qed

lemma report_step_going:
  assumes "\<forall>rq w. \<not> refuses (fst (re_plane env rq w))" "\<not> rp_refused r \<and> \<not> rp_done r"
    and "report_step env i r = Some r'" "\<forall>l j. i \<noteq> ContextDone l j"
  shows "\<not> rp_refused r' \<and> \<not> rp_done r'"
  using assms send_heartbeat_refused [of env _ _ r]
  by (cases i) (auto simp: observe_def flush_events_def drain_def Let_def split: if_splits list.splits)

lemma done_run: "rp_done r \<Longrightarrow> rp_done (report_run env ins r) \<and> rp_world (report_run env ins r) = rp_world r"
proof (induction ins arbitrary: r)
  case (Cons i ins)
  show ?case
  proof (cases i)
    case (Observe e)
    then show ?thesis using Cons.IH [of "observe env e r"] Cons.prems by (simp add: observe_def)
  qed (use Cons in simp_all)
qed simp

text \<open>
  An outage does not end reporting and a refusal does: as long as the control plane never answers with
  401 or 403, whatever else it answers or fails to, the loop goes on until the agent stops; and once it has
  ended no further request is made, whatever the supervisor still does.
\<close>

theorem reporting_survives_outages:
  assumes "\<forall>rq w. \<not> refuses (fst (re_plane env rq w))" "\<not> rp_refused r" "\<not> rp_done r"
    and "\<forall>l j. ContextDone l j \<notin> set ins"
  shows "\<not> rp_done (report_run env ins r)
    \<and> (\<forall>s later. rp_done s \<longrightarrow> rp_world (report_run env later s) = rp_world s)"
proof
  show "\<not> rp_done (report_run env ins r)"
    using assms
  proof (induction ins arbitrary: r)
    case (Cons i ins)
    have "\<forall>l j. i \<noteq> ContextDone l j" "\<forall>l j. ContextDone l j \<notin> set ins" using Cons.prems(4) by auto
    then show ?case using report_step_going [OF Cons.prems(1), of r i] Cons.prems Cons.IH
      by (auto split: option.splits)
  qed simp
  show "\<forall>s later. rp_done s \<longrightarrow> rp_world (report_run env later s) = rp_world s" using done_run by blast
qed

theorem reporting_survives_outages_witness:
  "\<not> rp_done (report_run (sample_report\<lparr>re_plane := \<lambda>rq w. (None, w)\<rparr>)
      [Tick \<lparr> ld_cpu = 0, ld_memory = 0, ld_disk = 0 \<rparr> empty_job, EventReady] sample_reporter)"
  by (rule reporting_survives_outages [THEN conjunct1])
    (simp_all add: refuses_def sample_reporter_def new_reporter_def)

text \<open>
  The last report is cut short: of the events waiting when the agent stops only the first hundred are
  sent, and the rest never are, although the buffer holds 256 and it is the last ones that say how the
  runner stopped.
\<close>

theorem final_report_cut_short:
  assumes "re_plane env = recording p" "\<not> rp_done r" "report_step env (ContextDone load job) r = Some r'"
  shows "rp_events r' = drop 100 (rp_events r)
    \<and> concat (batches (fst (rp_world (report_run env later r')))) = concat (batches (fst (rp_world r))) @ take 100 (rp_events r)"
proof -
  let ?b = "take max_batch (rp_events r)" and ?r = "r\<lparr>rp_events := drop max_batch (rp_events r)\<rparr>"
  let ?s = "set_status ''offline'' ''the agent stopped'' (if ?b = [] then ?r else send_batch env ?b ?r)"
  have r': "r' = (send_heartbeat env load job ?s)\<lparr>rp_done := True\<rparr>"
    using assms(2,3) by (simp add: final_report_def drain_def Let_def)
  have "batches (fst (rp_world r')) = batches (fst (rp_world ?s))"
    by (simp add: r' send_heartbeat_log(1) [OF assms(1)])
  also have "concat (batches (fst (rp_world ?s))) = concat (batches (fst (rp_world r))) @ ?b"
    by (simp add: send_batch_log [OF assms(1)])
  finally show ?thesis using done_run [of r' env later] by (simp add: r' max_batch_def)
qed

theorem final_report_cut_short_witness:
  "let es = replicate 150 \<lparr> ae_event = ''runner_exited'', ae_severity = ''warn'', ae_message = '''', ae_data = [] \<rparr>;
       r' = the (report_step sample_report (ContextDone \<lparr> ld_cpu = 0, ld_memory = 0, ld_disk = 0 \<rparr> empty_job)
              (sample_reporter\<lparr>rp_events := es\<rparr>))
   in length (rp_events r') = 50"
proof -
  let ?es = "replicate 150 \<lparr> ae_event = ''runner_exited'', ae_severity = ''warn'', ae_message = '''', ae_data = [] \<rparr>"
  let ?r = "sample_reporter\<lparr>rp_events := ?es\<rparr>"
  let ?i = "ContextDone \<lparr> ld_cpu = 0, ld_memory = 0, ld_disk = 0 \<rparr> empty_job"
  have nd: "\<not> rp_done ?r" by (simp add: sample_reporter_def new_reporter_def)
  then have "report_step sample_report ?i ?r = Some (the (report_step sample_report ?i ?r))" by simp
  from final_report_cut_short [OF _ nd this, of quiet_plane "[]"] show ?thesis
    by (simp add: sample_report_def Let_def)
qed

end
