(* ===== verification/Agent_Connected.thy ===== *)
theory Agent_Connected
  imports Agent_Correct Server_Agents
begin

text \<open>
  The agent and the server together: the reporter's requests are served by the model of the server, each
  with what the outside world supplies to the server at that moment. What holds of the credential across
  rotations, failing statements, rate limits and restarts of the agent.
\<close>

section \<open>The server as the agent's control plane\<close>

definition wire_request :: "cp_request \<Rightarrow> request" where
  "wire_request rq = \<lparr> rq_method = cq_method rq, rq_path = cq_path rq,
     rq_authorization = (if cq_token rq = '''' then '''' else ''Bearer '' @ cq_token rq),
     rq_forwarded_for = '''', rq_remote = ''192.0.2.7:40000'', rq_cookies = [], rq_query = [],
     rq_body = (case cq_body rq of None \<Rightarrow> BodyInvalid | Some b \<Rightarrow> b) \<rparr>"

text \<open>Each request finds the next of a list of environments; when there is none, nothing answers.\<close>

fun server_plane :: "server_config \<Rightarrow> (server \<times> env list) plane" where
  "server_plane cfg rq (s, []) = (None, (s, []))"
| "server_plane cfg rq (s, env # envs) =
     (case handle_request env cfg (wire_request rq) s of
        (resp, s) \<Rightarrow> (Some \<lparr> cs_status = rs_status resp, cs_reply = rs_reply resp \<rparr>, (s, envs)))"

text \<open>A token that a header carries unchanged, and environments whose random tokens are such.\<close>

definition tidy :: "string \<Rightarrow> bool" where
  "tidy t \<longleftrightarrow> t \<noteq> '''' \<and> trim_space t = t"

definition env_ok :: "(string \<Rightarrow> string) \<Rightarrow> env \<Rightarrow> bool" where
  "env_ok hash env \<longleftrightarrow> en_hash env = hash \<and> (\<forall>k s. en_rand env k = Some s \<longrightarrow> tidy (machine_prefix @ s))"

lemma bearer_wire: "tidy (cq_token rq) \<Longrightarrow> bearer_token (wire_request rq) = cq_token rq"
  by (auto simp: bearer_token_def wire_request_def Let_def tidy_def)

section \<open>One request\<close>

lemma authenticate_access:
  assumes "db_ok d" "gives_access hash token i d" "authenticate_machine hash now token d = (res, d')"
  shows "gives_access hash token i d' \<and> (case res of Inl e \<Rightarrow> e \<noteq> ErrTokenInvalid \<and> e \<noteq> ErrNotFound | Inr r \<Rightarrow> rn_id r = i)"
proof -
  let ?p = "\<lambda>t. mt_hash t = hash token \<and> mt_revoked t = None"
  obtain t where t: "t \<in> set (db_machine d)" "?p t" "mt_runner t = i" using assms(2) by (auto simp: gives_access_def)
  have "distinct (map mt_hash (db_machine d))" using assms(1) by (simp add: db_ok_def tokens_ok_def)
  then obtain u where u: "find ?p (db_machine d) = Some u" "mt_runner u = i"
    using t by (cases "find ?p (db_machine d)") (auto simp: find_None_conv dest!: find_Some_conv dest: key_unique)
  have ex: "runner_exists d i" using assms(2) by (simp add: gives_access_def)
  then obtain r where r: "find (\<lambda>x. rn_id x = i) (db_runners d) = Some r" "rn_id r = i"
    by (cases "find (\<lambda>x. rn_id x = i) (db_runners d)")
      (auto simp: runner_exists_def find_None_conv dest: find_Some_conv)
  have uuid: "is_uuid i" using assms(1) ex by (auto simp: runner_exists_def dest: runners_okD)
  have pre: "prefix machine_prefix token" using assms(2) by (simp add: gives_access_def)
  let ?m = "update_where ?p (\<lambda>t. t\<lparr>mt_last_used := Some now\<rparr>) (db_machine d)"
  have "t\<lparr>mt_last_used := Some now\<rparr> \<in> set ?m" using t by (auto simp: set_update_where)
  then have used: "\<exists>t\<in>set ?m. mt_hash t = hash token \<and> mt_revoked t = None \<and> mt_runner t = i"
    using t by (intro bexI [of _ "t\<lparr>mt_last_used := Some now\<rparr>"]) auto
  have "db_runners d' = db_runners d \<and> (db_machine d' = db_machine d \<or> db_machine d' = ?m)
      \<and> (case res of Inl e \<Rightarrow> e = ErrDatabase | Inr x \<Rightarrow> x = r)"
    using assms(3) u r uuid pre
    by (auto simp: authenticate_machine_def get_runner_def Let_def split: prod.splits if_splits dest!: stmtD stmtF)
  then show ?thesis using assms(2) used r pre
    by (auto simp: gives_access_def runner_exists_def split: sum.splits)
qed

text \<open>The credential that a reply leaves the agent with, and that none of these replies is a refusal.\<close>

definition token_after :: "string \<Rightarrow> response \<Rightarrow> string" where
  "token_after token resp =
     (case rs_reply resp of RHeartbeat _ _ _ new \<Rightarrow> (if new = '''' then token else new) | _ \<Rightarrow> token)"

definition good_response :: "(string \<Rightarrow> string) \<Rightarrow> string \<Rightarrow> string \<Rightarrow> response \<Rightarrow> db \<Rightarrow> bool" where
  "good_response hash token i resp d \<longleftrightarrow> rs_status resp \<notin> {401, 403}
     \<and> (case rs_reply resp of RHeartbeat _ _ _ _ \<Rightarrow> rs_status resp = 200 | _ \<Rightarrow> True)
     \<and> tidy (token_after token resp) \<and> gives_access hash (token_after token resp) i d"

definition plain_reply :: "response \<Rightarrow> bool" where
  "plain_reply resp \<longleftrightarrow> rs_status resp \<notin> {401, 403} \<and> (\<forall>a b c d. rs_reply resp \<noteq> RHeartbeat a b c d)"

lemma plain_replies [simp]:
  "plain_reply fail_internal" "plain_reply (fail_store e)" "plain_reply (fail 404 x)" "plain_reply (fail 400 x)"
  "plain_reply (fail 413 x)" "plain_reply (write_json 200 RRecorded)" "plain_reply (write_json 200 (RStored n))"
  "plain_reply ((fail 429 x)\<lparr>rs_retry_after := y\<rparr>)"
  by (simp_all add: plain_reply_def fail_internal_def fail_store_def fail_def write_json_def)

lemma good_plain: "plain_reply resp \<Longrightarrow> tidy token \<Longrightarrow> gives_access hash token i d \<Longrightarrow> good_response hash token i resp d"
  by (auto simp: good_response_def plain_reply_def token_after_def split: reply.splits)

lemma decode_plain: "decode f rq = Inl x \<Longrightarrow> plain_reply x"
  by (auto simp: decode_def split: body.splits option.splits)

lemma held_token_after: "held_token rq resp = token_after (bearer_token rq) resp"
  by (simp add: held_token_def token_after_def)

lemma rotated_tidy:
  assumes "rotate_machine_token_if_old hash oob j rnd now i age d = (Inr (new, b), d')" "new \<noteq> ''''"
    and "\<forall>s. rnd = Some s \<longrightarrow> tidy (machine_prefix @ s)"
  shows "tidy new"
proof -
  obtain ok d1 where st: "stmt (is_uuid i) d = (ok, d1)" by fastforce
  obtain r d2 where iss: "issue_machine_token hash j rnd now i d1 = (r, d2)" by fastforce
  have "case r of Inl _ \<Rightarrow> True | Inr t \<Rightarrow> tidy t"
    using iss by (cases rule: issue_machine_token_cases) (use assms(3) in auto)
  then show ?thesis using assms(1,2) st iss
    by (auto simp: rotate_machine_token_if_old_def Let_def split: if_splits list.splits sum.splits prod.splits)
qed

lemma heartbeat_good:
  assumes "gives_access (en_hash env) (bearer_token rq) (rn_id r) (sv_db s)" "tidy (bearer_token rq)"
    and "\<forall>k s. en_rand env k = Some s \<longrightarrow> tidy (machine_prefix @ s)"
    and "handle_agent_heartbeat r env cfg rq s = (resp, s')"
  shows "good_response (en_hash env) (bearer_token rq) (rn_id r) resp (sv_db s')"
proof -
  have g: "gives_access (en_hash env) (token_after (bearer_token rq) resp) (rn_id r) (sv_db s')"
    using heartbeat_handler_access [OF assms(1,4)] by (simp add: held_token_after)
  show ?thesis
  proof (cases "plain_reply resp")
    case True
    then have "token_after (bearer_token rq) resp = bearer_token rq"
      by (auto simp: plain_reply_def token_after_def split: reply.splits)
    then show ?thesis using True assms(2) g by (simp add: good_plain)
  next
    case False
    then obtain req where req: "decode body_heartbeat rq = Inr req"
      using assms(4) decode_plain by (cases "decode body_heartbeat rq") (auto simp: handle_agent_heartbeat_def)
    let ?hb = "\<lparr> hb_status = hr_status req, hb_detail = hr_detail req, hb_cpu = hr_cpu req,
       hb_memory = hr_memory req, hb_disk = hr_disk req, hb_runner_version = hr_runner_version req,
       hb_agent_version = hr_agent_version req \<rparr>"
    obtain r1 d1 where 1: "record_heartbeat (en_dbnow env) (rn_id r) ?hb (sv_db s) = (r1, d1)" by fastforce
    obtain r2 d2 where 2: "take_commands (en_dbnow env) (rn_id r) d1 = (r2, d2)" by fastforce
    obtain r3 d3 where 3: "rotate_machine_token_if_old (en_hash env) (en_oob env) (en_id env 0) (en_rand env 0)
       (en_dbnow env) (rn_id r) (sc_token_lifetime cfg) d2 = (r3, d3)" by fastforce
    obtain u where u: "r1 = Inr u" using assms(4) req 1 False
      by (cases r1) (auto simp: handle_agent_heartbeat_def on_db_def split: if_splits)
    have reply: "\<exists>n cs. resp = write_json 200 (RHeartbeat u n cs (case r3 of Inl _ \<Rightarrow> '''' | Inr x \<Rightarrow> fst x))"
      using assms(4) req 1 2 3 u False
      by (cases r3) (auto simp: handle_agent_heartbeat_def on_db_def Let_def split: if_splits prod.splits)
    have "tidy (token_after (bearer_token rq) resp)"
      using reply assms(2) rotated_tidy [OF 3 [THEN trans]] assms(3)
    proof (cases r3)
      case (Inr x)
      obtain new b where x: "x = (new, b)" by (cases x)
      have "new \<noteq> '''' \<Longrightarrow> tidy new" using rotated_tidy [of "en_hash env" _ _ _ _ _ _ d2 new b d3] 3 Inr x assms(3) by blast
      then show ?thesis using reply Inr x assms(2) by (auto simp: token_after_def write_json_def)
    qed (use reply assms(2) in \<open>auto simp: token_after_def write_json_def\<close>)
    then show ?thesis using reply g by (auto simp: good_response_def write_json_def)
  qed
qed

lemma insert_events_access:
  "insert_events now es n d = (res, d') \<Longrightarrow> db_machine d' = db_machine d \<and> db_runners d' = db_runners d"
proof (induction es arbitrary: n d)
  case (Cons e es)
  obtain x d1 where x: "insert_event now e d = (x, d1)" by fastforce
  then have "db_machine d1 = db_machine d \<and> db_runners d1 = db_runners d"
    by (cases rule: insert_event_cases) simp_all
  then show ?case using Cons.prems Cons.IH x by (auto split: if_splits sum.splits)
qed simp

lemma record_events_access:
  assumes "record_events now es d = (res, d')"
  shows "gives_access hash token i d' = gives_access hash token i d"
proof -
  have "db_machine d' = db_machine d \<and> db_runners d' = db_runners d"
    using assms
    by (auto simp: record_events_def Let_def split: if_splits prod.splits sum.splits dest!: insert_events_access stmtD)
  then show ?thesis by (simp add: gives_access_def runner_exists_def)
qed

lemma complete_command_access:
  "complete_command now i c e d = (res, d') \<Longrightarrow> gives_access hash token j d' = gives_access hash token j d"
  by (rule gives_access_cong) (auto simp: complete_command_def Let_def split: if_splits prod.splits dest!: stmtD)

lemma events_good:
  assumes "gives_access (en_hash env) (bearer_token rq) (rn_id r) (sv_db s)" "tidy (bearer_token rq)"
    and "handle_agent_events r env cfg rq s = (resp, s')"
  shows "good_response (en_hash env) (bearer_token rq) (rn_id r) resp (sv_db s') \<and> plain_reply resp"
  using assms
  by (auto simp: handle_agent_events_def on_db_def Let_def record_events_access
      split: sum.splits if_splits prod.splits intro!: good_plain dest: decode_plain)

lemma command_result_good:
  assumes "gives_access (en_hash env) (bearer_token rq) (rn_id r) (sv_db s)" "tidy (bearer_token rq)"
    and "handle_agent_command_result c r env cfg rq s = (resp, s')"
  shows "good_response (en_hash env) (bearer_token rq) (rn_id r) resp (sv_db s') \<and> plain_reply resp"
  using assms
  by (auto simp: handle_agent_command_result_def on_db_def Let_def complete_command_access
      split: sum.splits if_splits prod.splits intro!: good_plain dest: decode_plain)

section \<open>The agent's endpoints\<close>

definition agent_endpoint :: "endpoint \<Rightarrow> bool" where
  "agent_endpoint e = (case e of EAgentHeartbeat \<Rightarrow> True | EAgentEvents \<Rightarrow> True | EAgentCommandResult _ \<Rightarrow> True
     | ENotFound \<Rightarrow> True | _ \<Rightarrow> False)"

lemma require_machine_good:
  assumes "db_ok (sv_db s)" "gives_access (en_hash env) (bearer_token rq) i (sv_db s)" "tidy (bearer_token rq)"
    and "require_machine h env cfg rq s = (resp, s')"
    and "\<And>r s1. rn_id r = i \<Longrightarrow> gives_access (en_hash env) (bearer_token rq) i (sv_db s1) \<Longrightarrow> h r env cfg rq s1 = (resp, s') \<Longrightarrow>
      good_response (en_hash env) (bearer_token rq) i resp (sv_db s') \<and> (q \<longrightarrow> plain_reply resp)"
  shows "good_response (en_hash env) (bearer_token rq) i resp (sv_db s') \<and> (q \<longrightarrow> plain_reply resp)"
proof -
  obtain res d where a: "authenticate_machine (en_hash env) (en_dbnow env) (bearer_token rq) (sv_db s) = (res, d)"
    by fastforce
  note acc = authenticate_access [OF assms(1,2) a]
  have ne: "bearer_token rq \<noteq> ''''" using assms(3) by (simp add: tidy_def)
  show ?thesis
  proof (cases res)
    case (Inl e)
    then have "resp = fail_internal \<and> s' = s\<lparr>sv_db := d\<rparr>"
      using assms(4) a ne acc by (auto simp: require_machine_def on_db_def Let_def)
    then show ?thesis using acc assms(3) by (simp add: good_plain)
  next
    case (Inr r)
    then have "h r env cfg rq (s\<lparr>sv_db := d\<rparr>) = (resp, s')"
      using assms(4) a ne by (simp add: require_machine_def on_db_def Let_def)
    then show ?thesis using assms(5) [of r "s\<lparr>sv_db := d\<rparr>"] acc Inr by simp
  qed
qed

lemma serve_good:
  assumes "db_ok (sv_db s)" "gives_access (en_hash env) (bearer_token rq) i (sv_db s)" "tidy (bearer_token rq)"
    and "\<forall>k s. en_rand env k = Some s \<longrightarrow> tidy (machine_prefix @ s)" "agent_endpoint e"
    and "serve e env cfg rq s = (resp, s')"
  shows "good_response (en_hash env) (bearer_token rq) i resp (sv_db s') \<and> (e \<noteq> EAgentHeartbeat \<longrightarrow> plain_reply resp)"
proof (cases e)
  case EAgentHeartbeat
  then show ?thesis using require_machine_good [OF assms(1-3), where q = False] assms(6) heartbeat_good [OF _ assms(3,4)] by fastforce
next
  case EAgentEvents
  then show ?thesis using require_machine_good [OF assms(1-3), where q = True] assms(6) events_good [OF _ assms(3)] by fastforce
next
  case (EAgentCommandResult c)
  then show ?thesis using require_machine_good [OF assms(1-3), where q = True] assms(6) command_result_good [OF _ assms(3)] by fastforce
next
  case ENotFound
  then show ?thesis using assms(2,3,6) by (auto intro!: good_plain)
qed (use assms(5) in \<open>simp_all add: agent_endpoint_def\<close>)

lemma handle_request_good:
  assumes "db_ok (sv_db s)" "gives_access (en_hash env) (bearer_token rq) i (sv_db s)" "tidy (bearer_token rq)"
    and "\<forall>k s. en_rand env k = Some s \<longrightarrow> tidy (machine_prefix @ s)" "agent_endpoint (route (rq_method rq) (rq_path rq))"
    and "handle_request env cfg rq s = (resp, s')"
  shows "good_response (en_hash env) (bearer_token rq) i resp (sv_db s') \<and> db_ok (sv_db s')
    \<and> (route (rq_method rq) (rq_path rq) \<noteq> EAgentHeartbeat \<longrightarrow> plain_reply resp)"
proof -
  let ?q = "route (rq_method rq) (rq_path rq) \<noteq> EAgentHeartbeat"
  have ok: "db_ok (sv_db s')" using schema.every_request_kept [THEN keptD, OF assms(6,1)] .
  obtain r1 s1 where lim: "limited sv_general put_general mux env cfg rq s = (r1, s1)" by fastforce
  have r: "resp = r1" "sv_db s' = sv_db s1"
    using assms(6) lim by (auto simp: handle_request_def with_request_log_def Let_def)
  have mux: "good_response (en_hash env) (bearer_token rq) i r1 (sv_db s1) \<and> (?q \<longrightarrow> plain_reply r1)" if "mux env cfg rq t = (r1, s1)" "sv_db t = sv_db s" for t
    using serve_good [OF _ _ assms(3-5), of t i cfg r1 s1] that assms(1,2) by (simp add: mux_def)
  have "good_response (en_hash env) (bearer_token rq) i resp (sv_db s') \<and> (?q \<longrightarrow> plain_reply resp)"
  proof (cases "sv_general s")
    case None
    then show ?thesis using lim mux [of s] r by (simp add: limited_def)
  next
    case (Some l)
    obtain b w l' where a: "allow (en_oob env) (en_now env) (client_key cfg rq) l = ((b, w), l')" by (metis prod.collapse)
    show ?thesis
    proof (cases b)
      case True
      then show ?thesis using lim mux [of "put_general l' s"] r Some a by (simp add: limited_def put_general_def)
    next
      case False
      then have "plain_reply r1 \<and> sv_db s1 = sv_db s"
        using lim Some a by (auto simp: limited_def put_general_def Let_def)
      then show ?thesis using r good_plain assms(2,3) by metis
    qed
  qed
  then show ?thesis using ok by blast
qed

section \<open>The reporter\<close>

definition linked :: "(string \<Rightarrow> string) \<Rightarrow> string \<Rightarrow> cp_client \<Rightarrow> server \<times> env list \<Rightarrow> bool" where
  "linked hash i c w \<longleftrightarrow> db_ok (sv_db (fst w)) \<and> gives_access hash (cl_token c) i (sv_db (fst w))
     \<and> tidy (cl_token c) \<and> (\<forall>env\<in>set (snd w). env_ok hash env)"

definition agent_path :: "string list \<Rightarrow> bool" where
  "agent_path path \<longleftrightarrow> agent_endpoint (route ''POST'' ([''api'', ''v1''] @ path))"

lemma agent_paths [simp]:
  "agent_path [''agent'', ''heartbeat'']" "agent_path [''agent'', ''events'']"
  "agent_path [''agent'', ''commands'', i, ''result'']"
  "route ''POST'' [''api'', ''v1'', ''agent'', ''events''] \<noteq> EAgentHeartbeat"
  "route ''POST'' [''api'', ''v1'', ''agent'', ''commands'', i, ''result''] \<noteq> EAgentHeartbeat"
  by (simp_all add: agent_path_def route_def route_v1_def route_agent_def is_get_def agent_endpoint_def)

lemma cp_do_linked:
  assumes "linked hash i c w" "agent_path path"
    and "cp_do (server_plane cfg) c ''POST'' path (cl_token c) (Some b) True w = (res, w')
       \<or> cp_do (server_plane cfg) c ''POST'' path (cl_token c) (Some b) False w = (res, w')"
  shows "(\<forall>x y. res \<noteq> Inl (Unauthorized x y))
    \<and> (case res of Inr (RHeartbeat _ _ _ new) \<Rightarrow> linked hash i (if new \<noteq> '''' then c\<lparr>cl_token := new\<rparr> else c) w'
         | _ \<Rightarrow> linked hash i c w')
    \<and> (route ''POST'' ([''api'', ''v1''] @ path) \<noteq> EAgentHeartbeat \<longrightarrow> linked hash i c w')"
proof (cases "snd w")
  case Nil
  then obtain s where w: "w = (s, [])" by (cases w) auto
  then have "res = Inl Unreachable \<and> w' = w" using assms(3) by (auto simp: cp_do_def)
  then show ?thesis using assms(1) by simp
next
  case (Cons env envs)
  then obtain s where w: "w = (s, env # envs)" by (cases w) auto
  let ?rq = "wire_request \<lparr> cq_method = ''POST'', cq_base = cl_base c, cq_path = [''api'', ''v1''] @ path,
     cq_token = cl_token c, cq_body = Some b \<rparr>"
  obtain resp s' where h: "handle_request env cfg ?rq s = (resp, s')" by fastforce
  have env: "en_hash env = hash" "\<forall>k s. en_rand env k = Some s \<longrightarrow> tidy (machine_prefix @ s)" "\<forall>e\<in>set envs. env_ok hash e"
    using assms(1) w by (auto simp: linked_def env_ok_def)
  have tidy: "tidy (cl_token c)" using assms(1) by (simp add: linked_def)
  then have b: "bearer_token ?rq = cl_token c" using bearer_wire by force
  have p: "rq_method ?rq = ''POST''" "rq_path ?rq = [''api'', ''v1''] @ path" by (simp_all add: wire_request_def)
  have good: "good_response hash (cl_token c) i resp (sv_db s') \<and> db_ok (sv_db s')
    \<and> (route ''POST'' ([''api'', ''v1''] @ path) \<noteq> EAgentHeartbeat \<longrightarrow> plain_reply resp)"
    using handle_request_good [OF _ _ _ env(2) _ h, of i] assms(1,2) b w env(1) p
    by (simp add: linked_def agent_path_def)
  have w': "w' = (s', envs)" using assms(3) w h by (auto simp: cp_do_def split: if_splits)
  have res: "res = (if rs_status resp < 200 \<or> 299 < rs_status resp then Inl (response_error \<lparr> cs_status = rs_status resp, cs_reply = rs_reply resp \<rparr>)
      else Inr (rs_reply resp)) \<or> res = Inl BadReply \<and> (\<forall>a b c d. rs_reply resp \<noteq> RHeartbeat a b c d)"
    using assms(3) w h by (auto simp: cp_do_def is_json_def split: if_splits reply.splits)
  have plain: "linked hash i c w'" if "\<forall>a b c d. rs_reply resp \<noteq> RHeartbeat a b c d"
    using that good env(3) w' by (auto simp: linked_def good_response_def token_after_def split: reply.splits)
  show ?thesis
  proof (cases "\<exists>a b c d. rs_reply resp = RHeartbeat a b c d")
    case True
    then obtain a n cs new where rep: "rs_reply resp = RHeartbeat a n cs new" by blast
    then have "rs_status resp = 200" using good by (simp add: good_response_def)
    then have r: "res = Inr (RHeartbeat a n cs new)" using res rep by auto
    have "linked hash i (if new \<noteq> '''' then c\<lparr>cl_token := new\<rparr> else c) w'"
      using good env(3) w' rep by (auto simp: linked_def good_response_def token_after_def split: if_splits)
    moreover have "\<not> plain_reply resp" using rep by (simp add: plain_reply_def)
    ultimately show ?thesis using r good by simp
  next
    case False
    have "rs_status resp \<notin> {401, 403}" using good by (simp add: good_response_def)
    then have "\<forall>x y. response_error \<lparr> cs_status = rs_status resp, cs_reply = rs_reply resp \<rparr> \<noteq> Unauthorized x y"
      by (simp add: response_error_def Let_def)
    then have "(\<forall>x y. res \<noteq> Inl (Unauthorized x y)) \<and> (\<forall>a b c d. res \<noteq> Inr (RHeartbeat a b c d))"
      using res False by (auto split: if_splits)
    then show ?thesis using plain False by (auto split: reply.splits sum.splits)
  qed
qed

text \<open>The callback that keeps a rotated credential, on a disk whose calls succeed.\<close>

definition keep_token :: "go_time \<Rightarrow> string \<Rightarrow> string \<Rightarrow> string \<Rightarrow> string \<Rightarrow> credentials disk \<Rightarrow> bool \<times> credentials disk" where
  "keep_token now path server i token d =
     (case persist_machine_token now path server i token d of (res, d) \<Rightarrow> (case res of Inl _ \<Rightarrow> False | Inr _ \<Rightarrow> True, d))"

definition on_disk :: "string \<Rightarrow> string \<Rightarrow> string \<Rightarrow> string \<Rightarrow> credentials disk \<Rightarrow> bool" where
  "on_disk path server i token d \<longleftrightarrow> dk_faults d = [] \<and>
     (\<exists>m. machine_at path server d = Some m \<and> mc_token m = token \<and> mc_runner_id m = i)"

lemma on_disk_not_garbage: "on_disk path server i token d \<Longrightarrow> dk_files d path \<noteq> Some Garbage"
  by (auto simp: on_disk_def machine_at_def creds_at_def no_credentials_def)

lemma persist_on_disk:
  assumes "dk_faults d = []" "dk_files d path \<noteq> Some Garbage" "token \<noteq> ''''"
  shows "\<exists>d'. persist_machine_token now path server i token d = (Inr (), d') \<and> on_disk path server i token d'"
proof -
  let ?m = "\<lparr> mc_runner_id = i, mc_token = token, mc_enrolled = zero_time \<rparr>"
  obtain c where c: "load_credentials path d = (Inr c, next_call d)"
    using assms(1,2)
    by (cases "dk_files d path"; cases "the (dk_files d path)") (auto simp: load_credentials_def read_file_def)
  obtain d' where d': "store_machine path now server ?m d = (Inr (), d')" "dk_faults d' = []"
    using assms(1,3) c
    by (simp add: store_machine_def save_file_def mkdir_all_def write_file_def Let_def)
  have "machine_at path server d' = Some (stamp_machine now ?m)" using machines.look_put [OF d'(1)] by simp
  then have "on_disk path server i token d'" using d'(2) by (simp add: on_disk_def stamp_machine_def)
  then show ?thesis using d'(1) by (simp add: persist_machine_token_def)
qed

definition agent_env_ok :: "server_config \<Rightarrow> go_time \<Rightarrow> string \<Rightarrow> string \<Rightarrow> string
    \<Rightarrow> (credentials disk, server \<times> env list) report_env \<Rightarrow> bool" where
  "agent_env_ok cfg now path server i env \<longleftrightarrow> re_plane env = server_plane cfg \<and> re_on_token env = Some (keep_token now path server i)"

definition settled :: "(string \<Rightarrow> string) \<Rightarrow> string \<Rightarrow> string \<Rightarrow> string \<Rightarrow> (credentials disk, server \<times> env list) reporter \<Rightarrow> bool" where
  "settled hash i path server r \<longleftrightarrow> linked hash i (rp_client r) (rp_world r) \<and> \<not> rp_refused r
     \<and> on_disk path server i (cl_token (rp_client r)) (rp_store r)
     \<and> (rp_last_token r = '''' \<or> rp_last_token r = cl_token (rp_client r))"

lemma settled_cong:
  "settled hash i path server r \<Longrightarrow> rp_client r' = rp_client r \<Longrightarrow> rp_world r' = rp_world r \<Longrightarrow> rp_refused r' = rp_refused r
   \<Longrightarrow> rp_store r' = rp_store r \<Longrightarrow> rp_last_token r' = rp_last_token r \<Longrightarrow> settled hash i path server r'"
  by (simp add: settled_def)

lemma observe_settled: "settled hash i path server r \<Longrightarrow> settled hash i path server (observe env e r)"
  by (rule settled_cong) (cases "ev_kind e"; simp add: observe_def enqueue_def observe_status_def set_status_def)+

lemma send_batch_settled:
  assumes "agent_env_ok cfg now path server i env" "settled hash i path server r" "batch \<noteq> []"
  shows "settled hash i path server (send_batch env batch r)"
proof -
  let ?c = "rp_client r"
  obtain res w where d: "cp_do (server_plane cfg) ?c ''POST'' [''agent'', ''events''] (cl_token ?c) (Some (BodyEvents batch)) True (rp_world r)
      = (res, w)" by (metis prod.collapse)
  have "linked hash i ?c w"
    using cp_do_linked [OF _ _ disjI1 [OF d], of hash i] assms(2) by (simp add: settled_def)
  moreover have "rp_world (send_batch env batch r) = w"
    using assms(1,3) d by (cases res) (auto simp: send_batch_def cp_send_events_def agent_env_ok_def)
  ultimately show ?thesis using assms(2) by (simp add: settled_def) (simp add: send_batch_def)
qed

lemma run_commands_settled:
  assumes "agent_env_ok cfg now path server i env"
  shows "settled hash i path server r \<Longrightarrow> settled hash i path server (run_commands env cs r)"
proof (induction cs arbitrary: r)
  case (Cons x cs)
  obtain j command where x: "x = (j, command)" by fastforce
  obtain failure r1 where r1: "run_command env command r = (failure, r1)" by fastforce
  then have s1: "settled hash i path server r1" using Cons.prems
    by (auto simp: run_command_def settled_def split: if_splits)
  let ?c = "rp_client r1"
  obtain res w where d: "cp_do (server_plane cfg) ?c ''POST'' [''agent'', ''commands'', j, ''result''] (cl_token ?c)
      (Some (BodyCommandResult failure)) False (rp_world r1) = (res, w)" by (metis prod.collapse)
  have "linked hash i ?c w"
    using cp_do_linked [OF _ _ disjI2 [OF d], of hash i] s1 by (simp add: settled_def)
  then have "settled hash i path server (r1\<lparr>rp_world := w\<rparr>)" using s1 by (simp add: settled_def)
  moreover have "cp_complete_command (re_plane env) j failure ?c (rp_world r1) = (case res of Inl e \<Rightarrow> Inl e | Inr _ \<Rightarrow> Inr (), w)"
    using assms d by (cases res) (simp_all add: cp_complete_command_def agent_env_ok_def)
  ultimately show ?case using Cons.IH r1 x by simp
qed simp

lemma send_heartbeat_settled:
  assumes "agent_env_ok cfg now path server i env" "settled hash i path server r"
  shows "settled hash i path server (send_heartbeat env load job r)"
proof -
  let ?c = "rp_client r" and ?h = "heartbeat_body env load job r"
  obtain res w where d: "cp_do (server_plane cfg) ?c ''POST'' [''agent'', ''heartbeat''] (cl_token ?c) (Some (BodyHeartbeat ?h)) True (rp_world r)
      = (res, w)" by (metis prod.collapse)
  note conn = cp_do_linked [OF _ _ disjI1 [OF d], of hash i]
  have c0: "linked hash i ?c (rp_world r)" using assms(2) by (simp add: settled_def)
  have env: "re_plane env = server_plane cfg" "re_on_token env = Some (keep_token now path server i)"
    using assms(1) by (simp_all add: agent_env_ok_def)
  show ?thesis
  proof (cases res)
    case (Inl e)
    then have "linked hash i ?c w" "\<forall>x y. e \<noteq> Unauthorized x y" using conn c0 by auto
    then show ?thesis using Inl d env assms(2)
      by (cases e) (auto simp: send_heartbeat_def cp_heartbeat_def Let_def settled_def)
  next
    case (Inr rep)
    obtain cs token where ct: "read_heartbeat rep = (cs, token)" by fastforce
    let ?c' = "if token \<noteq> '''' then ?c\<lparr>cl_token := token\<rparr> else ?c"
    have cw: "linked hash i ?c' w" using conn c0 Inr ct
      by (auto simp: read_heartbeat_def split: reply.splits)
    let ?r = "r\<lparr>rp_dropped := 0, rp_client := ?c', rp_world := w\<rparr>"
    have sh: "send_heartbeat env load job r = run_commands env cs (persist_token env token ?r)"
      using Inr d env ct by (simp add: send_heartbeat_def cp_heartbeat_def Let_def)
    have "settled hash i path server (persist_token env token ?r)"
    proof (cases "token = '''' \<or> token = rp_last_token r")
      case True
      have "cl_token ?c' = cl_token ?c"
        using True assms(2) by (cases "token = ''''") (auto simp: settled_def)
      then have "settled hash i path server ?r" using assms(2) cw by (simp add: settled_def)
      then show ?thesis using True env by (simp add: persist_token_def)
    next
      case False
      have ng: "dk_files (rp_store r) path \<noteq> Some Garbage" "dk_faults (rp_store r) = []"
      proof -
      have od: "on_disk path server i (cl_token (rp_client r)) (rp_store r)" using assms(2) by (simp add: settled_def)
      show "dk_files (rp_store r) path \<noteq> Some Garbage" by (rule on_disk_not_garbage [OF od])
      show "dk_faults (rp_store r) = []" using od by (simp add: on_disk_def)
    qed
      obtain d' where d': "persist_machine_token now path server i token (rp_store r) = (Inr (), d')" "on_disk path server i token d'"
        using persist_on_disk [OF ng(2,1)] False by blast
      have "persist_token env token ?r = ?r\<lparr>rp_last_token := token, rp_store := d'\<rparr>"
        using False env d'(1) by (simp add: persist_token_def keep_token_def)
      then show ?thesis using False cw d'(2) assms(2) by (simp add: settled_def)
    qed
    then show ?thesis unfolding sh by (rule run_commands_settled [OF assms(1)])
  qed
qed

lemma report_step_settled:
  assumes "agent_env_ok cfg now path server i env" "settled hash i path server r" "report_step env x r = Some r'"
  shows "settled hash i path server r'"
proof (cases x)
  case (Observe e)
  then show ?thesis using assms observe_settled by auto
next
  case EventReady
  then obtain e es where e: "rp_events r = e # es" "r' = flush_events env e (r\<lparr>rp_events := es\<rparr>)"
    using assms(3) by (auto split: if_splits list.splits)
  have "settled hash i path server (r\<lparr>rp_events := drop (max_batch - 1) es\<rparr>)"
    by (rule settled_cong [OF assms(2)]) simp_all
  from send_batch_settled [OF assms(1) this, of "e # take (max_batch - 1) es"] e show ?thesis
    by (simp add: flush_events_def drain_def)
next
  case (Tick l j)
  have "settled hash i path server (send_heartbeat env l j r)" by (rule send_heartbeat_settled [OF assms(1,2)])
  then show ?thesis using assms(3) Tick by (auto simp: Let_def split: if_splits elim: settled_cong)
next
  case (ContextDone l j)
  let ?b = "take max_batch (rp_events r)" and ?r = "r\<lparr>rp_events := drop max_batch (rp_events r)\<rparr>"
  have "settled hash i path server ?r" by (rule settled_cong [OF assms(2)]) simp_all
  then have "settled hash i path server (if ?b = [] then ?r else send_batch env ?b ?r)"
    using send_batch_settled [OF assms(1)] by auto
  then have "settled hash i path server (set_status ''offline'' ''the agent stopped'' (if ?b = [] then ?r else send_batch env ?b ?r))"
    by (rule settled_cong) (simp_all add: set_status_def)
  from send_heartbeat_settled [OF assms(1) this, of l j] show ?thesis
    using assms(3) ContextDone by (auto simp: final_report_def drain_def Let_def split: if_splits elim: settled_cong)
qed

lemma report_run_settled:
  "agent_env_ok cfg now path server i env \<Longrightarrow> settled hash i path server r \<Longrightarrow> settled hash i path server (report_run env ins r)"
  by (induction ins arbitrary: r) (auto split: option.splits dest: report_step_settled)

section \<open>Enrollment\<close>

lemma register_token:
  assumes "handle_agent_register env cfg rq s = (resp, s')" "rs_reply resp = RRegistered r token n"
  shows "\<exists>x. en_rand env 0 = Some x \<and> token = machine_prefix @ x"
proof -
  have nf: "rs_reply (fail a b) \<noteq> RRegistered r token n" "rs_reply fail_internal \<noteq> RRegistered r token n" for a b
    by (simp_all add: fail_def fail_internal_def write_json_def)
  have nd: "decode body_register rq = Inl x \<Longrightarrow> rs_reply x \<noteq> RRegistered r token n" for x
    by (auto simp: decode_def nf split: body.splits option.splits)
  obtain req where req: "decode body_register rq = Inr req"
    using assms nf nd by (cases "decode body_register rq") (auto simp: handle_agent_register_def Let_def split: if_splits)
  obtain r1 d1 where 1: "redeem_enrollment_token (en_hash env) (en_dbnow env) (bearer_token rq) (sv_db s) = (r1, d1)"
    by fastforce
  obtain r2 d2 where 2: "upsert_runner (en_id env 0) (en_dbnow env) req d1 = (r2, d2)" by fastforce
  obtain u where u: "r2 = Inr u"
    using assms nf req 1 2 by (cases r2) (auto simp: handle_agent_register_def on_db_def Let_def split: if_splits sum.splits)
  obtain r3 d3 where 3: "issue_machine_token (en_hash env) (en_id env 1) (en_rand env 0) (en_dbnow env) (rn_id u) d2 = (r3, d3)"
    by fastforce
  have "r3 = Inr token"
    using assms nf req 1 2 u 3
    by (cases r3) (auto simp: handle_agent_register_def on_db_def Let_def write_json_def split: if_splits sum.splits)
  with 3 show ?thesis by (cases rule: issue_machine_token_cases) auto
qed

lemma route_register: "route ''POST'' ([''api'', ''v1''] @ [''agent'', ''register'']) = EAgentRegister"
  by (simp add: route_def route_v1_def route_agent_def is_get_def)

lemma request_register:
  assumes "handle_request env cfg rq s = (resp, s')" "rs_reply resp = RRegistered r token n"
    and "route (rq_method rq) (rq_path rq) = EAgentRegister"
  shows "gives_access (en_hash env) token (rn_id r) (sv_db s') \<and> (\<exists>x. en_rand env 0 = Some x \<and> token = machine_prefix @ x)"
proof -
  have nf: "rs_reply ((fail 429 x)\<lparr>rs_retry_after := y\<rparr>) \<noteq> RRegistered r token n" for x y
    by (simp add: fail_def write_json_def)
  obtain s1 where lim: "limited sv_general put_general mux env cfg rq s = (resp, s1)" "sv_db s' = sv_db s1"
    using assms(1) by (auto simp: handle_request_def with_request_log_def Let_def split: prod.splits)
  then obtain t where "mux env cfg rq t = (resp, s1)"
    using assms(2) nf by (auto simp: limited_def Let_def split: option.splits prod.splits bool.splits if_splits)
  then have "limited_auth handle_agent_register env cfg rq t = (resp, s1)" using assms(3) by (simp add: mux_def)
  then obtain t' where "handle_agent_register env cfg rq t' = (resp, s1)"
    using assms(2) nf by (auto simp: limited_auth_def limited_def Let_def split: option.splits prod.splits bool.splits if_splits)
  from register_handler_access [OF this assms(2)] register_token [OF this assms(2)] lim(2) show ?thesis by simp
qed

lemma cp_register_linked:
  assumes "cp_register (server_plane cfg) c enrollment req w = (Inr g, w')" "db_ok (sv_db (fst w))"
    and "\<forall>env\<in>set (snd w). env_ok hash env"
  shows "linked hash (rg_runner g) (new_client base (rg_token g)) w'"
proof -
  obtain s envs where w: "w = (s, envs)" by fastforce
  obtain rep where d: "cp_do (server_plane cfg) c ''POST'' [''agent'', ''register''] enrollment (Some (BodyRegister req)) True w = (Inr rep, w')"
    and g: "g = read_registered rep" "rg_token g \<noteq> ''''"
    using assms(1) by (auto simp: cp_register_def split: prod.splits sum.splits if_splits)
  obtain env rest where e: "envs = env # rest" using d w by (cases envs) (auto simp: cp_do_def)
  let ?rq = "wire_request \<lparr> cq_method = ''POST'', cq_base = cl_base c, cq_path = [''api'', ''v1''] @ [''agent'', ''register''],
     cq_token = enrollment, cq_body = Some (BodyRegister req) \<rparr>"
  obtain resp s' where h: "handle_request env cfg ?rq s = (resp, s')" by fastforce
  have w': "w' = (s', rest)" "rep = rs_reply resp" using d w e h by (auto simp: cp_do_def split: if_splits)
  obtain row n where row: "rs_reply resp = RRegistered row (rg_token g) n" "rg_runner g = rn_id row"
    using g w' by (auto simp: read_registered_def split: reply.splits)
  have "route (rq_method ?rq) (rq_path ?rq) = EAgentRegister" using route_register by (simp add: wire_request_def)
  from request_register [OF h row(1) this]
  have "gives_access hash (rg_token g) (rg_runner g) (sv_db s')" "tidy (rg_token g)"
    using assms(3) w e row(2) by (auto simp: env_ok_def)
  moreover have "db_ok (sv_db s')" using schema.every_request_kept [THEN keptD, OF h] assms(2) w by simp
  ultimately show ?thesis using assms(3) w e w' by (simp add: linked_def new_client_def)
qed

lemma resolve_quiet:
  assumes "resolve_machine path server getenv d = (rm, d0)" "rm = Inr None" "dk_faults d = []"
    "trim_space (getenv machine_env_var) = ''''"
  shows "dk_faults d0 = []" "dk_files d0 path \<noteq> Some Garbage"
  using assms
  by (auto simp: resolve_machine_def Let_def load_credentials_def read_file_def
      split: prod.splits sum.splits file_error.splits option.splits contents.splits if_splits)


definition sample_facts :: machine_facts where
  "sample_facts = \<lparr> mf_goos = ''linux'', mf_goarch = ''amd64'', mf_cpus = 8, mf_memory = 0, mf_disk = (\<lambda>_. 0),
     mf_version = ''1.0.0'' \<rparr>"

definition first_installed :: installed where
  "first_installed = \<lparr> in_name = ''runner-01'', in_scope = \<lparr> sp_kind = KindRepository, sp_owner = ''acme'', sp_repo = ''widgets'' \<rparr>,
     in_host = '''', in_dir = ''/r'', in_labels = [''self-hosted''], in_ephemeral = False, in_release = '''', in_at = 0 \<rparr>"

definition first_options :: enroll_options where
  "first_options = \<lparr> eo_server = ''http://cp'', eo_token = ''rnr_enroll_x'', eo_credentials = ''c'', eo_runner = first_installed \<rparr>"

definition sent_registration :: register_runner where
  "sent_registration = sample_registration\<lparr>rr_host := ''github.com'', rr_runner_version := ''''\<rparr>"

lemma registration_sent: "registration_for sample_facts first_installed = sent_registration"
  by (simp add: registration_for_def sample_facts_def first_installed_def sent_registration_def
      sample_registration_def default_string_def kind_text_def scope_string_def)

lemma sent_registered:
  "\<exists>r. upsert_runner sample_id 10 sent_registration used_db = (Inr r, used_db\<lparr>db_runners := [r]\<rparr>)
     \<and> rn_id r = sample_id"
  by (simp add: upsert_runner_def sent_registration_def sample_registration_def Let_def stmt_def used_db_def one_use_db_def
      empty_db_def is_uuid_sample registered_row_def runner_exists_def scope_ok_def)

lemma sample_enrolled:
  "\<exists>s1 d1 n. enroll (server_plane sample_config) sample_facts (\<lambda>_. '''') 9 first_options empty_disk
      (sample_server one_use_db, [sample_env, sample_env]) = (Inr (Some n), d1, (s1, [sample_env])) \<and> nr_enrolled n \<and> nr_runner n = sample_id"
proof -
  let ?rq = "wire_request \<lparr> cq_method = ''POST'', cq_base = ''http://cp'', cq_path = [''api'', ''v1'', ''agent'', ''register''],
     cq_token = ''rnr_enroll_x'', cq_body = Some (BodyRegister sent_registration) \<rparr>"
  have b: "bearer_token ?rq = ''rnr_enroll_x''"
    by (simp add: bearer_token_def wire_request_def trim_space_def trim_left_def trim_right_def is_space_def)
  have q: "decode body_register ?rq = Inr sent_registration" by (simp add: decode_def wire_request_def)
  obtain x where x: "upsert_runner sample_id 10 sent_registration used_db = (Inr x, used_db\<lparr>db_runners := [x]\<rparr>)"
    "rn_id x = sample_id" using sent_registered by blast
  obtain d where d: "issue_machine_token id other_id (Some ''b'') 10 sample_id (used_db\<lparr>db_runners := [x]\<rparr>)
    = (Inr ''rnr_machine_b'', d)" using used_issued [OF x(2)] by blast
  have named: "rr_name sent_registration = ''runner-01''" "rr_scope_id sent_registration = ''acme/widgets''"
    "rr_scope sent_registration = ''repository''" by (simp_all add: sent_registration_def sample_registration_def)
  have "\<exists>s1. handle_agent_register sample_env sample_config ?rq (sample_server one_use_db)
      = (write_json 201 (RRegistered x ''rnr_machine_b'' (interval_seconds sample_config)), s1)"
    by (simp add: handle_agent_register_def b q on_db_def sample_server_def
        sample_env_def one_use_redeemed used_db_def [symmetric] x d Let_def named)
  then obtain s1 where h: "handle_agent_register sample_env sample_config ?rq (sample_server one_use_db)
      = (write_json 201 (RRegistered x ''rnr_machine_b'' (interval_seconds sample_config)), s1)" by blast
  have open_doors: "sv_general (sample_server one_use_db) = None" "sv_auth (sample_server one_use_db) = None"
    by (simp_all add: sample_server_def)
  have p: "rq_method ?rq = ''POST''" "rq_path ?rq = [''api'', ''v1''] @ [''agent'', ''register'']" by (simp_all add: wire_request_def)
  have m: "mux sample_env sample_config ?rq (sample_server one_use_db)
      = handle_agent_register sample_env sample_config ?rq (sample_server one_use_db)"
    unfolding mux_def p route_register by (simp add: limited_auth_def limited_def open_doors)
  then have "\<exists>s2. handle_request sample_env sample_config ?rq (sample_server one_use_db)
      = (write_json 201 (RRegistered x ''rnr_machine_b'' (interval_seconds sample_config)), s2)"
    by (simp add: handle_request_def with_request_log_def limited_def open_doors h Let_def)
  then obtain s2 where "handle_request sample_env sample_config ?rq (sample_server one_use_db)
      = (write_json 201 (RRegistered x ''rnr_machine_b'' (interval_seconds sample_config)), s2)" by blast
  then have "cp_register (server_plane sample_config) (new_client ''http://cp'' '''') ''rnr_enroll_x'' sent_registration
      (sample_server one_use_db, [sample_env, sample_env])
    = (Inr \<lparr> rg_runner = rn_id x, rg_token = ''rnr_machine_b'', rg_seconds = interval_seconds sample_config \<rparr>, (s2, [sample_env]))"
    by (simp add: cp_register_def cp_do_def new_client_def write_json_def is_json_def read_registered_def trim_right_def)
  moreover have "\<exists>d1. persist_machine_token 9 ''c'' ''http://cp'' (rn_id x) ''rnr_machine_b'' empty_disk = (Inr (), d1)"
    using persist_on_disk [of empty_disk "''c''" "''rnr_machine_b''"] by (fastforce simp: empty_disk_def)
  moreover have "resolve_machine ''c'' ''http://cp'' (\<lambda>_. '''') empty_disk = (Inr None, empty_disk)"
    by (simp add: resolve_machine_def load_credentials_def read_file_def empty_disk_def faulty_def next_call_def
        no_credentials_def trim_space_def trim_left_def trim_right_def Let_def)
  ultimately show ?thesis
    using x(2) by (auto simp: enroll_def first_options_def registration_sent)
qed

definition sample_report_env :: "(credentials disk, server \<times> env list) report_env" where
  "sample_report_env = \<lparr> re_plane = server_plane sample_config, re_on_token = Some (keep_token 10 ''c'' ''http://cp'' sample_id),
     re_can_restart = True, re_job_hooks = False, re_version = ''1.0.0'', re_float = (\<lambda>_. ''0''), re_error = (\<lambda>_. '''') \<rparr>"


text \<open>
  A credential belongs to a server, not to a runner: once a machine has enrolled a runner, enrolling any
  other runner with the same server makes no request at all, whatever enrollment token is supplied, and
  reports as the first runner. The second runner never appears in the fleet.
\<close>

theorem second_runner_reuses_credential:
  assumes "enroll plane mf getenv now opts d w = (Inr (Some n), d1, w1)" "nr_enrolled n"
    and "dk_faults d = []" "trim_space (getenv machine_env_var) = ''''"
  shows "\<exists>d2. enroll plane mf getenv later (opts\<lparr>eo_runner := other, eo_token := token\<rparr>) d1 w2
    = (Inr (Some (n\<lparr>nr_interval := 0, nr_enrolled := False\<rparr>)), d2, w2)"
proof -
  let ?path = "eo_credentials opts" and ?server = "eo_server opts"
  have srv: "?server \<noteq> ''''" using assms(1) by (auto simp: enroll_def)
  obtain rm d0 where rm: "resolve_machine ?path ?server getenv d = (rm, d0)" by (metis prod.collapse)
  have none: "rm = Inr None" using assms(1,2) srv rm by (auto simp: enroll_def split: sum.splits option.splits)
  have "\<exists>g :: registered. persist_machine_token now ?path ?server (rg_runner g) (rg_token g) d0 = (Inr (), d1)
    \<and> n = \<lparr> nr_client = new_client ?server (rg_token g), nr_runner = rg_runner g,
      nr_interval = config_interval (rg_seconds g), nr_enrolled = True \<rparr>"
    using assms(1) srv rm none by (auto simp: enroll_def split: prod.splits sum.splits if_splits)
  then obtain g :: registered where p: "persist_machine_token now ?path ?server (rg_runner g) (rg_token g) d0 = (Inr (), d1)"
    and n: "n = \<lparr> nr_client = new_client ?server (rg_token g), nr_runner = rg_runner g,
      nr_interval = config_interval (rg_seconds g), nr_enrolled = True \<rparr>" by blast
  let ?m = "\<lparr> mc_runner_id = rg_runner g, mc_token = rg_token g, mc_enrolled = zero_time \<rparr>"
  have st: "store_machine ?path now ?server ?m d0 = (Inr (), d1)" using p by (simp add: persist_machine_token_def)
  then have at: "machine_at ?path ?server d1 = Some (stamp_machine now ?m)" using machines.look_put [OF st] by simp
  then obtain c where c: "dk_files d1 ?path = Some (Doc c)"
    by (auto simp: machine_at_def creds_at_def no_credentials_def split: option.splits contents.splits)
  have "dk_faults d0 = []" "dk_files d0 ?path \<noteq> Some Garbage"
    using rm none assms(3,4) by (rule resolve_quiet)+
  moreover have rt: "rg_token g \<noteq> ''''" using st by (auto simp: store_machine_def)
  ultimately have "dk_faults d1 = []"
    using persist_on_disk [of d0 ?path "rg_token g" now ?server "rg_runner g"] p by (auto simp: on_disk_def)
  then obtain x d2 where x: "resolve_machine ?path ?server getenv d1 = (Inr x, d2)"
    using resolve_machine_ok [OF _ c] by blast
  have "x = Some (stamp_machine now ?m)" using resolve_machine_file [OF assms(4) x] at rt by (simp add: stamp_machine_def)
  then show ?thesis using srv x n by (simp add: enroll_def stamp_machine_def)
qed

theorem second_runner_reuses_credential_witness:
  "\<exists>s1 d1 n d2. enroll (server_plane sample_config) sample_facts (\<lambda>_. '''') 9 first_options empty_disk
       (sample_server one_use_db, [sample_env, sample_env]) = (Inr (Some n), d1, (s1, [sample_env]))
    \<and> enroll (server_plane sample_config) sample_facts (\<lambda>_. '''') 9
        (first_options\<lparr>eo_runner := first_installed\<lparr>in_name := ''runner-02''\<rparr>, eo_token := ''rnr_enroll_y''\<rparr>) d1 (s1, [sample_env])
      = (Inr (Some (n\<lparr>nr_interval := 0, nr_enrolled := False\<rparr>)), d2, (s1, [sample_env]))"
proof -
  obtain s1 d1 n where e: "enroll (server_plane sample_config) sample_facts (\<lambda>_. '''') 9 first_options empty_disk
       (sample_server one_use_db, [sample_env, sample_env]) = (Inr (Some n), d1, (s1, [sample_env]))" "nr_enrolled n"
    using sample_enrolled by blast
  have "dk_faults empty_disk = []" "trim_space ((\<lambda>_. '''') machine_env_var) = ''''"
    by (simp_all add: empty_disk_def trim_space_def trim_left_def trim_right_def)
  from second_runner_reuses_credential [OF e this] e(1) show ?thesis by blast
qed

end
