(* ===== verification/Go_Url.thy ===== *)
theory Go_Url
  imports Github
begin

text \<open>
  What the program relies on of Go's \<open>net/url\<close>: whether \<open>url.Parse\<close> accepts an address, and the scheme
  and the host it finds in it.
\<close>

section \<open>Percent escapes\<close>

definition char_code :: "char \<Rightarrow> nat" where "char_code c = of_char c"

definition hex_val :: "char \<Rightarrow> nat option" where
  "hex_val c =
     (let n = char_code c
      in if 48 \<le> n \<and> n \<le> 57 then Some (n - 48)
         else if 97 \<le> n \<and> n \<le> 102 then Some (n - 87)
         else if 65 \<le> n \<and> n \<le> 70 then Some (n - 55) else None)"

definition percent :: char where "percent = CHR ''%''"

text \<open>\<open>unescape\<close>: \<open>pct\<close> says which escaped bytes are allowed, \<open>lit\<close> which plain characters.\<close>

fun unescape :: "(nat \<Rightarrow> bool) \<Rightarrow> (char \<Rightarrow> bool) \<Rightarrow> string \<Rightarrow> string option" where
  "unescape pct lit [] = Some []"
| "unescape pct lit (c # s) =
     (if c = percent
      then (case s of
              a # b # r \<Rightarrow>
                (case (hex_val a, hex_val b) of
                   (Some x, Some y) \<Rightarrow>
                     if pct (16 * x + y) then map_option ((#) (char_of (16 * x + y))) (unescape pct lit r) else None
                 | _ \<Rightarrow> None)
            | _ \<Rightarrow> None)
      else if lit c then map_option ((#) c) (unescape pct lit s) else None)"

definition host_literal :: "char \<Rightarrow> bool" where
  "host_literal c \<longleftrightarrow> 128 \<le> char_code c \<or> is_alnum c
     \<or> c \<in> set ''!$&()*+,;=:[]<>-_.~'' \<or> char_code c = 34 \<or> char_code c = 39"

text \<open>In a host only bytes above ASCII may be escaped, and the percent sign.\<close>

definition unescape_host :: "string \<Rightarrow> string option" where
  "unescape_host = unescape (\<lambda>n. 128 \<le> n \<or> n = 37) host_literal"

definition unescape_zone :: "string \<Rightarrow> string option" where
  "unescape_zone = unescape (\<lambda>n. n = 37 \<or> n = 32 \<or> (n < 256 \<and> host_literal (char_of n) \<and> n < 128)) host_literal"

definition escapes_ok :: "string \<Rightarrow> bool" where
  "escapes_ok s \<longleftrightarrow> unescape (\<lambda>_. True) (\<lambda>_. True) s \<noteq> None"

section \<open>The parts of an address\<close>

datatype scheme_cut = NoScheme | BadScheme | Scheme string string

fun scheme_from :: "string \<Rightarrow> string \<Rightarrow> scheme_cut" where
  "scheme_from seen [] = NoScheme"
| "scheme_from seen (c # s) =
     (if is_letter c then scheme_from (seen @ [c]) s
      else if is_digit c \<or> c \<in> set ''+-.'' then (if seen = [] then NoScheme else scheme_from (seen @ [c]) s)
      else if c = CHR '':'' then (if seen = [] then BadScheme else Scheme seen s)
      else NoScheme)"

definition last_at :: "char \<Rightarrow> string \<Rightarrow> (string \<times> string) option" where
  "last_at c s =
     (if c \<in> set s then (let b = rev (takeWhile (\<lambda>x. x \<noteq> c) (rev s)) in Some (take (length s - length b - 1) s, b))
      else None)"

definition valid_optional_port :: "string \<Rightarrow> bool" where
  "valid_optional_port p \<longleftrightarrow> (case p of [] \<Rightarrow> True | c # r \<Rightarrow> c = CHR '':'' \<and> list_all is_digit r)"

definition parse_host :: "string \<Rightarrow> string option" where
  "parse_host h =
     (if prefix ''['' h
      then (case last_at (CHR '']'') h of
              None \<Rightarrow> None
            | Some (inner, port) \<Rightarrow>
                if \<not> valid_optional_port port then None
                else case index_of inner ''%25'' of
                       Some z \<Rightarrow>
                         (case (unescape_host (take z inner), unescape_zone (drop z inner), unescape_host ('']'' @ port)) of
                            (Some a, Some b, Some c) \<Rightarrow> Some (a @ b @ c)
                          | _ \<Rightarrow> None)
                     | None \<Rightarrow> unescape_host h)
      else case last_at (CHR '':'') h of
             Some (_, port) \<Rightarrow> if list_all is_digit port then unescape_host h else None
           | None \<Rightarrow> unescape_host h)"

definition valid_userinfo :: "string \<Rightarrow> bool" where
  "valid_userinfo u \<longleftrightarrow> list_all (\<lambda>c. is_alnum c \<or> c \<in> set ''-._:~!$&()*+,;=%@'' \<or> char_code c = 39) u"

definition parse_authority :: "string \<Rightarrow> string option" where
  "parse_authority a =
     (case last_at (CHR ''@'') a of
        None \<Rightarrow> parse_host a
      | Some (user, h) \<Rightarrow>
          (case parse_host h of
             None \<Rightarrow> None
           | Some host \<Rightarrow> if valid_userinfo user \<and> escapes_ok user then Some host else None))"

text \<open>\<open>url.Parse\<close>: the scheme in lower case and the host; \<open>None\<close> is an error.\<close>

definition url_after_scheme :: "string \<Rightarrow> string \<Rightarrow> (string \<times> string) option" where
  "url_after_scheme scheme rest =
     (let rest = fst (cut_at (CHR ''?'') rest)
      in if \<not> prefix ''/'' rest \<and> scheme \<noteq> '''' then Some (scheme, '''')
         else if \<not> prefix ''/'' rest \<and> CHR '':'' \<in> set (fst (cut_at (CHR ''/'') rest)) then None
         else if (scheme \<noteq> '''' \<or> \<not> prefix ''///'' rest) \<and> prefix ''//'' rest
         then (let (authority, path, found) = cut_at (CHR ''/'') (drop 2 rest)
               in case parse_authority authority of
                    None \<Rightarrow> None
                  | Some host \<Rightarrow> if escapes_ok path then Some (scheme, host) else None)
         else if escapes_ok rest then Some (scheme, '''') else None)"

definition url_parse :: "string \<Rightarrow> (string \<times> string) option" where
  "url_parse raw =
     (let (u, fragment, found) = cut_at (CHR ''#'') raw
      in if list_ex (\<lambda>c. char_code c < 32 \<or> char_code c = 127) u \<or> \<not> escapes_ok fragment then None
         else if u = ''*'' then Some ('''', '''')
         else case scheme_from [] u of
                BadScheme \<Rightarrow> None
              | NoScheme \<Rightarrow> url_after_scheme '''' u
              | Scheme s r \<Rightarrow> url_after_scheme (to_lower s) r)"

lemma url_parse_examples:
  "url_parse ''https://cp.example.com:8443/base?x=1'' = Some (''https'', ''cp.example.com:8443'')"
  "url_parse ''cp.example.com'' = Some ('''', '''')" "url_parse ''ftp:x'' = Some (''ftp'', '''')"
  "url_parse ''http://[::1]:8080'' = Some (''http'', ''[::1]:8080'')" "url_parse ''https://a b'' = None"
  "url_parse ''localhost:8080'' = Some (''localhost'', '''')" "url_parse '':x'' = None" "url_parse ''http://h:p'' = None"
  by code_simp+

end
