(* ===== verification/Go_Path.thy ===== *)
theory Go_Path
  imports Go_Strings
begin

text \<open>
  \<open>path/filepath\<close> on Unix, where the program uses it: \<open>Clean\<close>, \<open>Join\<close>, \<open>Dir\<close> and \<open>Base\<close>.
\<close>

section \<open>The functions\<close>

definition sep :: char where "sep = CHR ''/''"

definition here :: string where "here = ''.''"
definition parent :: string where "parent = ''..''"

lemma dots_differ [simp]: "here \<noteq> parent" "parent \<noteq> here" "here \<noteq> []" "parent \<noteq> []"
  by (simp_all add: here_def parent_def)

fun clean_parts :: "bool \<Rightarrow> string list \<Rightarrow> string list \<Rightarrow> string list" where
  "clean_parts rooted acc [] = acc"
| "clean_parts rooted acc (s # rest) =
     (if s = [] \<or> s = here then clean_parts rooted acc rest
      else if s = parent
      then clean_parts rooted
             (if acc \<noteq> [] \<and> last acc \<noteq> parent then butlast acc else if rooted then acc else acc @ [parent]) rest
      else clean_parts rooted (acc @ [s]) rest)"

definition is_rooted :: "string \<Rightarrow> bool" where
  "is_rooted p \<longleftrightarrow> prefix [sep] p"

definition path_parts :: "string \<Rightarrow> string list" where
  "path_parts p = clean_parts (is_rooted p) [] (split_on sep p)"

definition path_clean :: "string \<Rightarrow> string" where
  "path_clean p =
     (if is_rooted p then sep # join_on sep (path_parts p)
      else if path_parts p = [] then here else join_on sep (path_parts p))"

definition path_join :: "string list \<Rightarrow> string" where
  "path_join ps =
     (let es = dropWhile (\<lambda>e. e = []) ps in if es = [] then [] else path_clean (join_on sep es))"

text \<open>The path up to its last separator, and the rest.\<close>

definition path_split :: "string \<Rightarrow> string \<times> string" where
  "path_split p = (let b = rev (takeWhile (\<lambda>c. c \<noteq> sep) (rev p)) in (take (length p - length b) p, b))"

definition path_dir :: "string \<Rightarrow> string" where
  "path_dir p = path_clean (fst (path_split p))"

definition path_base :: "string \<Rightarrow> string" where
  "path_base p =
     (if p = [] then here
      else let q = trim_right (\<lambda>c. c = sep) p in if q = [] then [sep] else snd (path_split q))"

section \<open>Facts\<close>

lemma clean_parts_append: "clean_parts r acc (xs @ ys) = clean_parts r (clean_parts r acc xs) ys"
  by (induction xs arbitrary: acc) auto

text \<open>A segment of a clean path, and a name that is one.\<close>

definition plain_name :: "string \<Rightarrow> bool" where
  "plain_name s \<longleftrightarrow> s \<noteq> [] \<and> s \<noteq> here \<and> s \<noteq> parent \<and> sep \<notin> set s"

lemma clean_parts_plain: "plain_name s \<Longrightarrow> clean_parts r acc [s] = acc @ [s]"
  by (simp add: plain_name_def)

fun clean_list :: "bool \<Rightarrow> string list \<Rightarrow> bool" where
  "clean_list r [] \<longleftrightarrow> True"
| "clean_list r (s # rest) \<longleftrightarrow> s \<noteq> [] \<and> s \<noteq> here \<and> sep \<notin> set s
     \<and> (if s = parent then \<not> r \<and> clean_list r rest else list_all plain_name rest)"

lemma clean_list_plain: "list_all plain_name xs \<Longrightarrow> clean_list r xs"
  by (cases xs) (auto simp: plain_name_def)

lemma clean_list_snoc:
  "clean_list r (xs @ [s]) \<longleftrightarrow> clean_list r xs \<and> s \<noteq> [] \<and> s \<noteq> here \<and> sep \<notin> set s
     \<and> (if s = parent then \<not> r \<and> (xs = [] \<or> last xs = parent) else True)"
proof (induction xs)
  case (Cons a xs)
  show ?case
  proof (cases "a = parent")
    case True
    then show ?thesis using Cons by auto
  next
    case False
    have "list_all plain_name xs \<Longrightarrow> xs = [] \<or> last xs \<noteq> parent"
      by (cases xs rule: rev_cases) (auto simp: plain_name_def)
    then show ?thesis using False by (auto simp: plain_name_def)
  qed
qed simp

lemma clean_list_butlast: "clean_list r xs \<Longrightarrow> clean_list r (butlast xs)"
  by (cases xs rule: rev_cases) (auto simp: clean_list_snoc)

lemma clean_parts_clean:
  "clean_list r acc \<Longrightarrow> \<forall>s\<in>set xs. sep \<notin> set s \<Longrightarrow> clean_list r (clean_parts r acc xs)"
proof (induction xs arbitrary: acc)
  case (Cons s xs)
  have p: "sep \<notin> set parent" by (simp add: parent_def sep_def)
  show ?case
  proof (cases "s = [] \<or> s = here")
    case False
    let ?acc = "if s = parent then (if acc \<noteq> [] \<and> last acc \<noteq> parent then butlast acc else if r then acc else acc @ [parent])
      else acc @ [s]"
    have "clean_list r ?acc"
      using Cons.prems False p by (auto simp: clean_list_snoc clean_list_butlast)
    then show ?thesis using Cons.IH [of ?acc] Cons.prems False by auto
  qed (use Cons in auto)
qed simp

lemma parts_clean: "clean_list (is_rooted p) (path_parts p)"
  unfolding path_parts_def by (rule clean_parts_clean) (auto dest: split_on_parts)

lemma clean_parts_fixed:
  "clean_list r xs \<Longrightarrow> clean_parts r [] xs = xs"
proof (induction xs rule: rev_induct)
  case (snoc s xs)
  then show ?case by (cases "s = parent") (auto simp: clean_list_snoc clean_parts_append)
qed simp

lemma split_join_clean: "clean_list r xs \<Longrightarrow> xs \<noteq> [] \<Longrightarrow> split_on sep (join_on sep xs) = xs"
proof (rule split_join)
  assume "clean_list r xs"
  then show "\<forall>w\<in>set xs. sep \<notin> set w"
    by (induction xs) (auto simp: plain_name_def list_all_iff split: if_splits)
qed

lemma join_head: "xs \<noteq> [] \<Longrightarrow> hd xs \<noteq> [] \<Longrightarrow> sep \<notin> set (hd xs) \<Longrightarrow> \<not> is_rooted (join_on sep xs)"
proof -
  assume a: "xs \<noteq> []" "hd xs \<noteq> []" "sep \<notin> set (hd xs)"
  then obtain w ws where xs: "xs = w # ws" "w \<noteq> []" "sep \<notin> set w" by (cases xs) auto
  then obtain c cs where "w = c # cs" "c \<noteq> sep" by (cases w) auto
  then show ?thesis using xs by (cases ws) (simp_all add: is_rooted_def)
qed

lemma parts_of_clean: "path_parts (path_clean p) = path_parts p" "is_rooted (path_clean p) = is_rooted p"
proof -
  have c: "clean_list (is_rooted p) (path_parts p)" by (rule parts_clean)
  show 1: "is_rooted (path_clean p) = is_rooted p"
  proof (cases "is_rooted p \<or> path_parts p = []")
    case True
    then show ?thesis by (auto simp: path_clean_def) (auto simp: is_rooted_def here_def sep_def)
  next
    case False
    then have "hd (path_parts p) \<noteq> [] \<and> sep \<notin> set (hd (path_parts p))"
      using c by (cases "path_parts p") auto
    then show ?thesis using False by (simp add: path_clean_def join_head)
  qed
  show "path_parts (path_clean p) = path_parts p"
  proof (cases "path_parts p = []")
    case True
    then show ?thesis unfolding path_parts_def [of "path_clean p"] 1
      by (auto simp: path_clean_def here_def sep_def)
  next
    case False
    have "split_on sep (path_clean p) = (if is_rooted p then [[]] else []) @ path_parts p"
      using False split_join_clean [OF c False] by (auto simp: path_clean_def)
    then show ?thesis unfolding path_parts_def [of "path_clean p"] 1
      using clean_parts_fixed [OF c] by (cases "is_rooted p") simp_all
  qed
qed

text \<open>Joining a directory and a plain name appends one segment.\<close>

lemma path_join_name:
  assumes "base \<noteq> []" "plain_name s"
  shows "path_parts (path_join [base, s]) = path_parts base @ [s]" "is_rooted (path_join [base, s]) = is_rooted base"
proof -
  have s: "sep \<notin> set s" using assms(2) by (simp add: plain_name_def)
  have r: "is_rooted (base @ sep # s) = is_rooted base"
    using assms(1) by (cases base) (auto simp: is_rooted_def)
  have sp: "split_on sep (b @ sep # s) = split_on sep b @ [s]" for b
  proof (induction b)
    case (Cons x b)
    obtain w ws where "split_on sep b = w # ws" by (metis neq_Nil_conv split_on_ne)
    then show ?case using Cons by auto
  qed (use s in \<open>simp add: split_on_no_sep\<close>)
  have "path_parts (base @ sep # s) = path_parts base @ [s]"
    by (simp only: path_parts_def r sp clean_parts_append clean_parts_plain [OF assms(2)])
  then show "path_parts (path_join [base, s]) = path_parts base @ [s]" "is_rooted (path_join [base, s]) = is_rooted base"
    using assms(1) r by (simp_all add: path_join_def parts_of_clean)
qed

end
