(* ===== verification/Config.thy ===== *)
theory Config
  imports Go_Url Go_Path Credentials Server_Model
begin

text \<open>
  \<open>internal/config/config.go\<close>: the configuration file, its defaults, where it is found, and what
  \<open>Validate\<close> accepts; and what \<open>cmd/runnerly-server/main.go\<close> makes of it. YAML is a parameter: what a
  document makes of the configuration that it is decoded onto.
\<close>

section \<open>Data\<close>

record cfg_oauth =
  oa_client_id :: string
  oa_client_secret :: string
  oa_allowed_logins :: "string list"

record cfg_heartbeat =
  hc_interval :: duration
  hc_stale :: duration
  hc_offline :: duration

record cfg_tls =
  tls_cert :: string
  tls_key :: string

definition tls_enabled :: "cfg_tls \<Rightarrow> bool" where
  "tls_enabled t \<longleftrightarrow> tls_cert t \<noteq> '''' \<and> tls_key t \<noteq> ''''"

record cfg_rate_limit =
  rl_requests :: int
  rl_auth :: int
  rl_trust_forwarded :: bool

record cfg_metrics =
  mx_enabled :: bool
  mx_token :: string

record cfg_server =
  cs_url :: string
  cs_listen :: string
  cs_database :: string
  cs_secret_key :: string
  cs_oauth :: cfg_oauth
  cs_heartbeat :: cfg_heartbeat
  cs_tls :: cfg_tls
  cs_rate_limit :: cfg_rate_limit
  cs_metrics :: cfg_metrics
  cs_retention_days :: int
  cs_token_lifetime :: duration

record cfg_ephemeral =
  ep_log_dir :: string
  ep_keep_runs :: int
  ep_name_prefix :: string

record cfg_github =
  cg_host :: string
  cg_scope :: string
  cg_repository :: string
  cg_organization :: string

record cfg_runner =
  cr_name :: string
  cr_labels :: "string list"
  cr_dir :: string

record cfg_docker =
  cd_host :: string
  cd_cleanup :: string
  cd_prune_images :: bool
  cd_timeout :: duration

record cfg_executor =
  ce_type :: string
  ce_docker :: cfg_docker

record config =
  cf_server :: cfg_server
  cf_enrollment_token :: string
  cf_ephemeral :: cfg_ephemeral
  cf_github :: cfg_github
  cf_runner :: cfg_runner
  cf_executor :: cfg_executor
  cf_auto_update :: bool
  cf_allow_public :: bool
  cf_allow_forks :: bool

definition executor_host :: string where "executor_host = ''host''"
definition executor_docker :: string where "executor_docker = ''docker''"
definition cleanup_never :: string where "cleanup_never = ''never''"
definition cleanup_policy :: string where "cleanup_policy = ''after_job''"
definition scope_repository :: string where "scope_repository = ''repository''"
definition scope_organization :: string where "scope_organization = ''organization''"

definition default_labels :: "string list" where "default_labels = [''runnerly'']"

definition default_config :: config where
  "default_config = \<lparr>
     cf_server = \<lparr> cs_url = '''', cs_listen = ''127.0.0.1:8080'', cs_database = '''', cs_secret_key = '''',
       cs_oauth = \<lparr> oa_client_id = '''', oa_client_secret = '''', oa_allowed_logins = [] \<rparr>,
       cs_heartbeat = \<lparr> hc_interval = 20 * second, hc_stale = 30 * second, hc_offline = 90 * second \<rparr>,
       cs_tls = \<lparr> tls_cert = '''', tls_key = '''' \<rparr>,
       cs_rate_limit = \<lparr> rl_requests = 600, rl_auth = 20, rl_trust_forwarded = False \<rparr>,
       cs_metrics = \<lparr> mx_enabled = True, mx_token = '''' \<rparr>,
       cs_retention_days = 30, cs_token_lifetime = 24 * hour \<rparr>,
     cf_enrollment_token = '''',
     cf_ephemeral = \<lparr> ep_log_dir = '''', ep_keep_runs = 50, ep_name_prefix = '''' \<rparr>,
     cf_github = \<lparr> cg_host = ''github.com'', cg_scope = scope_repository, cg_repository = '''', cg_organization = '''' \<rparr>,
     cf_runner = \<lparr> cr_name = '''', cr_labels = default_labels, cr_dir = '''' \<rparr>,
     cf_executor = \<lparr> ce_type = executor_docker,
       ce_docker = \<lparr> cd_host = '''', cd_cleanup = cleanup_policy, cd_prune_images = False, cd_timeout = 2 * minute \<rparr> \<rparr>,
     cf_auto_update = False, cf_allow_public = False, cf_allow_forks = False \<rparr>"

section \<open>Paths\<close>

definition cfg_cleanup_after_job :: "config \<Rightarrow> bool" where
  "cfg_cleanup_after_job cfg \<longleftrightarrow>
     (if ce_type (cf_executor cfg) \<noteq> executor_docker then False
      else cd_cleanup (ce_docker (cf_executor cfg)) \<noteq> cleanup_never)"

definition ephemeral_log_dir :: "config \<Rightarrow> string \<Rightarrow> string" where
  "ephemeral_log_dir cfg cpath =
     (if ep_log_dir (cf_ephemeral cfg) \<noteq> '''' then ep_log_dir (cf_ephemeral cfg)
      else path_join [path_dir cpath, ''logs''])"

text \<open>The process: its user, its environment and home, and which files exist.\<close>

record process =
  ps_root :: bool
  ps_env :: "string \<Rightarrow> string"
  ps_home :: "string option"
  ps_temp :: string
  ps_exists :: "string \<Rightarrow> bool"

definition default_runner_dir :: "process \<Rightarrow> string" where
  "default_runner_dir p =
     (if ps_root p then ''/opt/runnerly/runners''
      else if ps_env p ''XDG_DATA_HOME'' \<noteq> '''' then path_join [ps_env p ''XDG_DATA_HOME'', ''runnerly'', ''runners'']
      else case ps_home p of
             None \<Rightarrow> path_join [ps_temp p, ''runnerly'', ''runners'']
           | Some home \<Rightarrow> path_join [home, ''.local'', ''share'', ''runnerly'', ''runners''])"

definition runner_dir :: "process \<Rightarrow> config \<Rightarrow> string \<Rightarrow> string" where
  "runner_dir p cfg name =
     path_join [if cr_dir (cf_runner cfg) = '''' then default_runner_dir p else cr_dir (cf_runner cfg), name]"

definition system_path :: string where "system_path = ''/etc/runnerly/config.yaml''"

definition user_path :: "process \<Rightarrow> string" where
  "user_path p =
     (if ps_env p ''XDG_CONFIG_HOME'' \<noteq> '''' then path_join [ps_env p ''XDG_CONFIG_HOME'', ''runnerly'', ''config.yaml'']
      else case ps_home p of
             None \<Rightarrow> ''''
           | Some home \<Rightarrow> path_join [home, ''.config'', ''runnerly'', ''config.yaml''])"

definition config_path :: "process \<Rightarrow> string" where
  "config_path p =
     (if ps_env p ''RUNNERLY_CONFIG'' \<noteq> '''' then ps_env p ''RUNNERLY_CONFIG''
      else if user_path p = '''' then system_path
      else if \<not> ps_exists p (user_path p) \<and> ps_exists p system_path then system_path
      else user_path p)"

section \<open>Loading and saving\<close>

text \<open>\<open>dec\<close> is what a document makes of a configuration, \<open>None\<close> an error of the decoder.\<close>

definition load_config ::
  "('y \<Rightarrow> config \<Rightarrow> config option) \<Rightarrow> process \<Rightarrow> string \<Rightarrow> 'y disk \<Rightarrow> (config \<times> bool \<times> file_error option) \<times> 'y disk"
where
  "load_config dec p path d =
     (case read_file (if path = '''' then config_path p else path) d of
        (Inl NotExist, d) \<Rightarrow> ((default_config, False, None), d)
      | (Inl e, d) \<Rightarrow> ((default_config, False, Some e), d)
      | (Inr y, d) \<Rightarrow>
          (case dec y default_config of
             None \<Rightarrow> ((default_config, False, Some ParseError), d)
           | Some cfg \<Rightarrow>
               ((if cr_labels (cf_runner cfg) = []
                 then cfg\<lparr>cf_runner := (cf_runner cfg)\<lparr>cr_labels := default_labels\<rparr>\<rparr> else cfg, True, None), d)))"

definition save_config :: "(config \<Rightarrow> 'y) \<Rightarrow> process \<Rightarrow> string \<Rightarrow> config \<Rightarrow> 'y disk \<Rightarrow> (file_error + unit) \<times> 'y disk" where
  "save_config enc p path cfg d = save_file (if path = '''' then config_path p else path) (enc cfg) d"

section \<open>Validation\<close>

datatype config_error =
    BadExecutor | BadCleanup | NegativeTimeout | NoHost | BadRepository | NoOrganization | BadScope | BadRunnerName
  | BadLabel string | BadServerUrl | NegativeHeartbeat | OfflineNotAfterStale | IntervalNotBeforeStale
  | NegativeRetention | NegativeLifetime | NegativeRate | HalfTLS | NegativeKeepRuns | BadNamePrefix

text \<open>\<open>runnerNamePattern\<close> and \<open>labelPattern\<close>, which are the same expression.\<close>

definition name_pattern :: "string \<Rightarrow> bool" where
  "name_pattern s \<longleftrightarrow> s \<noteq> [] \<and> is_alnum (hd s) \<and> list_all (\<lambda>c. is_alnum c \<or> c \<in> set ''._-'') s"

definition validate_github :: "cfg_github \<Rightarrow> config_error option" where
  "validate_github g =
     (if cg_host g = '''' then Some NoHost
      else if cg_scope g = '''' \<or> cg_scope g = scope_repository
      then (if cg_repository g \<noteq> '''' \<and> slash_char \<notin> set (trim_both (\<lambda>c. c = slash_char) (cg_repository g))
            then Some BadRepository else None)
      else if cg_scope g = scope_organization
      then (if cg_organization g = '''' then Some NoOrganization else None)
      else Some BadScope)"

definition validate_url :: "string \<Rightarrow> config_error option" where
  "validate_url raw =
     (if raw = '''' then None
      else case url_parse raw of
             None \<Rightarrow> Some BadServerUrl
           | Some (scheme, host) \<Rightarrow>
               if scheme \<noteq> ''http'' \<and> scheme \<noteq> ''https'' then Some BadServerUrl
               else if host = '''' then Some BadServerUrl else None)"

definition validate_heartbeat :: "cfg_heartbeat \<Rightarrow> config_error option" where
  "validate_heartbeat hb =
     (if hc_interval hb < 0 \<or> hc_stale hb < 0 \<or> hc_offline hb < 0 then Some NegativeHeartbeat
      else if 0 < hc_stale hb \<and> 0 < hc_offline hb \<and> hc_offline hb \<le> hc_stale hb then Some OfflineNotAfterStale
      else if 0 < hc_interval hb \<and> 0 < hc_stale hb \<and> hc_stale hb \<le> hc_interval hb then Some IntervalNotBeforeStale
      else None)"

text \<open>The checks in the order of the code; the first problem is reported.\<close>

fun first_problem :: "config_error option list \<Rightarrow> config_error option" where
  "first_problem [] = None"
| "first_problem (Some e # rest) = Some e"
| "first_problem (None # rest) = first_problem rest"

definition unless :: "bool \<Rightarrow> config_error \<Rightarrow> config_error option" where
  "unless ok e = (if ok then None else Some e)"

definition validate_config :: "config \<Rightarrow> config_error option" where
  "validate_config cfg =
     (let ex = cf_executor cfg; dk = ce_docker ex; sv = cf_server cfg; ru = cf_runner cfg
      in first_problem
        ([unless (ce_type ex \<in> {executor_host, executor_docker}) BadExecutor,
          unless (cd_cleanup dk \<in> {'''', cleanup_never, cleanup_policy}) BadCleanup,
          unless (0 \<le> cd_timeout dk) NegativeTimeout,
          validate_github (cf_github cfg),
          unless (cr_name ru = '''' \<or> name_pattern (cr_name ru)) BadRunnerName]
         @ map (\<lambda>l. unless (name_pattern l) (BadLabel l)) (cr_labels ru)
         @ [validate_url (cs_url sv),
            validate_heartbeat (cs_heartbeat sv),
            unless (0 \<le> cs_retention_days sv) NegativeRetention,
            unless (0 \<le> cs_token_lifetime sv) NegativeLifetime,
            unless (0 \<le> rl_requests (cs_rate_limit sv) \<and> 0 \<le> rl_auth (cs_rate_limit sv)) NegativeRate,
            unless ((tls_cert (cs_tls sv) = '''') = (tls_key (cs_tls sv) = '''')) HalfTLS,
            unless (0 \<le> ep_keep_runs (cf_ephemeral cfg)) NegativeKeepRuns,
            unless (ep_name_prefix (cf_ephemeral cfg) = '''' \<or> name_pattern (ep_name_prefix (cf_ephemeral cfg)))
              BadNamePrefix]))"

section \<open>What a valid configuration guarantees\<close>

lemma first_problem_None: "first_problem xs = None \<longleftrightarrow> (\<forall>x\<in>set xs. x = None)"
  by (induction xs rule: first_problem.induct) auto

lemma unless_None [simp]: "unless ok e = None \<longleftrightarrow> ok"
  by (simp add: unless_def)

lemma validD:
  assumes "validate_config cfg = None"
  shows "ce_type (cf_executor cfg) \<in> {executor_host, executor_docker}"
    "validate_github (cf_github cfg) = None" "validate_url (cs_url (cf_server cfg)) = None"
    "cr_name (cf_runner cfg) = '''' \<or> name_pattern (cr_name (cf_runner cfg))"
    "\<forall>l\<in>set (cr_labels (cf_runner cfg)). name_pattern l"
    "validate_heartbeat (cs_heartbeat (cf_server cfg)) = None"
    "0 \<le> rl_requests (cs_rate_limit (cf_server cfg))" "0 \<le> rl_auth (cs_rate_limit (cf_server cfg))"
    "0 \<le> ep_keep_runs (cf_ephemeral cfg)" "0 \<le> cs_token_lifetime (cf_server cfg)"
    "ep_name_prefix (cf_ephemeral cfg) = '''' \<or> name_pattern (ep_name_prefix (cf_ephemeral cfg))"
  using assms by (auto simp: validate_config_def Let_def first_problem_None)

lemma name_pattern_plain: "name_pattern s \<Longrightarrow> plain_name s"
proof -
  assume n: "name_pattern s"
  have "\<not> is_alnum CHR ''.''" "\<not> is_alnum sep" "sep \<notin> set ''._-''" by code_simp+
  then show ?thesis using n
    by (auto simp: name_pattern_def plain_name_def here_def parent_def list_all_iff)
qed

definition runners_base :: "process \<Rightarrow> config \<Rightarrow> string" where
  "runners_base p cfg = (if cr_dir (cf_runner cfg) = '''' then default_runner_dir p else cr_dir (cf_runner cfg))"

lemma path_join_nonempty: "a \<noteq> [] \<Longrightarrow> path_join (a # ps) \<noteq> []"
proof -
  have j: "join_on sep xs \<noteq> []" if "clean_list r xs" "xs \<noteq> []" for r xs
  proof
    assume "join_on sep xs = []"
    then have "xs = [[]]" using split_join_clean [OF that] by simp
    then show False using that(1) by simp
  qed
  have "path_clean p \<noteq> []" for p
    using j [OF parts_clean [of p]] by (simp add: path_clean_def)
  then show "a \<noteq> [] \<Longrightarrow> path_join (a # ps) \<noteq> []" by (simp add: path_join_def)
qed

lemma runner_dir_parts:
  assumes "runners_base p cfg \<noteq> ''''" "name_pattern name"
  shows "path_parts (runner_dir p cfg name) = path_parts (runners_base p cfg) @ [name]"
  using path_join_name(1) [OF assms(1) name_pattern_plain [OF assms(2)]]
  by (simp add: runner_dir_def runners_base_def)

text \<open>
  The names that a valid configuration contains are safe as directories: the directory of the runner
  it names, and of the ephemeral runners, is a child of the directory for runners, never the directory
  itself, above it or elsewhere; and runners of different names never share one.
\<close>

theorem valid_names_stay_inside:
  assumes "validate_config cfg = None" "runners_base p cfg \<noteq> ''''"
    and "name \<in> {cr_name (cf_runner cfg), ep_name_prefix (cf_ephemeral cfg)} \<or> name_pattern name" "name \<noteq> ''''"
  shows "path_parts (runner_dir p cfg name) = path_parts (runners_base p cfg) @ [name]
    \<and> (\<forall>other. name_pattern other \<longrightarrow> runner_dir p cfg other = runner_dir p cfg name \<longrightarrow> other = name)"
proof -
  have n: "name_pattern name" using validD(4,11) [OF assms(1)] assms(3,4) by blast
  have "other = name" if "name_pattern other" "runner_dir p cfg other = runner_dir p cfg name" for other
  proof -
    have "path_parts (runners_base p cfg) @ [other] = path_parts (runners_base p cfg) @ [name]"
      by (rule trans [OF runner_dir_parts [OF assms(2) that(1), symmetric]])
        (simp only: that(2) runner_dir_parts [OF assms(2) n])
    then show ?thesis by simp
  qed
  then show ?thesis using runner_dir_parts [OF assms(2) n] by blast
qed

lemma default_valid: "validate_config default_config = None"
  by code_simp

definition sample_process :: process where
  "sample_process = \<lparr> ps_root = True, ps_env = (\<lambda>_. ''''), ps_home = None, ps_temp = ''/tmp'', ps_exists = (\<lambda>_. False) \<rparr>"

theorem valid_names_stay_inside_witness:
  "path_parts (runner_dir sample_process default_config ''ci-01'') = [''opt'', ''runnerly'', ''runners'', ''ci-01'']"
proof -
  have b: "runners_base sample_process default_config = ''/opt/runnerly/runners''" by code_simp
  have n: "name_pattern ''ci-01''" by code_simp
  have "path_parts ''/opt/runnerly/runners'' = [''opt'', ''runnerly'', ''runners'']" by code_simp
  then show ?thesis
    using valid_names_stay_inside [OF default_valid, of sample_process "''ci-01''"] b n by simp
qed



end
