(* ===== verification/Secret.thy ===== *)
theory Secret
  imports Go_Url
begin

text \<open>
  \<open>internal/secret/secret.go\<close>: the key that seals the credentials of signed-in users, in the encodings an
  operator may paste, and sealing itself. AES-GCM is a parameter; the encodings of \<open>encoding/hex\<close> and
  \<open>encoding/base64\<close> are modelled.
\<close>

section \<open>Hexadecimal\<close>

text \<open>Bytes are numbers below 256.\<close>

type_synonym bytes = "nat list"

definition hex_digit :: "nat \<Rightarrow> char" where
  "hex_digit n = (if n < 10 then char_of (48 + n) else char_of (87 + n))"

fun hex_encode :: "bytes \<Rightarrow> string" where
  "hex_encode [] = []"
| "hex_encode (b # bs) = hex_digit (b div 16) # hex_digit (b mod 16) # hex_encode bs"

fun hex_decode :: "string \<Rightarrow> bytes option" where
  "hex_decode [] = Some []"
| "hex_decode [c] = None"
| "hex_decode (a # b # s) =
     (case (hex_val a, hex_val b, hex_decode s) of
        (Some x, Some y, Some bs) \<Rightarrow> Some ((16 * x + y) # bs)
      | _ \<Rightarrow> None)"

section \<open>Base64\<close>

text \<open>The two alphabets differ in the last two digits.\<close>

definition b64_val :: "char \<times> char \<Rightarrow> char \<Rightarrow> nat option" where
  "b64_val tail c =
     (let n = char_code c
      in if 65 \<le> n \<and> n \<le> 90 then Some (n - 65)
         else if 97 \<le> n \<and> n \<le> 122 then Some (n - 71)
         else if 48 \<le> n \<and> n \<le> 57 then Some (n + 4)
         else if c = fst tail then Some 62
         else if c = snd tail then Some 63 else None)"

definition b64_digit :: "char \<times> char \<Rightarrow> nat \<Rightarrow> char" where
  "b64_digit tail n =
     (if n < 26 then char_of (65 + n) else if n < 52 then char_of (71 + n)
      else if n < 62 then char_of (n - 4) else if n = 62 then fst tail else snd tail)"

definition std_tail :: "char \<times> char" where "std_tail = (CHR ''+'', CHR ''/'')"
definition url_tail :: "char \<times> char" where "url_tail = (CHR ''-'', CHR ''_'')"

text \<open>Four digits make three bytes; the bits left over at the end are not looked at.\<close>

fun b64_bytes :: "nat list \<Rightarrow> bytes option" where
  "b64_bytes [] = Some []"
| "b64_bytes [a] = None"
| "b64_bytes [a, b] = Some [4 * a + b div 16]"
| "b64_bytes [a, b, c] = Some [4 * a + b div 16, 16 * (b mod 16) + c div 4]"
| "b64_bytes (a # b # c # d # r) =
     map_option (\<lambda>bs. (4 * a + b div 16) # (16 * (b mod 16) + c div 4) # (64 * (c mod 4) + d) # bs) (b64_bytes r)"

definition b64_digits :: "char \<times> char \<Rightarrow> string \<Rightarrow> nat list option" where
  "b64_digits tail s =
     (if list_all (\<lambda>c. b64_val tail c \<noteq> None) s then Some (map (the \<circ> b64_val tail) s) else None)"

definition pad_char :: char where "pad_char = CHR ''=''"

text \<open>Line breaks are skipped; with padding, the digits and one or two signs fill groups of four.\<close>

definition b64_decode :: "char \<times> char \<Rightarrow> bool \<Rightarrow> string \<Rightarrow> bytes option" where
  "b64_decode tail padded raw =
     (let s = filter (\<lambda>c. char_code c \<noteq> 10 \<and> char_code c \<noteq> 13) raw;
          digits = (if padded then trim_right (\<lambda>c. c = pad_char) s else s)
      in if padded \<and> (length s mod 4 \<noteq> 0 \<or> 2 < length s - length digits) then None
         else Option.bind (b64_digits tail digits) b64_bytes)"

fun b64_encode :: "char \<times> char \<Rightarrow> bool \<Rightarrow> bytes \<Rightarrow> string" where
  "b64_encode tail padded [] = []"
| "b64_encode tail padded [a] =
     [b64_digit tail (a div 4), b64_digit tail (16 * (a mod 4))] @ (if padded then [pad_char, pad_char] else [])"
| "b64_encode tail padded [a, b] =
     [b64_digit tail (a div 4), b64_digit tail (16 * (a mod 4) + b div 16), b64_digit tail (4 * (b mod 16))]
     @ (if padded then [pad_char] else [])"
| "b64_encode tail padded (a # b # c # r) =
     [b64_digit tail (a div 4), b64_digit tail (16 * (a mod 4) + b div 16),
      b64_digit tail (4 * (b mod 16) + c div 64), b64_digit tail (c mod 64)] @ b64_encode tail padded r"

section \<open>Keys\<close>

datatype key_error = NoKey | BadKeySize | BadKeyText

definition key_size :: nat where "key_size = 32"

definition new_key :: "bytes \<Rightarrow> key_error + bytes" where
  "new_key raw = (if length raw \<noteq> key_size then Inl BadKeySize else Inr raw)"

definition sized :: "bytes option \<Rightarrow> bytes option" where
  "sized r = (case r of Some raw \<Rightarrow> if length raw = key_size then Some raw else None | None \<Rightarrow> None)"

fun first_some :: "'a option list \<Rightarrow> 'a option" where
  "first_some [] = None"
| "first_some (Some x # r) = Some x"
| "first_some (None # r) = first_some r"

definition parse_key :: "string \<Rightarrow> key_error + bytes" where
  "parse_key text =
     (let s = trim_space text
      in if s = '''' then Inl NoKey
         else case first_some [sized (hex_decode s), sized (b64_decode std_tail True s), sized (b64_decode std_tail False s),
                    sized (b64_decode url_tail True s), sized (b64_decode url_tail False s)] of
                Some raw \<Rightarrow> new_key raw
              | None \<Rightarrow> Inl BadKeyText)"

definition generate_key :: "bytes option \<Rightarrow> string option" where
  "generate_key random = map_option hex_encode random"

text \<open>\<open>None\<close> is an error of the random source.\<close>

section \<open>Sealing\<close>

record aead =
  ae_nonce_size :: nat
  ae_seal :: "bytes \<Rightarrow> bytes \<Rightarrow> bytes \<Rightarrow> bytes"
  ae_open :: "bytes \<Rightarrow> bytes \<Rightarrow> bytes \<Rightarrow> bytes option"

datatype seal_error = SealNoKey | NoRandom | TooShort | CannotOpen

definition encrypt :: "aead \<Rightarrow> bytes option \<Rightarrow> bytes option \<Rightarrow> bytes \<Rightarrow> seal_error + bytes" where
  "encrypt a key nonce plain =
     (case key of
        None \<Rightarrow> Inl SealNoKey
      | Some k \<Rightarrow> (case nonce of None \<Rightarrow> Inl NoRandom | Some n \<Rightarrow> Inr (n @ ae_seal a k n plain)))"

definition decrypt :: "aead \<Rightarrow> bytes option \<Rightarrow> bytes \<Rightarrow> seal_error + bytes" where
  "decrypt a key sealed =
     (case key of
        None \<Rightarrow> Inl SealNoKey
      | Some k \<Rightarrow>
          let n = ae_nonce_size a
          in if length sealed < n then Inl TooShort
             else case ae_open a k (take n sealed) (drop n sealed) of
                    None \<Rightarrow> Inl CannotOpen
                  | Some plain \<Rightarrow> Inr plain)"

section \<open>Reading back what was written\<close>

definition is_bytes :: "bytes \<Rightarrow> bool" where
  "is_bytes bs \<longleftrightarrow> list_all (\<lambda>b. b < 256) bs"

lemma hex_val_digit: "n < 16 \<Longrightarrow> hex_val (hex_digit n) = Some n"
  by (auto simp: hex_val_def hex_digit_def char_code_def Let_def)

lemma hex_roundtrip: "is_bytes bs \<Longrightarrow> hex_decode (hex_encode bs) = Some bs"
proof (induction bs)
  case (Cons b bs)
  then have "b < 256" "is_bytes bs" by (simp_all add: is_bytes_def)
  then have "b div 16 < 16" "b mod 16 < 16" by auto
  then show ?case using Cons.IH [OF \<open>is_bytes bs\<close>] by (simp add: hex_val_digit)
qed simp

lemma length_hex_encode [simp]: "length (hex_encode bs) = 2 * length bs"
  by (induction bs) auto

lemma hex_decode_length: "hex_decode s = Some bs \<Longrightarrow> length s = 2 * length bs"
  by (induction s arbitrary: bs rule: hex_decode.induct) (auto split: option.splits)

definition tail_ok :: "char \<times> char \<Rightarrow> bool" where
  "tail_ok t \<longleftrightarrow> (\<forall>n<62. b64_digit t n \<noteq> fst t \<and> b64_digit t n \<noteq> snd t) \<and> fst t \<noteq> snd t
     \<and> b64_val t (fst t) = Some 62 \<and> b64_val t (snd t) = Some 63
     \<and> {fst t, snd t} \<inter> {pad_char, CHR 0x0A, CHR 0x0D} = {} \<and> \<not> is_space (fst t) \<and> \<not> is_space (snd t)"

lemma b64_val_digit: "tail_ok t \<Longrightarrow> n < 64 \<Longrightarrow> b64_val t (b64_digit t n) = Some n"
proof -
  assume t: "tail_ok t" "n < 64"
  show ?thesis
  proof (cases "n < 62")
    case True
    then show ?thesis by (auto simp: b64_val_def b64_digit_def char_code_def Let_def)
  next
    case False
    then have "n = 62 \<or> n = 63" using t(2) by auto
    then show ?thesis using t(1) by (auto simp: tail_ok_def b64_digit_def)
  qed
qed

lemma tails_ok: "tail_ok std_tail" "tail_ok url_tail"
proof -
  have "char_code (b64_digit t n) \<notin> {43, 47, 45, 95}" if "n < 62" for t n
    using that by (auto simp: b64_digit_def char_code_def)
  then have ne: "b64_digit t n \<noteq> c" if "n < 62" "char_code c \<in> {43, 47, 45, 95}" for t n c
    using that by metis
  have "char_code CHR ''+'' = 43" "char_code CHR ''/'' = 47" "char_code CHR ''-'' = 45" "char_code CHR ''_'' = 95"
    by (simp_all add: char_code_def)
  then show "tail_ok std_tail" "tail_ok url_tail"
    using ne by (auto simp: tail_ok_def std_tail_def url_tail_def b64_val_def char_code_def Let_def is_space_def pad_char_def)
qed

text \<open>The digits of an encoding, without the padding.\<close>

fun b64_nums :: "bytes \<Rightarrow> nat list" where
  "b64_nums [] = []"
| "b64_nums [a] = [a div 4, 16 * (a mod 4)]"
| "b64_nums [a, b] = [a div 4, 16 * (a mod 4) + b div 16, 4 * (b mod 16)]"
| "b64_nums (a # b # c # r) =
     [a div 4, 16 * (a mod 4) + b div 16, 4 * (b mod 16) + c div 64, c mod 64] @ b64_nums r"

definition pads :: "bytes \<Rightarrow> nat" where
  "pads bs = (if length bs mod 3 = 1 then 2 else if length bs mod 3 = 2 then 1 else 0)"

lemma b64_encode_nums:
  "b64_encode t p bs = map (b64_digit t) (b64_nums bs) @ (if p then replicate (pads bs) pad_char else [])"
  by (induction bs rule: b64_nums.induct) (auto simp: pads_def numeral_2_eq_2)

lemma b64_nums_small: "is_bytes bs \<Longrightarrow> list_all (\<lambda>n. n < 64) (b64_nums bs)"
  by (induction bs rule: b64_nums.induct) (auto simp: is_bytes_def)

lemma b64_nums_bytes: "is_bytes bs \<Longrightarrow> b64_bytes (b64_nums bs) = Some bs"
proof (induction bs rule: b64_nums.induct)
  case (4 a b c r)
  then have "b64_bytes (b64_nums r) = Some r" "a < 256" "b < 256" "c < 256" by (auto simp: is_bytes_def)
  then show ?case by (auto; presburger)
qed (auto simp: is_bytes_def)

lemma b64_nums_length: "(length (b64_nums bs) + pads bs) mod 4 = 0" "3 * (length (b64_nums bs) + pads bs) = 4 * (length bs + pads bs)"
  by (induction bs rule: b64_nums.induct) (auto simp: pads_def)

lemma map_digits:
  assumes "tail_ok t" "list_all (\<lambda>n. n < 64) ns"
  shows "b64_digits t (map (b64_digit t) ns) = Some ns"
proof -
  have "b64_val t (b64_digit t n) = Some n" if "n \<in> set ns" for n
    using assms that by (auto simp: b64_val_digit list_all_iff)
  then show ?thesis by (auto simp: b64_digits_def list_all_iff intro: map_idI)
qed

lemma digit_not_special:
  assumes "tail_ok t" "n < 64"
  shows "b64_digit t n \<noteq> pad_char" "char_code (b64_digit t n) \<notin> {10, 13}" "\<not> is_space (b64_digit t n)"
proof -
  have c: "char_code pad_char = 61" "char_code CHR 0x0A = 10" "char_code CHR 0x0D = 13" by (simp_all add: char_code_def pad_char_def)
  have inj: "char_code x = char_code y \<Longrightarrow> x = y" for x y by (simp add: char_code_def)
  have "char_code (b64_digit t n) \<notin> {61, 10, 13} \<and> \<not> is_space (b64_digit t n)"
  proof (cases "n < 62")
    case True
    then show ?thesis by (auto simp: b64_digit_def char_code_def is_space_def dest!: arg_cong [of _ _ "of_char :: char \<Rightarrow> nat"])
  next
    case False
    then have "b64_digit t n \<in> {fst t, snd t}" by (simp add: b64_digit_def)
    then show ?thesis using assms(1) inj c unfolding tail_ok_def by (auto; metis)
  qed
  then show "b64_digit t n \<noteq> pad_char" "char_code (b64_digit t n) \<notin> {10, 13}" "\<not> is_space (b64_digit t n)"
    using c by auto
qed

lemma b64_roundtrip:
  assumes "tail_ok t" "is_bytes bs"
  shows "b64_decode t p (b64_encode t p bs) = Some bs"
proof -
  let ?d = "map (b64_digit t) (b64_nums bs)" and ?s = "b64_encode t p bs"
  note small = b64_nums_small [OF assms(2)]
  have digit: "c \<noteq> pad_char \<and> char_code c \<noteq> 10 \<and> char_code c \<noteq> 13" if "c \<in> set ?d" for c
    using that small digit_not_special [OF assms(1)] by (auto simp: list_all_iff)
  have e: "?s = ?d @ (if p then replicate (pads bs) pad_char else [])" by (rule b64_encode_nums)
  have pad: "char_code pad_char \<noteq> 10 \<and> char_code pad_char \<noteq> 13" by (simp add: char_code_def pad_char_def)
  have f: "filter (\<lambda>c. char_code c \<noteq> 10 \<and> char_code c \<noteq> 13) ?s = ?s"
    unfolding e using digit pad by (auto simp: filter_id_conv split: if_splits)
  have "trim_right (\<lambda>c. c = pad_char) (?d @ replicate k pad_char) = ?d" for k
  proof (induction k)
    case 0
    show ?case using digit by (cases ?d rule: rev_cases) (auto simp: trim_right_id)
  next
    case (Suc k)
    have "?d @ replicate (Suc k) pad_char = (?d @ replicate k pad_char) @ [pad_char]"
      by (simp add: replicate_append_same)
    then show ?case using Suc by (simp only: trim_right_snoc refl if_True)
  qed
  then have tr: "trim_right (\<lambda>c. c = pad_char) ?s = ?d" if p unfolding e using that by simp
  have len: "length ?s mod 4 = 0 \<and> length ?s - length ?d \<le> 2" if p
    unfolding e using that b64_nums_length(1) [of bs] by simp (simp add: pads_def)
  have "b64_digits t ?d = Some (b64_nums bs)" by (rule map_digits [OF assms(1) small])
  moreover have "?s = ?d" if "\<not> p" unfolding e using that by simp
  ultimately show ?thesis using tr len b64_nums_bytes [OF assms(2)] unfolding b64_decode_def f Let_def by (cases p) simp_all
qed

text \<open>Two alphabets agree on the digits that both have.\<close>

lemma b64_agree:
  assumes "b64_decode std_tail p s = Some x" "b64_decode url_tail q s = Some y"
  shows "p = q \<Longrightarrow> x = y"
proof -
  assume pq: "p = q"
  have agree: "v = w" if "b64_val std_tail c = Some v" "b64_val url_tail c = Some w" for c v w
    using that by (auto simp: b64_val_def std_tail_def url_tail_def Let_def split: if_splits)
  have "b64_digits std_tail d = b64_digits url_tail d"
    if "b64_digits std_tail d \<noteq> None" "b64_digits url_tail d \<noteq> None" for d
    using that by (auto simp: b64_digits_def list_all_iff split: if_splits) (metis agree option.sel)
  then show "x = y" using assms pq
    by (auto simp: b64_decode_def Let_def bind_eq_Some_conv split: if_splits) (metis option.distinct(1) option.inject)+
qed

lemma b64_padding_differs:
  assumes "tail_ok t" "is_bytes bs" "pads bs \<noteq> 0" "t' \<in> {std_tail, url_tail}"
  shows "b64_decode t' (\<not> p) (b64_encode t p bs) = None"
proof (cases p)
  case True
  have "pad_char \<in> set (filter (\<lambda>c. char_code c \<noteq> 10 \<and> char_code c \<noteq> 13) (b64_encode t p bs))"
    using assms(3) True by (simp add: b64_encode_nums char_code_def pad_char_def)
  moreover have "b64_val t' pad_char = None"
    using assms(4) by (auto simp: b64_val_def std_tail_def url_tail_def char_code_def pad_char_def Let_def)
  ultimately have "b64_digits t' (filter (\<lambda>c. char_code c \<noteq> 10 \<and> char_code c \<noteq> 13) (b64_encode t p bs)) = None"
    by (auto simp: b64_digits_def list_all_iff)
  then show ?thesis using True by (simp add: b64_decode_def)
next
  case False
  have "char_code c \<noteq> 10 \<and> char_code c \<noteq> 13" if "c \<in> set (map (b64_digit t) (b64_nums bs))" for c
    using that b64_nums_small [OF assms(2)] digit_not_special [OF assms(1)] by (auto simp: list_all_iff)
  then have "filter (\<lambda>c. char_code c \<noteq> 10 \<and> char_code c \<noteq> 13) (b64_encode t p bs) = b64_encode t p bs"
    using False by (auto simp: b64_encode_nums filter_id_conv)
  moreover have "length (b64_nums bs) mod 4 \<noteq> 0"
    using b64_nums_length(1) [of bs] assms(3) by (auto simp: pads_def split: if_splits) presburger+
  ultimately show ?thesis using False by (simp add: b64_decode_def b64_encode_nums)
qed

lemma trim_space_clean: "\<forall>c\<in>set s. \<not> is_space c \<Longrightarrow> trim_space s = s"
  by (rule trim_space_id) auto

lemma parse_key_base64:
  assumes "is_bytes raw" "length raw = key_size" "t \<in> {std_tail, url_tail}" "trim_space text = b64_encode t p raw"
  shows "parse_key text = Inr raw"
proof -
  let ?s = "b64_encode t p raw"
  have ok: "tail_ok t" using assms(3) tails_ok by auto
  have pads: "pads raw = 1" using assms(2) by (simp add: pads_def key_size_def)
  have dec: "b64_decode t p ?s = Some raw" by (rule b64_roundtrip [OF ok assms(1)])
  have other: "b64_decode t' (\<not> p) ?s = None" if "t' \<in> {std_tail, url_tail}" for t'
    using b64_padding_differs [OF ok assms(1) _ that] pads by simp
  have same: "b64_decode t' p ?s = None \<or> b64_decode t' p ?s = Some raw" if "t' \<in> {std_tail, url_tail}" for t'
    using that assms(3) dec b64_agree [of p ?s _ p] by (cases "b64_decode t' p ?s") fastforce+
  have "length (b64_nums raw) = 43" using b64_nums_length(2) [of raw] pads assms(2) by (simp add: key_size_def)
  then have "length ?s \<in> {43, 44}" using pads by (auto simp: b64_encode_nums)
  then have hex: "sized (hex_decode ?s) = None" and ne: "?s \<noteq> ''''"
    by (auto simp: sized_def key_size_def split: option.splits dest!: hex_decode_length)
  have sized: "sized (Some raw) = Some raw" "sized None = None" using assms(2) by (simp_all add: sized_def)
  have "first_some [sized (hex_decode ?s), sized (b64_decode std_tail True ?s), sized (b64_decode std_tail False ?s),
      sized (b64_decode url_tail True ?s), sized (b64_decode url_tail False ?s)] = Some raw"
    using dec other [of std_tail] other [of url_tail] same [of std_tail] same [of url_tail] assms(3)
    unfolding hex by (cases p) (auto simp: sized)
  then show ?thesis using ne assms(2,4) by (simp add: parse_key_def new_key_def)
qed

lemma parse_key_hex:
  assumes "is_bytes raw" "length raw = key_size" "trim_space text = hex_encode raw"
  shows "parse_key text = Inr raw"
proof -
  have "hex_encode raw \<noteq> ''''" using assms(2) by (cases raw) (auto simp: key_size_def)
  then show ?thesis using assms hex_roundtrip [OF assms(1)] by (simp add: parse_key_def new_key_def sized_def)
qed

text \<open>
  C26: what one run of the server seals, a later run opens: the key that \<open>runnerly server keygen\<close> printed,
  pasted as hexadecimal or in any of the four base64 encodings, with whatever space around it, is read as
  the same 32 bytes, and a value sealed under it is recovered. That AES-GCM opens what it sealed under the
  same key and nonce is supposed.
\<close>

theorem sealed_values_recovered:
  assumes "length raw = key_size" "is_bytes raw"
    and "trim_space text = hex_encode raw \<or> (\<exists>t\<in>{std_tail, url_tail}. \<exists>p. trim_space text = b64_encode t p raw)"
    and "\<forall>k n m. length n = ae_nonce_size a \<longrightarrow> ae_open a k n (ae_seal a k n m) = Some m"
    and "length nonce = ae_nonce_size a" "generate_key (Some raw) = Some printed"
  shows "parse_key text = Inr raw \<and> parse_key printed = Inr raw
    \<and> (\<exists>sealed. encrypt a (Some raw) (Some nonce) plain = Inr sealed \<and> decrypt a (Some raw) sealed = Inr plain)"
proof -
  have "\<forall>c\<in>set (hex_encode raw). \<not> is_space c"
  proof -
    have "\<not> is_space (hex_digit n)" if "n < 16" for n
      using that by (auto simp: hex_digit_def is_space_def dest!: arg_cong [of _ _ "of_char :: char \<Rightarrow> nat"])
    then show ?thesis using assms(2) by (induction raw) (auto simp: is_bytes_def)
  qed
  then have "trim_space printed = hex_encode raw" using assms(6) by (auto simp: generate_key_def trim_space_clean)
  moreover have "decrypt a (Some raw) (nonce @ ae_seal a raw nonce plain) = Inr plain"
    using assms(4,5) by (simp add: decrypt_def Let_def)
  moreover have "parse_key text = Inr raw"
    using assms(3)
  proof
    assume "\<exists>t\<in>{std_tail, url_tail}. \<exists>p. trim_space text = b64_encode t p raw"
    then obtain t p where "t \<in> {std_tail, url_tail}" "trim_space text = b64_encode t p raw" by blast
    then show ?thesis by (rule parse_key_base64 [OF assms(2,1)])
  qed (rule parse_key_hex [OF assms(2,1)])
  ultimately show ?thesis
    using parse_key_hex [OF assms(2,1)] by (auto simp: encrypt_def)
qed

definition sample_aead :: aead where
  "sample_aead = \<lparr> ae_nonce_size = 2, ae_seal = (\<lambda>k n m. k @ m),
     ae_open = (\<lambda>k n c. if prefix k c then Some (drop (length k) c) else None) \<rparr>"

theorem sealed_values_recovered_witness:
  "parse_key (b64_encode url_tail False (replicate 32 251)) = Inr (replicate 32 251)
    \<and> (\<exists>sealed. encrypt sample_aead (Some (replicate 32 251)) (Some [1, 2]) [3] = Inr sealed
         \<and> decrypt sample_aead (Some (replicate 32 251)) sealed = Inr [3])"
proof -
  let ?raw = "replicate 32 (251 :: nat)"
  have raw: "length ?raw = key_size" "is_bytes ?raw" by (simp_all add: key_size_def is_bytes_def list_all_iff)
  have "\<forall>c\<in>set (b64_encode url_tail False ?raw). \<not> is_space c"
    using digit_not_special(3) [OF tails_ok(2)] b64_nums_small [OF raw(2)]
    by (auto simp: b64_encode_nums list_all_iff)
  then have enc: "trim_space (b64_encode url_tail False ?raw) = hex_encode ?raw
      \<or> (\<exists>t\<in>{std_tail, url_tail}. \<exists>p. trim_space (b64_encode url_tail False ?raw) = b64_encode t p ?raw)"
    using trim_space_clean by blast
  have law: "\<forall>k n m. length n = ae_nonce_size sample_aead \<longrightarrow> ae_open sample_aead k n (ae_seal sample_aead k n m) = Some m"
    and n: "length [1, 2 :: nat] = ae_nonce_size sample_aead" by (simp_all add: sample_aead_def)
  have g: "generate_key (Some ?raw) = Some (hex_encode ?raw)" by (simp add: generate_key_def)
  show ?thesis using sealed_values_recovered [OF raw enc law n g, of "[3]"] by blast
qed

end
