(* ===== verification/Server_Start.thy ===== *)
theory Server_Start
  imports Config Secret Store Server_Operators Control_Plane
begin

text \<open>
  \<open>cmd/runnerly-server/main.go\<close>: from the configuration and the environment to a running server, and the
  housekeeping beside it. Opening the database and its migrations are a parameter; the HTTP listener, TLS
  and the log are left out.
\<close>

section \<open>Starting\<close>

fun first_non_empty :: "string list \<Rightarrow> string" where
  "first_non_empty [] = ''''"
| "first_non_empty (v # vs) = (if v \<noteq> '''' then v else first_non_empty vs)"

definition cfg_thresholds :: "config \<Rightarrow> thresholds" where
  "cfg_thresholds cfg =
     (let hb = cs_heartbeat (cf_server cfg);
          t = default_thresholds;
          t = (if 0 < hc_stale hb then t\<lparr>th_stale := hc_stale hb\<rparr> else t)
      in if 0 < hc_offline hb then t\<lparr>th_offline := hc_offline hb\<rparr> else t)"

definition load_key :: "string \<Rightarrow> key_error + bytes option" where
  "load_key text =
     (case parse_key text of
        Inl NoKey \<Rightarrow> Inr None
      | Inl e \<Rightarrow> Inl e
      | Inr k \<Rightarrow> Inr (Some k))"

definition config_path_or_default :: "process \<Rightarrow> string \<Rightarrow> string" where
  "config_path_or_default p path = (if path \<noteq> '''' then path else config_path p)"

definition server_options_for :: "(string \<Rightarrow> string) \<Rightarrow> config \<Rightarrow> bool \<Rightarrow> server_options" where
  "server_options_for getenv cfg has_key =
     (let sv = cf_server cfg
      in \<lparr> op_client_id = first_non_empty [getenv ''RUNNERLY_OAUTH_CLIENT_ID'', oa_client_id (cs_oauth sv)],
           op_client_secret = first_non_empty [getenv ''RUNNERLY_OAUTH_CLIENT_SECRET'', oa_client_secret (cs_oauth sv)],
           op_allowed_logins = oa_allowed_logins (cs_oauth sv),
           op_public_url = cs_url sv,
           op_thresholds = cfg_thresholds cfg,
           op_interval = hc_interval (cs_heartbeat sv),
           op_token_lifetime = cs_token_lifetime sv,
           op_has_key = has_key,
           op_metrics_enabled = mx_enabled (cs_metrics sv),
           op_metrics_token = first_non_empty [getenv ''RUNNERLY_METRICS_TOKEN'', mx_token (cs_metrics sv)],
           op_requests_per_minute = rl_requests (cs_rate_limit sv),
           op_auth_per_minute = rl_auth (cs_rate_limit sv),
           op_trust_forwarded = rl_trust_forwarded (cs_rate_limit sv) \<rparr>)"

record start_flags =
  sf_config :: string
  sf_listen :: string
  sf_migrate_only :: bool
  sf_no_migrate :: bool

text \<open>
  How \<open>run\<close> goes on: it ends with an exit code, or serves on an address. \<open>open_db\<close> connects, and applies
  the migrations when it is told to; \<open>None\<close> is an error of either.
\<close>

datatype start_result = Exit int | Serving server_config server string "bytes option"

definition start_server ::
  "('y \<Rightarrow> config \<Rightarrow> config option) \<Rightarrow> (string \<Rightarrow> bool \<Rightarrow> db option) \<Rightarrow> process \<Rightarrow> start_flags \<Rightarrow> 'y disk \<Rightarrow> start_result \<times> 'y disk"
where
  "start_server dec open_db p flags d =
     (case load_config dec p (config_path_or_default p (sf_config flags)) d of
        ((cfg, _, Some e), d) \<Rightarrow> (Exit 1, d)
      | ((cfg, _, None), d) \<Rightarrow>
          (if validate_config cfg \<noteq> None then Exit 1
           else case open_db (first_non_empty [ps_env p ''RUNNERLY_DATABASE_URL'', cs_database (cf_server cfg)])
                       (\<not> sf_no_migrate flags \<or> sf_migrate_only flags) of
                  None \<Rightarrow> Exit 1
                | Some db \<Rightarrow>
                    if sf_migrate_only flags then Exit 0
                    else case load_key (first_non_empty [ps_env p ''RUNNERLY_SECRET_KEY'', cs_secret_key (cf_server cfg)]) of
                           Inl e \<Rightarrow> Exit 1
                         | Inr key \<Rightarrow>
                             let o1 = server_options_for (ps_env p) cfg (key \<noteq> None)
                             in Serving (new_config o1) (new_server o1 db)
                                  (first_non_empty [sf_listen flags, ps_env p ''RUNNERLY_LISTEN'',
                                     cs_listen (cf_server cfg), ''127.0.0.1:8080'']) key, d))"

section \<open>Housekeeping\<close>

definition stale_command_age :: duration where "stale_command_age = hour"

text \<open>One tick; \<open>now\<close> is the clock of each statement.\<close>

definition housekeeping :: "(nat \<Rightarrow> go_time) \<Rightarrow> int \<Rightarrow> db \<Rightarrow> db" where
  "housekeeping now retention_days db =
     (let (_, db) = prune_sessions (now 0) db;
          (_, db) = expire_stale_commands (now 1) stale_command_age db
      in if 0 < retention_days then snd (prune_events (now 2) retention_days db) else db)"

section \<open>Guarantees\<close>

lemma housekeeping_ok: "db_ok db \<Longrightarrow> db_ok (housekeeping now n db)"
proof -
  assume ok: "db_ok db"
  obtain r1 d1 where 1: "prune_sessions (now 0) db = (r1, d1)" by fastforce
  obtain r2 d2 where 2: "expire_stale_commands (now 1) stale_command_age d1 = (r2, d2)" by fastforce
  obtain r3 d3 where 3: "prune_events (now 2) n d2 = (r3, d3)" by fastforce
  have "db_ok d2" by (rule expire_stale_commands_ok [OF prune_sessions_ok [OF ok 1] 2])
  then show ?thesis using prune_events_ok [OF _ 3] by (simp add: housekeeping_def Let_def 1 2 [unfolded One_nat_def] 3)
qed

text \<open>How often an agent reports that has been told by this server.\<close>

definition told_interval :: "(string \<Rightarrow> string) \<Rightarrow> config \<Rightarrow> duration" where
  "told_interval getenv cfg = config_interval (interval_seconds (new_config (server_options_for getenv cfg False)))"

text \<open>
  The timings of a valid configuration fit together across the wire: an agent that reports as often as
  the server tells it to, which is in whole seconds, is never shown as stale or offline between two
  heartbeats. The interval must be at least a second, and the three timings set.
\<close>

theorem punctual_agent_looks_healthy:
  assumes "validate_config cfg = None" "hb = cs_heartbeat (cf_server cfg)"
    and "second \<le> hc_interval hb" "hc_interval hb \<le> max_int64" "0 < hc_stale hb" "0 < hc_offline hb"
    and "rn_heartbeat r = Some t" "\<not> retired r" "t \<le> now" "now - t \<le> told_interval getenv cfg"
  shows "runner_health r now (cfg_thresholds cfg) = HealthOK \<and> told_interval getenv cfg \<le> hc_interval hb"
proof -
  have hb: "hc_interval hb < hc_stale hb" "hc_stale hb < hc_offline hb"
    using validD(6) [OF assms(1)] assms(2-6) by (auto simp: validate_heartbeat_def second_def split: if_splits)
  let ?i = "hc_interval hb"
  have pos: "0 < ?i" using assms(3) by (simp add: second_def)
  have whole: "go_div ?i second = ?i div second" using pos by (simp add: go_div_pos second_def)
  have le: "?i div second * second \<le> ?i" using div_mult_mod_eq [of ?i second] by (simp add: second_def)
  have n: "0 < ?i div second" using assms(3) by (simp add: second_def pos_imp_zdiv_pos_iff)
  have "told_interval getenv cfg = wrap64 (?i div second * second)"
    using assms(2) pos n whole
    by (simp add: told_interval_def config_interval_def interval_seconds_def new_config_def server_options_for_def Let_def)
  also have "\<dots> = ?i div second * second"
    by (rule wrap64_id) (use le n assms(4) in \<open>auto simp: second_def max_int64_def min_int64_def\<close>)
  finally have told: "told_interval getenv cfg \<le> ?i" using le by simp
  have "time_sub now t = now - t"
    by (rule time_sub_exact) (use assms(4,9,10) told in \<open>auto simp: max_int64_def min_int64_def\<close>)
  then have "time_sub now t < hc_stale hb" using assms(10) told hb by simp
  moreover have "cfg_thresholds cfg = default_thresholds\<lparr>th_stale := hc_stale hb, th_offline := hc_offline hb\<rparr>"
    using assms(2,5,6) by (simp add: cfg_thresholds_def Let_def)
  ultimately show ?thesis using assms(7,8) told hb by (simp add: runner_health_def Let_def)
qed

definition sample_row :: runner_row where
  "sample_row = sample_runner\<lparr>rn_heartbeat := Some 0\<rparr>"

theorem punctual_agent_looks_healthy_witness:
  "runner_health sample_row (told_interval (\<lambda>_. '''') default_config) (cfg_thresholds default_config) = HealthOK"
proof -
  let ?hb = "cs_heartbeat (cf_server default_config)"
  have hb: "hc_interval ?hb = 20 * second" "hc_stale ?hb = 30 * second" "hc_offline ?hb = 90 * second"
    by (simp_all add: default_config_def)
  have t: "told_interval (\<lambda>_. '''') default_config = 20 * second" by code_simp
  show ?thesis
    using punctual_agent_looks_healthy [OF default_valid refl, of sample_row 0 "20 * second" "\<lambda>_. ''''"] hb t
    by (simp add: sample_row_def sample_runner_def registered_row_def retired_def second_def max_int64_def)
qed

text \<open>
  Below a second the interval is lost: there is a valid configuration, with every timing set, whose
  server tells agents an interval of 0 seconds, which they take as the default of 20 seconds, so that every
  runner is shown offline between its heartbeats.
\<close>

theorem subsecond_interval_looks_offline:
  "\<exists>cfg. validate_config cfg = None
    \<and> 0 < hc_interval (cs_heartbeat (cf_server cfg)) \<and> 0 < hc_stale (cs_heartbeat (cf_server cfg))
    \<and> interval_seconds (new_config (server_options_for getenv cfg k)) = 0
    \<and> runner_health sample_row (told_interval getenv cfg) (cfg_thresholds cfg) = HealthOffline"
proof -
  let ?hb = "\<lparr> hc_interval = 500 * millisecond, hc_stale = 2 * second, hc_offline = 10 * second \<rparr>"
  let ?cfg = "default_config\<lparr>cf_server := (cf_server default_config)\<lparr>cs_heartbeat := ?hb\<rparr>\<rparr>"
  have "validate_config ?cfg = None" by code_simp
  moreover have "interval_seconds (new_config (server_options_for getenv ?cfg b)) = 0" for b
    by (simp add: interval_seconds_def new_config_def server_options_for_def Let_def millisecond_def second_def go_div_def)
  moreover from this have "told_interval getenv ?cfg = 20 * second" by (simp add: told_interval_def config_interval_def)
  moreover have "runner_health sample_row (20 * second) (cfg_thresholds ?cfg) = HealthOffline"
    by (simp add: runner_health_def sample_row_def sample_runner_def registered_row_def retired_def
        cfg_thresholds_def Let_def default_thresholds_def second_def time_sub_def max_int64_def min_int64_def)
  ultimately show ?thesis
    by (intro exI [of _ ?cfg]) (simp add: millisecond_def second_def)
qed

end
