(* ===== verification/Agent_Run.thy ===== *)
theory Agent_Run
  imports Agent_Report Config Install Runner_State
begin

text \<open>
  \<open>internal/agent/agent.go\<close> and \<open>executor.go\<close>, and the installation of the job hooks of
  \<open>internal/jobstate/hooks.go\<close>: how an agent starts, the composition of the supervisor, the reporter and
  the job file while it runs, its outcome and its log.
\<close>

section \<open>Preparing\<close>

record hook_options =
  hk_install :: bool
  hk_binary :: string
  hk_config :: string

record agent_options =
  ao_runner :: installed
  ao_backoff :: backoff
  ao_stop_timeout :: duration
  ao_client :: "cp_client option"
  ao_interval :: duration
  ao_hooks :: hook_options
  ao_extra_env :: "string list"

datatype preflight_error = PfNoName | PfNoDir | PfGone | PfUnreadable | PfNotDirectory | PfNotConfigured | PfNoScript

definition stat_ok :: "path \<Rightarrow> fsys \<Rightarrow> bool \<times> fsys" where
  "stat_ok p fs = (case os_stat p fs of (r, fs) \<Rightarrow> (r = Some True, fs))"

definition preflight :: "installed \<Rightarrow> fsys \<Rightarrow> (preflight_error + string) \<times> fsys" where
  "preflight r fs =
     (if in_name r = '''' then (Inl PfNoName, fs)
      else if in_dir r = '''' then (Inl PfNoDir, fs)
      else
        let dir = dir_path (in_dir r)
        in case os_stat dir fs of
             (None, fs) \<Rightarrow> (Inl PfUnreadable, fs)
           | (Some False, fs) \<Rightarrow> (Inl PfGone, fs)
           | (Some True, fs) \<Rightarrow>
               if \<not> (case locate fs dir of Some q \<Rightarrow> is_dir fs q | None \<Rightarrow> False) then (Inl PfNotDirectory, fs)
               else
                 let (ok, fs) = stat_ok (dir @ [''.runner'']) fs
                 in if \<not> ok then (Inl PfNotConfigured, fs)
                    else
                      let (sh, fs) = stat_ok (dir @ [''run.sh'']) fs
                      in if sh then (Inr ''./run.sh'', fs)
                         else let (cmd, fs) = stat_ok (dir @ [''run.cmd'']) fs
                              in (if cmd then Inr ''./run.cmd'' else Inl PfNoScript, fs))"

text \<open>\<open>releaseVersion\<close>: three groups of digits between the last dash and the ending.\<close>

definition runner_version :: "string \<Rightarrow> string" where
  "runner_version release =
     (if \<not> suffix ''.tar.gz'' release then ''''
      else case last_at CHR ''-'' (take (length release - 7) release) of
             None \<Rightarrow> ''''
           | Some (_, v) \<Rightarrow>
               (let parts = split_on CHR ''.'' v
                in if length parts = 3 \<and> list_all (\<lambda>p. p \<noteq> '''' \<and> list_all is_digit p) parts then v else ''''))"

text \<open>Where \<open>BinaryPath\<close> looks: this executable, the files beside it, and the search path.\<close>

record binary_env =
  be_self :: "string option"
  be_exists :: "string \<Rightarrow> bool"
  be_lookup :: "string \<Rightarrow> string option"
  be_windows :: bool
  be_program_files :: string

definition default_binary_path :: "binary_env \<Rightarrow> string \<Rightarrow> string" where
  "default_binary_path be name =
     (if be_windows be then path_join [be_program_files be, ''Runnerly'', name @ ''.exe'']
      else ''/usr/local/bin/'' @ name)"

definition binary_path :: "binary_env \<Rightarrow> string" where
  "binary_path be =
     (let name = ''runnerly'';
          beside = (case be_self be of
                      None \<Rightarrow> None
                    | Some self \<Rightarrow>
                        if path_base self = name then Some self
                        else let candidate = path_join [path_dir self, name]
                             in if be_exists be candidate then Some candidate else None)
      in case beside of
           Some b \<Rightarrow> b
         | None \<Rightarrow> (case be_lookup be name of Some found \<Rightarrow> found | None \<Rightarrow> default_binary_path be name))"

definition no_hooks :: hook_options where
  "no_hooks = \<lparr> hk_install = False, hk_binary = '''', hk_config = '''' \<rparr>"

definition configure_executor :: "binary_env \<Rightarrow> config \<Rightarrow> string \<Rightarrow> bool \<Rightarrow> hook_options \<times> string list" where
  "configure_executor be cfg cpath need_job_state =
     (let docker = (ce_type (cf_executor cfg) = executor_docker);
          host = cd_host (ce_docker (cf_executor cfg))
      in (if docker \<or> need_job_state
          then \<lparr> hk_install = True, hk_binary = binary_path be, hk_config = cpath \<rparr> else no_hooks,
          if docker \<and> host \<noteq> '''' then [''DOCKER_HOST='' @ host] else []))"

section \<open>The job hooks\<close>

record hooks =
  hs_started :: string
  hs_completed :: string

definition hooks_env :: "hooks \<Rightarrow> string list" where
  "hooks_env h = [''ACTIONS_RUNNER_HOOK_JOB_STARTED='' @ hs_started h, ''ACTIONS_RUNNER_HOOK_JOB_COMPLETED='' @ hs_completed h]"

definition text_lines :: "string list \<Rightarrow> string" where
  "text_lines ls = concat (map (\<lambda>l. l @ [newline]) ls)"

definition hook_script :: "string \<Rightarrow> string \<Rightarrow> string" where
  "hook_script timing line = text_lines
     [''#!/bin/sh'',
      ''# Installed by Runnerly. Do not edit: it is rewritten whenever the agent'',
      ''# starts.'',
      ''#'',
      ''# GitHub'' @ [quote_char] @ ''s runner runs this '' @ timing @ '' each job. It records what the runner is doing'',
      ''# so the agent can report it, and cleans up Docker afterwards.'',
      ''#'',
      ''# A failure here must not fail the job, which is what the || true is for.'',
      line]"

definition powershell_script :: "string \<Rightarrow> string \<Rightarrow> string" where
  "powershell_script timing line = text_lines
     [''# Installed by Runnerly. Do not edit: it is rewritten whenever the agent'',
      ''# starts.'',
      ''#'',
      ''# GitHub'' @ [quote_char] @ ''s runner runs this '' @ timing @ '' each job. It records what the runner is'',
      ''# doing so the agent can report it, and cleans up Docker afterwards.'',
      ''#'',
      ''# A failure here must not fail the job, which is what the exit is for.'',
      line,
      ''exit 0'']"

definition state_dir :: "string \<Rightarrow> string" where
  "state_dir dir = path_join [dir, ''.runnerly'']"

definition job_path :: "string \<Rightarrow> string" where
  "job_path dir = path_join [state_dir dir, ''job.json'']"

definition hook_text :: "bool \<Rightarrow> string \<Rightarrow> string \<Rightarrow> string \<Rightarrow> string \<Rightarrow> string" where
  "hook_text windows name binary state_path cpath =
     (let timing = (if name = ''completed'' then ''after'' else ''before'')
      in if windows then powershell_script timing (powershell_line binary name state_path cpath)
         else hook_script timing (hook_line binary name state_path cpath))"

definition os_write_file :: "path \<Rightarrow> string \<Rightarrow> 32 word \<Rightarrow> fsys \<Rightarrow> bool \<times> fsys" where
  "os_write_file p bytes mode fs =
     (case os_open p mode fs of
        (None, fs) \<Rightarrow> (False, fs)
      | (Some i, fs) \<Rightarrow> os_write i bytes fs)"

text \<open>The two scripts are written in the order of a map, which is a parameter; the first failure ends it.\<close>

definition install_hooks ::
  "bool \<Rightarrow> bool \<Rightarrow> string \<Rightarrow> string \<Rightarrow> string \<Rightarrow> fsys \<Rightarrow> hooks option \<times> fsys"
where
  "install_hooks completed_first windows dir binary cpath fs =
     (if binary = '''' then (None, fs)
      else
        let sd = dir_path (state_dir dir);
            (ok, fs) = os_mkdir_all sd fs
        in if \<not> ok then (None, fs)
           else
             let ext = (if windows then ''.ps1'' else ''.sh'');
                 h = \<lparr> hs_started = path_join [state_dir dir, ''job-started'' @ ext],
                       hs_completed = path_join [state_dir dir, ''job-completed'' @ ext] \<rparr>;
                 script = (\<lambda>name. hook_text windows name binary (job_path dir) cpath);
                 files = [(''started'', ''job-started'' @ ext), (''completed'', ''job-completed'' @ ext)];
                 files = (if completed_first then rev files else files);
                 (n1, f1) = files ! 0; (n2, f2) = files ! 1;
                 (ok, fs) = os_write_file (sd @ [f1]) (script n1) 0x1C0 fs
             in if \<not> ok then (None, fs)
                else let (ok, fs) = os_write_file (sd @ [f2]) (script n2) 0x1C0 fs
                     in (if ok then Some h else None, fs))"

section \<open>Starting\<close>

definition agent_sup_opts :: "int \<Rightarrow> agent_options \<Rightarrow> string \<Rightarrow> sup_opts" where
  "agent_sup_opts oob opts script = \<lparr> so_command = script, so_backoff = ao_backoff opts,
     so_ephemeral = in_ephemeral (ao_runner opts), so_done = in_ephemeral (ao_runner opts) \<and> hk_install (ao_hooks opts),
     so_stop_timeout = ao_stop_timeout opts, so_oob = oob \<rparr>"

definition agent_reporter :: "agent_options \<Rightarrow> 'd \<Rightarrow> 'w \<Rightarrow> ('d, 'w) reporter option" where
  "agent_reporter opts store w =
     (case ao_client opts of
        None \<Rightarrow> None
      | Some c \<Rightarrow> Some (new_reporter c (ao_interval opts) (runner_version (in_release (ao_runner opts))) store w))"

text \<open>What has been prepared when the supervisor starts; hooks that cannot be installed are only logged.\<close>

record prepared =
  pr_sup :: sup_opts
  pr_env :: "string list"

definition prepare_agent ::
  "int \<Rightarrow> bool \<Rightarrow> bool \<Rightarrow> string list \<Rightarrow> agent_options \<Rightarrow> fsys \<Rightarrow> ((preflight_error + string) + prepared) \<times> fsys"
where
  "prepare_agent oob completed_first windows environ opts fs =
     (case preflight (ao_runner opts) fs of
        (Inl e, fs) \<Rightarrow> (Inl (Inl e), fs)
      | (Inr script, fs) \<Rightarrow>
          let hk = ao_hooks opts;
              (installed, fs) = (if hk_install hk
                then install_hooks completed_first windows (in_dir (ao_runner opts)) (hk_binary hk) (hk_config hk) fs
                else (None, fs));
              env = environ @ ao_extra_env opts @ (case installed of Some h \<Rightarrow> hooks_env h | None \<Rightarrow> [])
          in case new_supervisor (agent_sup_opts oob opts script) of
               Inl e \<Rightarrow> (Inl (Inr e), fs)
             | Inr so \<Rightarrow> (Inr \<lparr> pr_sup = so, pr_env = env \<rparr>, fs))"

section \<open>Running\<close>

text \<open>
  Three things act on one state: the goroutine of the supervisor, that of the reporter, and the hooks, which
  are processes of their own that the runner calls. \<open>ag_canceled\<close> is the context.
\<close>

record ('d, 'w, 'c) agent =
  ag_sup :: sup
  ag_report :: "('d, 'w) reporter option"
  ag_host :: "'c host"
  ag_canceled :: bool

record ('d, 'w, 'c) agent_env =
  an_opts :: agent_options
  an_sup :: sup_opts
  an_report :: "('d, 'w) report_env"
  an_docker :: "'c docker_env"
  an_hook_config :: "hook_config option"

datatype agent_input =
    CancelContext
  | Supervise input
  | Reporting report_input "proc_error option list"    \<comment> \<open>and the errors of stopping, when it restarts\<close>
  | JobHook string "string \<Rightarrow> string" go_time

definition agent_job_path :: "('d, 'w, 'c) agent_env \<Rightarrow> string" where
  "agent_job_path env = job_path (in_dir (ao_runner (an_opts env)))"

definition read_agent_job :: "('d, 'w, 'c) agent_env \<Rightarrow> ('d, 'w, 'c) agent \<Rightarrow> job_state \<times> ('d, 'w, 'c) agent" where
  "read_agent_job env ag =
     (let ((job, _), d) = read_job (agent_job_path env) (ho_disk (ag_host ag))
      in (job, ag\<lparr>ag_host := (ag_host ag)\<lparr>ho_disk := d\<rparr>\<rparr>))"

text \<open>\<open>onEvent\<close>, for the events that a step has emitted.\<close>

definition tell_events :: "('d, 'w, 'c) agent_env \<Rightarrow> sup \<Rightarrow> ('d, 'w, 'c) agent \<Rightarrow> ('d, 'w, 'c) agent" where
  "tell_events env s' ag =
     ag\<lparr>ag_sup := s', ag_report := map_option (fold (observe (an_report env)) (drop (length (su_trace (ag_sup ag))) (su_trace s')))
                      (ag_report ag)\<rparr>"

text \<open>\<open>ephemeralDone\<close> is asked when an ephemeral runner has left cleanly of its own accord.\<close>

definition asks_done :: "sup_opts \<Rightarrow> phase \<Rightarrow> bool" where
  "asks_done so p =
     (case p of
        PTaken pid err shutdown uptime asked \<Rightarrow> so_ephemeral so \<and> so_done so \<and> err = None \<and> \<not> shutdown \<and> \<not> asked
      | _ \<Rightarrow> False)"

definition supervise_step ::
  "('d, 'w, 'c) agent_env \<Rightarrow> input \<Rightarrow> ('d, 'w, 'c) agent \<Rightarrow> ('d, 'w, 'c) agent option"
where
  "supervise_step env i ag =
     (let (i, ag) = (case i of
            Proceed answer now \<Rightarrow>
              if asks_done (an_sup env) (su_phase (ag_sup ag))
              then let (job, ag) = read_agent_job env ag in (Proceed (finished_a_job job) now, ag)
              else (i, ag)
          | _ \<Rightarrow> (i, ag))
      in case i of
           RestartCalled e \<Rightarrow> None
         | Canceled e \<Rightarrow>
             if \<not> ag_canceled ag then None
             else map_option (\<lambda>s'. tell_events env s' ag) (sup_step (an_sup env) (ag_sup ag) i)
         | _ \<Rightarrow> map_option (\<lambda>s'. tell_events env s' ag) (sup_step (an_sup env) (ag_sup ag) i))"

fun restart_times :: "nat \<Rightarrow> proc_error option list \<Rightarrow> sup \<Rightarrow> sup" where
  "restart_times 0 errs s = s"
| "restart_times (Suc n) errs s =
     restart_times n (tl errs) (snd (restart (case errs of [] \<Rightarrow> None | e # _ \<Rightarrow> e) s))"

definition returned :: "sup \<Rightarrow> bool" where
  "returned s = (case su_phase s of PReturned e \<Rightarrow> True | _ \<Rightarrow> False)"

text \<open>
  The input of a round: the job file is read for a heartbeat that would say \<open>online\<close>; the reporter's context
  ends once the supervisor has returned.
\<close>

definition reporting_input ::
  "('d, 'w, 'c) agent_env \<Rightarrow> report_input \<Rightarrow> ('d, 'w) reporter \<Rightarrow> ('d, 'w, 'c) agent
   \<Rightarrow> (report_input \<times> ('d, 'w, 'c) agent) option"
where
  "reporting_input env i r ag =
     (case i of
        Observe e \<Rightarrow> None
      | EventReady \<Rightarrow> Some (EventReady, ag)
      | Tick load _ \<Rightarrow>
          if re_job_hooks (an_report env) \<and> rp_status r = ''online''
          then let (job, ag) = read_agent_job env ag in Some (Tick load job, ag)
          else Some (Tick load idle_job, ag)
      | ContextDone load _ \<Rightarrow> if returned (ag_sup ag) then Some (ContextDone load idle_job, ag) else None)"

definition reporting_step ::
  "('d, 'w, 'c) agent_env \<Rightarrow> report_input \<Rightarrow> proc_error option list \<Rightarrow> ('d, 'w, 'c) agent \<Rightarrow> ('d, 'w, 'c) agent option"
where
  "reporting_step env i errs ag =
     (case ag_report ag of
        None \<Rightarrow> None
      | Some r \<Rightarrow>
          (case reporting_input env i r ag of
             None \<Rightarrow> None
           | Some (i, ag) \<Rightarrow>
               (case report_step (an_report env) i r of
                  None \<Rightarrow> None
                | Some r' \<Rightarrow>
                    Some (tell_events env (restart_times (rp_restarts r' - rp_restarts r) errs (ag_sup ag))
                            (ag\<lparr>ag_report := Some r'\<rparr>)))))"

fun agent_step :: "('d, 'w, 'c) agent_env \<Rightarrow> agent_input \<Rightarrow> ('d, 'w, 'c) agent \<Rightarrow> ('d, 'w, 'c) agent option" where
  "agent_step env CancelContext ag = Some (ag\<lparr>ag_canceled := True\<rparr>)"
| "agent_step env (Supervise i) ag = supervise_step env i ag"
| "agent_step env (Reporting i errs) ag = reporting_step env i errs ag"
| "agent_step env (JobHook name getenv now) ag =
     Some (ag\<lparr>ag_host := run_hook (an_docker env) (an_hook_config env) name (agent_job_path env) getenv now (ag_host ag)\<rparr>)"

fun agent_run :: "('d, 'w, 'c) agent_env \<Rightarrow> ('d, 'w, 'c) agent \<Rightarrow> agent_input list \<Rightarrow> ('d, 'w, 'c) agent option" where
  "agent_run env ag [] = Some ag"
| "agent_run env ag (i # is) = Option.bind (agent_step env i ag) (\<lambda>ag'. agent_run env ag' is)"

definition init_agent :: "('d, 'w, 'c) agent_env \<Rightarrow> 'd \<Rightarrow> 'w \<Rightarrow> 'c host \<Rightarrow> ('d, 'w, 'c) agent" where
  "init_agent env store w h = \<lparr> ag_sup = init_sup, ag_report = agent_reporter (an_opts env) store w, ag_host = h,
     ag_canceled = False \<rparr>"

section \<open>The outcome\<close>

record outcome =
  oc_completed :: bool
  oc_job :: job_state

definition agent_outcome ::
  "('d, 'w, 'c) agent_env \<Rightarrow> ('d, 'w, 'c) agent \<Rightarrow> (outcome \<times> sup_error option) option"
where
  "agent_outcome env ag =
     (case su_phase (ag_sup ag) of
        PReturned e \<Rightarrow>
          let job = fst (read_agent_job env ag)
          in Some (\<lparr> oc_completed = in_ephemeral (ao_runner (an_opts env)) \<and> e = None \<and> \<not> ag_canceled ag
                \<and> finished_a_job job, oc_job = job \<rparr>, e)
      | _ \<Rightarrow> None)"

section \<open>The log\<close>

text \<open>\<open>log.go\<close>, and the lines \<open>logEvent\<close> writes: a level, a message and attributes.\<close>

datatype log_level = LevelDebug | LevelInfo | LevelWarn | LevelError

definition parse_level :: "string \<Rightarrow> log_level option" where
  "parse_level name =
     (let n = to_lower (trim_space name)
      in if n = '''' \<or> n = ''info'' then Some LevelInfo
         else if n = ''debug'' then Some LevelDebug
         else if n = ''warn'' \<or> n = ''warning'' then Some LevelWarn
         else if n = ''error'' then Some LevelError
         else None)"

text \<open>A logger: its level, and whether it writes JSON; \<open>None\<close> is an error.\<close>

definition new_logger :: "string \<Rightarrow> string \<Rightarrow> (log_level \<times> bool) option" where
  "new_logger format level =
     (case parse_level level of
        None \<Rightarrow> None
      | Some l \<Rightarrow>
          (let f = to_lower format
           in if f = '''' \<or> f = ''json'' then Some (l, True) else if f = ''text'' then Some (l, False) else None))"

datatype attr = TextAttr string | IntAttr int | SecondsAttr duration | ErrorAttr proc_error

record log_line =
  ll_level :: log_level
  ll_message :: string
  ll_attrs :: "(string \<times> attr) list"

definition error_attr :: "proc_error option \<Rightarrow> (string \<times> attr) list" where
  "error_attr e = (case e of None \<Rightarrow> [] | Some x \<Rightarrow> [(''error'', ErrorAttr x)])"

definition log_event :: "bool \<Rightarrow> event \<Rightarrow> log_line option" where
  "log_event ephemeral e =
     (let line = (\<lambda>l m name attrs. Some \<lparr> ll_level = l, ll_message = m, ll_attrs = (''event'', TextAttr name) # attrs \<rparr>)
      in case ev_kind e of
           EventStarting \<Rightarrow>
             line LevelDebug ''starting the runner'' ''runner_starting'' [(''attempt'', IntAttr (ev_attempt e))]
         | EventStarted \<Rightarrow> line LevelInfo ''runner is running'' ''runner_online'' [(''pid'', IntAttr (ev_pid e))]
         | EventExited \<Rightarrow>
             let attrs = [(''exit_code'', IntAttr (ev_exit_code e)), (''uptime_seconds'', SecondsAttr (ev_uptime e)),
                          (''attempt'', IntAttr (ev_attempt e))] @ error_attr (ev_err e)
             in if ephemeral \<and> ev_exit_code e = 0
                then line LevelInfo ''runner finished its job'' ''runner_exited'' attrs
                else line LevelWarn ''runner exited unexpectedly'' ''runner_exited'' attrs
         | EventRestarting \<Rightarrow>
             line LevelWarn ''restarting the runner'' ''runner_restarting''
               [(''attempt'', IntAttr (ev_attempt e)), (''delay_seconds'', SecondsAttr (ev_delay e))]
         | EventHealthy \<Rightarrow>
             line LevelInfo ''runner is healthy again'' ''runner_healthy'' [(''uptime_seconds'', SecondsAttr (ev_uptime e))]
         | EventGaveUp \<Rightarrow>
             line LevelError ''giving up on the runner'' ''runner_failed'' [(''attempts'', IntAttr (ev_attempt e))]
         | EventStopping \<Rightarrow>
             line LevelInfo ''stopping the runner'' ''runner_stopping'' ((''pid'', IntAttr (ev_pid e)) # error_attr (ev_err e))
         | EventKilled \<Rightarrow>
             line LevelWarn ''killed the runner after a graceful stop timed out'' ''runner_killed''
               [(''pid'', IntAttr (ev_pid e)), (''timeout_seconds'', SecondsAttr (ev_delay e))]
         | EventStopped \<Rightarrow> line LevelInfo ''runner is stopped'' ''runner_offline'' [(''pid'', IntAttr (ev_pid e))]
         | EventCompleted \<Rightarrow> None)"

end
