(* ===== verification/Agent_Run_Correct.thy ===== *)
theory Agent_Run_Correct
  imports Agent_Run Agent_Correct Supervisor_Correct
begin

text \<open>
  What an agent guarantees as a whole: the properties of the supervisor, of the reporter and of the job file
  carried over to the runs in which they act on one state.
\<close>

section \<open>What a step does to each part\<close>

lemma wait_before_retry_trace:
  "su_trace (wait_before_retry opts s) = su_trace s @ drop (length (su_trace s)) (su_trace (wait_before_retry opts s))"
  by (simp add: wait_before_retry_def Let_def)

lemma wait_before_retry_extends:
  "su_trace t = su_trace s @ x \<Longrightarrow> \<exists>new. su_trace (wait_before_retry opts t) = su_trace s @ new"
  using wait_before_retry_trace [of opts t] by (metis append.assoc)

lemma after_exit_trace: "\<exists>new. su_trace (after_exit opts b now pid err sh u asked s) = su_trace s @ new"
proof -
  let ?fin = "so_ephemeral opts \<and> err = None \<and> ephemeral_finished opts b"

  consider "sh" | "\<not> sh" "asked" | "\<not> sh" "\<not> asked" "?fin"
    | "\<not> sh" "\<not> asked" "\<not> ?fin" "over_budget opts now s"
    | "\<not> sh" "\<not> asked" "\<not> ?fin" "\<not> over_budget opts now s" by blast
  then show ?thesis
  proof cases
    case 4
    then show ?thesis
      by (cases "budget_on opts") (auto simp: after_exit_def Let_def set_current_simps spend_restart_eq over_budget_def budget_on_def)
  next
    case 5
    then show ?thesis
      by (cases "budget_on opts")
        (auto simp: after_exit_def Let_def set_current_simps spend_restart_eq over_budget_def
          intro: wait_before_retry_extends)
  qed (simp_all add: after_exit_def Let_def set_current_simps)
qed

lemma sup_step_trace:
  assumes "sup_step opts s i = Some s'"
  shows "\<exists>new. su_trace s' = su_trace s @ new"
  using assms
proof (cases rule: sup_step_cases)
  case (restart e)
  then show ?thesis by (auto simp: restart_def Let_def split: option.splits)
next
  case (launched pid now)
  then show ?thesis by (simp add: launch_def Let_def set_current_def)
next
  case (cancel pid t0 e)
  then show ?thesis by (simp add: request_stop_def Let_def)
next
  case (proceed pid err shutdown uptime asked answer now)
  then show ?thesis using after_exit_trace by simp
next
  case (launch_fails e)
  show ?thesis unfolding launch_fails(3) launch_fails_eq by (rule wait_before_retry_extends) simp
qed simp_all

lemma restart_trace: "\<exists>new. su_trace (snd (restart e s)) = su_trace s @ new"
  by (auto simp: restart_def Let_def split: option.splits)

lemma restart_times_trace: "\<exists>new. su_trace (restart_times n errs s) = su_trace s @ new"
proof (induction n arbitrary: errs s)
  case (Suc n)
  obtain a where a: "su_trace (snd (restart (case errs of [] \<Rightarrow> None | e # x \<Rightarrow> e) s)) = su_trace s @ a"
    using restart_trace by blast
  obtain b where "su_trace (restart_times (Suc n) errs s)
      = su_trace (snd (restart (case errs of [] \<Rightarrow> None | e # x \<Rightarrow> e) s)) @ b" using Suc.IH by auto
  then show ?case using a by simp
qed simp

lemma restart_times_sup_inv:
  assumes "\<And>s i s'. I s \<Longrightarrow> sup_step opts s i = Some s' \<Longrightarrow> I s'" "I s"
  shows "I (restart_times n errs s)"
  using assms(2)
proof (induction n arbitrary: errs s)
  case (Suc n)
  have "I (snd (restart e s))" for e using assms(1) [OF Suc.prems, of "RestartCalled e"] by simp
  then show ?case using Suc.IH by simp
qed simp

lemma tell_events_simps [simp]:
  "ag_sup (tell_events env s' ag) = s'" "ag_host (tell_events env s' ag) = ag_host ag"
  "ag_canceled (tell_events env s' ag) = ag_canceled ag"
  "(ag_report (tell_events env s' ag) = None) = (ag_report ag = None)"
  by (simp_all add: tell_events_def)

lemma tell_events_report:
  assumes "ag_report ag = Some r" "su_trace s' = su_trace (ag_sup ag) @ new"
  shows "ag_report (tell_events env s' ag) = Some (fold (observe (an_report env)) new r)"
  using assms by (simp add: tell_events_def)

lemma read_agent_job_simps:
  assumes "read_agent_job env ag = (job, ag')"
  shows "ag_sup ag' = ag_sup ag" "ag_report ag' = ag_report ag" "ag_canceled ag' = ag_canceled ag"
    "dk_files (ho_disk (ag_host ag')) = dk_files (ho_disk (ag_host ag))"
  using assms
  by (auto simp: read_agent_job_def read_job_def Let_def split: prod.splits sum.splits file_error.splits dest!: read_fileD)

text \<open>A step of an agent is a step of one of its parts; what the others see of it is said here once.\<close>

lemma agent_step_cases [consumes 1, case_names cancel sup report hook]:
  assumes "agent_step env i ag = Some ag'"
  obtains (cancel) "i = CancelContext" "ag' = ag\<lparr>ag_canceled := True\<rparr>"
  | (sup) j j' mid s' where "i = Supervise j" "sup_step (an_sup env) (ag_sup ag) j' = Some s'"
      "ag' = tell_events env s' mid" "ag_sup mid = ag_sup ag" "ag_report mid = ag_report ag"
      "ag_canceled mid = ag_canceled ag" "dk_files (ho_disk (ag_host mid)) = dk_files (ho_disk (ag_host ag))"
      "(\<exists>e. j = Canceled e) \<longrightarrow> ag_canceled ag"
  | (report) j errs j' mid r r' where "i = Reporting j errs" "ag_report ag = Some r"
      "report_step (an_report env) j' r = Some r'" "\<And>e. j' \<noteq> Observe e"
      "\<And>l b. j' = ContextDone l b \<Longrightarrow> returned (ag_sup ag)"
      "ag_sup mid = ag_sup ag" "ag_canceled mid = ag_canceled ag"
      "dk_files (ho_disk (ag_host mid)) = dk_files (ho_disk (ag_host ag))"
      "ag' = tell_events env (restart_times (rp_restarts r' - rp_restarts r) errs (ag_sup ag)) (mid\<lparr>ag_report := Some r'\<rparr>)"
  | (hook) name getenv now where "i = JobHook name getenv now"
      "ag' = ag\<lparr>ag_host := run_hook (an_docker env) (an_hook_config env) name (agent_job_path env) getenv now (ag_host ag)\<rparr>"
proof (cases i)
  case CancelContext
  then show thesis using assms cancel by simp
next
  case (Supervise j)
  obtain j' mid where m: "(case j of
            Proceed a now \<Rightarrow>
              if asks_done (an_sup env) (su_phase (ag_sup ag))
              then let (job, ag) = read_agent_job env ag in (Proceed (finished_a_job job) now, ag)
              else (j, ag)
          | _ \<Rightarrow> (j, ag)) = (j', mid)" by fastforce
  then have same: "ag_sup mid = ag_sup ag" "ag_report mid = ag_report ag" "ag_canceled mid = ag_canceled ag"
      "dk_files (ho_disk (ag_host mid)) = dk_files (ho_disk (ag_host ag))"
    by (auto dest: read_agent_job_simps split: input.splits if_splits prod.splits simp: Let_def)
  have c: "j' = Canceled e" if "j = Canceled e" for e using m that by simp
  have st: "supervise_step env j ag = (case j' of
           RestartCalled e \<Rightarrow> None
         | Canceled e \<Rightarrow>
             if \<not> ag_canceled mid then None
             else map_option (\<lambda>s'. tell_events env s' mid) (sup_step (an_sup env) (ag_sup mid) j')
         | _ \<Rightarrow> map_option (\<lambda>s'. tell_events env s' mid) (sup_step (an_sup env) (ag_sup mid) j'))"
    unfolding supervise_step_def m by simp
  obtain s' where "sup_step (an_sup env) (ag_sup ag) j' = Some s'" "ag' = tell_events env s' mid"
      "(\<exists>e. j' = Canceled e) \<longrightarrow> ag_canceled ag"
    using assms Supervise same st by (cases j') (auto split: if_splits)
  then show thesis using sup Supervise same c by metis
next
  case (Reporting j errs)
  obtain r where r: "ag_report ag = Some r" using assms Reporting by (auto simp: reporting_step_def split: option.splits)
  obtain j' mid where m: "reporting_input env j r ag = Some (j', mid)"
    using assms Reporting r by (auto simp: reporting_step_def split: option.splits)
  obtain r' where r': "report_step (an_report env) j' r = Some r'"
      "ag' = tell_events env (restart_times (rp_restarts r' - rp_restarts r) errs (ag_sup mid)) (mid\<lparr>ag_report := Some r'\<rparr>)"
    using assms Reporting r m by (auto simp: reporting_step_def split: option.splits)
  have same: "ag_sup mid = ag_sup ag" "ag_canceled mid = ag_canceled ag"
      "dk_files (ho_disk (ag_host mid)) = dk_files (ho_disk (ag_host ag))"
      "\<And>e. j' \<noteq> Observe e" "\<And>l b. j' = ContextDone l b \<Longrightarrow> returned (ag_sup ag)"
    using m by (auto simp: reporting_input_def Let_def dest: read_agent_job_simps
        split: report_input.splits if_splits prod.splits)
  show thesis using report [of j errs r j' r' mid] Reporting r r' same by simp
next
  case (JobHook name getenv now)
  then show thesis using assms hook by simp
qed

text \<open>What a step keeps of a state and the inputs so far, a run keeps.\<close>

lemma agent_run_history:
  assumes "\<And>past ag i ag'. I past ag \<Longrightarrow> agent_step env i ag = Some ag' \<Longrightarrow> I (past @ [i]) ag'"
  shows "I past ag \<Longrightarrow> agent_run env ag ins = Some ag' \<Longrightarrow> I (past @ ins) ag'"
proof (induction ins arbitrary: past ag)
  case (Cons i ins)
  then obtain ag1 where "agent_step env i ag = Some ag1" "agent_run env ag1 ins = Some ag'"
    by (auto simp: bind_eq_Some_conv)
  then show ?case using Cons.IH [OF assms [OF Cons.prems(1)]] by auto
qed simp

lemma agent_run_invariant:
  assumes "\<And>ag i ag'. I ag \<Longrightarrow> agent_step env i ag = Some ag' \<Longrightarrow> I ag'"
  shows "I ag \<Longrightarrow> agent_run env ag ins = Some ag' \<Longrightarrow> I ag'"
  using agent_run_history [where I = "\<lambda>_. I"] assms by blast

text \<open>An invariant of the supervisor is one of the agent: nothing else touches its state.\<close>

lemma agent_sup_invariant:
  assumes "\<And>s i s'. I s \<Longrightarrow> sup_step (an_sup env) s i = Some s' \<Longrightarrow> I s'"
    and "I (ag_sup ag)" "agent_run env ag ins = Some ag'"
  shows "I (ag_sup ag')"
proof (rule agent_run_invariant [where I = "\<lambda>ag. I (ag_sup ag)", OF _ assms(2,3)])
  fix ag i ag' assume i: "I (ag_sup ag)" and st: "agent_step env i ag = Some ag'"
  show "I (ag_sup ag')" using st
  proof (cases rule: agent_step_cases)
    case (sup j j' mid s')
    then show ?thesis using i assms(1) by auto
  next
    case (report j errs j' mid r r')
    then show ?thesis using restart_times_sup_inv [of I, OF assms(1) i] by simp
  qed (use i in simp_all)
qed

lemma agent_legal:
  assumes "agent_run env ag ins = Some ag'" "legal_trace (ag_sup ag)"
  shows "legal_trace (ag_sup ag')"
  by (rule agent_sup_invariant [where I = legal_trace, OF _ assms(2,1)]) (rule legal_trace_step)

section \<open>What is reported\<close>

lemma events_kept_fold:
  "events_kept seen r \<Longrightarrow> events_kept (seen @ map (observed_event env) es) (fold (observe env) es r)"
proof (induction es arbitrary: seen r)
  case (Cons e es)
  then show ?case using Cons.IH [OF events_kept_observe [OF Cons.prems]] by simp
qed simp

text \<open>
  The reporter's part of a step: what it has sent and what waits is a selection of the events that the
  supervisor has emitted. The control plane is any that keeps a log of the requests.
\<close>

definition reported_ok :: "('d, cp_request list \<times> 'w, 'c) agent_env \<Rightarrow> ('d, cp_request list \<times> 'w, 'c) agent \<Rightarrow> bool" where
  "reported_ok env ag \<longleftrightarrow>
     (\<exists>r. ag_report ag = Some r \<and> events_kept (map (observed_event (an_report env)) (su_trace (ag_sup ag))) r)"

lemma reported_tell:
  assumes "ag_report ag = Some r" "events_kept (map (observed_event (an_report env)) (su_trace (ag_sup ag))) r"
    "su_trace s' = su_trace (ag_sup ag) @ new"
  shows "reported_ok env (tell_events env s' ag)"
  using events_kept_fold [OF assms(2), of "an_report env" new] tell_events_report [OF assms(1,3)] assms(3)
  by (simp add: reported_ok_def)

lemma reported_step:
  assumes "re_plane (an_report env) = recording p" "reported_ok env ag" "agent_step env i ag = Some ag'"
  shows "reported_ok env ag'"
  using assms(3)
proof (cases rule: agent_step_cases)
  case (sup j j' mid s')
  obtain new where "su_trace s' = su_trace (ag_sup mid) @ new" using sup_step_trace [OF sup(2)] sup(4) by auto
  moreover obtain r where "ag_report mid = Some r"
      "events_kept (map (observed_event (an_report env)) (su_trace (ag_sup mid))) r"
    using assms(2) sup(4,5) by (auto simp: reported_ok_def)
  ultimately show ?thesis using reported_tell sup(3) by blast
next
  case (report j errs j' mid r r')
  have "events_kept (map (observed_event (an_report env)) (su_trace (ag_sup ag))) r"
    using assms(2) report(2) by (simp add: reported_ok_def)
  from events_kept_step [OF assms(1) this report(3)] report(4)
  have "events_kept (map (observed_event (an_report env)) (su_trace (ag_sup ag))) r'" by (cases j') auto
  moreover obtain new where "su_trace (restart_times (rp_restarts r' - rp_restarts r) errs (ag_sup ag))
      = su_trace (ag_sup ag) @ new" using restart_times_trace by blast
  ultimately show ?thesis
    using reported_tell [of "mid\<lparr>ag_report := Some r'\<rparr>" r' env] report(6,9) by simp
qed (use assms(2) in \<open>auto simp: reported_ok_def\<close>)


text \<open>A host with an ephemeral runner and a control plane that accepts everything.\<close>

definition sample_one_job :: installed where
  "sample_one_job = \<lparr> in_name = ''r'', in_scope = \<lparr> sp_kind = KindRepository, sp_owner = ''acme'', sp_repo = ''app'' \<rparr>, in_host = '''', in_dir = ''/r'',
     in_labels = [], in_ephemeral = True, in_release = '''', in_at = 0 \<rparr>"

definition sample_agent :: "(unit, cp_request list \<times> unit, bool \<times> string list) agent_env" where
  "sample_agent = \<lparr>
     an_opts = \<lparr> ao_runner = sample_one_job, ao_backoff = default_backoff, ao_stop_timeout = 0,
       ao_client = Some (new_client ''http://c'' ''t''), ao_interval = 0,
       ao_hooks = \<lparr> hk_install = True, hk_binary = ''/b'', hk_config = '''' \<rparr>, ao_extra_env = [] \<rparr>,
     an_sup = \<lparr> so_command = ''./run.sh'', so_backoff = default_backoff, so_ephemeral = True, so_done = True,
       so_stop_timeout = 30 * second, so_oob = 0 \<rparr>,
     an_report = sample_report, an_docker = small_docker, an_hook_config = Some \<lparr> hc_executor = ''host'', hc_cleanup = '''', hc_prune = False \<rparr> \<rparr>"

definition sample_host :: "job_state option \<Rightarrow> (bool \<times> string list) host" where
  "sample_host job = \<lparr> ho_disk = \<lparr> dk_files = (\<lambda>_. None)(job_path ''/r'' := map_option Doc job), dk_faults = [], dk_seen = [] \<rparr>,
     ho_docker = \<lparr> dm_state = (False, []), dm_calls = [] \<rparr> \<rparr>"

lemma sample_starts:
  "agent_run sample_agent (init_agent sample_agent () ([], ()) (sample_host None)) [Supervise (Launched 7 100)]
     = Some (tell_events sample_agent (launch (an_sup sample_agent) (Inr (7, 100)) init_sup)
         (init_agent sample_agent () ([], ()) (sample_host None)))"
  by (simp add: supervise_step_def init_agent_def init_sup_def)


section \<open>The status\<close>

definition kind_status :: "event_kind \<Rightarrow> string \<Rightarrow> string" where
  "kind_status k st =
     (case k of EventStarting \<Rightarrow> ''starting'' | EventStarted \<Rightarrow> ''online'' | EventExited \<Rightarrow> ''starting''
      | EventGaveUp \<Rightarrow> ''error'' | EventStopping \<Rightarrow> ''stopping'' | EventStopped \<Rightarrow> ''offline'' | _ \<Rightarrow> st)"

lemma kind_status_other:
  "k \<notin> {EventStarting, EventStarted, EventExited, EventGaveUp, EventStopping, EventStopped} \<Longrightarrow> kind_status k st = st"
  by (cases k) (simp_all add: kind_status_def)

lemma observe_status_of: "rp_status (observe env e r) = kind_status (ev_kind e) (rp_status r)"
  by (cases "ev_kind e") (simp_all add: observe_def observe_status_def set_status_def kind_status_def)

lemma fold_observe_status:
  "rp_status (fold (observe env) es r) = fold kind_status (map ev_kind es) (rp_status r)"
  by (induction es arbitrary: r) (simp_all add: observe_status_of)

lemma fold_kind_status_known: "fold kind_status ks st = ''busy'' \<Longrightarrow> st = ''busy''"
  by (induction ks arbitrary: st) (auto simp: kind_status_def split: event_kind.splits)

text \<open>In a legal life, the last word is \<open>online\<close> only between the start of a process and its end.\<close>

lemma online_up:
  "life_run LFresh ks = Some l \<Longrightarrow> fold kind_status ks ''starting'' = ''online'' \<Longrightarrow> l = LUp False"
proof (induction ks arbitrary: l rule: rev_induct)
  case (snoc k ks)
  then obtain l' where l': "life_run LFresh ks = Some l'" "life_step l' k = Some l"
    by (auto simp: bind_eq_Some_conv)
  show ?case
  proof (cases "k \<in> {EventStarting, EventStarted, EventExited, EventGaveUp, EventStopping, EventStopped}")
    case True
    then have "k = EventStarted" using snoc.prems(2) by (auto simp: kind_status_def)
    then show ?thesis using l'(2) by (cases l') auto
  next
    case False
    then have "fold kind_status ks ''starting'' = ''online''"
      using snoc.prems(2) kind_status_other [of k] by simp
    then have "l' = LUp False" using snoc.IH l'(1) by blast
    then show ?thesis using False l'(2) by (cases k) auto
  qed
qed simp

lemma returned_quiet:
  assumes "returned s" "legal_trace s" "sup_step opts s i = Some s'"
  shows "s' = s"
proof -
  have "su_current s = None" using assms(1,2) by (auto simp: returned_def legal_trace_def split: phase.splits)
  with assms(3) show ?thesis
    by (cases rule: sup_step_cases) (use assms(1) in \<open>auto simp: returned_def restart_def split: phase.splits\<close>)
qed

lemma restart_times_quiet: "su_current s = None \<Longrightarrow> restart_times n errs s = s"
  by (induction n arbitrary: errs) (simp_all add: restart_def)

lemma restart_times_phase [simp]: "su_phase (restart_times n errs s) = su_phase s"
  by (induction n arbitrary: errs s) simp_all

definition status_follows :: "('d, 'w, 'c) agent \<Rightarrow> bool" where
  "status_follows ag \<longleftrightarrow> legal_trace (ag_sup ag) \<and>
     (\<exists>r. ag_report ag = Some r \<and>
        (rp_status r = fold kind_status (kinds (ag_sup ag)) ''starting'' \<or> returned (ag_sup ag) \<and> rp_status r = ''offline''))"

lemma report_step_status:
  assumes "report_step env i r = Some r'" "\<And>e. i \<noteq> Observe e"
  shows "rp_status r' = (case i of ContextDone l b \<Rightarrow> ''offline'' | _ \<Rightarrow> rp_status r)"
  using assms
  by (cases i) (auto simp: flush_events_def drain_def final_report_def Let_def split: if_splits list.splits)

lemma status_tell:
  assumes "ag_report ag = Some r" "rp_status r = fold kind_status (kinds (ag_sup ag)) ''starting''"
    "su_trace s' = su_trace (ag_sup ag) @ new" "legal_trace s'"
  shows "status_follows (tell_events env s' ag)"
  using assms tell_events_report [OF assms(1,3)] by (simp add: status_follows_def kinds_def fold_observe_status)

lemma status_quiet:
  assumes "ag_report ag = Some r" "returned (ag_sup ag)" "rp_status r = ''offline''" "legal_trace (ag_sup ag)"
  shows "status_follows (tell_events env (ag_sup ag) ag)"
  using assms tell_events_report [OF assms(1), of "ag_sup ag" "[]"] by (simp add: status_follows_def)

lemma status_step:
  assumes inv: "status_follows ag" and st: "agent_step env i ag = Some ag'"
  shows "status_follows ag'"
proof -
  obtain r0 where r0: "ag_report ag = Some r0" "legal_trace (ag_sup ag)"
    "rp_status r0 = fold kind_status (kinds (ag_sup ag)) ''starting'' \<or> returned (ag_sup ag) \<and> rp_status r0 = ''offline''"
    using inv by (auto simp: status_follows_def)
  show ?thesis using st
  proof (cases rule: agent_step_cases)
    case (sup j j' mid s')
    have legal: "legal_trace s'" using legal_trace_step [OF r0(2) sup(2)] .
    obtain new where new: "su_trace s' = su_trace (ag_sup mid) @ new" using sup_step_trace [OF sup(2)] sup(4) by auto
    show ?thesis
    proof (cases "returned (ag_sup ag)")
      case True
      then have "s' = ag_sup mid" using returned_quiet [OF _ r0(2) sup(2)] sup(4) by simp
      then show ?thesis using sup(3,4,5) r0 status_quiet [of mid r0 env] status_tell [of mid r0 s' new env, OF _ _ new legal] True
        by auto
    next
      case False
      then show ?thesis using sup(3,4,5) r0 status_tell [of mid r0 s' new env, OF _ _ new legal] by auto
    qed
  next
    case (report j errs j' mid r r')
    let ?s = "restart_times (rp_restarts r' - rp_restarts r) errs (ag_sup ag)"
    have rr: "r = r0" using report(2) r0(1) by simp
    obtain new where new: "su_trace ?s = su_trace (ag_sup ag) @ new" using restart_times_trace by blast
    have legal: "legal_trace ?s"
      by (rule restart_times_sup_inv [where I = legal_trace and opts = "an_sup env", OF _ r0(2)]) (rule legal_trace_step)
    show ?thesis
    proof (cases "returned (ag_sup ag)")
      case True
      then have q: "?s = ag_sup ag" using r0(2)
        by (intro restart_times_quiet) (auto simp: returned_def legal_trace_def split: phase.splits)
      have "rp_status r' = ''offline'' \<or> rp_status r' = rp_status r0"
        using report_step_status [OF report(3,4)] rr by (cases j') auto
      then show ?thesis
        using q report(6,9) r0 True status_quiet [of "mid\<lparr>ag_report := Some r'\<rparr>" r' env]
          status_tell [of "mid\<lparr>ag_report := Some r'\<rparr>" r' "ag_sup ag" "[]" env] by auto
    next
      case False
      then have "rp_status r' = rp_status r0"
        using report_step_status [OF report(3,4)] report(5) rr by (cases j') auto
      then show ?thesis
        using report(6,9) r0 False new legal status_tell [of "mid\<lparr>ag_report := Some r'\<rparr>" r' ?s new env] by auto
    qed
  qed (use inv in \<open>auto simp: status_follows_def\<close>)
qed

lemma status_run:
  assumes "ao_client (an_opts env) \<noteq> None" "agent_run env (init_agent env store w h) ins = Some ag"
  shows "status_follows ag"
proof (rule agent_run_invariant [where I = status_follows, OF _ _ assms(2)])
  show "status_follows (init_agent env store w h)"
    using assms(1) legal_trace_init
    by (auto simp: status_follows_def init_agent_def agent_reporter_def new_reporter_def init_sup_def kinds_def)
qed (rule status_step)



section \<open>Completion\<close>

text \<open>What the job file says goes back to the hooks that have run since it was not there.\<close>

definition began :: "agent_input list \<Rightarrow> go_time \<Rightarrow> bool" where
  "began past t \<longleftrightarrow> t = zero_time \<or> (\<exists>a getenv b. past = a @ JobHook ''started'' getenv t # b)"

definition began_and_ended :: "agent_input list \<Rightarrow> go_time \<Rightarrow> go_time \<Rightarrow> bool" where
  "began_and_ended past t u \<longleftrightarrow> t = zero_time \<or> u = zero_time
     \<or> (\<exists>a getenv b getenv' c. past = a @ JobHook ''started'' getenv t # b @ JobHook ''completed'' getenv' u # c)"

lemma began_later: "began past t \<Longrightarrow> began (past @ [i]) t"
  unfolding began_def by (metis append.assoc append_Cons)

lemma began_and_ended_later: "began_and_ended past t u \<Longrightarrow> began_and_ended (past @ [i]) t u"
  unfolding began_and_ended_def by (metis append.assoc append_Cons)

lemma began_ends: "began past t \<Longrightarrow> began_and_ended (past @ [JobHook ''completed'' getenv u]) t u"
  by (fastforce simp: began_def began_and_ended_def)

definition accounted :: "agent_input list \<Rightarrow> job_state contents option \<Rightarrow> bool" where
  "accounted past f \<longleftrightarrow> (case f of
       None \<Rightarrow> True
     | Some (Doc s) \<Rightarrow> began past (js_started s) \<and> began_and_ended past (js_started s) (js_finished s)
     | Some _ \<Rightarrow> False)"

lemma accounted_later: "accounted past f \<Longrightarrow> accounted (past @ [i]) f"
  by (auto simp: accounted_def began_later began_and_ended_later split: option.splits contents.splits)

lemma hook_started_accounted:
  assumes "accounted past (dk_files (ho_disk h) path)"
  shows "accounted (past @ [JobHook ''started'' getenv now]) (dk_files (ho_disk (hook_started env cfg path g now h)) path)"
proof -
  obtain s dm where s: "(if cleanup_after_job cfg
                     then (case take_snapshot env (ho_docker h) of
                             (Inl _, dm) \<Rightarrow> ((job_from_environment g)\<lparr>js_status := status_running, js_started := now\<rparr>, dm)
                           | (Inr snap, dm) \<Rightarrow> ((job_from_environment g)\<lparr>js_status := status_running, js_started := now, js_docker := snap\<rparr>, dm))
                     else ((job_from_environment g)\<lparr>js_status := status_running, js_started := now\<rparr>, ho_docker h)) = (s, dm)"
    by fastforce
  then have f: "js_started s = now" "js_finished s = zero_time"
    by (auto simp: job_from_environment_def empty_job_def split: if_splits prod.splits sum.splits)
  obtain ok d where w: "write_job path s (ho_disk h) = (ok, d)" by fastforce
  have out: "ho_disk (hook_started env cfg path g now h) = d"
    using s w by (auto simp: hook_started_def Let_def split: if_splits prod.splits sum.splits)
  have "began (past @ [JobHook ''started'' getenv now]) now" by (auto simp: began_def)
  then show ?thesis unfolding out using write_jobD(1) [OF w] f accounted_later [OF assms]
    by (auto simp: accounted_def began_and_ended_def)
qed

lemma hook_completed_accounted:
  assumes "accounted past (dk_files (ho_disk h) path)"
  shows "accounted (past @ [JobHook ''completed'' getenv now]) (dk_files (ho_disk (hook_completed env cfg path now h)) path)"
proof -
  obtain previous e d where r: "read_job path (ho_disk h) = ((previous, e), d)" by (metis prod.collapse)
  have d: "d = next_call (ho_disk h)" using r
    by (auto simp: read_job_def split: prod.splits sum.splits file_error.splits dest!: read_fileD)
  have prev: "began past (js_started previous)"
  proof (cases "\<exists>s. fst (read_file path (ho_disk h)) = Inr s")
    case True
    then obtain s where "read_file path (ho_disk h) = (Inr s, d)" using d by (metis read_fileD prod.collapse)
    then show ?thesis using r assms read_file_ok [of path "ho_disk h" s d]
      by (auto simp: read_job_def accounted_def split: if_splits)
  next
    case False
    then have "previous = idle_job" using r
      by (auto simp: read_job_def split: prod.splits sum.splits file_error.splits)
    then show ?thesis by (simp add: began_def idle_job_def empty_job_def)
  qed
  let ?s = "empty_job\<lparr>js_status := status_idle, js_repository := js_repository previous,
             js_workflow := js_workflow previous, js_job := js_job previous, js_run_id := js_run_id previous,
             js_started := js_started previous, js_finished := now\<rparr>"
  obtain ok d' where w: "write_job path ?s d = (ok, d')" by fastforce
  have out: "ho_disk (hook_completed env cfg path now h) = d'"
    using r w by (simp add: hook_completed_def Let_def)
  show ?thesis unfolding out using write_jobD(1) [OF w] d accounted_later [OF assms] began_ends [OF prev] began_later [OF prev]
    by (auto simp: accounted_def)
qed

lemma accounted_step:
  assumes "accounted past (dk_files (ho_disk (ag_host ag)) (agent_job_path env))" "agent_step env i ag = Some ag'"
  shows "accounted (past @ [i]) (dk_files (ho_disk (ag_host ag')) (agent_job_path env))"
  using assms(2)
proof (cases rule: agent_step_cases)
  case (hook name getenv now)
  consider "name = ''started''" | "name = ''completed''" | "name \<noteq> ''started''" "name \<noteq> ''completed''" by blast
  then show ?thesis using hook assms(1) hook_started_accounted hook_completed_accounted
    by cases (auto simp: run_hook_def accounted_later split: option.splits)
qed (use assms(1) accounted_later in auto)

lemma canceled_step:
  "agent_step env i ag = Some ag' \<Longrightarrow> (CancelContext \<in> set past \<longrightarrow> ag_canceled ag)
     \<Longrightarrow> (CancelContext \<in> set (past @ [i]) \<longrightarrow> ag_canceled ag')"
  by (cases rule: agent_step_cases) auto

lemma read_job_finished:
  assumes "finished_a_job (fst (fst (read_job path d)))"
  shows "\<exists>s. dk_files d path = Some (Doc s) \<and> js_started s = js_started (fst (fst (read_job path d)))
    \<and> js_finished s = js_finished (fst (fst (read_job path d)))"
proof -
  obtain r d' where r: "read_file path d = (r, d')" by fastforce
  have "\<exists>s. r = Inr s" using assms r
    by (auto simp: read_job_def finished_a_job_def ran_a_job_def idle_job_def empty_job_def is_zero_time_def
        split: sum.splits file_error.splits)
  then show ?thesis using r read_file_ok [of path d _ d'] by (auto simp: read_job_def)
qed


text \<open>The inputs of a runner that starts and leaves cleanly, and where they lead when the job file says that a job is done.\<close>

definition clean_exit :: "int \<Rightarrow> go_time \<Rightarrow> go_time \<Rightarrow> agent_input list" where
  "clean_exit pid t u = [Supervise (Launched pid t), Supervise (ProcessExits None u), Supervise TakeFlag, Supervise (Proceed False u)]"

lemma read_agent_job_doc:
  assumes "dk_files (ho_disk (ag_host ag)) (agent_job_path env) = Some (Doc s)" "js_status s \<noteq> ''''"
    "dk_faults (ho_disk (ag_host ag)) = []"
  shows "read_agent_job env ag = (s, ag\<lparr>ag_host := (ag_host ag)\<lparr>ho_disk := next_call (ho_disk (ag_host ag))\<rparr>\<rparr>)"
  using assms by (simp add: read_agent_job_def read_job_doc)

lemma clean_exit_run:
  assumes "so_ephemeral (an_sup env)" "so_done (an_sup env)"
    and "su_phase (ag_sup ag) = PTop" "dk_files (ho_disk (ag_host ag)) (agent_job_path env) = Some (Doc s)"
    and "finished_a_job s" "dk_faults (ho_disk (ag_host ag)) = []"
  shows "\<exists>ag'. agent_run env ag (clean_exit pid t u) = Some ag' \<and> su_phase (ag_sup ag') = PReturned None
    \<and> ag_canceled ag' = ag_canceled ag \<and> fst (read_agent_job env ag') = s"
proof -
  let ?s1 = "launch (an_sup env) (Inr (pid, t)) (ag_sup ag)"
  let ?ag1 = "tell_events env ?s1 ag"
  let ?s2 = "?s1\<lparr>su_phase := PExited pid None False (time_sub u t)\<rparr>"
  let ?ag2 = "tell_events env ?s2 ?ag1"
  let ?s3 = "?s2\<lparr>su_restarting := False, su_phase := PTaken pid None False (time_sub u t) False\<rparr>"
  let ?ag3 = "tell_events env ?s3 ?ag2"
  let ?mid = "?ag3\<lparr>ag_host := (ag_host ag)\<lparr>ho_disk := next_call (ho_disk (ag_host ag))\<rparr>\<rparr>"
  let ?s4 = "after_exit (an_sup env) True u pid None False (time_sub u t) False ?s3"
  have st: "js_status s \<noteq> ''''" using assms(5) by (auto simp: finished_a_job_def status_idle_def)
  have r3: "read_agent_job env ?ag3 = (s, ?mid)" using read_agent_job_doc [of ?ag3 env s] assms(4,6) st by simp
  have 1: "agent_step env (Supervise (Launched pid t)) ag = Some ?ag1" using assms(3) by (simp add: supervise_step_def)
  have 2: "agent_step env (Supervise (ProcessExits None u)) ?ag1 = Some ?ag2" by (simp add: supervise_step_def)
  have 3: "agent_step env (Supervise TakeFlag) ?ag2 = Some ?ag3" by (simp add: supervise_step_def take_restart_flag_def)
  have 4: "agent_step env (Supervise (Proceed False u)) ?ag3 = Some (tell_events env ?s4 ?mid)"
    using assms(1,2,5) r3 by (simp add: supervise_step_def asks_done_def)
  have "su_phase ?s4 = PReturned None"
    using assms(1,2) by (simp add: after_exit_def Let_def set_current_simps ephemeral_finished_def)
  moreover have "fst (read_agent_job env (tell_events env ?s4 ?mid)) = s"
    using read_agent_job_doc [of "tell_events env ?s4 ?mid" env s] assms(4,6) st by simp
  moreover have "agent_run env ag (clean_exit pid t u) = Some (tell_events env ?s4 ?mid)"
    by (simp only: clean_exit_def agent_run.simps 1 2 3 4 Option.bind.simps)
  ultimately show ?thesis by (intro exI [of _ "tell_events env ?s4 ?mid"]) simp
qed

text \<open>
  A job file that an earlier run has left behind counts for this one: an ephemeral runner that starts and
  exits cleanly without having been given a job is called completed, with the earlier job as its own, and is
  not started again.
\<close>

theorem stale_job_counts:
  assumes "so_ephemeral (an_sup env)" "so_done (an_sup env)" "in_ephemeral (ao_runner (an_opts env))"
    and "dk_files (ho_disk h) (agent_job_path env) = Some (Doc s)" "finished_a_job s" "dk_faults (ho_disk h) = []"
  shows "\<exists>ag. agent_run env (init_agent env store w h) (clean_exit pid t u) = Some ag
    \<and> agent_outcome env ag = Some (\<lparr> oc_completed = True, oc_job = s \<rparr>, None)"
proof -
  obtain ag where ag: "agent_run env (init_agent env store w h) (clean_exit pid t u) = Some ag"
    "su_phase (ag_sup ag) = PReturned None" "\<not> ag_canceled ag" "fst (read_agent_job env ag) = s"
    using clean_exit_run [OF assms(1,2), of "init_agent env store w h" s pid t u] assms(4,5,6)
    by (auto simp: init_agent_def init_sup_def)
  then show ?thesis using assms(3,5) by (intro exI [of _ ag]) (simp add: agent_outcome_def)
qed

definition old_job :: job_state where
  "old_job = idle_job\<lparr>js_started := 10, js_finished := 20\<rparr>"

lemma old_job_finished: "finished_a_job old_job"
  by (simp add: old_job_def finished_a_job_def ran_a_job_def idle_job_def is_zero_time_def zero_time_def)

theorem stale_job_counts_witness:
  "\<exists>ag. agent_run sample_agent (init_agent sample_agent () ([], ()) (sample_host (Some old_job))) (clean_exit 7 100 101) = Some ag
    \<and> agent_outcome sample_agent ag = Some (\<lparr> oc_completed = True, oc_job = old_job \<rparr>, None)"
  by (rule stale_job_counts [OF _ _ _ _ old_job_finished])
    (simp_all add: sample_agent_def sample_host_def agent_job_path_def sample_one_job_def)

lemma agent_run_append:
  "agent_run env ag (xs @ ys) = Option.bind (agent_run env ag xs) (\<lambda>ag'. agent_run env ag' ys)"
  by (induction xs arbitrary: ag) (simp_all split: bind_splits)

lemma hooks_without_docker:
  assumes "dk_faults (ho_disk h) = []" "path \<noteq> ''''" "cfg = \<lparr> hc_executor = ''host'', hc_cleanup = '''', hc_prune = False \<rparr>"
    "t \<noteq> zero_time" "u \<noteq> zero_time"
    "h' = run_hook env (Some cfg) ''completed'' path getenv u (run_hook env (Some cfg) ''started'' path getenv t h)"
  shows "\<exists>s. dk_files (ho_disk h') path = Some (Doc s) \<and> finished_a_job s \<and> js_started s = t \<and> js_finished s = u
    \<and> dk_faults (ho_disk h') = []"
  using assms
  by (simp add: run_hook_def hook_started_def hook_completed_def cleanup_after_job_def write_job_def mkdir_all_def
      write_file_def rename_file_def Let_def read_job_def read_file_def finished_a_job_def ran_a_job_def is_zero_time_def
      empty_job_def status_idle_def status_running_def)


end
