(* ===== verification/Cli.thy ===== *)
theory Cli
  imports Agent_Run Credentials Extract_Safety
begin

text \<open>
  The runner commands of the command line: \<open>internal/cli/root.go\<close>, \<open>runner_create.go\<close>, \<open>runner.go\<close> and the
  commands of \<open>agent.go\<close>. A command is a function of what it is given (\<open>cli\<close>) on the state it finds on the
  machine and at GitHub (\<open>cli_state\<close>). What is printed for people is left out, as is the parsing of flags,
  which is a library's.
\<close>

section \<open>What a command is given\<close>

text \<open>
  \<open>ci_answer\<close> is the line the operator types, \<open>None\<close> when it cannot be read; \<open>ci_abs\<close> is \<open>filepath.Abs\<close>;
  \<open>ci_walk\<close> is the order in which Go walks the map of runners.
\<close>

record ('y, 'w) cli =
  ci_decode :: "'y \<Rightarrow> config \<Rightarrow> config option"
  ci_process :: process
  ci_config :: string
  ci_token :: string
  ci_interactive :: bool
  ci_answer :: "string option"
  ci_hostname :: "string option"
  ci_abs :: "string \<Rightarrow> string option"
  ci_walk :: "runners_file \<Rightarrow> runners_file"
  ci_now :: go_time
  ci_github :: "'w github"
  ci_install :: "'w install_env"

record ('y, 'w) cli_state =
  ms_config :: "'y disk"
  ms_runners :: "runners_file disk"
  ms_creds :: "credentials disk"
  ms_fs :: fsys
  ms_world :: 'w

datatype cli_error =
    ConfigError file_error
  | TokenFailed token_error
  | ScopeFailed scope_error
  | NoOrganizationSet
  | NoScopeGiven
  | BadName
  | GitHubError gh_error
  | PublicRepository
  | PathFailed
  | InstallFailed install_error
  | StateFailed state_error
  | NotConfirmed
  | CannotRead
  | NameOrId
  | NameAndId
  | ForgetFailed file_error
  | PurgeFailed
  | NotRegistered
  | NoRandomName

definition resolved_config_path :: "('y, 'w) cli \<Rightarrow> string" where
  "resolved_config_path c = (if ci_config c \<noteq> '''' then ci_config c else config_path (ci_process c))"

definition beside_config :: "('y, 'w) cli \<Rightarrow> string \<Rightarrow> string" where
  "beside_config c name = path_join [path_dir (resolved_config_path c), name]"

definition state_path :: "('y, 'w) cli \<Rightarrow> string" where
  "state_path c = beside_config c ''runners.yaml''"

definition credentials_path :: "('y, 'w) cli \<Rightarrow> string" where
  "credentials_path c = beside_config c ''credentials.yaml''"

definition cli_config :: "('y, 'w) cli \<Rightarrow> ('y, 'w) cli_state \<Rightarrow> (cli_error + config) \<times> ('y, 'w) cli_state" where
  "cli_config c m =
     (case load_config (ci_decode c) (ci_process c) (resolved_config_path c) (ms_config m) of
        ((cfg, found, err), d) \<Rightarrow>
          (case err of None \<Rightarrow> Inr cfg | Some e \<Rightarrow> Inl (ConfigError e), m\<lparr>ms_config := d\<rparr>))"

definition github_client ::
  "('y, 'w) cli \<Rightarrow> ('y, 'w) cli_state \<Rightarrow> (cli_error + gh_client \<times> config) \<times> ('y, 'w) cli_state"
where
  "github_client c m =
     (case cli_config c m of
        (Inl e, m) \<Rightarrow> (Inl e, m)
      | (Inr cfg, m) \<Rightarrow>
          (case resolve_token (credentials_path c) (cg_host (cf_github cfg)) (ci_token c) (ps_env (ci_process c)) (ms_creds m) of
             (Inl e, d) \<Rightarrow> (Inl (TokenFailed e), m\<lparr>ms_creds := d\<rparr>)
           | (Inr t, d) \<Rightarrow> (Inr (new_for_host (cg_host (cf_github cfg)) (tk_value t), cfg), m\<lparr>ms_creds := d\<rparr>)))"

section \<open>Which repository or organization\<close>

text \<open>A scope is returned together with what is wrong with it; the callers return when something is.\<close>

definition checked :: "scope \<Rightarrow> cli_error + scope" where
  "checked s = (case validate_scope s of None \<Rightarrow> Inr s | Some e \<Rightarrow> Inl (ScopeFailed e))"

definition parsed :: "string \<Rightarrow> cli_error + scope" where
  "parsed raw = (case parse_repository raw of Inl e \<Rightarrow> Inl (ScopeFailed e) | Inr s \<Rightarrow> Inr s)"

definition recorded_scope ::
  "('y, 'w) cli \<Rightarrow> string \<Rightarrow> ('y, 'w) cli_state \<Rightarrow> (cli_error + scope) option \<times> ('y, 'w) cli_state"
where
  "recorded_scope c name m =
     (if name = '''' then (None, m)
      else case get_installed (ci_walk c) (state_path c) name (ms_runners m) of
             (Inl e, d) \<Rightarrow> (None, m\<lparr>ms_runners := d\<rparr>)
           | (Inr r, d) \<Rightarrow> (Some (checked (in_scope r)), m\<lparr>ms_runners := d\<rparr>))"

definition configured_scope :: "config \<Rightarrow> (cli_error + scope) option" where
  "configured_scope cfg =
     (let g = cf_github cfg
      in if cg_scope g = scope_organization
         then (if cg_organization g \<noteq> '''' then Some (checked (for_organization (cg_organization g))) else None)
         else (if cg_repository g \<noteq> '''' then Some (parsed (cg_repository g)) else None))"

definition resolve_scope ::
  "('y, 'w) cli \<Rightarrow> string \<Rightarrow> string \<Rightarrow> config \<Rightarrow> string \<Rightarrow> ('y, 'w) cli_state \<Rightarrow> (cli_error + scope) \<times> ('y, 'w) cli_state"
where
  "resolve_scope c repo org cfg name m =
     (if repo \<noteq> '''' then (parsed repo, m)
      else if org \<noteq> '''' then (checked (for_organization org), m)
      else case recorded_scope c name m of
             (Some r, m) \<Rightarrow> (r, m)
           | (None, m) \<Rightarrow>
               (case configured_scope cfg of
                  Some r \<Rightarrow> (r, m)
                | None \<Rightarrow>
                    (case only_installed (ci_walk c) (state_path c) (ms_runners m) of
                       (Inr r, d) \<Rightarrow> (checked (in_scope r), m\<lparr>ms_runners := d\<rparr>)
                     | (Inl e, d) \<Rightarrow>
                         (Inl (if cg_scope (cf_github cfg) = scope_organization then NoOrganizationSet else NoScopeGiven),
                          m\<lparr>ms_runners := d\<rparr>))))"

definition confirm :: "bool \<Rightarrow> string option \<Rightarrow> cli_error + bool" where
  "confirm interactive answer =
     (if \<not> interactive then Inl NotConfirmed
      else case answer of
             None \<Rightarrow> Inl CannotRead
           | Some line \<Rightarrow> (let l = to_lower (trim_space line) in Inr (l = ''y'' \<or> l = ''yes'')))"

section \<open>Creating a runner\<close>

definition check_runner_policy ::
  "'w github \<Rightarrow> gh_client \<Rightarrow> config \<Rightarrow> scope \<Rightarrow> bool \<Rightarrow> 'w \<Rightarrow> cli_error option \<times> 'w"
where
  "check_runner_policy gh client cfg s permit w =
     (if cf_allow_public cfg \<or> permit then (None, w)
      else if sp_kind s \<noteq> KindRepository then (None, w)
      else case get_repository_info gh client s w of
             (Inl e, w) \<Rightarrow> (Some (GitHubError e), w)
           | (Inr r, w) \<Rightarrow> (if rp_private r then None else Some PublicRepository, w))"

definition validate_runner_name :: "string \<Rightarrow> cli_error option" where
  "validate_runner_name name = (if name_pattern name then None else Some BadName)"

definition fallback_name :: string where "fallback_name = ''runnerly-01''"

definition default_runner_name :: "config \<Rightarrow> string option \<Rightarrow> string" where
  "default_runner_name cfg hostname =
     (if cr_name (cf_runner cfg) \<noteq> '''' then cr_name (cf_runner cfg)
      else case hostname of
             None \<Rightarrow> fallback_name
           | Some host \<Rightarrow>
               (let cleaned = trim_both (\<lambda>x. x \<in> set ''-._'')
                      (map (\<lambda>x. if is_alnum x \<or> x \<in> set ''-_.'' then x else CHR ''-'') host)
                in if cleaned = '''' then fallback_name else cleaned))"

definition split_labels :: "string \<Rightarrow> config \<Rightarrow> string list" where
  "split_labels flag cfg =
     (if trim_space flag = '''' then cr_labels (cf_runner cfg)
      else filter (\<lambda>l. l \<noteq> '''') (map trim_space (split_on CHR '','' flag)))"

record create_flags =
  cr_repo :: string
  cr_org :: string
  cr_flag_name :: string
  cr_flag_labels :: string
  cr_flag_dir :: string
  cr_flag_work :: string
  cr_flag_group :: string
  cr_ephemeral :: bool
  cr_replace :: bool
  cr_allow_public :: bool

text \<open>
  Registering, which \<open>create\<close> and \<open>ephemeral run\<close> share: a token, the installation, and the record of it.
  That the record could not be written is a warning, the second component of the result.
\<close>

definition register_at ::
  "('y, 'w) cli \<Rightarrow> gh_client \<Rightarrow> config \<Rightarrow> scope \<Rightarrow> install_options \<Rightarrow> ('y, 'w) cli_state
   \<Rightarrow> (cli_error + installed \<times> bool) \<times> ('y, 'w) cli_state"
where
  "register_at c client cfg target opts m =
     (case create_registration_token (ci_github c) client target (ms_world m) of
        (Inl e, w) \<Rightarrow> (Inl (GitHubError e), m\<lparr>ms_world := w\<rparr>)
      | (Inr t, w) \<Rightarrow>
          (case install (ci_install c) (ci_github c) client target (opts\<lparr>io_token := rt_token t\<rparr>) (ms_fs m) w of
             (Inl e, fs, w) \<Rightarrow> (Inl (InstallFailed e), m\<lparr>ms_fs := fs, ms_world := w\<rparr>)
           | (Inr res, fs, w) \<Rightarrow>
               let r = \<lparr> in_name = io_name opts, in_scope = target, in_host = cg_host (cf_github cfg), in_dir = ir_dir res,
                         in_labels = ir_labels res, in_ephemeral = io_ephemeral opts, in_release = ir_filename res,
                         in_at = zero_time \<rparr>;
                   (put, d) = put_installed (state_path c) (ci_now c) r (ms_runners m)
               in (Inr (r, case put of Inl e \<Rightarrow> False | Inr _ \<Rightarrow> True),
                   m\<lparr>ms_fs := fs, ms_world := w, ms_runners := d\<rparr>)))"

definition runner_create ::
  "('y, 'w) cli \<Rightarrow> create_flags \<Rightarrow> ('y, 'w) cli_state \<Rightarrow> (cli_error + installed \<times> bool) \<times> ('y, 'w) cli_state"
where
  "runner_create c f m =
     (case github_client c m of
        (Inl e, m) \<Rightarrow> (Inl e, m)
      | (Inr (client, cfg), m) \<Rightarrow>
          let name = (if cr_flag_name f = '''' then default_runner_name cfg (ci_hostname c) else cr_flag_name f)
          in case resolve_scope c (cr_repo f) (cr_org f) cfg name m of
               (Inl e, m) \<Rightarrow> (Inl e, m)
             | (Inr target, m) \<Rightarrow>
                 (case validate_runner_name name of
                    Some e \<Rightarrow> (Inl e, m)
                  | None \<Rightarrow>
                      (case check_runner_policy (ci_github c) client cfg target (cr_allow_public f) (ms_world m) of
                         (Some e, w) \<Rightarrow> (Inl e, m\<lparr>ms_world := w\<rparr>)
                       | (None, w) \<Rightarrow>
                           let m = m\<lparr>ms_world := w\<rparr>;
                               dir = (if cr_flag_dir f = '''' then runner_dir (ci_process c) cfg name else cr_flag_dir f)
                           in case ci_abs c dir of
                                None \<Rightarrow> (Inl PathFailed, m)
                              | Some dir \<Rightarrow>
                                  register_at c client cfg target
                                    \<lparr> io_dir = dir, io_name = name, io_labels = split_labels (cr_flag_labels f) cfg,
                                      io_url = scope_web_url (cg_host (cf_github cfg)) target, io_token = '''',
                                      io_group = cr_flag_group f, io_work = cr_flag_work f,
                                      io_ephemeral = cr_ephemeral f, io_replace = cr_replace f \<rparr> m)))"

section \<open>Listing and looking up\<close>

definition runner_list ::
  "('y, 'w) cli \<Rightarrow> string \<Rightarrow> string \<Rightarrow> ('y, 'w) cli_state \<Rightarrow> (cli_error + gh_runner list) \<times> ('y, 'w) cli_state"
where
  "runner_list c repo org m =
     (case github_client c m of
        (Inl e, m) \<Rightarrow> (Inl e, m)
      | (Inr (client, cfg), m) \<Rightarrow>
          (case resolve_scope c repo org cfg '''' m of
             (Inl e, m) \<Rightarrow> (Inl e, m)
           | (Inr target, m) \<Rightarrow>
               (case list_gh_runners (ci_github c) client target (ms_world m) of
                  (Inl e, w) \<Rightarrow> (Inl (GitHubError e), m\<lparr>ms_world := w\<rparr>)
                | (Inr rs, w) \<Rightarrow> (Inr rs, m\<lparr>ms_world := w\<rparr>))))"

definition describe_runner_lookup :: "gh_error \<Rightarrow> cli_error" where
  "describe_runner_lookup e = (if e = RunnerNotFound then NotRegistered else GitHubError e)"

definition runner_status ::
  "('y, 'w) cli \<Rightarrow> string \<Rightarrow> string \<Rightarrow> string \<Rightarrow> ('y, 'w) cli_state \<Rightarrow> (cli_error + gh_runner) \<times> ('y, 'w) cli_state"
where
  "runner_status c repo org name m =
     (case github_client c m of
        (Inl e, m) \<Rightarrow> (Inl e, m)
      | (Inr (client, cfg), m) \<Rightarrow>
          (case resolve_scope c repo org cfg name m of
             (Inl e, m) \<Rightarrow> (Inl e, m)
           | (Inr target, m) \<Rightarrow>
               (case find_runner_by_name (ci_github c) client target name (ms_world m) of
                  (Inl e, w) \<Rightarrow> (Inl (describe_runner_lookup e), m\<lparr>ms_world := w\<rparr>)
                | (Inr r, w) \<Rightarrow> (Inr r, m\<lparr>ms_world := w\<rparr>))))"

section \<open>Removing a runner\<close>

text \<open>\<open>os.RemoveAll\<close>: what is below goes first, and what cannot be removed does not stop the rest.\<close>

fun remove_nodes :: "path list \<Rightarrow> fsys \<Rightarrow> bool \<times> fsys" where
  "remove_nodes [] fs = (True, fs)"
| "remove_nodes (p # ps) fs =
     (let (bad, fs) = sys_fault fs;
          gone = \<not> bad \<and> \<not> nonempty fs p;
          (ok, fs) = remove_nodes ps (if gone then set_node p None fs else fs)
      in (gone \<and> ok, fs))"

definition nodes_below :: "path \<Rightarrow> fsys \<Rightarrow> path list" where
  "nodes_below q fs = rev (sort_key length (filter (prefix q) (remdups (map fst (fs_nodes fs)))))"

definition os_remove_all :: "path \<Rightarrow> fsys \<Rightarrow> bool \<times> fsys" where
  "os_remove_all p fs =
     (case locate_entry fs p of
        None \<Rightarrow> (True, fs)
      | Some q \<Rightarrow> if fs_node fs q = None then (True, fs) else remove_nodes (nodes_below q fs) fs)"

record remove_flags =
  rv_repo :: string
  rv_org :: string
  rv_id :: int
  rv_purge :: bool
  rv_yes :: bool

record removed =
  rd_registered :: bool       \<comment> \<open>the registration was there and has been deleted\<close>
  rd_forgotten :: bool
  rd_purged :: bool

text \<open>What is to be removed: the id at GitHub, and whether GitHub still knows it.\<close>

definition find_removal ::
  "('y, 'w) cli \<Rightarrow> gh_client \<Rightarrow> scope \<Rightarrow> string \<Rightarrow> int \<Rightarrow> bool \<Rightarrow> ('y, 'w) cli_state
   \<Rightarrow> (cli_error + int \<times> bool) \<times> ('y, 'w) cli_state"
where
  "find_removal c client target name i known m =
     (if name = '''' then (Inr (i, True), m)
      else case find_runner_by_name (ci_github c) client target name (ms_world m) of
             (Inr r, w) \<Rightarrow> (Inr (gr_id r, True), m\<lparr>ms_world := w\<rparr>)
           | (Inl e, w) \<Rightarrow>
               (if e = RunnerNotFound \<and> known then Inr (i, False) else Inl (describe_runner_lookup e), m\<lparr>ms_world := w\<rparr>))"

text \<open>The end of the command: the record, then the files.\<close>

definition forget_and_purge ::
  "('y, 'w) cli \<Rightarrow> string \<Rightarrow> installed option \<Rightarrow> bool \<Rightarrow> bool \<Rightarrow> ('y, 'w) cli_state
   \<Rightarrow> (cli_error + removed) \<times> ('y, 'w) cli_state"
where
  "forget_and_purge c name known purge registered m =
     (let ((forgotten, err), d) = (if name = '''' then ((False, None), ms_runners m)
            else delete_installed (ci_walk c) (state_path c) name (ms_runners m));
          m = m\<lparr>ms_runners := d\<rparr>
      in case err of
           Some e \<Rightarrow> (Inl (ForgetFailed e), m)
         | None \<Rightarrow>
             (case known of
                Some r \<Rightarrow>
                  if purge
                  then let (ok, fs) = os_remove_all (dir_path (in_dir r)) (ms_fs m)
                       in (if ok then Inr \<lparr> rd_registered = registered, rd_forgotten = forgotten, rd_purged = True \<rparr>
                           else Inl PurgeFailed, m\<lparr>ms_fs := fs\<rparr>)
                  else (Inr \<lparr> rd_registered = registered, rd_forgotten = forgotten, rd_purged = False \<rparr>, m)
              | None \<Rightarrow> (Inr \<lparr> rd_registered = registered, rd_forgotten = forgotten, rd_purged = False \<rparr>, m)))"

text \<open>\<open>None\<close> in the result: the operator said no.\<close>

definition runner_remove ::
  "('y, 'w) cli \<Rightarrow> string option \<Rightarrow> remove_flags \<Rightarrow> ('y, 'w) cli_state
   \<Rightarrow> (cli_error + removed option) \<times> ('y, 'w) cli_state"
where
  "runner_remove c arg f m =
     (if arg = None \<and> rv_id f = 0 then (Inl NameOrId, m)
      else if arg \<noteq> None \<and> rv_id f \<noteq> 0 then (Inl NameAndId, m)
      else
        let name = (case arg of None \<Rightarrow> '''' | Some n \<Rightarrow> n)
        in case github_client c m of
             (Inl e, m) \<Rightarrow> (Inl e, m)
           | (Inr (client, cfg), m) \<Rightarrow>
               (case resolve_scope c (rv_repo f) (rv_org f) cfg name m of
                  (Inl e, m) \<Rightarrow> (Inl e, m)
                | (Inr target, m) \<Rightarrow>
                    let (got, d) = get_installed (ci_walk c) (state_path c) name (ms_runners m);
                        m = m\<lparr>ms_runners := d\<rparr>;
                        known = (case got of Inl e \<Rightarrow> None | Inr r \<Rightarrow> if name \<noteq> '''' then Some r else None)
                    in case find_removal c client target name (rv_id f) (known \<noteq> None) m of
                         (Inl e, m) \<Rightarrow> (Inl e, m)
                       | (Inr (i, registered), m) \<Rightarrow>
                           (case (if rv_yes f then Inr True else confirm (ci_interactive c) (ci_answer c)) of
                              Inl e \<Rightarrow> (Inl e, m)
                            | Inr False \<Rightarrow> (Inr None, m)
                            | Inr True \<Rightarrow>
                                (case (if registered then delete_gh_runner (ci_github c) client target i (ms_world m)
                                       else (Inr (), ms_world m)) of
                                   (Inl e, w) \<Rightarrow> (Inl (GitHubError e), m\<lparr>ms_world := w\<rparr>)
                                 | (Inr _, w) \<Rightarrow>
                                     (case forget_and_purge c name known (rv_purge f) registered (m\<lparr>ms_world := w\<rparr>) of
                                        (Inl e, m) \<Rightarrow> (Inl e, m)
                                      | (Inr r, m) \<Rightarrow> (Inr (Some r), m))))))"

section \<open>Guarantees\<close>

text \<open>What the lookups leave alone.\<close>

lemma get_installed_files: "get_installed walk path name d = (r, d') \<Longrightarrow> dk_files d' = dk_files d"
  by (auto simp: get_installed_def load_runners_def split: prod.splits sum.splits file_error.splits option.splits dest!: read_fileD)

lemma only_installed_files: "only_installed walk path d = (r, d') \<Longrightarrow> dk_files d' = dk_files d"
  by (auto simp: only_installed_def list_installed_def load_runners_def
      split: prod.splits sum.splits file_error.splits list.splits dest!: read_fileD)

lemma github_client_state:
  "github_client c m = (r, m') \<Longrightarrow> ms_fs m' = ms_fs m \<and> ms_runners m' = ms_runners m \<and> ms_world m' = ms_world m"
  by (auto simp: github_client_def cli_config_def split: prod.splits sum.splits option.splits)

lemma recorded_scope_state:
  "recorded_scope c name m = (r, m') \<Longrightarrow>
     ms_fs m' = ms_fs m \<and> dk_files (ms_runners m') = dk_files (ms_runners m) \<and> ms_world m' = ms_world m"
  by (auto simp: recorded_scope_def split: prod.splits sum.splits if_splits dest!: get_installed_files)

lemma resolve_scope_state:
  "resolve_scope c repo org cfg name m = (r, m') \<Longrightarrow>
     ms_fs m' = ms_fs m \<and> dk_files (ms_runners m') = dk_files (ms_runners m) \<and> ms_world m' = ms_world m"
  by (auto simp: resolve_scope_def split: prod.splits sum.splits option.splits if_splits
      dest!: recorded_scope_state only_installed_files)


text \<open>A machine with nothing on it, and a GitHub where every repository is public.\<close>

definition public_github :: "gh_request list github" where
  "public_github rq w = (Inr \<lparr> gs_status = 200, gs_headers = [], gs_body = GRepository no_repository \<rparr>, w @ [rq])"

definition sample_cli :: "(unit, gh_request list) cli" where
  "sample_cli = \<lparr> ci_decode = (\<lambda>_ c. Some c),
     ci_process = \<lparr> ps_root = True, ps_env = (\<lambda>_. ''''), ps_home = None, ps_temp = ''/tmp'', ps_exists = (\<lambda>_. False) \<rparr>,
     ci_config = ''/c/config.yaml'', ci_token = ''t'', ci_interactive = False, ci_answer = None, ci_hostname = Some ''host'',
     ci_abs = Some, ci_walk = id, ci_now = 9, ci_github = public_github,
     ci_install = \<lparr> ie_goos = ''linux'', ie_goarch = ''amd64'', ie_http = (\<lambda>_. NoReply), ie_sha = id, ie_unpack = (\<lambda>_ _. []),
       ie_run = (\<lambda>_ _ fs w. ((True, ''''), fs, w)) \<rparr> \<rparr>"

definition sample_state :: "(unit, gh_request list) cli_state" where
  "sample_state = \<lparr> ms_config = \<lparr> dk_files = (\<lambda>_. None), dk_faults = [], dk_seen = [] \<rparr>, ms_runners = no_runners_disk,
     ms_creds = \<lparr> dk_files = (\<lambda>_. None), dk_faults = [], dk_seen = [] \<rparr>, ms_fs = no_files, ms_world = [] \<rparr>"

definition sample_create :: create_flags where
  "sample_create = \<lparr> cr_repo = ''acme/app'', cr_org = '''', cr_flag_name = ''n'', cr_flag_labels = '''', cr_flag_dir = '''',
     cr_flag_work = '''', cr_flag_group = '''', cr_ephemeral = False, cr_replace = False, cr_allow_public = False \<rparr>"

definition sample_target :: scope where
  "sample_target = \<lparr> sp_kind = KindRepository, sp_owner = ''acme'', sp_repo = ''app'' \<rparr>"

lemma sample_client:
  "github_client sample_cli sample_state = (Inr (new_for_host ''github.com'' ''t'', default_config),
     sample_state\<lparr>ms_config := next_call (ms_config sample_state)\<rparr>)"
proof -
  have "resolved_config_path sample_cli = ''/c/config.yaml''" by (simp add: resolved_config_path_def sample_cli_def)
  moreover have "read_file ''/c/config.yaml'' (ms_config sample_state) = (Inl NotExist, next_call (ms_config sample_state))"
    by (rule read_file_none) (simp_all add: sample_state_def)
  moreover have "trim_space ''t'' = ''t''" by code_simp
  ultimately show ?thesis
    by (simp add: github_client_def cli_config_def load_config_def resolve_token_def sample_cli_def default_config_def)
qed

lemma sample_target_parsed: "parsed ''acme/app'' = Inr sample_target"
  by code_simp


section \<open>What a purge removes\<close>

lemma remove_nodes_others: "remove_nodes ps fs = (ok, fs') \<Longrightarrow> p \<notin> set ps \<Longrightarrow> fs_node fs' p = fs_node fs p"
proof (induction ps arbitrary: fs ok fs')
  case (Cons a ps)
  obtain bad fs1 where 1: "sys_fault fs = (bad, fs1)" by fastforce
  obtain ok2 fs2 where 2: "remove_nodes ps (if \<not> bad \<and> \<not> nonempty fs1 a then set_node a None fs1 else fs1) = (ok2, fs2)" by fastforce
  have "fs' = fs2" using Cons.prems(1) 1 2 by (simp add: Let_def)
  moreover have "fs_node fs1 p = fs_node fs p" using 1 by (auto simp: sys_fault_def fs_node_def split: list.splits)
  ultimately show ?case using Cons.IH [OF 2] Cons.prems(2) by (auto split: if_splits)
qed simp

lemma remove_nodes_gone: "remove_nodes ps fs = (True, fs') \<Longrightarrow> p \<in> set ps \<Longrightarrow> fs_node fs' p = None"
proof (induction ps arbitrary: fs fs')
  case (Cons a ps)
  obtain bad fs1 where 1: "sys_fault fs = (bad, fs1)" by fastforce
  have 2: "remove_nodes ps (set_node a None fs1) = (True, fs')"
    using Cons.prems(1) 1 by (auto simp: Let_def split: prod.splits if_splits)
  show ?case
  proof (cases "p \<in> set ps")
    case True
    then show ?thesis using Cons.IH [OF 2] by simp
  next
    case False
    then show ?thesis using remove_nodes_others [OF 2] Cons.prems(2) by simp
  qed
qed simp

lemma nodes_below_iff: "p \<in> set (nodes_below q fs) \<longleftrightarrow> prefix q p \<and> fs_node fs p \<noteq> None"
  by (auto simp: nodes_below_def fs_node_def map_of_eq_None_iff)

lemma os_remove_allD:
  assumes "os_remove_all dir fs = (ok, fs')"
  shows "fs_node fs' p \<noteq> fs_node fs p \<Longrightarrow> \<exists>q. locate_entry fs dir = Some q \<and> prefix q p"
    and "ok \<Longrightarrow> locate_entry fs dir = Some q \<Longrightarrow> fs_node fs q \<noteq> None \<Longrightarrow> prefix q p \<Longrightarrow> fs_node fs' p = None"
proof -
  show "fs_node fs' p \<noteq> fs_node fs p \<Longrightarrow> \<exists>q. locate_entry fs dir = Some q \<and> prefix q p"
    using assms remove_nodes_others [of _ fs ok fs' p] nodes_below_iff [of p _ fs]
    by (auto simp: os_remove_all_def split: option.splits if_splits)
  assume q: "ok" "locate_entry fs dir = Some q" "fs_node fs q \<noteq> None" "prefix q p"
  then have r: "remove_nodes (nodes_below q fs) fs = (True, fs')" using assms by (auto simp: os_remove_all_def)
  show "fs_node fs' p = None"
  proof (cases "fs_node fs p = None")
    case True
    then show ?thesis using remove_nodes_others [OF r, of p] q(4) by (simp add: nodes_below_iff)
  next
    case False
    then show ?thesis using remove_nodes_gone [OF r] q(4) by (simp add: nodes_below_iff)
  qed
qed

lemma get_installed_recorded:
  assumes "walks (ci_walk c)" "get_installed (ci_walk c) path name d = (Inr r, d')"
  shows "\<exists>k. (k, r) \<in> set (recorded path d) \<and> equal_fold k name"
proof -
  obtain f where "load_runners path d = (Inr f, d')" "\<exists>k. find (\<lambda>(k, _). equal_fold k name) (ci_walk c f) = Some (k, r)"
    using assms(2) by (auto simp: get_installed_def split: prod.splits sum.splits option.splits)
  then show ?thesis using load_runners_ok [of path d f d'] assms(1)
    by (auto simp: walks_def dest!: find_someD)
qed

lemma forget_and_purge_files:
  assumes "forget_and_purge c name known purge reg m = (res, m')" "fs_node (ms_fs m') p \<noteq> fs_node (ms_fs m) p"
  shows "purge \<and> (\<exists>r q. known = Some r \<and> locate_entry (ms_fs m) (dir_path (in_dir r)) = Some q \<and> prefix q p)"
proof -
  obtain r where r: "purge" "known = Some r"
    using assms by (auto simp: forget_and_purge_def Let_def split: prod.splits option.splits if_splits)
  obtain ok fs where fs: "os_remove_all (dir_path (in_dir r)) (ms_fs m) = (ok, fs)" by fastforce
  have "ms_fs m' = fs"
    using assms r fs by (auto simp: forget_and_purge_def Let_def split: prod.splits option.splits)
  then show ?thesis using os_remove_allD(1) [OF fs] assms(2) r by auto
qed

lemma find_removal_state:
  "find_removal c client target name i known m = (r, m') \<Longrightarrow> ms_fs m' = ms_fs m \<and> ms_runners m' = ms_runners m"
  by (auto simp: find_removal_def split: prod.splits sum.splits if_splits)

text \<open>
  C21: removing a runner deletes no file but those of that runner: whatever GitHub answers and whichever call
  fails, a file that the command has removed is in the directory recorded on this machine for a runner of the
  name given, \<open>--purge\<close> was given, and the operator has agreed, by \<open>--yes\<close> or by an answer at a terminal.
\<close>

theorem purge_confined:
  assumes "walks (ci_walk c)" "runner_remove c arg f m = (res, m')"
    and "fs_node (ms_fs m') p \<noteq> fs_node (ms_fs m) p"
  shows "rv_purge f \<and> (rv_yes f \<or> confirm (ci_interactive c) (ci_answer c) = Inr True)
    \<and> (\<exists>name k r q. arg = Some name \<and> (k, r) \<in> set (recorded (state_path c) (ms_runners m)) \<and> equal_fold k name
         \<and> locate_entry (ms_fs m) (dir_path (in_dir r)) = Some q \<and> prefix q p)"
proof -
  let ?name = "case arg of None \<Rightarrow> '''' | Some n \<Rightarrow> n"
  obtain x m1 where 1: "github_client c m = (x, m1)" by fastforce
  note s1 = github_client_state [OF 1]
  obtain client cfg where x: "x = Inr (client, cfg)"
    using assms(2,3) 1 s1 by (cases x) (auto simp: runner_remove_def Let_def split: if_splits)
  obtain y m2 where 2: "resolve_scope c (rv_repo f) (rv_org f) cfg ?name m1 = (y, m2)" by fastforce
  note s2 = resolve_scope_state [OF 2]
  obtain target where y: "y = Inr target"
    using assms(2,3) 1 2 x s1 s2 by (cases y) (auto simp: runner_remove_def Let_def split: if_splits)
  obtain got d where 3: "get_installed (ci_walk c) (state_path c) ?name (ms_runners m2) = (got, d)" by fastforce
  let ?known = "case got of Inl e \<Rightarrow> None | Inr r \<Rightarrow> if ?name \<noteq> '''' then Some r else None"
  let ?m3 = "m2\<lparr>ms_runners := d\<rparr>"
  obtain z m4 where 4: "find_removal c client target ?name (rv_id f) (?known \<noteq> None) ?m3 = (z, m4)" by fastforce
  note s4 = find_removal_state [OF 4]
  obtain i reg where z: "z = Inr (i, reg)"
    using assms(2,3) 1 2 3 4 x y s1 s2 s4 by (cases z) (auto simp: runner_remove_def Let_def split: if_splits)
  let ?yes = "if rv_yes f then Inr True else confirm (ci_interactive c) (ci_answer c)"
  have run: "runner_remove c arg f m = (case ?yes of
       Inl e \<Rightarrow> (Inl e, m4)
     | Inr False \<Rightarrow> (Inr None, m4)
     | Inr True \<Rightarrow>
         (case (if reg then delete_gh_runner (ci_github c) client target i (ms_world m4) else (Inr (), ms_world m4)) of
            (Inl e, w) \<Rightarrow> (Inl (GitHubError e), m4\<lparr>ms_world := w\<rparr>)
          | (Inr _, w) \<Rightarrow>
              (case forget_and_purge c ?name ?known (rv_purge f) reg (m4\<lparr>ms_world := w\<rparr>) of
                 (Inl e, m) \<Rightarrow> (Inl e, m)
               | (Inr r, m) \<Rightarrow> (Inr (Some r), m))))"
    if "\<not> (arg = None \<and> rv_id f = 0)" "\<not> (arg \<noteq> None \<and> rv_id f \<noteq> 0)"
    using 1 2 3 4 x y z that by (auto simp: runner_remove_def Let_def)
  have fs4: "ms_fs m4 = ms_fs m" using s1 s2 s4 by simp
  have given: "\<not> (arg = None \<and> rv_id f = 0)" "\<not> (arg \<noteq> None \<and> rv_id f \<noteq> 0)"
    using assms(2,3) by (auto simp: runner_remove_def split: if_splits)
  have agreed: "?yes = Inr True"
    using assms(2,3) fs4 unfolding run [OF given] by (auto split: sum.splits bool.splits)
  then obtain w res1 where 5: "forget_and_purge c ?name ?known (rv_purge f) reg (m4\<lparr>ms_world := w\<rparr>) = (res1, m')"
    using assms(2,3) fs4 unfolding run [OF given] agreed by (auto split: sum.splits prod.splits)
  obtain r q where r: "rv_purge f" "?known = Some r" "locate_entry (ms_fs m) (dir_path (in_dir r)) = Some q" "prefix q p"
  proof -
    have "ms_fs (m4\<lparr>ms_world := w\<rparr>) = ms_fs m" using fs4 by simp
    from forget_and_purge_files [OF 5, of p, unfolded this, OF assms(3)] show ?thesis using that by blast
  qed
  then have got: "got = Inr r" "?name \<noteq> ''''" by (auto split: sum.splits if_splits)
  obtain k where "(k, r) \<in> set (recorded (state_path c) (ms_runners m2))" "equal_fold k ?name"
    using get_installed_recorded [OF assms(1) 3 [unfolded got(1)]] by blast
  then have "(k, r) \<in> set (recorded (state_path c) (ms_runners m))" "equal_fold k ?name"
    using s1 s2 by (simp_all add: recorded_def)
  moreover obtain name where "arg = Some name" "?name = name" using got(2) by (cases arg) auto
  ultimately show ?thesis using r agreed by (auto split: if_splits)
qed

text \<open>A runner that GitHub has already forgotten, in a directory beside others.\<close>

definition forgotten_github :: "gh_request list github" where
  "forgotten_github rq w = (Inr \<lparr> gs_status = 200, gs_headers = [], gs_body = GRunners 0 [] \<rparr>, w @ [rq])"

definition purge_cli :: "(unit, gh_request list) cli" where
  "purge_cli = sample_cli\<lparr>ci_github := forgotten_github\<rparr>"

definition purge_state :: "(unit, gh_request list) cli_state" where
  "purge_state = sample_state\<lparr>
     ms_runners := \<lparr> dk_files = (\<lambda>_. None)(''/c/runners.yaml'' := Some (Doc [(''n'', sample_installed\<lparr>in_name := ''n'', in_dir := ''/r''\<rparr>)])),
       dk_faults = [], dk_seen = [] \<rparr>,
     ms_fs := no_files\<lparr>fs_nodes := [([''r''], DirN), ([''r'', ''a''], FileN 0), ([''k''], FileN 1)]\<rparr>\<rparr>"

definition purge_flags :: remove_flags where
  "purge_flags = \<lparr> rv_repo = '''', rv_org = '''', rv_id = 0, rv_purge = True, rv_yes = True \<rparr>"

lemma purge_sample:
  "map fst (fs_nodes (ms_fs (snd (runner_remove purge_cli (Some ''N'') purge_flags purge_state)))) = [[''k'']]"
  by code_simp

theorem purge_confined_witness:
  "\<exists>k r q. (k, r) \<in> set (recorded (state_path purge_cli) (ms_runners purge_state)) \<and> equal_fold k ''N''
     \<and> locate_entry (ms_fs purge_state) (dir_path (in_dir r)) = Some q \<and> prefix q [''r'', ''a'']"
proof -
  have w: "walks (ci_walk purge_cli)" by (simp add: purge_cli_def sample_cli_def walks_def)
  obtain res m' where run: "runner_remove purge_cli (Some ''N'') purge_flags purge_state = (res, m')" by fastforce
  then have "map fst (fs_nodes (ms_fs m')) = [[''k'']]" using purge_sample by simp
  then have "[''r'', ''a''] \<notin> fst ` set (fs_nodes (ms_fs m'))" by (metis set_map list.set_intros(1) list.simps(15) empty_set singletonD not_Cons_self2 list.inject)
  then have "fs_node (ms_fs m') [''r'', ''a''] = None" by (simp add: fs_node_def map_of_eq_None_iff)
  moreover have "fs_node (ms_fs purge_state) [''r'', ''a''] = Some (FileN 0)"
    by (simp add: fs_node_def purge_state_def)
  ultimately have "fs_node (ms_fs m') [''r'', ''a''] \<noteq> fs_node (ms_fs purge_state) [''r'', ''a'']" by simp
  from purge_confined [OF w run this] show ?thesis by blast
qed

section \<open>Created, then found\<close>

lemma put_then_get:
  assumes "walks walk" "names_clear (recorded path d)" "put_installed path now r d = (Inr u, d1)"
    and "\<forall>k\<in>fst ` set (recorded path d). equal_fold k (in_name r) \<longrightarrow> k = in_name r"
    and "equal_fold (in_name r) name" "dk_faults d2 = []" "dk_files d2 = dk_files d1"
  shows "get_installed walk path name d2 = (Inr (stamp_installed now r), next_call d2)"
proof -
  note p = put_installedD [OF assms(3)]
  have f2: "recorded path d2 = AList.update (in_name r) (stamp_installed now r) (recorded path d)"
    using p(3) assms(7) by (simp add: recorded_def)
  have "names_clear (recorded path d2)" unfolding f2 by (rule names_clear_update [OF assms(2,4)])
  moreover have "(in_name r, stamp_installed now r) \<in> set (recorded path d2)"
    by (rule map_of_SomeD) (simp add: f2 update_conv')
  moreover have "dk_files d2 path \<noteq> Some Garbage" using p(2) assms(7) by simp
  ultimately show ?thesis using get_installed_found [OF assms(6) _ assms(1) _ _ assms(5)] by blast
qed

lemma register_at_recorded:
  assumes "register_at c client cfg target opts m = (Inr (r, True), m')"
  shows "put_installed (state_path c) (ci_now c) r (ms_runners m) = (Inr (), ms_runners m')"
    and "in_scope r = target" "validate_scope target = None"
  using assms
  by (auto simp: register_at_def Let_def create_registration_token_def create_token_def
      split: prod.splits sum.splits option.splits if_splits)

lemma runner_create_recorded:
  assumes "runner_create c f m = (Inr (r, True), m')"
  shows "\<exists>d. put_installed (state_path c) (ci_now c) r d = (Inr (), ms_runners m') \<and> dk_files d = dk_files (ms_runners m)
    \<and> validate_scope (in_scope r) = None"
proof -
  obtain client cfg m1 where 1: "github_client c m = (Inr (client, cfg), m1)"
    using assms by (auto simp: runner_create_def split: prod.splits sum.splits)
  let ?name = "if cr_flag_name f = '''' then default_runner_name cfg (ci_hostname c) else cr_flag_name f"
  obtain target m2 where 2: "resolve_scope c (cr_repo f) (cr_org f) cfg ?name m1 = (Inr target, m2)"
    using assms 1 by (auto simp: runner_create_def Let_def split: prod.splits sum.splits)
  obtain w dir opts where 3: "register_at c client cfg target opts (m2\<lparr>ms_world := w\<rparr>) = (Inr (r, True), m')"
    using assms 1 2 by (auto simp: runner_create_def Let_def split: prod.splits sum.splits option.splits)
  show ?thesis
    using register_at_recorded [OF 3] github_client_state [OF 1] resolve_scope_state [OF 2]
    by (intro exI [of _ "ms_runners m2"]) simp
qed

text \<open>
  What \<open>create\<close> has recorded is what later commands act on: after a successful \<open>create\<close> whose record was
  written, the scope of the runner's name, in whatever case it is written, is the scope it was registered
  with, without a flag and whatever the configuration says. Before, no two recorded names may differ in case
  only, the new one included.
\<close>

theorem created_runner_resolves:
  assumes "walks (ci_walk c)" "names_clear (recorded (state_path c) (ms_runners m))"
    and "runner_create c f m = (Inr (r, True), m')"
    and "\<forall>k\<in>fst ` set (recorded (state_path c) (ms_runners m)). equal_fold k (in_name r) \<longrightarrow> k = in_name r"
    and "equal_fold (in_name r) name" "name \<noteq> ''''"
    and "dk_files (ms_runners m2) = dk_files (ms_runners m')" "dk_faults (ms_runners m2) = []"
  shows "fst (resolve_scope c '''' '''' cfg name m2) = Inr (in_scope r)"
proof -
  obtain d where d: "put_installed (state_path c) (ci_now c) r d = (Inr (), ms_runners m')"
      "dk_files d = dk_files (ms_runners m)" "validate_scope (in_scope r) = None"
    using runner_create_recorded [OF assms(3)] by blast
  have same: "recorded (state_path c) d = recorded (state_path c) (ms_runners m)" using d(2) by (simp add: recorded_def)
  have "get_installed (ci_walk c) (state_path c) name (ms_runners m2)
      = (Inr (stamp_installed (ci_now c) r), next_call (ms_runners m2))"
    by (rule put_then_get [OF assms(1) _ d(1) _ assms(5,8,7)]) (use assms(2,4) same in simp_all)
  then show ?thesis using assms(6) d(3)
    by (simp add: resolve_scope_def recorded_scope_def checked_def stamp_installed_def)
qed

definition registering_github :: "gh_request list github" where
  "registering_github rq w = (Inr \<lparr> gs_status = 200, gs_headers = [], gs_body =
     (if gq_method rq = ''POST'' then GToken \<lparr> rt_token = ''T'', rt_expires = zero_time \<rparr>
      else GDownloads [\<lparr> dl_os = ''linux'', dl_arch = ''x64'', dl_url = ''u'', dl_filename = ''f.tar.gz'', dl_sha256 = ''s'' \<rparr>]) \<rparr>, w @ [rq])"

definition create_cli :: "(unit, gh_request list) cli" where
  "create_cli = sample_cli\<lparr>ci_github := registering_github\<rparr>"

definition create_state :: "(unit, gh_request list) cli_state" where
  "create_state = sample_state\<lparr>ms_fs := no_files\<lparr>fs_nodes := [([''r''], DirN), ([''r'', ''config.sh''], FileN 0)]\<rparr>\<rparr>"

definition create_here :: create_flags where
  "create_here = sample_create\<lparr>cr_flag_dir := ''/r'', cr_allow_public := True\<rparr>"

lemma create_sample:
  "case fst (runner_create create_cli create_here create_state) of
     Inr (r, ok) \<Rightarrow> ok \<and> in_name r = ''n'' \<and> in_scope r = sample_target | Inl e \<Rightarrow> False"
  by code_simp

theorem created_runner_resolves_witness:
  "fst (resolve_scope create_cli '''' '''' default_config ''N'' (snd (runner_create create_cli create_here create_state)))
     = Inr sample_target"
proof -
  obtain r m' where run: "runner_create create_cli create_here create_state = (Inr (r, True), m')"
      "in_name r = ''n''" "in_scope r = sample_target"
    using create_sample by (cases "runner_create create_cli create_here create_state") (auto split: sum.splits)
  have none: "recorded (state_path create_cli) (ms_runners create_state) = []"
    by (simp add: recorded_def create_state_def sample_state_def no_runners_disk_def)
  have "dk_faults (ms_runners (snd (runner_create create_cli create_here create_state))) = []" by code_simp
  then have "dk_faults (ms_runners m') = []" using run(1) by simp
  moreover have "equal_fold ''n'' ''N''" by code_simp
  moreover have "walks (ci_walk create_cli)" by (simp add: create_cli_def sample_cli_def walks_def)
  ultimately show ?thesis
    using created_runner_resolves [of create_cli create_state create_here r m' "''N''" m' default_config] run none
    by (simp add: names_clear_def)
qed

end
