(* ===== verification/Go_Date.thy ===== *)
theory Go_Date
  imports Go_Time Go_Strings "HOL-Library.Char_ord" "HOL-Library.List_Lexorder"
begin

text \<open>
  Calendar dates, as \<open>Time.Format\<close> writes them in UTC with the layout \<open>20060102-150405\<close>. A time before the
  epoch is taken for the epoch. Texts written this way are in the order of the times.
\<close>

section \<open>The calendar\<close>

definition leap :: "nat \<Rightarrow> bool" where
  "leap y \<longleftrightarrow> 4 dvd y \<and> (\<not> 100 dvd y \<or> 400 dvd y)"

definition year_days :: "nat \<Rightarrow> nat" where
  "year_days y = (if leap y then 366 else 365)"

text \<open>The year, and the day in it, of a day counted from the first of a year.\<close>

function year_of :: "nat \<Rightarrow> nat \<Rightarrow> nat \<times> nat" where
  "year_of y n = (if n < year_days y then (y, n) else year_of (Suc y) (n - year_days y))"
  by pat_completeness auto
termination
  by (relation "measure snd") (auto simp: year_days_def split: if_splits)

declare year_of.simps [simp del]

definition month_lengths :: "nat \<Rightarrow> nat list" where
  "month_lengths y = [31, if leap y then 29 else 28, 31, 30, 31, 30, 31, 31, 30, 31, 30, 31]"

fun month_of :: "nat \<Rightarrow> nat list \<Rightarrow> nat \<Rightarrow> nat \<times> nat" where
  "month_of m [] n = (m, n)"
| "month_of m (l # ls) n = (if n < l then (m, n) else month_of (Suc m) ls (n - l))"

text \<open>At least as many digits as wanted.\<close>

definition pad :: "nat \<Rightarrow> nat \<Rightarrow> string" where
  "pad w n = (let d = digits n in replicate (w - length d) (CHR ''0'') @ d)"

definition date_text :: "nat \<Rightarrow> string" where
  "date_text days =
     (let (y, n) = year_of 1970 days; (m, d) = month_of 1 (month_lengths y) n
      in pad 4 y @ pad 2 m @ pad 2 (d + 1))"

definition clock_text :: "nat \<Rightarrow> string" where
  "clock_text s = pad 2 (s div 3600) @ pad 2 (s div 60 mod 60) @ pad 2 (s mod 60)"

definition time_stamp :: "go_time \<Rightarrow> string" where
  "time_stamp t =
     (let s = nat (t div second) in date_text (s div 86400) @ ''-'' @ clock_text (s mod 86400))"

section \<open>The order of the texts\<close>

lemma year_of_less: "n < n' \<Longrightarrow> year_of y n = (a, r) \<Longrightarrow> year_of y n' = (a', r') \<Longrightarrow> a < a' \<or> a = a' \<and> r < r'"
proof (induction y n arbitrary: n' rule: year_of.induct)
  case (1 y n)
  have up: "a \<le> b" if "year_of a k = (b, s)" for a k b s
    using that
  proof (induction a k rule: year_of.induct)
    case (1 y n)
    then show ?case by (cases "n < year_days y") (auto simp: year_of.simps [of y n] dest: Suc_leD)
  qed
  show ?case
  proof (cases "n < year_days y")
    case True
    then have "a = y" "r = n" using "1.prems"(2) by (simp_all add: year_of.simps [of y n])
    then show ?thesis using "1.prems"(1,3) up [of "Suc y" "n' - year_days y" a' r']
      by (cases "n' < year_days y") (auto simp: year_of.simps [of y n'])
  next
    case False
    then have "n - year_days y < n' - year_days y" using "1.prems"(1) by simp
    from "1.IH" [OF False this] show ?thesis using "1.prems" False
      by (simp add: year_of.simps [of y n] year_of.simps [of y n'])
  qed
qed

lemma month_of_ge: "month_of m ls n = (a, r) \<Longrightarrow> m \<le> a \<and> a \<le> m + length ls"
  by (induction m ls n rule: month_of.induct) (auto split: if_splits)

lemma month_of_less: "n < n' \<Longrightarrow> month_of m ls n = (a, r) \<Longrightarrow> month_of m ls n' = (a', r') \<Longrightarrow> a < a' \<or> a = a' \<and> r < r'"
proof (induction m ls n arbitrary: n' rule: month_of.induct)
  case (2 m l ls n)
  show ?case
  proof (cases "n < l")
    case True
    then show ?thesis using 2 month_of_ge [of "Suc m" ls "n' - l" a' r'] by (cases "n' < l") auto
  next
    case False
    then have "n - l < n' - l" using 2 by simp
    from "2.IH" [OF False this] show ?thesis using 2 False by simp
  qed
qed simp

text \<open>Texts of the same length are ordered by their first difference.\<close>

lemma less_append: "length a = length b \<Longrightarrow> a < (b :: string) \<Longrightarrow> a @ x < b @ y"
proof (induction a arbitrary: b)
  case (Cons c a)
  then show ?case by (cases b) auto
qed simp

lemma less_append_same: "(x :: string) < y \<Longrightarrow> a @ x < a @ y"
  by (induction a) auto

lemma digits_length: "n < 10 ^ w \<Longrightarrow> 0 < w \<Longrightarrow> length (digits n) \<le> w"
proof (induction w arbitrary: n)
  case (Suc w)
  show ?case
  proof (cases "n < 10")
    case False
    then have "n div 10 < 10 ^ w" "0 < w" using Suc.prems by (auto simp: less_mult_imp_div_less intro: gr0I)
    then show ?thesis using Suc.IH [of "n div 10"] False by (simp add: digits.simps [of n])
  qed (simp add: digits.simps [of n])
qed simp

lemma length_pad: "n < 10 ^ w \<Longrightarrow> 0 < w \<Longrightarrow> length (pad w n) = w"
  using digits_length [of n w] by (simp add: pad_def Let_def)

lemma pad_Suc: "0 < w \<Longrightarrow> pad (Suc w) n = pad w (n div 10) @ [char_of (48 + n mod 10)]"
proof -
  assume w: "0 < w"
  have z: "char_of (48 :: nat) = CHR ''0''" by code_simp
  show ?thesis
  proof (cases "n < 10")
    case True
    have "replicate w (CHR ''0'') = replicate (w - 1) (CHR ''0'') @ [CHR ''0'']"
      using w by (cases w) (simp_all add: replicate_append_same)
    then show ?thesis using True z by (simp add: pad_def Let_def digits.simps [of n] digits.simps [of 0])
  next
    case False
    then show ?thesis by (simp add: pad_def Let_def digits.simps [of n])
  qed
qed

lemma digit_less: "a < b \<Longrightarrow> b < 10 \<Longrightarrow> char_of (48 + a :: nat) < (char_of (48 + b) :: char)"
  by (simp add: less_char_def)

lemma pad_less: "n < m \<Longrightarrow> m < 10 ^ w \<Longrightarrow> pad w n < pad w m"
proof (induction w arbitrary: n m)
  case (Suc w)
  show ?case
  proof (cases "w = 0")
    case True
    then have "n < 10" "m < 10" using Suc.prems by simp_all
    then show ?thesis using True Suc.prems(1) digit_less [of n m] by (simp add: pad_def digits.simps [of n] digits.simps [of m])
  next
    case False
    have lt: "n div 10 < 10 ^ w" "m div 10 < 10 ^ w" using Suc.prems by (auto simp: less_mult_imp_div_less)
    then have len: "length (pad w (n div 10)) = length (pad w (m div 10))" using False by (simp add: length_pad)
    show ?thesis
    proof (cases "n div 10 = m div 10")
      case True
      then have "n mod 10 < m mod 10" using Suc.prems(1) by (metis div_mult_mod_eq nat_add_left_cancel_less)
      then show ?thesis using True False digit_less [of "n mod 10" "m mod 10"]
        by (simp add: pad_Suc less_append_same)
    next
      case ne: False
      then have "n div 10 < m div 10" using Suc.prems(1) by (simp add: div_le_mono order_le_neq_trans)
      from less_append [OF len Suc.IH [OF this lt(2)]] show ?thesis using False by (simp add: pad_Suc)
    qed
  qed
qed simp

text \<open>The bounds of the fields.\<close>

lemma year_of_day: "year_of y n = (a, r) \<Longrightarrow> r < 366"
proof (induction y n rule: year_of.induct)
  case (1 y n)
  then show ?case by (cases "n < year_days y") (auto simp: year_of.simps [of y n] year_days_def split: if_splits)
qed

lemma month_of_inside:
  "month_of m ls n = (a, r) \<Longrightarrow> n < sum_list ls \<Longrightarrow> \<forall>l\<in>set ls. l \<le> b \<Longrightarrow> a < m + length ls \<and> r < b"
  by (induction m ls n rule: month_of.induct) (auto split: if_splits)

lemma month_of_bounds:
  assumes "month_of 1 (month_lengths y) n = (m, d)" "n < year_days y"
  shows "m < 13 \<and> d < 31"
proof -
  have "n < sum_list (month_lengths y)" "\<forall>l\<in>set (month_lengths y). l \<le> 31"
    using assms(2) by (auto simp: month_lengths_def year_days_def)
  from month_of_inside [OF assms(1) this] show ?thesis by (simp add: month_lengths_def)
qed

lemma year_of_inside: "year_of y n = (a, r) \<Longrightarrow> r < year_days a"
proof (induction y n rule: year_of.induct)
  case (1 y n)
  then show ?case by (cases "n < year_days y") (auto simp: year_of.simps [of y n])
qed

lemma date_text_less:
  assumes "n < n'" "fst (year_of 1970 n') < 10000"
  shows "date_text n < date_text n' \<and> length (date_text n) = 8 \<and> length (date_text n') = 8"
proof -
  obtain y r y' r' where y: "year_of 1970 n = (y, r)" "year_of 1970 n' = (y', r')" by (metis prod.collapse)
  obtain m d m' d' where m: "month_of 1 (month_lengths y) r = (m, d)" "month_of 1 (month_lengths y') r' = (m', d')" by (metis prod.collapse)
  note lt = year_of_less [OF assms(1) y]
  have b: "m < 13" "d < 31" "m' < 13" "d' < 31" "y < 10 ^ 4" "y' < 10 ^ 4"
    using month_of_bounds [OF m(1)] month_of_bounds [OF m(2)] year_of_inside [OF y(1)] year_of_inside [OF y(2)] assms(2) y lt by auto
  have len: "length (pad 4 y) = 4" "length (pad 4 y') = 4" "length (pad 2 m) = 2" "length (pad 2 m') = 2"
    "length (pad 2 (d + 1)) = 2" "length (pad 2 (d' + 1)) = 2" using b by (auto intro!: length_pad)
  have t: "date_text n = pad 4 y @ pad 2 m @ pad 2 (d + 1)" "date_text n' = pad 4 y' @ pad 2 m' @ pad 2 (d' + 1)"
    using y m by (simp_all add: date_text_def)
  have md: "m < m' \<or> m = m' \<and> d < d'" if "y = y'" "r < r'"
    using month_of_less [OF that(2), of 1 "month_lengths y" m d m' d'] m that(1) by simp
  have "date_text n < date_text n'"
  proof (cases "y = y'")
    case False
    then show ?thesis using lt b len unfolding t by (intro less_append pad_less) auto
  next
    case True
    have "pad 2 m @ pad 2 (d + 1) < pad 2 m' @ pad 2 (d' + 1)"
    proof (cases "m = m'")
      case m: False
      then show ?thesis using md lt True b len by (intro less_append pad_less) auto
    next
      case m: True
      then show ?thesis using md lt True b by (simp add: less_append_same pad_less)
    qed
    then show ?thesis unfolding t using True by (simp add: less_append_same)
  qed
  then show ?thesis unfolding t using len by simp
qed

lemma clock_text_less:
  assumes "s < s'" "s' < 86400"
  shows "clock_text s < clock_text s'"
proof -
  have b: "s div 3600 < 24" "s' div 3600 < 24" "s div 60 mod 60 < 60" "s' div 60 mod 60 < 60" "s mod 60 < 60" "s' mod 60 < 60"
    using assms by auto
  have hours: "n div 3600 = n div 60 div 60" for n :: nat by (simp add: div_mult2_eq [symmetric])
  have len: "length (pad 2 (s div 3600)) = length (pad 2 (s' div 3600))"
    "length (pad 2 (s div 60 mod 60)) = length (pad 2 (s' div 60 mod 60))" using b by (simp_all add: length_pad)
  consider "s div 3600 < s' div 3600"
    | "s div 3600 = s' div 3600" "s div 60 mod 60 < s' div 60 mod 60"
    | "s div 3600 = s' div 3600" "s div 60 mod 60 = s' div 60 mod 60" "s mod 60 < s' mod 60"
  proof (cases "s div 60 = s' div 60")
    case True
    then have "s mod 60 < s' mod 60" using assms(1) by (metis div_mult_mod_eq nat_add_left_cancel_less)
    then show ?thesis using that(3) True hours by metis
  next
    case False
    then have m: "s div 60 < s' div 60" using assms(1) by (simp add: div_le_mono order_le_neq_trans)
    show ?thesis
    proof (cases "s div 60 div 60 = s' div 60 div 60")
      case True
      then have "s div 60 mod 60 < s' div 60 mod 60" using m by (metis div_mult_mod_eq nat_add_left_cancel_less)
      then show ?thesis using that(2) True hours by metis
    next
      case False
      then have "s div 60 div 60 < s' div 60 div 60" using m by (simp add: div_le_mono order_le_neq_trans)
      then show ?thesis using that(1) hours by metis
    qed
  qed
  then show ?thesis
  proof cases
    case 1
    then show ?thesis unfolding clock_text_def using b len by (intro less_append pad_less) auto
  next
    case 2
    have "pad 2 (s div 60 mod 60) @ pad 2 (s mod 60) < pad 2 (s' div 60 mod 60) @ pad 2 (s' mod 60)"
      using 2 len order_less_trans [OF b(4), of "10 ^ 2"] by (intro less_append pad_less) simp_all
    then show ?thesis unfolding clock_text_def using 2 by (simp add: less_append_same)
  next
    case 3
    then show ?thesis unfolding clock_text_def
      using order_less_trans [OF b(6), of "10 ^ 2"] by (simp add: less_append_same pad_less)
  qed
qed

lemma length_clock_text: "s < 86400 \<Longrightarrow> length (clock_text s) = 6"
proof -
  assume "s < 86400"
  then have "s div 3600 < 24" by simp
  then show ?thesis by (simp add: clock_text_def length_pad)
qed

text \<open>Before the year 10000, an earlier second has a smaller text of the same length.\<close>

definition dated :: "go_time \<Rightarrow> bool" where
  "dated t \<longleftrightarrow> fst (year_of 1970 (nat (t div second) div 86400)) < 10000"

lemma date_text_length: "fst (year_of 1970 n) < 10000 \<Longrightarrow> length (date_text n) = 8"
proof -
  assume d: "fst (year_of 1970 n) < 10000"
  obtain y r where y: "year_of 1970 n = (y, r)" by fastforce
  obtain m k where m: "month_of 1 (month_lengths y) r = (m, k)" by fastforce
  have "m < 13" "k < 31" using month_of_bounds [OF m] year_of_inside [OF y] by simp_all
  then show ?thesis using d y m by (simp add: date_text_def length_pad)
qed

lemma length_time_stamp: "dated t \<Longrightarrow> length (time_stamp t) = 15"
  by (simp add: time_stamp_def Let_def dated_def date_text_length length_clock_text)

lemma time_stamp_order:
  assumes "nat (t div second) < nat (u div second)" "dated t" "dated u"
  shows "time_stamp t < time_stamp u"
proof -
  define s v where sv: "s = nat (t div second)" "v = nat (u div second)"
  have lt: "s < v" using assms(1) by (simp only: sv)
  have t: "time_stamp t = date_text (s div 86400) @ ''-'' @ clock_text (s mod 86400)"
    "time_stamp u = date_text (v div 86400) @ ''-'' @ clock_text (v mod 86400)"
    by (simp_all add: time_stamp_def Let_def sv)
  show ?thesis
  proof (cases "s div 86400 = v div 86400")
    case True
    then have "s mod 86400 < v mod 86400" using lt by (metis div_mult_mod_eq nat_add_left_cancel_less)
    then have "clock_text (s mod 86400) < clock_text (v mod 86400)" by (intro clock_text_less) auto
    then show ?thesis unfolding t using True by (simp add: less_append_same)
  next
    case False
    then have "s div 86400 < v div 86400" using lt by (simp add: div_le_mono order_le_neq_trans)
    moreover have "fst (year_of 1970 (v div 86400)) < 10000" using assms(3) by (simp add: dated_def sv)
    ultimately have "date_text (s div 86400) < date_text (v div 86400)"
        "length (date_text (s div 86400)) = length (date_text (v div 86400))"
      using date_text_less by auto
    then show ?thesis unfolding t by (intro less_append)
  qed
qed

lemma stamped_order:
  assumes "time_stamp t @ x \<le> time_stamp u @ y" "dated t" "dated u"
  shows "nat (t div second) \<le> nat (u div second)"
proof (rule ccontr)
  assume "\<not> ?thesis"
  then have "nat (u div second) < nat (t div second)" by linarith
  from time_stamp_order [OF this assms(3,2)] have "time_stamp u < time_stamp t" .
  then have "time_stamp u @ y < time_stamp t @ x"
    using assms(2,3) by (intro less_append) (simp_all add: length_time_stamp)
  then show False using assms(1) by simp
qed


end
