(* ===== verification/Ephemeral.thy ===== *)
theory Ephemeral
  imports Cli Control_Plane Secret Go_Date
begin

text \<open>
  \<open>internal/cli/ephemeral.go\<close>: the life of a runner that takes one job: registered, supervised, taken apart.
  Supervision is a parameter, as it is in the code (\<open>runAgent\<close>): whatever an agent does to the state it
  shares with the command. The printed lines are left out, except those that say what was taken apart.
\<close>

section \<open>Names and logs\<close>

definition ephemeral_prefix :: "config \<Rightarrow> string option \<Rightarrow> string \<Rightarrow> string" where
  "ephemeral_prefix cfg hostname flag =
     (if flag \<noteq> '''' then flag
      else if ep_name_prefix (cf_ephemeral cfg) \<noteq> '''' then ep_name_prefix (cf_ephemeral cfg)
      else default_runner_name cfg hostname)"

text \<open>\<open>random\<close> is what the random source gives for four bytes.\<close>

definition ephemeral_name :: "bytes option \<Rightarrow> config \<Rightarrow> string option \<Rightarrow> string \<Rightarrow> cli_error + string" where
  "ephemeral_name random cfg hostname flag =
     (let prefix = ephemeral_prefix cfg hostname flag
      in case validate_runner_name prefix of
           Some e \<Rightarrow> Inl e
         | None \<Rightarrow> (case random of None \<Rightarrow> Inl NoRandomName | Some b \<Rightarrow> Inr (prefix @ ''-'' @ hex_encode b)))"

text \<open>\<open>os.ReadDir\<close>: the entries of a directory by name, with whether each is a directory itself.\<close>

definition os_read_dir :: "path \<Rightarrow> fsys \<Rightarrow> (file_error + (string \<times> bool) list) \<times> fsys" where
  "os_read_dir p fs =
     (let (bad, fs) = sys_fault fs
      in if bad then (Inl IOError, fs)
         else case locate fs p of
                None \<Rightarrow> (Inl NotExist, fs)
              | Some q \<Rightarrow>
                  if is_dir fs q
                  then (Inr (map (\<lambda>n. (n, fs_node fs (q @ [n]) = Some DirN))
                         (sort (remdups (map (last \<circ> fst) (filter (\<lambda>(p, _). p \<noteq> [] \<and> butlast p = q) (fs_nodes fs)))))), fs)
                  else (Inl (if fs_node fs q = None then NotExist else IOError), fs))"

definition log_suffix :: string where "log_suffix = ''.log''"

definition open_run_log :: "config \<Rightarrow> string \<Rightarrow> go_time \<Rightarrow> string \<Rightarrow> fsys \<Rightarrow> (string \<times> nat) option \<times> fsys" where
  "open_run_log cfg cpath now name fs =
     (let dir = ephemeral_log_dir cfg cpath;
          (ok, fs) = os_mkdir_all (dir_path dir) fs
      in if \<not> ok then (None, fs)
         else let path = path_join [dir, time_stamp now @ ''-'' @ name @ log_suffix]
              in case os_open (dir_path path) 0x180 fs of
                   (None, fs) \<Rightarrow> (None, fs)
                 | (Some i, fs) \<Rightarrow> (Some (path, i), fs))"

definition log_names :: "(string \<times> bool) list \<Rightarrow> string list" where
  "log_names entries = map fst (filter (\<lambda>(n, d). \<not> d \<and> suffix log_suffix n) entries)"

fun remove_logs :: "path \<Rightarrow> string list \<Rightarrow> fsys \<Rightarrow> nat \<times> fsys" where
  "remove_logs dir [] fs = (0, fs)"
| "remove_logs dir (n # ns) fs =
     (let (ok, fs) = os_remove (dir @ [n]) fs; (k, fs) = remove_logs dir ns fs in (if ok then Suc k else k, fs))"

definition surplus_logs :: "string list \<Rightarrow> int \<Rightarrow> string list" where
  "surplus_logs logs keep = (if int (length logs) \<le> keep then [] else take (nat (int (length logs) - keep)) (sort logs))"

definition prune_run_logs :: "string \<Rightarrow> int \<Rightarrow> fsys \<Rightarrow> (file_error + nat) \<times> fsys" where
  "prune_run_logs dir keep fs =
     (case os_read_dir (dir_path dir) fs of
        (Inl NotExist, fs) \<Rightarrow> (Inr 0, fs)
      | (Inl e, fs) \<Rightarrow> (Inl e, fs)
      | (Inr entries, fs) \<Rightarrow>
          (case remove_logs (dir_path dir) (surplus_logs (log_names entries) keep) fs of (k, fs) \<Rightarrow> (Inr k, fs)))"

text \<open>\<open>ephemeral logs\<close>: the names shown, newest first.\<close>

definition logs_shown :: "string option \<Rightarrow> int \<Rightarrow> (string \<times> bool) list \<Rightarrow> string list" where
  "logs_shown wanted limit entries =
     (let logs = rev (sort (filter (\<lambda>n. case wanted of None \<Rightarrow> True | Some s \<Rightarrow> contains n s) (log_names entries)))
      in if 0 < limit \<and> limit < int (length logs) then take (nat limit) logs else logs)"

section \<open>Registering\<close>

definition register_ephemeral ::
  "('y, 'w) cli \<Rightarrow> gh_client \<Rightarrow> config \<Rightarrow> scope \<Rightarrow> string \<Rightarrow> string \<Rightarrow> string \<Rightarrow> ('y, 'w) cli_state
   \<Rightarrow> (cli_error + installed \<times> bool) \<times> ('y, 'w) cli_state"
where
  "register_ephemeral c client cfg target name dir labels m =
     register_at c client cfg target
       \<lparr> io_dir = dir, io_name = name, io_labels = split_labels labels cfg,
         io_url = scope_web_url (cg_host (cf_github cfg)) target, io_token = '''', io_group = '''', io_work = '''',
         io_ephemeral = True, io_replace = True \<rparr> m"

section \<open>Supervising\<close>

text \<open>
  What an agent is started with, what it leaves behind, and the error it ended with. The client is part of
  both: the agent replaces its token when the server rotates it.
\<close>

datatype run_error = BadLogger | AgentFailed "(preflight_error + string) + sup_error"

type_synonym ('y, 'w, 'p) run_agent =
  "agent_options \<Rightarrow> ('y, 'w) cli_state \<Rightarrow> 'p \<Rightarrow> (outcome \<times> run_error option) \<times> cp_client option \<times> ('y, 'w) cli_state \<times> 'p"

definition no_outcome :: outcome where
  "no_outcome = \<lparr> oc_completed = False, oc_job = empty_job \<rparr>"

definition connect_control_plane ::
  "'p plane \<Rightarrow> machine_facts \<Rightarrow> ('y, 'w) cli \<Rightarrow> config \<Rightarrow> installed \<Rightarrow> credentials disk \<Rightarrow> 'p
   \<Rightarrow> (enroll_error + enrollment option) \<times> credentials disk \<times> 'p"
where
  "connect_control_plane plane mf c cfg r d w =
     (let url = server_url_from (ps_env (ci_process c)) (cs_url (cf_server cfg))
      in if url = '''' then (Inr None, d, w)
         else enroll plane mf (ps_env (ci_process c)) (ci_now c)
                \<lparr> eo_server = url, eo_token = enrollment_token_from (ps_env (ci_process c)) (cf_enrollment_token cfg),
                  eo_credentials = credentials_path c, eo_runner = r \<rparr> d w)"

definition with_reporting :: "enrollment option \<Rightarrow> agent_options \<Rightarrow> agent_options" where
  "with_reporting n opts =
     (case n of None \<Rightarrow> opts | Some n \<Rightarrow> opts\<lparr>ao_client := Some (nr_client n), ao_interval := nr_interval n\<rparr>)"

definition plain_options :: "installed \<Rightarrow> hook_options \<Rightarrow> string list \<Rightarrow> agent_options" where
  "plain_options r hooks extra = \<lparr> ao_runner = r,
     ao_backoff = \<lparr> bo_initial = 0, bo_max = 0, bo_factor = 0, bo_max_restarts = 0, bo_reset_after = 0,
       bo_max_per_window = 0, bo_window = 0 \<rparr>,
     ao_stop_timeout = 0, ao_client = None, ao_interval = 0, ao_hooks = hooks, ao_extra_env = extra \<rparr>"

definition supervise_ephemeral ::
  "('y, 'w, 'p) run_agent \<Rightarrow> 'p plane \<Rightarrow> machine_facts \<Rightarrow> binary_env \<Rightarrow> ('y, 'w) cli \<Rightarrow> config \<Rightarrow> installed \<Rightarrow> string \<Rightarrow> string
   \<Rightarrow> ('y, 'w) cli_state \<Rightarrow> 'p \<Rightarrow> (outcome \<times> run_error option) \<times> cp_client option \<times> ('y, 'w) cli_state \<times> 'p"
where
  "supervise_ephemeral run plane mf be c cfg r format level m w =
     (case new_logger format level of
        None \<Rightarrow> ((no_outcome, Some BadLogger), None, m, w)
      | Some _ \<Rightarrow>
          let (_, fs) = open_run_log cfg (resolved_config_path c) (ci_now c) (in_name r) (ms_fs m);
              (hooks, extra) = configure_executor be cfg (resolved_config_path c) True;
              (res, d, w) = connect_control_plane plane mf c cfg r (ms_creds m) w;
              n = (case res of Inl e \<Rightarrow> None | Inr n \<Rightarrow> n)
          in run (with_reporting n (plain_options r hooks extra)) (m\<lparr>ms_fs := fs, ms_creds := d\<rparr>) w)"

section \<open>Taking it apart\<close>

datatype step_note =
    RetireFailed cp_error | RetiredNote
  | DeregisterFailed gh_error | Deregistered | AlreadyRemoved | CheckFailed gh_error
  | DeleteFailed | DeletedNote | ClearFailed | ClearedNote nat
  | UpdateFailed file_error | ForgotNote
  | PruneFailed file_error | PrunedNote nat

definition retire_reason :: "outcome \<Rightarrow> string" where
  "retire_reason oc =
     (if oc_completed oc then ''ran '' @ describe_job (oc_job oc) else ''stopped without running a job'')"

definition retire_step :: "'p plane \<Rightarrow> cp_client option \<Rightarrow> outcome \<Rightarrow> 'p \<Rightarrow> step_note list \<times> 'p" where
  "retire_step plane client oc w =
     (case client of
        None \<Rightarrow> ([], w)
      | Some c \<Rightarrow>
          (case cp_retire plane (retire_reason oc) c w of
             (Inl e, w) \<Rightarrow> ([RetireFailed e], w)
           | (Inr _, w) \<Rightarrow> ([RetiredNote], w)))"

definition deregister_step :: "'w github \<Rightarrow> gh_client \<Rightarrow> scope \<Rightarrow> string \<Rightarrow> 'w \<Rightarrow> step_note list \<times> 'w" where
  "deregister_step gh client target name w =
     (case find_runner_by_name gh client target name w of
        (Inr r, w) \<Rightarrow>
          (case delete_gh_runner gh client target (gr_id r) w of
             (Inl e, w) \<Rightarrow> ([DeregisterFailed e], w)
           | (Inr _, w) \<Rightarrow> ([Deregistered], w))
      | (Inl e, w) \<Rightarrow> ([if e = RunnerNotFound then AlreadyRemoved else CheckFailed e], w))"

definition ephemeral_leftovers :: "string list" where
  "ephemeral_leftovers = [''.runner'', ''.credentials'', ''.credentials_rsa'', ''_work'', ''.runnerly'']"

text \<open>How many were removed, and whether anything could not be.\<close>

fun destroy_runner_state :: "path \<Rightarrow> string list \<Rightarrow> fsys \<Rightarrow> (nat \<times> bool) \<times> fsys" where
  "destroy_runner_state dir [] fs = ((0, True), fs)"
| "destroy_runner_state dir (n # ns) fs =
     (let (there, fs) = stat_ok (dir @ [n]) fs
      in if \<not> there then destroy_runner_state dir ns fs
         else let (ok, fs) = os_remove_all (dir @ [n]) fs;
                  ((k, all_ok), fs) = destroy_runner_state dir ns fs
              in ((if ok then Suc k else k, ok \<and> all_ok), fs))"

definition destroy_step :: "bool \<Rightarrow> string \<Rightarrow> fsys \<Rightarrow> step_note list \<times> fsys" where
  "destroy_step purge dir fs =
     (if purge
      then let (ok, fs) = os_remove_all (dir_path dir) fs in ([if ok then DeletedNote else DeleteFailed], fs)
      else let ((k, ok), fs) = destroy_runner_state (dir_path dir) ephemeral_leftovers fs
           in (if \<not> ok then [ClearFailed] else if 0 < k then [ClearedNote k] else [], fs))"

definition forget_step ::
  "(runners_file \<Rightarrow> runners_file) \<Rightarrow> string \<Rightarrow> string \<Rightarrow> runners_file disk \<Rightarrow> step_note list \<times> runners_file disk"
where
  "forget_step walk path name d =
     (case delete_installed walk path name d of
        ((forgotten, Some e), d) \<Rightarrow> ([UpdateFailed e], d)
      | ((forgotten, None), d) \<Rightarrow> (if forgotten then [ForgotNote] else [], d))"

definition prune_step :: "config \<Rightarrow> string \<Rightarrow> fsys \<Rightarrow> step_note list \<times> fsys" where
  "prune_step cfg cpath fs =
     (let kept = ep_keep_runs (cf_ephemeral cfg)
      in if kept \<le> 0 then ([], fs)
         else case prune_run_logs (ephemeral_log_dir cfg cpath) kept fs of
                (Inl e, fs) \<Rightarrow> ([PruneFailed e], fs)
              | (Inr k, fs) \<Rightarrow> (if 0 < k then [PrunedNote k] else [], fs))"

definition teardown_ephemeral ::
  "('y, 'w) cli \<Rightarrow> gh_client \<Rightarrow> 'p plane \<Rightarrow> cp_client option \<Rightarrow> config \<Rightarrow> scope \<Rightarrow> installed \<Rightarrow> outcome \<Rightarrow> bool
   \<Rightarrow> ('y, 'w) cli_state \<Rightarrow> 'p \<Rightarrow> step_note list \<times> ('y, 'w) cli_state \<times> 'p"
where
  "teardown_ephemeral c client plane cp cfg target r oc purge m w =
     (let (a, w) = retire_step plane cp oc w;
          (b, gw) = deregister_step (ci_github c) client target (in_name r) (ms_world m);
          (d, fs) = destroy_step purge (in_dir r) (ms_fs m);
          (e, rs) = forget_step (ci_walk c) (state_path c) (in_name r) (ms_runners m);
          (f, fs) = prune_step cfg (resolved_config_path c) fs
      in (a @ b @ d @ e @ f, m\<lparr>ms_world := gw, ms_fs := fs, ms_runners := rs\<rparr>, w))"

text \<open>Not called by the command itself: \<open>upgrade\<close> empties the directory with it.\<close>

fun remove_entries :: "path \<Rightarrow> string list \<Rightarrow> fsys \<Rightarrow> bool \<times> fsys" where
  "remove_entries dir [] fs = (True, fs)"
| "remove_entries dir (n # ns) fs =
     (case os_remove_all (dir @ [n]) fs of
        (False, fs) \<Rightarrow> (False, fs)
      | (True, fs) \<Rightarrow> remove_entries dir ns fs)"

definition remove_unpacked_runner :: "string \<Rightarrow> fsys \<Rightarrow> bool \<times> fsys" where
  "remove_unpacked_runner dir fs =
     (case os_read_dir (dir_path dir) fs of
        (Inl NotExist, fs) \<Rightarrow> (True, fs)
      | (Inl e, fs) \<Rightarrow> (False, fs)
      | (Inr entries, fs) \<Rightarrow> remove_entries (dir_path dir) (map fst entries) fs)"

section \<open>The command\<close>

record ephemeral_flags =
  ef_repo :: string
  ef_org :: string
  ef_prefix :: string
  ef_labels :: string
  ef_dir :: string
  ef_purge :: bool
  ef_allow_public :: bool
  ef_log_format :: string
  ef_log_level :: string

record ephemeral_result =
  er_runner :: installed
  er_outcome :: outcome
  er_error :: "run_error option"
  er_done :: "step_note list"

text \<open>\<open>ephemeral run\<close> up to the registration, and from there on: whatever the agent ends with, the runner is taken apart.\<close>

definition prepare_ephemeral ::
  "bytes option \<Rightarrow> ('y, 'w) cli \<Rightarrow> ephemeral_flags \<Rightarrow> ('y, 'w) cli_state
   \<Rightarrow> (cli_error + gh_client \<times> config \<times> scope \<times> installed) \<times> ('y, 'w) cli_state"
where
  "prepare_ephemeral random c f m =
     (case cli_config c m of
        (Inl e, m) \<Rightarrow> (Inl e, m)
      | (Inr cfg, m) \<Rightarrow>
     (case github_client c m of
        (Inl e, m) \<Rightarrow> (Inl e, m)
      | (Inr (client, _), m) \<Rightarrow>
     (case resolve_scope c (ef_repo f) (ef_org f) cfg '''' m of
        (Inl e, m) \<Rightarrow> (Inl e, m)
      | (Inr target, m) \<Rightarrow>
     (case ephemeral_name random cfg (ci_hostname c) (ef_prefix f) of
        Inl e \<Rightarrow> (Inl e, m)
      | Inr name \<Rightarrow>
     (case check_runner_policy (ci_github c) client cfg target (ef_allow_public f) (ms_world m) of
        (Some e, gw) \<Rightarrow> (Inl e, m\<lparr>ms_world := gw\<rparr>)
      | (None, gw) \<Rightarrow>
          let m = m\<lparr>ms_world := gw\<rparr>;
              dir = (if ef_dir f = '''' then runner_dir (ci_process c) cfg (ephemeral_prefix cfg (ci_hostname c) (ef_prefix f))
                     else ef_dir f)
          in case ci_abs c dir of
               None \<Rightarrow> (Inl PathFailed, m)
             | Some dir \<Rightarrow>
                 (case register_ephemeral c client cfg target name dir (ef_labels f) m of
                    (Inl e, m) \<Rightarrow> (Inl e, m)
                  | (Inr (r, _), m) \<Rightarrow> (Inr (client, cfg, target, r), m)))))))"

definition ephemeral_run ::
  "('y, 'w, 'p) run_agent \<Rightarrow> 'p plane \<Rightarrow> machine_facts \<Rightarrow> binary_env \<Rightarrow> bytes option \<Rightarrow> ('y, 'w) cli \<Rightarrow> ephemeral_flags
   \<Rightarrow> ('y, 'w) cli_state \<Rightarrow> 'p \<Rightarrow> (cli_error + ephemeral_result) \<times> ('y, 'w) cli_state \<times> 'p"
where
  "ephemeral_run run plane mf be random c f m w =
     (case prepare_ephemeral random c f m of
        (Inl e, m) \<Rightarrow> (Inl e, m, w)
      | (Inr (client, cfg, target, r), m) \<Rightarrow>
          let ((oc, err), cp, m, w) =
                supervise_ephemeral run plane mf be c cfg r (ef_log_format f) (ef_log_level f) m w;
              (said, m, w) = teardown_ephemeral c client plane cp cfg target r oc (ef_purge f) m w
          in (Inr \<lparr> er_runner = r, er_outcome = oc, er_error = err, er_done = said \<rparr>, m, w))"

section \<open>Sizes\<close>

text \<open>\<open>humanSize\<close>: \<open>tenths\<close> is the formatting of a quotient to one decimal; \<open>None\<close> is an index out of range.\<close>

function size_loop :: "nat \<Rightarrow> nat \<Rightarrow> nat \<Rightarrow> nat \<times> nat" where
  "size_loop n ex d = (if 1024 \<le> n \<and> ex < 3 then size_loop (n div 1024) (Suc ex) (d * 1024) else (ex, d))"
  by pat_completeness auto
termination by (relation "measure (\<lambda>(n, ex, d). 3 - ex)") auto

declare size_loop.simps [simp del]

definition human_size :: "(nat \<Rightarrow> nat \<Rightarrow> string) \<Rightarrow> nat \<Rightarrow> string option" where
  "human_size tenths bytes =
     (if bytes < 1024 then Some (digits bytes @ '' B'')
      else let (ex, d) = size_loop (bytes div 1024) 0 1024
           in if ex < length ''KMG'' then Some (tenths bytes d @ '' '' @ [''KMG'' ! ex] @ ''iB'') else None)"

section \<open>Guarantees\<close>

text \<open>
  Showing the size of a log panics from one tebibyte on: the loop counts one unit further than there are
  letters for. Below that it does not.
\<close>

theorem human_size_panics: "human_size tenths bytes = None \<longleftrightarrow> 2 ^ 40 \<le> bytes"
proof -
  have d: "bytes div 1024 div 1024 = bytes div 1048576" "bytes div 1048576 div 1024 = bytes div 1073741824"
    by (simp_all add: div_mult2_eq [symmetric])
  have le: "1024 \<le> bytes div 1024 \<longleftrightarrow> 1048576 \<le> bytes" "1024 \<le> bytes div 1048576 \<longleftrightarrow> 1073741824 \<le> bytes"
    "1024 \<le> bytes div 1073741824 \<longleftrightarrow> 2 ^ 40 \<le> bytes"
    by (simp_all add: div_le_mono less_eq_div_iff_mult_less_eq)
  show ?thesis
    using d le
    by (auto simp: human_size_def size_loop.simps [of "bytes div 1024"] size_loop.simps [of "bytes div 1048576"]
        size_loop.simps [of "bytes div 1073741824"] size_loop.simps [of _ "Suc (Suc (Suc 0))"])
qed

end
