(* ===== verification/Ephemeral_Correct.thy ===== *)
theory Ephemeral_Correct
  imports Ephemeral Agent_Connected
begin

text \<open>
  What an ephemeral run leaves behind: nothing of the runner, whatever happened to it, and the newest of the
  logs. And how the control plane sees the second run of a machine.
\<close>

section \<open>Removing\<close>

lemma sys_fault_quiet [simp]: "fs_faults fs = [] \<Longrightarrow> sys_fault fs = (False, fs)"
  by (simp add: sys_fault_def)

lemma set_node_faults [simp]: "fs_faults (set_node p n fs) = fs_faults fs"
  by (simp add: set_node_def)

lemma set_node_keys: "fst ` set (fs_nodes (set_node p None fs)) = fst ` set (fs_nodes fs) - {p}"
  by (auto simp: set_node_def AList.delete_eq)

lemma nonempty_iff: "nonempty fs q \<longleftrightarrow> (\<exists>x\<in>fst ` set (fs_nodes fs). x \<noteq> [] \<and> butlast x = q)"
  by (force simp: nonempty_def list_ex_iff)

lemma remove_nodes_quiet:
  assumes "fs_faults fs = []" "sorted_wrt (\<lambda>a b. length b \<le> length a) ps" "\<forall>p\<in>set ps. prefix q p"
    and "\<forall>x\<in>fst ` set (fs_nodes fs). prefix q x \<longrightarrow> x \<in> set ps"
  shows "\<exists>fs'. remove_nodes ps fs = (True, fs') \<and> fs_faults fs' = []"
  using assms
proof (induction ps arbitrary: fs)
  case (Cons a ps)
  have "\<not> nonempty fs a"
  proof
    assume "nonempty fs a"
    then obtain x where x: "x \<in> fst ` set (fs_nodes fs)" "x \<noteq> []" "butlast x = a" by (auto simp: nonempty_iff)
    have px: "x = a @ [last x]" using x(2,3) by (metis append_butlast_last_id)
    then have "prefix q x" using Cons.prems(3) by (metis list.set_intros(1) prefix_prefix)
    moreover have l: "length x = Suc (length a)" using px by (metis length_append_singleton)
    ultimately have "x \<in> set ps" using Cons.prems(4) x(1) by auto
    then show False using Cons.prems(2) l by auto
  qed
  moreover have "\<exists>fs'. remove_nodes ps (set_node a None fs) = (True, fs') \<and> fs_faults fs' = []"
    by (rule Cons.IH) (use Cons.prems in \<open>auto simp: set_node_keys\<close>)
  ultimately show ?case using Cons.prems(1) by auto
qed simp

lemma nodes_below_sorted: "sorted_wrt (\<lambda>a b. length b \<le> length a) (nodes_below q fs)"
  using sorted_sort_key [of length] by (simp add: nodes_below_def sorted_wrt_rev sorted_map)

lemma os_remove_all_quiet:
  assumes "fs_faults fs = []"
  shows "\<exists>fs'. os_remove_all p fs = (True, fs') \<and> fs_faults fs' = []"
proof -
  have "\<exists>fs'. remove_nodes (nodes_below q fs) fs = (True, fs') \<and> fs_faults fs' = []" for q
    by (rule remove_nodes_quiet [OF assms nodes_below_sorted, of q]) (auto simp: nodes_below_def)
  then show ?thesis using assms by (auto simp: os_remove_all_def split: option.splits)
qed

text \<open>In a directory that is reached without links, names stand for themselves.\<close>

lemma locate_real: "clean_path dir \<Longrightarrow> real_dir dir (fs_node fs) \<Longrightarrow> locate fs dir = Some dir"
  using resolve_root [of dir "fs_node fs" max_links "[]"] by (simp add: locate_def)

lemma real_is_dir: "real_dir dir (fs_node fs) \<Longrightarrow> is_dir fs dir"
  by (auto simp: real_dir_def is_dir_def)

lemma locate_entry_real: "clean_path dir \<Longrightarrow> real_dir dir (fs_node fs) \<Longrightarrow> locate_entry fs (dir @ [n]) = Some (dir @ [n])"
  by (simp add: locate_entry_def locate_real real_is_dir)

lemma locate_entry_self:
  assumes "clean_path dir" "real_dir dir (fs_node fs)" "dir \<noteq> []"
  shows "locate_entry fs dir = Some dir"
proof -
  have "prefix (butlast dir) dir" by (rule prefixeq_butlast)
  then have "real_dir (butlast dir) (fs_node fs)"
    using assms(2) by (auto simp: real_dir_def intro: prefix_order.trans)
  then have "locate_entry fs (butlast dir @ [last dir]) = Some (butlast dir @ [last dir])"
    by (rule locate_entry_real [OF clean_path_butlast [OF assms(1)]])
  then show ?thesis using assms(3) by simp
qed

lemma stat_real:
  assumes "clean_path (dir @ [n])" "real_dir dir (fs_node fs)" "fs_faults fs = []"
    and "\<And>l. fs_node fs (dir @ [n]) \<noteq> Some (LinkN l)"
  shows "stat_ok (dir @ [n]) fs = (fs_node fs (dir @ [n]) \<noteq> None, fs)"
proof -
  have "resolve max_links (fs_node fs) dir [n] = Some (dir @ [n])"
    using assms(1,4) by (auto split: option.splits node.splits)
  then have "locate fs (dir @ [n]) = Some (dir @ [n])"
    using resolve_root [of dir "fs_node fs" max_links "[n]"] assms(1,2) by (simp add: locate_def)
  then show ?thesis using assms(3) by (auto simp: stat_ok_def os_stat_def)
qed

text \<open>Every node is in a directory.\<close>

definition tree_like :: "fsys \<Rightarrow> bool" where
  "tree_like fs \<longleftrightarrow> list_all (\<lambda>(p, _). p = [] \<or> is_dir fs (butlast p)) (fs_nodes fs)"

lemma tree_parent: "tree_like fs \<Longrightarrow> fs_node fs p \<noteq> None \<Longrightarrow> p = [] \<or> is_dir fs (butlast p)"
  by (auto simp: tree_like_def list_all_iff fs_node_def dest!: map_of_SomeD)

lemma tree_ancestor: "tree_like fs \<Longrightarrow> fs_node fs (q @ p) \<noteq> None \<Longrightarrow> q \<noteq> [] \<Longrightarrow> fs_node fs q \<noteq> None"
proof (induction p rule: rev_induct)
  case (snoc x p)
  then have "is_dir fs (q @ p)" using tree_parent [of fs "q @ p @ [x]"] by (simp flip: append_assoc)
  then show ?case using snoc by (auto simp: is_dir_def)
qed simp

text \<open>What the lemmas below suppose of the directory, and keep.\<close>

definition settled_dir :: "path \<Rightarrow> string list \<Rightarrow> fsys \<Rightarrow> bool" where
  "settled_dir dir ns fs \<longleftrightarrow> fs_faults fs = [] \<and> real_dir dir (fs_node fs)
     \<and> (\<forall>n\<in>set ns. (\<forall>l. fs_node fs (dir @ [n]) \<noteq> Some (LinkN l))
          \<and> (fs_node fs (dir @ [n]) = None \<longrightarrow> (\<forall>p. prefix (dir @ [n]) p \<longrightarrow> fs_node fs p = None)))"

lemma settled_dir_step:
  assumes "settled_dir dir ns fs" "os_remove_all (dir @ [n]) fs = (ok, fs')" "clean_path dir" "fs_faults fs' = []"
    and "\<And>p. prefix (dir @ [n]) p \<Longrightarrow> fs_node fs' p = None"
    and "\<And>p. \<not> prefix (dir @ [n]) p \<Longrightarrow> fs_node fs' p = fs_node fs p"
  shows "settled_dir dir ns fs'"
proof -
  have "fs_node fs' p = Some DirN" if "p \<noteq> []" "prefix p dir" for p
  proof -
    have "\<not> prefix (dir @ [n]) p"
      using that(2) prefix_order.trans [of "dir @ [n]" p dir] by (auto dest: prefix_length_le)
    then show ?thesis using assms(1,6) that by (auto simp: settled_dir_def real_dir_def)
  qed
  moreover have "(\<forall>l. fs_node fs' (dir @ [k]) \<noteq> Some (LinkN l))
      \<and> (fs_node fs' (dir @ [k]) = None \<longrightarrow> (\<forall>p. prefix (dir @ [k]) p \<longrightarrow> fs_node fs' p = None))" if "k \<in> set ns" for k
  proof (cases "k = n")
    case False
    then have "\<not> prefix (dir @ [n]) p" if "prefix (dir @ [k]) p" for p using that by (auto simp: prefix_def)
    then have "fs_node fs' p = fs_node fs p" if "prefix (dir @ [k]) p" for p using assms(6) that by blast
    then show ?thesis using assms(1) that by (auto simp: settled_dir_def)
  qed (use assms(5) in auto)
  ultimately show ?thesis using assms(4) by (auto simp: settled_dir_def real_dir_def)
qed

lemma destroy_gone:
  assumes "settled_dir dir ns fs" "clean_path dir" "\<forall>n\<in>set ms. n \<in> set ns \<and> clean_path [n]"
  shows "\<exists>k fs'. destroy_runner_state dir ms fs = ((k, True), fs') \<and> fs_faults fs' = []
    \<and> (\<forall>n\<in>set ms. \<forall>p. prefix (dir @ [n]) p \<longrightarrow> fs_node fs' p = None)
    \<and> (\<forall>p. (\<forall>n\<in>set ms. \<not> prefix (dir @ [n]) p) \<longrightarrow> fs_node fs' p = fs_node fs p)"
  using assms
proof (induction ms arbitrary: fs)
  case (Cons n ms)
  note s = Cons.prems(1) [unfolded settled_dir_def]
  have stat: "stat_ok (dir @ [n]) fs = (fs_node fs (dir @ [n]) \<noteq> None, fs)"
    by (rule stat_real) (use Cons.prems s in auto)
  show ?case
  proof (cases "fs_node fs (dir @ [n]) = None")
    case True
    obtain k fs' where ih: "destroy_runner_state dir ms fs = ((k, True), fs')" "fs_faults fs' = []"
        "\<forall>n\<in>set ms. \<forall>p. prefix (dir @ [n]) p \<longrightarrow> fs_node fs' p = None"
        "\<forall>p. (\<forall>n\<in>set ms. \<not> prefix (dir @ [n]) p) \<longrightarrow> fs_node fs' p = fs_node fs p"
      using Cons.IH [OF Cons.prems(1,2)] Cons.prems(3) by auto
    have "fs_node fs' p = None" if "prefix (dir @ [n]) p" for p
    proof -
      have "fs_node fs p = None" using True s Cons.prems(3) that by auto
      then show ?thesis using ih(3,4) by (cases "\<exists>n\<in>set ms. prefix (dir @ [n]) p") auto
    qed
    then show ?thesis using stat True ih by auto
  next
    case False
    obtain fs1 where 1: "os_remove_all (dir @ [n]) fs = (True, fs1)" "fs_faults fs1 = []"
      using os_remove_all_quiet s by blast
    have le: "locate_entry fs (dir @ [n]) = Some (dir @ [n])" by (rule locate_entry_real) (use Cons.prems(2) s in auto)
    have gone: "fs_node fs1 p = None" if "prefix (dir @ [n]) p" for p
      using os_remove_allD(2) [OF 1(1) _ le False that] by simp
    have same: "fs_node fs1 p = fs_node fs p" if "\<not> prefix (dir @ [n]) p" for p
      using os_remove_allD(1) [OF 1(1)] le that by fastforce
    have "settled_dir dir ns fs1"
      by (rule settled_dir_step [OF Cons.prems(1) 1(1) Cons.prems(2) 1(2) gone same])
    from Cons.IH [OF this Cons.prems(2)] obtain k fs' where ih:
        "destroy_runner_state dir ms fs1 = ((k, True), fs')" "fs_faults fs' = []"
        "\<forall>n\<in>set ms. \<forall>p. prefix (dir @ [n]) p \<longrightarrow> fs_node fs' p = None"
        "\<forall>p. (\<forall>n\<in>set ms. \<not> prefix (dir @ [n]) p) \<longrightarrow> fs_node fs' p = fs_node fs1 p"
      using Cons.prems(3) by auto
    have "fs_node fs' p = None" if "prefix (dir @ [n]) p" for p
      using ih(3,4) gone [OF that] by (cases "\<exists>n\<in>set ms. prefix (dir @ [n]) p") auto
    then show ?thesis using stat False 1 ih same by (auto simp: Let_def)
  qed
qed (simp add: settled_dir_def)

text \<open>The logs: a pruning removes nothing but entries, and changes no other.\<close>

lemma os_remove_shrinks: "os_remove p fs = (ok, fs') \<Longrightarrow> fs_node fs' x = fs_node fs x \<or> fs_node fs' x = None"
  by (auto simp: os_remove_def Let_def split: prod.splits option.splits if_splits dest!: sys_faultD)

lemma remove_logs_shrinks: "remove_logs dir ns fs = (k, fs') \<Longrightarrow> fs_node fs' x = fs_node fs x \<or> fs_node fs' x = None"
proof (induction ns arbitrary: fs k fs')
  case (Cons n ns)
  obtain ok fs1 where 1: "os_remove (dir @ [n]) fs = (ok, fs1)" by fastforce
  obtain k2 fs2 where 2: "remove_logs dir ns fs1 = (k2, fs2)" by fastforce
  show ?case using Cons.IH [OF 2] os_remove_shrinks [OF 1, of x] Cons.prems 1 2 by auto
qed simp

lemma os_read_dir_same: "os_read_dir p fs = (r, fs') \<Longrightarrow> fs_node fs' = fs_node fs"
  by (auto simp: os_read_dir_def Let_def split: prod.splits option.splits if_splits dest!: sys_faultD)

lemma prune_step_shrinks: "prune_step cfg cpath fs = (notes, fs') \<Longrightarrow> fs_node fs' x = fs_node fs x \<or> fs_node fs' x = None"
  by (auto simp: prune_step_def prune_run_logs_def Let_def
      split: prod.splits sum.splits file_error.splits if_splits dest!: os_read_dir_same remove_logs_shrinks [where x = x])

section \<open>The end of an ephemeral run\<close>

lemma forget_gone:
  assumes "walks walk" "dk_faults d = []" "dk_files d path \<noteq> Some Garbage" "names_clear (recorded path d)"
    and "forget_step walk path name d = (notes, d')" "k \<in> fst ` set (recorded path d')"
  shows "\<not> equal_fold k name"
proof (cases "\<exists>e\<in>set (recorded path d). equal_fold (fst e) name")
  case True
  then obtain j r where j: "(j, r) \<in> set (recorded path d)" "equal_fold j name" by auto
  then obtain f where f: "dk_files d path = Some (Doc f)"
    using assms(3) by (cases "dk_files d path") (auto simp: recorded_def split: contents.splits)
  obtain d2 where d2: "delete_installed walk path name d = ((True, None), d2)"
      "recorded path d2 = AList.delete j (recorded path d)"
    using delete_installed_found [OF assms(2) f assms(1,4) j] by blast
  then have "d' = d2" using assms(5) by (simp add: forget_step_def)
  then have k: "k \<in> fst ` set (recorded path d)" "k \<noteq> j" using assms(6) d2(2) by (auto simp: AList.delete_eq)
  show ?thesis
  proof
    assume "equal_fold k name"
    then have "to_lower k = to_lower j" using j(2) by (simp add: equal_fold_def)
    moreover have "inj_on to_lower (set (map fst (recorded path d)))"
      using assms(4) unfolding names_clear_keys by (simp only: distinct_map)
    ultimately show False using k j(1) by (force dest: inj_onD)
  qed
next
  case False
  then have "find (\<lambda>(k, _). equal_fold k name) (walk (recorded path d)) = None"
    using find_other [OF assms(1)] by blast
  then have "delete_installed walk path name d = ((False, None), next_call d)"
    by (simp add: delete_installed_def load_runners_quiet [OF assms(2,3)])
  then have "recorded path d' = recorded path d" using assms(5) by (auto simp: forget_step_def recorded_def)
  then show ?thesis using False assms(6) by auto
qed

text \<open>
  A state in which the end finds everything as it should: no call fails, the runner's directory is reached
  without links, none of what is to go is a link, and the file of runners can be read.
\<close>

definition settled :: "('y, 'w) cli \<Rightarrow> installed \<Rightarrow> ('y, 'w) cli_state \<Rightarrow> bool" where
  "settled c r m \<longleftrightarrow>
     (let dir = dir_path (in_dir r); fs = ms_fs m; d = ms_runners m
      in fs_faults fs = [] \<and> dir \<noteq> [] \<and> real_dir dir (fs_node fs) \<and> tree_like fs
         \<and> (\<forall>n\<in>set ephemeral_leftovers. \<forall>l. fs_node fs (dir @ [n]) \<noteq> Some (LinkN l))
         \<and> dk_faults d = [] \<and> dk_files d (state_path c) \<noteq> Some Garbage \<and> names_clear (recorded (state_path c) d))"

text \<open>What is to go: the registration and the work in the directory, or all of it.\<close>

definition to_go :: "bool \<Rightarrow> path \<Rightarrow> path \<Rightarrow> bool" where
  "to_go purge dir p \<longleftrightarrow> prefix dir p \<and> (purge \<or> (\<exists>n\<in>set ephemeral_leftovers. prefix (dir @ [n]) p))"

lemma dir_path_clean: "clean_path (dir_path s)"
  by (simp add: dir_path_def clean_onto_clean)

lemma leftovers_clean: "n \<in> set ephemeral_leftovers \<Longrightarrow> clean_path [n]"
  by (auto simp: ephemeral_leftovers_def dots)

lemma destroy_step_gone:
  assumes "settled c r m" "destroy_step purge (in_dir r) (ms_fs m) = (notes, fs')" "to_go purge (dir_path (in_dir r)) p"
  shows "fs_node fs' p = None"
proof -
  let ?dir = "dir_path (in_dir r)" and ?fs = "ms_fs m"
  have s: "fs_faults ?fs = []" "?dir \<noteq> []" "real_dir ?dir (fs_node ?fs)" "tree_like ?fs"
      "\<forall>n\<in>set ephemeral_leftovers. \<forall>l. fs_node ?fs (?dir @ [n]) \<noteq> Some (LinkN l)"
    using assms(1) by (simp_all add: settled_def Let_def)
  show ?thesis
  proof (cases purge)
    case True
    obtain fs1 where 1: "os_remove_all ?dir ?fs = (True, fs1)" using os_remove_all_quiet [OF s(1)] by blast
    have "fs_node ?fs ?dir \<noteq> None" using s(2,3) by (auto simp: real_dir_def)
    then have "fs_node fs1 p = None"
      using os_remove_allD(2) [OF 1 _ locate_entry_self [OF dir_path_clean s(3,2)]] assms(3) by (simp add: to_go_def)
    then show ?thesis using assms(2) True 1 by (simp add: destroy_step_def)
  next
    case False
    have "fs_node ?fs q = None" if "fs_node ?fs (?dir @ [n]) = None" "prefix (?dir @ [n]) q" for n q
      using tree_ancestor [OF s(4), of "?dir @ [n]"] that by (auto simp: prefix_def simp flip: not_None_eq)
    then have "settled_dir ?dir ephemeral_leftovers ?fs"
      using s by (auto simp: settled_dir_def)
    from destroy_gone [OF this dir_path_clean, of ephemeral_leftovers] obtain k fs1 where
      "destroy_runner_state ?dir ephemeral_leftovers ?fs = ((k, True), fs1)"
      "\<forall>n\<in>set ephemeral_leftovers. \<forall>p. prefix (?dir @ [n]) p \<longrightarrow> fs_node fs1 p = None"
      using leftovers_clean by blast
    then show ?thesis using assms(2,3) False by (auto simp: destroy_step_def to_go_def)
  qed
qed

lemma teardown_gone:
  assumes "walks (ci_walk c)" "settled c r m"
    and "teardown_ephemeral c client plane cp cfg target r oc purge m w = (notes, m', w')"
  shows "to_go purge (dir_path (in_dir r)) p \<Longrightarrow> fs_node (ms_fs m') p = None"
    and "k \<in> fst ` set (recorded (state_path c) (ms_runners m')) \<Longrightarrow> \<not> equal_fold k (in_name r)"
    and "ms_world m' = snd (deregister_step (ci_github c) client target (in_name r) (ms_world m))"
    and "set (fst (deregister_step (ci_github c) client target (in_name r) (ms_world m))) \<subseteq> set notes"
proof -
  obtain a w1 where 1: "retire_step plane cp oc w = (a, w1)" by fastforce
  obtain b gw where 2: "deregister_step (ci_github c) client target (in_name r) (ms_world m) = (b, gw)" by fastforce
  obtain d fs1 where 3: "destroy_step purge (in_dir r) (ms_fs m) = (d, fs1)" by fastforce
  obtain e rs where 4: "forget_step (ci_walk c) (state_path c) (in_name r) (ms_runners m) = (e, rs)" by fastforce
  obtain f fs2 where 5: "prune_step cfg (resolved_config_path c) fs1 = (f, fs2)" by fastforce
  have end_: "notes = a @ b @ d @ e @ f" "m' = m\<lparr>ms_world := gw, ms_fs := fs2, ms_runners := rs\<rparr>"
    using assms(3) 1 2 3 4 5 by (simp_all add: teardown_ephemeral_def)
  show "to_go purge (dir_path (in_dir r)) p \<Longrightarrow> fs_node (ms_fs m') p = None"
    using destroy_step_gone [OF assms(2) 3, of p] prune_step_shrinks [OF 5, of p] end_(2) by auto
  show "k \<in> fst ` set (recorded (state_path c) (ms_runners m')) \<Longrightarrow> \<not> equal_fold k (in_name r)"
    using forget_gone [OF assms(1) _ _ _ 4, of k] assms(2) end_(2) by (simp add: settled_def Let_def)
  show "ms_world m' = snd (deregister_step (ci_github c) client target (in_name r) (ms_world m))"
    and "set (fst (deregister_step (ci_github c) client target (in_name r) (ms_world m))) \<subseteq> set notes"
    using end_ 2 by auto
qed

lemma register_at_runner:
  assumes "register_at c client cfg target opts m = (Inr (r, put), m')"
  shows "in_name r = io_name opts" "in_ephemeral r = io_ephemeral opts" "in_scope r = target"
  using assms by (auto simp: register_at_def Let_def split: prod.splits sum.splits)

text \<open>The command ends by taking the runner apart, in the state its agent has left.\<close>

lemma ephemeral_run_ends:
  assumes "ephemeral_run run plane mf be random c f m w = (Inr res, m', w')"
    and "new_logger (ef_log_format f) (ef_log_level f) \<noteq> None"
  shows "\<exists>client cfg target cp opts m0 w0 m1 w1. in_ephemeral (er_runner res) \<and> in_scope (er_runner res) = target
    \<and> run opts m0 w0 = ((er_outcome res, er_error res), cp, m1, w1) \<and> ao_runner opts = er_runner res
    \<and> teardown_ephemeral c client plane cp cfg target (er_runner res) (er_outcome res) (ef_purge f) m1 w1 = (er_done res, m', w')"
proof -
  obtain client cfg target r m3 where pre: "prepare_ephemeral random c f m = (Inr (client, cfg, target, r), m3)"
    using assms(1) by (auto simp: ephemeral_run_def split: prod.splits sum.splits)
  then obtain dir name m2 put where reg:
      "register_ephemeral c client cfg target name dir (ef_labels f) m2 = (Inr (r, put), m3)"
    by (auto simp: prepare_ephemeral_def Let_def split: prod.splits sum.splits option.splits)
  obtain oc err cp m1 w1 where sup:
      "supervise_ephemeral run plane mf be c cfg r (ef_log_format f) (ef_log_level f) m3 w = ((oc, err), cp, m1, w1)"
    by (metis prod.collapse)
  obtain said m5 w5 where down: "teardown_ephemeral c client plane cp cfg target r oc (ef_purge f) m1 w1 = (said, m5, w5)"
    by (metis prod.collapse)
  have res: "res = \<lparr> er_runner = r, er_outcome = oc, er_error = err, er_done = said \<rparr>" "m5 = m'" "w5 = w'"
    using assms(1) pre by (simp_all add: ephemeral_run_def sup down)
  have "ao_runner (with_reporting n (plain_options r hooks extra)) = r" for n hooks extra
    by (simp add: with_reporting_def plain_options_def split: option.splits)
  then obtain opts m0 w0 where "run opts m0 w0 = ((oc, err), cp, m1, w1)" "ao_runner opts = r"
    using sup assms(2) by (auto simp: supervise_ephemeral_def Let_def split: option.splits prod.splits)
  then show ?thesis
    using down res register_at_runner [OF reg [unfolded register_ephemeral_def]] by (intro exI) auto
qed


text \<open>An agent that gives up, and leaves its files and the record of the runner.\<close>

definition left_state :: "(unit, gh_request list) cli_state" where
  "left_state = create_state\<lparr>
     ms_fs := no_files\<lparr>fs_nodes := [([''r''], DirN), ([''r'', ''config.sh''], FileN 0), ([''r'', ''.runner''], FileN 1),
       ([''r'', ''_work''], DirN), ([''r'', ''_work'', ''x''], FileN 2)]\<rparr>,
     ms_runners := \<lparr> dk_files = (\<lambda>_. None)(''/c/runners.yaml'' := Some (Doc [(''n-01020304'', sample_installed\<lparr>in_name := ''n-01020304''\<rparr>)])),
       dk_faults = [], dk_seen = [] \<rparr>\<rparr>"

definition failing_agent :: "(unit, gh_request list, unit) run_agent" where
  "failing_agent opts m w = ((no_outcome, Some (AgentFailed (Inl (Inl PfGone)))), None, left_state, w)"

definition one_job :: ephemeral_flags where
  "one_job = \<lparr> ef_repo = ''o/r'', ef_org = '''', ef_prefix = ''n'', ef_labels = '''', ef_dir = ''/r'', ef_purge = False,
     ef_allow_public = True, ef_log_format = ''json'', ef_log_level = ''info'' \<rparr>"

definition no_plane :: "unit plane" where "no_plane rq w = (None, w)"

definition plain_binaries :: binary_env where
  "plain_binaries = \<lparr> be_self = None, be_exists = (\<lambda>_. False), be_lookup = (\<lambda>_. None), be_windows = False, be_program_files = '''' \<rparr>"

definition sample_life :: "(cli_error + ephemeral_result) \<times> (unit, gh_request list) cli_state \<times> unit" where
  "sample_life = ephemeral_run failing_agent no_plane sample_facts plain_binaries (Some [1, 2, 3, 4]) create_cli one_job create_state ()"

lemma sample_prepared:
  "case fst (prepare_ephemeral (Some [1, 2, 3, 4]) create_cli one_job create_state) of
     Inr (client, cfg, target, r) \<Rightarrow> in_name r = ''n-01020304'' \<and> in_dir r = ''/r'' | Inl e \<Rightarrow> False"
  by code_simp

lemma sample_life_runner:
  "\<exists>res m'. sample_life = (Inr res, m', ()) \<and> in_name (er_runner res) = ''n-01020304'' \<and> in_dir (er_runner res) = ''/r''"
proof -
  obtain client cfg target r m1 where "prepare_ephemeral (Some [1, 2, 3, 4]) create_cli one_job create_state
      = (Inr (client, cfg, target, r), m1)" "in_name r = ''n-01020304''" "in_dir r = ''/r''"
    using sample_prepared by (cases "prepare_ephemeral (Some [1, 2, 3, 4]) create_cli one_job create_state")
      (auto split: sum.splits)
  then show ?thesis by (auto simp: sample_life_def ephemeral_run_def Let_def split: prod.splits)
qed

lemma left_settled: "in_dir r = ''/r'' \<Longrightarrow> settled create_cli r left_state"
proof -
  assume r: "in_dir r = ''/r''"
  have d: "dir_path ''/r'' = [''r'']" by code_simp
  have "real_dir [''r''] (fs_node (ms_fs left_state))"
    by (auto simp: real_dir_def left_state_def fs_node_def prefix_Cons)
  moreover have "tree_like (ms_fs left_state)" by code_simp
  moreover have "(fs_node (ms_fs left_state) ([''r''] @ [n])) \<noteq> Some (LinkN l)" if "n \<in> set ephemeral_leftovers" for n l
    using that by (auto simp: left_state_def fs_node_def ephemeral_leftovers_def)
  moreover have "names_clear (recorded (state_path create_cli) (ms_runners left_state))" by code_simp
  moreover have "state_path create_cli = ''/c/runners.yaml''" by code_simp
  ultimately show ?thesis
    using r d by (simp add: settled_def left_state_def no_files_def)
qed


section \<open>Which logs stay\<close>

definition logs_in :: "path \<Rightarrow> fsys \<Rightarrow> string set" where
  "logs_in dir fs = {n. suffix log_suffix n \<and> (\<exists>x. fs_node fs (dir @ [n]) = Some x \<and> x \<noteq> DirN)}"

lemma entry_names:
  "set (map (last \<circ> fst) (filter (\<lambda>(p, _). p \<noteq> [] \<and> butlast p = dir) (fs_nodes fs))) = {n. fs_node fs (dir @ [n]) \<noteq> None}"
    (is "?A = ?B")
proof
  show "?A \<subseteq> ?B" by (auto simp: fs_node_def map_of_eq_None_iff image_iff) (metis append_butlast_last_id fst_conv)
  show "?B \<subseteq> ?A" by (force simp: fs_node_def dest!: map_of_SomeD)
qed

lemma read_logs:
  assumes "fs_faults fs = []" "clean_path dir" "real_dir dir (fs_node fs)"
  shows "\<exists>es. os_read_dir dir fs = (Inr es, fs) \<and> set (log_names es) = logs_in dir fs \<and> distinct (log_names es)
    \<and> sorted (log_names es)"
proof -
  let ?ns = "sort (remdups (map (last \<circ> fst) (filter (\<lambda>(p, _). p \<noteq> [] \<and> butlast p = dir) (fs_nodes fs))))"
  let ?es = "map (\<lambda>n. (n, fs_node fs (dir @ [n]) = Some DirN)) ?ns"
  have names: "log_names ?es = filter (\<lambda>n. fs_node fs (dir @ [n]) \<noteq> Some DirN \<and> suffix log_suffix n) ?ns"
    by (simp add: log_names_def filter_map comp_def)
  have "set ?ns = {n. fs_node fs (dir @ [n]) \<noteq> None}" by (simp only: set_sort set_remdups entry_names)
  then have "set (log_names ?es) = logs_in dir fs" unfolding names set_filter logs_in_def by auto
  moreover have "distinct (log_names ?es)" "sorted (log_names ?es)"
    unfolding names by (simp_all add: sorted_wrt_filter)
  moreover have "os_read_dir dir fs = (Inr ?es, fs)"
    using assms by (simp add: os_read_dir_def locate_real real_is_dir)
  ultimately show ?thesis by blast
qed

lemma remove_logs_exact:
  assumes "fs_faults fs = []" "clean_path dir" "real_dir dir (fs_node fs)" "set ns \<subseteq> logs_in dir fs" "distinct ns"
  shows "\<exists>fs'. remove_logs dir ns fs = (length ns, fs')
    \<and> fs_node fs' = (\<lambda>p. if p \<in> (\<lambda>n. dir @ [n]) ` set ns then None else fs_node fs p)"
  using assms
proof (induction ns arbitrary: fs)
  case (Cons n ns)
  let ?fs = "set_node (dir @ [n]) None fs"
  obtain x where x: "fs_node fs (dir @ [n]) = Some x" "x \<noteq> DirN" using Cons.prems(4) by (auto simp: logs_in_def)
  have rm: "os_remove (dir @ [n]) fs = (True, ?fs)"
    using Cons.prems(1) x locate_entry_real [OF Cons.prems(2,3)] by (simp add: os_remove_def)
  have "real_dir dir (fs_node ?fs)"
    using Cons.prems(3) prefix_length_le [of "dir @ [n]" dir] by (auto simp: real_dir_def)
  moreover have "set ns \<subseteq> logs_in dir ?fs" using Cons.prems(4,5) by (auto simp: logs_in_def)
  moreover have "fs_faults ?fs = []" "distinct ns" using Cons.prems(1,5) by simp_all
  ultimately obtain fs' where "remove_logs dir ns ?fs = (length ns, fs')"
      "fs_node fs' = (\<lambda>p. if p \<in> (\<lambda>n. dir @ [n]) ` set ns then None else fs_node ?fs p)"
    using Cons.IH [of ?fs] Cons.prems(2) by blast
  then show ?case using rm by auto
qed simp

lemma sorted_take_drop: "sorted xs \<Longrightarrow> distinct xs \<Longrightarrow> a \<in> set (take k xs) \<Longrightarrow> b \<in> set (drop k xs) \<Longrightarrow> (a :: 'a :: linorder) < b"
proof -
  assume s: "sorted xs" "distinct xs" "a \<in> set (take k xs)" "b \<in> set (drop k xs)"
  then have "a \<le> b" using sorted_append [of "take k xs" "drop k xs"] by simp
  moreover have "a \<noteq> b" using s set_take_disj_set_drop_if_distinct [OF s(2), of k k] by auto
  ultimately show ?thesis by simp
qed

text \<open>
  Pruning keeps the newest logs: of the logs in the directory as many stay as are to be kept, or all when
  there are fewer; every one that goes has a name before every one that stays, and so, for names that begin
  with the time they were written at, was not written later; and no other file is touched. No call is
  supposed to fail, and the directory to be reached without links.
\<close>

theorem prune_keeps_newest:
  assumes "fs_faults fs = []" "real_dir (dir_path dir) (fs_node fs)" "0 \<le> keep"
    and "prune_run_logs dir keep fs = (res, fs')"
  shows "\<exists>old. res = Inr (card old) \<and> old \<subseteq> logs_in (dir_path dir) fs
    \<and> logs_in (dir_path dir) fs' = logs_in (dir_path dir) fs - old
    \<and> int (card (logs_in (dir_path dir) fs')) = min keep (int (card (logs_in (dir_path dir) fs)))
    \<and> (\<forall>n\<in>old. \<forall>n'\<in>logs_in (dir_path dir) fs'. n < n'
         \<and> (\<forall>t u x y. n = time_stamp t @ x \<and> n' = time_stamp u @ y \<and> dated t \<and> dated u
              \<longrightarrow> nat (t div second) \<le> nat (u div second)))
    \<and> (\<forall>p. p \<notin> (\<lambda>n. dir_path dir @ [n]) ` old \<longrightarrow> fs_node fs' p = fs_node fs p)"
proof -
  let ?dir = "dir_path dir"
  obtain es where es: "os_read_dir ?dir fs = (Inr es, fs)" "set (log_names es) = logs_in ?dir fs"
      "distinct (log_names es)" "sorted (log_names es)"
    using read_logs [OF assms(1) dir_path_clean assms(2)] by blast
  let ?k = "nat (int (length (log_names es)) - keep)"
  have sur: "surplus_logs (log_names es) keep = take ?k (log_names es)"
    using es(4) by (simp add: surplus_logs_def sorted_sort_id)
  let ?old = "set (take ?k (log_names es))"
  have sub: "?old \<subseteq> logs_in ?dir fs" using es(2) set_take_subset by fastforce
  obtain fs2 where rm: "remove_logs ?dir (take ?k (log_names es)) fs = (length (take ?k (log_names es)), fs2)"
      "fs_node fs2 = (\<lambda>p. if p \<in> (\<lambda>n. ?dir @ [n]) ` ?old then None else fs_node fs p)"
    using remove_logs_exact [OF assms(1) dir_path_clean assms(2) sub] es(3) by auto
  have end_: "res = Inr (length (take ?k (log_names es)))" "fs' = fs2"
    using assms(4) es(1) sur rm(1) by (simp_all add: prune_run_logs_def)
  have left: "logs_in ?dir fs' = logs_in ?dir fs - ?old" using rm(2) end_(2) by (auto simp: logs_in_def)
  have "set (log_names es) = ?old \<union> set (drop ?k (log_names es))" by (metis append_take_drop_id set_append)
  then have kept: "logs_in ?dir fs' = set (drop ?k (log_names es))"
    using es(2) left set_take_disj_set_drop_if_distinct [OF es(3), of ?k ?k] by auto
  have "card (logs_in ?dir fs) = length (log_names es)" using distinct_card [OF es(3)] es(2) by simp
  moreover have "card (logs_in ?dir fs') = length (drop ?k (log_names es))"
    unfolding kept by (rule distinct_card) (simp add: es(3))
  ultimately have cards: "int (card (logs_in ?dir fs')) = min keep (int (card (logs_in ?dir fs)))"
    using assms(3) by auto
  have size: "card ?old = length (take ?k (log_names es))" by (rule distinct_card) (simp add: es(3))
  have order: "n < n'" if "n \<in> ?old" "n' \<in> logs_in ?dir fs'" for n n'
    using sorted_take_drop [OF es(4,3) that(1)] that(2) kept by blast
  have times: "nat (t div second) \<le> nat (u div second)"
    if "time_stamp t @ x < time_stamp u @ y" "dated t" "dated u" for t u x y
    using stamped_order [of t x u y] that by simp
  have "\<forall>n\<in>?old. \<forall>n'\<in>logs_in ?dir fs'. n < n' \<and> (\<forall>t u x y. n = time_stamp t @ x \<and> n' = time_stamp u @ y
      \<and> dated t \<and> dated u \<longrightarrow> nat (t div second) \<le> nat (u div second))"
    using order times by blast
  moreover have "\<forall>p. p \<notin> (\<lambda>n. ?dir @ [n]) ` ?old \<longrightarrow> fs_node fs' p = fs_node fs p"
    using rm(2) end_(2) by simp
  ultimately show ?thesis using end_(1) size sub left cards by (intro exI [of _ ?old] conjI) simp_all
qed

text \<open>Three logs and a directory, of which one log is kept.\<close>

definition log_files :: fsys where
  "log_files = no_files\<lparr>fs_nodes := [([''l''], DirN), ([''l'', ''2.log''], FileN 0), ([''l'', ''1.log''], FileN 1),
     ([''l'', ''3.log''], FileN 2), ([''l'', ''0.log''], DirN), ([''l'', ''x''], FileN 3)]\<rparr>"

lemma log_files_pruned: "map fst (fs_nodes (snd (prune_run_logs ''/l'' 1 log_files))) = [[''l''], [''l'', ''3.log''], [''l'', ''0.log''], [''l'', ''x'']]"
  by code_simp

theorem prune_keeps_newest_witness:
  "\<exists>old. fst (prune_run_logs ''/l'' 1 log_files) = Inr (card old)
     \<and> logs_in [''l''] (snd (prune_run_logs ''/l'' 1 log_files)) = logs_in [''l''] log_files - old
     \<and> card (logs_in [''l''] (snd (prune_run_logs ''/l'' 1 log_files))) \<le> 1"
proof -
  have d: "dir_path ''/l'' = [''l'']" by code_simp
  have "real_dir (dir_path ''/l'') (fs_node log_files)" unfolding d
    by (auto simp: real_dir_def log_files_def fs_node_def prefix_Cons)
  moreover have "fs_faults log_files = []" by (simp add: log_files_def no_files_def)
  ultimately obtain old where old: "fst (prune_run_logs ''/l'' 1 log_files) = Inr (card old)"
      "logs_in [''l''] (snd (prune_run_logs ''/l'' 1 log_files)) = logs_in [''l''] log_files - old"
      "int (card (logs_in [''l''] (snd (prune_run_logs ''/l'' 1 log_files)))) = min 1 (int (card (logs_in [''l''] log_files)))"
    using prune_keeps_newest [of log_files "''/l''" 1, OF _ _ _ prod.collapse [symmetric]] unfolding d by auto
  then have "card (logs_in [''l''] (snd (prune_run_logs ''/l'' 1 log_files))) \<le> 1" by linarith
  then show ?thesis using old(1,2) by blast
qed

section \<open>The second run of a machine\<close>

lemma find_id: "find (\<lambda>x. rn_id x = i) xs = Some x \<Longrightarrow> x \<in> set xs \<and> rn_id x = i"
  by (induction xs) (auto split: if_splits)

lemma update_runner_found:
  assumes "update_runner i f valid db = (Inr y, db')"
  shows "\<exists>x\<in>set (db_runners db). rn_id x = i \<and> y = f x"
    and "db_runners db' = update_where (\<lambda>x. rn_id x = i) f (db_runners db)" "db_machine db' = db_machine db"
proof -
  obtain ok d where st: "stmt (is_uuid i \<and> (find (\<lambda>x. rn_id x = i) (db_runners db) = None \<or> valid)) db = (ok, d)"
    by fastforce
  note d = stmtD [OF st]
  obtain x where x: "find (\<lambda>x. rn_id x = i) (db_runners db) = Some x" "y = f x"
      "db' = d\<lparr>db_runners := update_where (\<lambda>x. rn_id x = i) f (db_runners d)\<rparr>"
  proof -
    have "(if \<not> ok then (Inl ErrDatabase, d) else case find (\<lambda>x. rn_id x = i) (db_runners db) of
        None \<Rightarrow> (Inl ErrNotFound, d)
      | Some x \<Rightarrow> (Inr (f x), d\<lparr>db_runners := update_where (\<lambda>x. rn_id x = i) f (db_runners d)\<rparr>)) = (Inr y, db')"
      using assms by (simp only: update_runner_def Let_def st prod.case)
    then show ?thesis using that by (auto split: if_splits option.splits)
  qed
  show "\<exists>x\<in>set (db_runners db). rn_id x = i \<and> y = f x" using find_id [OF x(1)] x(2) by blast
  show "db_runners db' = update_where (\<lambda>x. rn_id x = i) f (db_runners db)" "db_machine db' = db_machine db"
    using x(3) d by simp_all
qed

lemma update_where_cases:
  "r \<in> set (update_where P f xs) \<Longrightarrow> (\<exists>x\<in>set xs. P x \<and> r = f x) \<or> r \<in> set xs \<and> \<not> P r"
  by (auto simp: update_where_def)

text \<open>Once retired, a runner stays so, whatever it reports.\<close>

lemma retired_stays:
  assumes "retire_runner t i why db = (Inr x, db1)" "record_heartbeat t' i hb db1 = (Inr y, db2)"
  shows "rn_retired_at y \<noteq> None" "\<forall>r\<in>set (db_runners db2). rn_id r = i \<longrightarrow> rn_retired_at r \<noteq> None"
    and "db_machine db2 = db_machine db"
proof -
  note r = update_runner_found [OF assms(1) [unfolded retire_runner_def]]
  note h = update_runner_found [OF assms(2) [unfolded record_heartbeat_def Let_def]]
  have f: "rn_retired_at (retire t why r) \<noteq> None" for r by (cases "rn_retired_at r") (simp_all add: retire_def)
  have g: "rn_retired_at (apply_heartbeat t' b r) = rn_retired_at r" "rn_id (apply_heartbeat t' b r) = rn_id r" for b r
    by (simp_all add: apply_heartbeat_def)
  have 1: "rn_retired_at r \<noteq> None" if "r \<in> set (db_runners db1)" "rn_id r = i" for r
    using update_where_cases [OF that(1) [unfolded r(2)]] f that(2) by (elim disjE bexE conjE) simp_all
  show "rn_retired_at y \<noteq> None" using h(1) 1 g by metis
  show "\<forall>r\<in>set (db_runners db2). rn_id r = i \<longrightarrow> rn_retired_at r \<noteq> None"
  proof (intro ballI impI)
    fix z assume z: "z \<in> set (db_runners db2)" "rn_id z = i"
    from update_where_cases [OF z(1) [unfolded h(2)]] show "rn_retired_at z \<noteq> None"
    proof (elim disjE bexE conjE)
      fix v assume "v \<in> set (db_runners db1)" "rn_id v = i" "z = apply_heartbeat t' (if hb_status hb = '''' then hb\<lparr>hb_status := ''online''\<rparr> else hb) v"
      then show ?thesis using 1 g(1) by simp
    qed (use z(2) in simp)
  qed
  show "db_machine db2 = db_machine db" using h(3) r(3) by simp
qed

text \<open>
  The second ephemeral run of a machine is hidden from its operators: when the first has enrolled the
  machine and, at its end, has been retired, the next run enrols with the stored credential, without a
  request, as the same runner; its credential is accepted and its heartbeats are recorded, but the runner
  stays retired, and is not among those that the fleet shows unless retired ones are asked for.
\<close>

theorem later_ephemeral_runs_hidden:
  assumes "enroll plane mf getenv now opts d w = (Inr (Some n), d1, w1)" "nr_enrolled n"
    and "dk_faults d = []" "trim_space (getenv machine_env_var) = ''''"
    and "retire_runner t (nr_runner n) why db = (Inr x, db1)"
    and "record_heartbeat t' (nr_runner n) hb db1 = (Inr y, db2)"
    and "list_runners lo db2 = (Inr rows, db3)" "\<not> lr_include_retired lo"
  shows "(\<exists>n' d2. enroll plane mf getenv later (opts\<lparr>eo_runner := other, eo_token := token\<rparr>) d1 w2 = (Inr (Some n'), d2, w2)
        \<and> nr_runner n' = nr_runner n \<and> nr_client n' = nr_client n)
    \<and> db_machine db2 = db_machine db \<and> retired y \<and> (\<forall>r\<in>set rows. rn_id r \<noteq> nr_runner n)"
proof -
  note r = retired_stays [OF assms(5,6)]
  have "set rows \<subseteq> {r \<in> set (db_runners db2). rn_retired_at r = None}"
    using assms(7,8)
    by (auto simp: list_runners_def Let_def limit_to_def newest_first_def dest!: in_set_takeD stmtD split: prod.splits if_splits)
  then have "\<forall>r\<in>set rows. rn_id r \<noteq> nr_runner n" using r(2) by blast
  moreover have "retired y" using r(1) by (simp add: retired_def)
  moreover obtain d2 where "enroll plane mf getenv later (opts\<lparr>eo_runner := other, eo_token := token\<rparr>) d1 w2
      = (Inr (Some (n\<lparr>nr_interval := 0, nr_enrolled := False\<rparr>)), d2, w2)"
    using second_runner_reuses_credential [OF assms(1-4)] by blast
  ultimately show ?thesis using r(3) by auto
qed

definition fleet_db :: db where
  "fleet_db = empty_db\<lparr>db_runners := [sample_runner, sample_runner\<lparr>rn_id := ''other''\<rparr>]\<rparr>"

definition quiet_heartbeat :: heartbeat where
  "quiet_heartbeat = \<lparr> hb_status = '''', hb_detail = '''', hb_cpu = 0, hb_memory = 0, hb_disk = 0,
     hb_runner_version = '''', hb_agent_version = '''' \<rparr>"

lemma fleet_reports:
  "case retire_runner 7 sample_id ''done'' fleet_db of
     (Inl e, db1) \<Rightarrow> False
   | (Inr x, db1) \<Rightarrow>
       (case record_heartbeat 8 sample_id quiet_heartbeat db1 of
          (Inl e, db2) \<Rightarrow> False
        | (Inr y, db2) \<Rightarrow>
            (case list_runners \<lparr> lr_scope = '''', lr_include_retired = False, lr_limit = 0 \<rparr> db2 of
               (Inl e, db3) \<Rightarrow> False
             | (Inr rows, db3) \<Rightarrow> length rows = 1))"
  by code_simp

theorem later_ephemeral_runs_hidden_witness:
  "\<exists>db1 x db2 y rows db3. retire_runner 7 sample_id ''done'' fleet_db = (Inr x, db1)
     \<and> record_heartbeat 8 sample_id quiet_heartbeat db1 = (Inr y, db2)
     \<and> list_runners \<lparr> lr_scope = '''', lr_include_retired = False, lr_limit = 0 \<rparr> db2 = (Inr rows, db3)
     \<and> length rows = 1 \<and> retired y \<and> (\<forall>r\<in>set rows. rn_id r \<noteq> sample_id)"
proof -
  obtain s1 d1 n where e: "enroll (server_plane sample_config) sample_facts (\<lambda>_. '''') 9 first_options empty_disk
       (sample_server one_use_db, [sample_env, sample_env]) = (Inr (Some n), d1, (s1, [sample_env]))"
      "nr_enrolled n" "nr_runner n = sample_id" using sample_enrolled by blast
  have q: "dk_faults empty_disk = []" "trim_space ((\<lambda>_. '''') machine_env_var) = ''''"
    by (simp_all add: empty_disk_def trim_space_def trim_left_def trim_right_def)
  let ?lo = "\<lparr> lr_scope = '''', lr_include_retired = False, lr_limit = 0 \<rparr>"
  obtain x db1 y db2 rows db3 where 1: "retire_runner 7 sample_id ''done'' fleet_db = (Inr x, db1)"
      and 2: "record_heartbeat 8 sample_id quiet_heartbeat db1 = (Inr y, db2)"
      and 3: "list_runners ?lo db2 = (Inr rows, db3)" "length rows = 1"
    using fleet_reports by (auto split: prod.splits sum.splits)
  show ?thesis
    using later_ephemeral_runs_hidden [OF e(1,2) q 1 [folded e(3)] 2 [folded e(3)] 3(1)] 1 2 3 e(3) by auto
qed

end
