(* ===== verification/Go_Runes.thy ===== *)
theory Go_Runes
  imports Go_Strings
begin

text \<open>
  Strings as Go sees them when it ranges over runes: UTF-8, in which a byte that begins no valid encoding is
  the replacement character, and UTF-16. A rune comes with the bytes that it was read from.
\<close>

section \<open>UTF-8\<close>

definition code :: "char \<Rightarrow> nat" where "code c = of_char c"

definition bad_rune :: nat where "bad_rune = 0xFFFD"

definition follows :: "nat \<Rightarrow> nat \<Rightarrow> char \<Rightarrow> bool" where
  "follows lo hi c \<longleftrightarrow> lo \<le> code c \<and> code c \<le> hi"

definition low_six :: "char \<Rightarrow> nat" where "low_six c = code c - 0x80"

text \<open>\<open>utf8.DecodeRune\<close>: the rune and the width of the first of the bytes.\<close>

definition rune_at :: "char \<Rightarrow> string \<Rightarrow> nat \<times> nat" where
  "rune_at b rest =
     (let c = code b
      in if c < 0x80 then (c, 1)
         else if 0xC2 \<le> c \<and> c \<le> 0xDF then
           (case rest of
              b1 # _ \<Rightarrow> if follows 0x80 0xBF b1 then ((c - 0xC0) * 64 + low_six b1, 2) else (bad_rune, 1)
            | _ \<Rightarrow> (bad_rune, 1))
         else if 0xE0 \<le> c \<and> c \<le> 0xEF then
           (case rest of
              b1 # b2 # _ \<Rightarrow>
                if follows (if c = 0xE0 then 0xA0 else 0x80) (if c = 0xED then 0x9F else 0xBF) b1 \<and> follows 0x80 0xBF b2
                then (((c - 0xE0) * 64 + low_six b1) * 64 + low_six b2, 3) else (bad_rune, 1)
            | _ \<Rightarrow> (bad_rune, 1))
         else if 0xF0 \<le> c \<and> c \<le> 0xF4 then
           (case rest of
              b1 # b2 # b3 # _ \<Rightarrow>
                if follows (if c = 0xF0 then 0x90 else 0x80) (if c = 0xF4 then 0x8F else 0xBF) b1
                  \<and> follows 0x80 0xBF b2 \<and> follows 0x80 0xBF b3
                then ((((c - 0xF0) * 64 + low_six b1) * 64 + low_six b2) * 64 + low_six b3, 4) else (bad_rune, 1)
            | _ \<Rightarrow> (bad_rune, 1))
         else (bad_rune, 1))"

lemma rune_width: "rune_at b rest = (r, w) \<Longrightarrow> 1 \<le> w \<and> w \<le> Suc (length rest)"
  by (auto simp: rune_at_def Let_def split: if_splits list.splits)

function runes :: "string \<Rightarrow> (nat \<times> string) list" where
  "runes [] = []"
| "runes (b # rest) = (let (r, w) = rune_at b rest in (r, take w (b # rest)) # runes (drop w (b # rest)))"
  by pat_completeness auto
termination
  by (relation "measure length") (auto dest!: rune_width [OF sym])

declare runes.simps(2) [simp del]

text \<open>The bytes are all there, in order.\<close>

lemma runes_bytes: "concat (map snd (runes s)) = s"
proof (induction s rule: runes.induct)
  case (2 b rest)
  obtain r w where w: "rune_at b rest = (r, w)" by fastforce
  show ?case using 2 [OF w [symmetric] refl] by (simp add: runes.simps(2) w)
qed simp

lemma runes_ascii: "code b < 0x80 \<Longrightarrow> runes (b # rest) = (code b, [b]) # runes rest"
  by (simp add: runes.simps(2) rune_at_def)

text \<open>What a rune and its bytes look like: one small byte, or bytes that are all large.\<close>

definition rune_ok :: "nat \<times> string \<Rightarrow> bool" where
  "rune_ok p \<longleftrightarrow> (case p of (r, raw) \<Rightarrow>
     (\<exists>b. raw = [b] \<and> code b < 0x80 \<and> r = code b) \<or> (0x80 \<le> r \<and> raw \<noteq> [] \<and> (\<forall>b\<in>set raw. 0x80 \<le> code b)))"

lemma rune_at_ok: "rune_at b rest = (r, w) \<Longrightarrow> rune_ok (r, take w (b # rest))"
  by (auto simp: rune_ok_def rune_at_def Let_def bad_rune_def follows_def low_six_def
      split: if_splits list.splits)

lemma runes_ok: "\<forall>p\<in>set (runes s). rune_ok p"
proof (induction s rule: runes.induct)
  case (2 b rest)
  obtain r w where w: "rune_at b rest = (r, w)" by fastforce
  show ?case using 2 [OF w [symmetric] refl] rune_at_ok [OF w] by (simp add: runes.simps(2) w)
qed simp

text \<open>A code point: no surrogate, not too large.\<close>

definition code_point :: "nat \<Rightarrow> bool" where
  "code_point r \<longleftrightarrow> r \<le> 0xD7FF \<or> 0xE000 \<le> r \<and> r \<le> 0x10FFFF"

lemma four_bytes:
  assumes "240 \<le> c" "c \<le> 244" "c \<noteq> 244" "c \<noteq> 240" "128 \<le> x" "x \<le> 191" "128 \<le> y" "y \<le> 191" "128 \<le> z" "z \<le> (191 :: nat)"
  shows "57344 \<le> (((c - 240) * 64 + x - 128) * 64 + y - 128) * 64 + z - 128"
    and "(((c - 240) * 64 + x - 128) * 64 + y - 128) * 64 + z - 128 \<le> 1114111"
proof -
  have "c = 241 \<or> c = 242 \<or> c = 243" using assms(1-4) by linarith
  moreover obtain a b d where "x = 128 + a" "y = 128 + b" "z = 128 + d" "a \<le> 63" "b \<le> 63" "d \<le> 63"
  proof
    show "x = 128 + (x - 128)" "y = 128 + (y - 128)" "z = 128 + (z - 128)" "x - 128 \<le> 63" "y - 128 \<le> 63" "z - 128 \<le> 63"
      using assms(5-10) by simp_all
  qed
  ultimately show "57344 \<le> (((c - 240) * 64 + x - 128) * 64 + y - 128) * 64 + z - 128"
    "(((c - 240) * 64 + x - 128) * 64 + y - 128) * 64 + z - 128 \<le> 1114111" by auto
qed

lemma rune_at_point: "rune_at b rest = (r, w) \<Longrightarrow> code_point r"
  by (auto simp: code_point_def rune_at_def Let_def bad_rune_def follows_def low_six_def four_bytes
      split: if_splits list.splits)

lemma runes_points: "\<forall>(r, raw)\<in>set (runes s). code_point r"
proof (induction s rule: runes.induct)
  case (2 b rest)
  obtain r w where w: "rune_at b rest = (r, w)" by fastforce
  show ?case using 2 [OF w [symmetric] refl] rune_at_point [OF w] by (simp add: runes.simps(2) w)
qed simp

section \<open>UTF-16\<close>

text \<open>\<open>utf16.Encode\<close>: a unit, or a pair of surrogates.\<close>

definition utf16_units :: "nat \<Rightarrow> nat list" where
  "utf16_units r =
     (if r < 0xD800 \<or> 0xE000 \<le> r \<and> r < 0x10000 then [r]
      else if 0x10000 \<le> r \<and> r \<le> 0x10FFFF
      then [0xD800 + (r - 0x10000) div 0x400, 0xDC00 + (r - 0x10000) mod 0x400]
      else [bad_rune])"

text \<open>How the units are read again.\<close>

fun utf16_read :: "nat list \<Rightarrow> nat list" where
  "utf16_read (u # v # us) =
     (if 0xD800 \<le> u \<and> u < 0xDC00 \<and> 0xDC00 \<le> v \<and> v < 0xE000
      then (0x10000 + (u - 0xD800) * 0x400 + (v - 0xDC00)) # utf16_read us
      else (if 0xD800 \<le> u \<and> u < 0xE000 then bad_rune else u) # utf16_read (v # us))"
| "utf16_read [u] = [if 0xD800 \<le> u \<and> u < 0xE000 then bad_rune else u]"
| "utf16_read [] = []"

lemma utf16_read_units: "code_point r \<Longrightarrow> utf16_read (utf16_units r @ us) = r # utf16_read us"
proof -
  assume r: "code_point r"
  show ?thesis
  proof (cases "r < 0x10000")
    case True
    then have "utf16_units r = [r]" "\<not> (0xD800 \<le> r \<and> r < 0xE000)" using r by (auto simp: utf16_units_def code_point_def)
    then show ?thesis by (cases us) auto
  next
    case False
    then have u: "utf16_units r = [0xD800 + (r - 0x10000) div 0x400, 0xDC00 + (r - 0x10000) mod 0x400]"
      using r by (auto simp: utf16_units_def code_point_def)
    have "r - 0x10000 < 0x100000" using r False by (auto simp: code_point_def)
    then have "(r - 0x10000) div 0x400 < 0x400" "(r - 0x10000) mod 0x400 < 0x400"
      by (simp_all add: less_mult_imp_div_less)
    moreover have "0x10000 + (r - 0x10000) div 0x400 * 0x400 + (r - 0x10000) mod 0x400 = r"
      using False div_mult_mod_eq [of "r - 0x10000" "0x400"] by simp
    ultimately show ?thesis unfolding u by simp
  qed
qed

lemma utf16_roundtrip: "\<forall>r\<in>set rs. code_point r \<Longrightarrow> utf16_read (concat (map utf16_units rs)) = rs"
  by (induction rs) (simp_all add: utf16_read_units)

lemma utf16_units_small: "code_point r \<Longrightarrow> u \<in> set (utf16_units r) \<Longrightarrow> u < 0x10000"
  by (auto simp: utf16_units_def code_point_def bad_rune_def less_mult_imp_div_less split: if_splits)

end
