(* ===== verification/Service_Files.thy ===== *)
theory Service_Files
  imports Ephemeral Go_Runes
begin

text \<open>
  The commands that run an agent and those that write the file with which the machine's service manager does:
  \<open>internal/cli/agent.go\<close>, \<open>launchd.go\<close>, \<open>schtasks.go\<close>, the unit of \<open>ephemeral.go\<close> and
  \<open>cmd/runnerly-agent/main.go\<close>. The templates are functions from their values to lines of text. The
  instructions that are printed beside them are left out.
\<close>

section \<open>Escaping\<close>

definition in_char_range :: "nat \<Rightarrow> bool" where
  "in_char_range r \<longleftrightarrow> r = 9 \<or> r = 10 \<or> r = 13 \<or> 0x20 \<le> r \<and> r \<le> 0xD7FF \<or> 0xE000 \<le> r \<and> r \<le> 0xFFFD
     \<or> 0x10000 \<le> r \<and> r \<le> 0x10FFFF"

definition replacement :: string where "replacement = [CHR 0xEF, CHR 0xBF, CHR 0xBD]"

text \<open>\<open>xml.EscapeText\<close>, one rune with its bytes.\<close>

definition escape_rune :: "nat \<times> string \<Rightarrow> string" where
  "escape_rune p =
     (case p of (r, raw) \<Rightarrow>
        if r = 34 then ''&#34;'' else if r = 39 then ''&#39;'' else if r = 38 then ''&amp;''
        else if r = 60 then ''&lt;'' else if r = 62 then ''&gt;'' else if r = 9 then ''&#x9;''
        else if r = 10 then ''&#xA;'' else if r = 13 then ''&#xD;''
        else if \<not> in_char_range r \<or> r = bad_rune \<and> length raw = 1 then replacement
        else raw)"

definition xml_escape :: "string \<Rightarrow> string" where
  "xml_escape s = concat (map escape_rune (runes s))"

text \<open>\<open>utf16LE\<close>: a byte order mark, then each unit, the low byte first.\<close>

definition utf16_le :: "string \<Rightarrow> nat list" where
  "utf16_le s = [0xFF, 0xFE] @ concat (map (\<lambda>u. [u mod 256, u div 256]) (concat (map (utf16_units \<circ> fst) (runes s))))"

definition quote_argument :: "string \<Rightarrow> string" where
  "quote_argument s =
     (if s = '''' then s
      else if \<not> list_ex (\<lambda>c. c = CHR '' '' \<or> c = CHR 0x09) s then s
      else [CHR 0x22] @ s @ [CHR 0x22])"

section \<open>The templates\<close>

text \<open>A line of a template is text, or a value or a number between two pieces of it.\<close>

datatype line = Text string | Value string string string | Number string int string

fun render_line :: "line \<Rightarrow> string" where
  "render_line (Text s) = s"
| "render_line (Value a x b) = a @ xml_escape x @ b"
| "render_line (Number a k b) = a @ itoa k @ b"

definition tabs :: "nat \<Rightarrow> string" where "tabs n = replicate n (CHR 0x09)"

record launchd_values =
  lv_label :: string
  lv_runner :: string
  lv_scope :: string
  lv_binary :: string
  lv_config :: string
  lv_dir :: string
  lv_log :: string
  lv_path :: string
  lv_restart :: int
  lv_stop :: int

definition agent_plist :: "launchd_values \<Rightarrow> line list" where
  "agent_plist v =
     [
       Text ''<?xml version=\"1.0\" encoding=\"UTF-8\"?>'',
       Text ''<!DOCTYPE plist PUBLIC \"-//Apple//DTD PLIST 1.0//EN\" \"http://www.apple.com/DTDs/PropertyList-1.0.dtd\">'',
       Text ''<plist version=\"1.0\">'',
       Text ''<dict>'',
       Text (tabs 1 @ ''<key>Label</key>''),
       Value (tabs 1 @ ''<string>'') (lv_label v) ''</string>'',
       Text '''',
       Text (tabs 1 @ ''<key>ProgramArguments</key>''),
       Text (tabs 1 @ ''<array>''),
       Value (tabs 2 @ ''<string>'') (lv_binary v) ''</string>'',
       Text (tabs 2 @ ''<string>--name</string>''),
       Value (tabs 2 @ ''<string>'') (lv_runner v) ''</string>'']
     @ (if lv_config v = '''' then [] else [
       Text (tabs 2 @ ''<string>--config</string>''),
       Value (tabs 2 @ ''<string>'') (lv_config v) ''</string>''])
     @ [
       Text (tabs 1 @ ''</array>''),
       Text '''',
       Text (tabs 1 @ ''<key>WorkingDirectory</key>''),
       Value (tabs 1 @ ''<string>'') (lv_dir v) ''</string>'',
       Text '''',
       Text (tabs 1 @ ''<!-- launchd restarts the agent; the agent restarts the runner. Both are''),
       Text (tabs 1 @ ''     needed: the agent handles a crashing runner, this handles a crashing''),
       Text (tabs 1 @ ''     agent. ThrottleInterval is launchd'' @ [quote_char] @ ''s RestartSec. -->''),
       Text (tabs 1 @ ''<key>RunAtLoad</key>''),
       Text (tabs 1 @ ''<true/>''),
       Text (tabs 1 @ ''<key>KeepAlive</key>''),
       Text (tabs 1 @ ''<true/>''),
       Text (tabs 1 @ ''<key>ThrottleInterval</key>''),
       Text (tabs 1 @ ''<integer>5</integer>''),
       Text '''',
       Text (tabs 1 @ ''<!-- The runner finishes the job it is on when asked to stop. launchd''),
       Text (tabs 1 @ ''     sends SIGTERM and then SIGKILL after this many seconds; the default''),
       Text (tabs 1 @ ''     is twenty, which would throw away a build. -->''),
       Text (tabs 1 @ ''<key>ExitTimeOut</key>''),
       Number (tabs 1 @ ''<integer>'') (lv_stop v) ''</integer>'',
       Text '''',
       Text (tabs 1 @ ''<!-- A build is not a background task: Standard lets macOS throttle its''),
       Text (tabs 1 @ ''     I/O and CPU, which shows up as a runner that is mysteriously slower''),
       Text (tabs 1 @ ''     than the same commands typed into a terminal. -->''),
       Text (tabs 1 @ ''<key>ProcessType</key>''),
       Text (tabs 1 @ ''<string>Interactive</string>''),
       Text '''',
       Text (tabs 1 @ ''<!-- Its own security session, so the login keychain and code signing''),
       Text (tabs 1 @ ''     work. This is what a LaunchDaemon cannot have. -->''),
       Text (tabs 1 @ ''<key>SessionCreate</key>''),
       Text (tabs 1 @ ''<true/>''),
       Text '''',
       Text (tabs 1 @ ''<!-- There is no journal on macOS, so the logs go to a file. Nothing''),
       Text (tabs 1 @ ''     rotates it; see the documentation. -->''),
       Text (tabs 1 @ ''<key>StandardOutPath</key>''),
       Value (tabs 1 @ ''<string>'') (lv_log v) ''</string>'',
       Text (tabs 1 @ ''<key>StandardErrorPath</key>''),
       Value (tabs 1 @ ''<string>'') (lv_log v) ''</string>'',
       Text '''',
       Text (tabs 1 @ ''<key>EnvironmentVariables</key>''),
       Text (tabs 1 @ ''<dict>''),
       Text (tabs 2 @ ''<key>PATH</key>''),
       Value (tabs 2 @ ''<string>'') (lv_path v) ''</string>'',
       Text (tabs 1 @ ''</dict>''),
       Text ''</dict>'',
       Text ''</plist>'']"

definition ephemeral_plist :: "launchd_values \<Rightarrow> line list" where
  "ephemeral_plist v =
     [
       Text ''<?xml version=\"1.0\" encoding=\"UTF-8\"?>'',
       Text ''<!DOCTYPE plist PUBLIC \"-//Apple//DTD PLIST 1.0//EN\" \"http://www.apple.com/DTDs/PropertyList-1.0.dtd\">'',
       Text ''<plist version=\"1.0\">'',
       Text ''<dict>'',
       Text (tabs 1 @ ''<key>Label</key>''),
       Value (tabs 1 @ ''<string>'') (lv_label v) ''</string>'',
       Text '''',
       Text (tabs 1 @ ''<key>ProgramArguments</key>''),
       Text (tabs 1 @ ''<array>''),
       Value (tabs 2 @ ''<string>'') (lv_binary v) ''</string>'',
       Text (tabs 2 @ ''<string>ephemeral</string>''),
       Text (tabs 2 @ ''<string>run</string>''),
       Text (tabs 2 @ ''<string>--repo</string>''),
       Value (tabs 2 @ ''<string>'') (lv_scope v) ''</string>'']
     @ (if lv_config v = '''' then [] else [
       Text (tabs 2 @ ''<string>--config</string>''),
       Value (tabs 2 @ ''<string>'') (lv_config v) ''</string>''])
     @ [
       Text (tabs 1 @ ''</array>''),
       Text '''',
       Text (tabs 1 @ ''<!-- One job, then another runner. KeepAlive restarts it however it''),
       Text (tabs 1 @ ''     exited, which is the point: finishing a job successfully is the''),
       Text (tabs 1 @ ''     normal way this command ends. -->''),
       Text (tabs 1 @ ''<key>RunAtLoad</key>''),
       Text (tabs 1 @ ''<true/>''),
       Text (tabs 1 @ ''<key>KeepAlive</key>''),
       Text (tabs 1 @ ''<true/>''),
       Text (tabs 1 @ ''<!-- A pause, so a runner that cannot register does not spin against''),
       Text (tabs 1 @ ''     GitHub'' @ [quote_char] @ ''s rate limit. -->''),
       Text (tabs 1 @ ''<key>ThrottleInterval</key>''),
       Number (tabs 1 @ ''<integer>'') (lv_restart v) ''</integer>'',
       Text '''',
       Text (tabs 1 @ ''<key>ExitTimeOut</key>''),
       Number (tabs 1 @ ''<integer>'') (lv_stop v) ''</integer>'',
       Text (tabs 1 @ ''<key>ProcessType</key>''),
       Text (tabs 1 @ ''<string>Interactive</string>''),
       Text (tabs 1 @ ''<key>SessionCreate</key>''),
       Text (tabs 1 @ ''<true/>''),
       Text '''',
       Text (tabs 1 @ ''<key>StandardOutPath</key>''),
       Value (tabs 1 @ ''<string>'') (lv_log v) ''</string>'',
       Text (tabs 1 @ ''<key>StandardErrorPath</key>''),
       Value (tabs 1 @ ''<string>'') (lv_log v) ''</string>'',
       Text '''',
       Text (tabs 1 @ ''<key>EnvironmentVariables</key>''),
       Text (tabs 1 @ ''<dict>''),
       Text (tabs 2 @ ''<key>PATH</key>''),
       Value (tabs 2 @ ''<string>'') (lv_path v) ''</string>'',
       Text (tabs 1 @ ''</dict>''),
       Text ''</dict>'',
       Text ''</plist>'']"

definition render_plist :: "(launchd_values \<Rightarrow> line list) \<Rightarrow> launchd_values \<Rightarrow> string" where
  "render_plist template v = text_lines (map render_line (template v))"

record task_values =
  tv_name :: string
  tv_description :: string
  tv_binary :: string
  tv_arguments :: string
  tv_dir :: string

definition task_xml :: "task_values \<Rightarrow> line list" where
  "task_xml v =
     [
       Text ''<?xml version=\"1.0\" encoding=\"UTF-16\"?>'',
       Text ''<Task version=\"1.4\" xmlns=\"http://schemas.microsoft.com/windows/2004/02/mit/task\">'',
       Text ''  <RegistrationInfo>'',
       Value ''    <Description>'' (tv_description v) ''</Description>'',
       Text ''    <Author>Runnerly</Author>'',
       Value (''    <URI>'' @ [CHR 0x5C]) (tv_name v) ''</URI>'',
       Text ''  </RegistrationInfo>'',
       Text ''  <Triggers>'',
       Text ''    <BootTrigger>'',
       Text ''      <Enabled>true</Enabled>'',
       Text ''    </BootTrigger>'',
       Text ''  </Triggers>'',
       Text ''  <Principals>'',
       Text ''    <Principal id=\"Author\">'',
       Text ''      <LogonType>Password</LogonType>'',
       Text ''      <RunLevel>LeastPrivilege</RunLevel>'',
       Text ''    </Principal>'',
       Text ''  </Principals>'',
       Text ''  <Settings>'',
       Text ''    <MultipleInstancesPolicy>IgnoreNew</MultipleInstancesPolicy>'',
       Text ''    <DisallowStartIfOnBatteries>false</DisallowStartIfOnBatteries>'',
       Text ''    <StopIfGoingOnBatteries>false</StopIfGoingOnBatteries>'',
       Text ''    <AllowHardTerminate>true</AllowHardTerminate>'',
       Text ''    <StartWhenAvailable>true</StartWhenAvailable>'',
       Text ''    <RunOnlyIfNetworkAvailable>false</RunOnlyIfNetworkAvailable>'',
       Text ''    <IdleSettings>'',
       Text ''      <StopOnIdleEnd>false</StopOnIdleEnd>'',
       Text ''      <RestartOnIdle>false</RestartOnIdle>'',
       Text ''    </IdleSettings>'',
       Text ''    <AllowStartOnDemand>true</AllowStartOnDemand>'',
       Text ''    <Enabled>true</Enabled>'',
       Text ''    <Hidden>false</Hidden>'',
       Text ''    <RunOnlyIfIdle>false</RunOnlyIfIdle>'',
       Text ''    <WakeToRun>false</WakeToRun>'',
       Text ''    <ExecutionTimeLimit>PT0S</ExecutionTimeLimit>'',
       Text ''    <Priority>5</Priority>'',
       Text ''    <RestartOnFailure>'',
       Text ''      <Interval>PT1M</Interval>'',
       Text ''      <Count>999</Count>'',
       Text ''    </RestartOnFailure>'',
       Text ''  </Settings>'',
       Text ''  <Actions Context=\"Author\">'',
       Text ''    <Exec>'',
       Value ''      <Command>'' (tv_binary v) ''</Command>'',
       Value ''      <Arguments>'' (tv_arguments v) ''</Arguments>'',
       Value ''      <WorkingDirectory>'' (tv_dir v) ''</WorkingDirectory>'',
       Text ''    </Exec>'',
       Text ''  </Actions>'',
       Text ''</Task>'']"

definition render_task :: "task_values \<Rightarrow> string" where
  "render_task v = text_lines (map render_line (task_xml v))"

record unit_values =
  sv_runner :: string
  sv_scope :: string
  sv_user :: string
  sv_group :: string
  sv_dir :: string
  sv_logs :: string
  sv_binary :: string
  sv_config :: string
  sv_restart :: int
  sv_stop :: int

definition config_flag :: "string \<Rightarrow> string" where
  "config_flag path = (if path = '''' then '''' else '' --config '' @ path)"

definition systemd_unit :: "unit_values \<Rightarrow> string list" where
  "systemd_unit v =
     [
       ''[Unit]'',
       ''Description=Runnerly agent for the '' @ sv_runner v @ '' GitHub Actions runner'',
       ''Documentation=https://github.com/bablilayoub/runnerly'',
       ''After=network-online.target'',
       ''Wants=network-online.target'',
       '''',
       ''[Service]'',
       ''Type=simple'',
       ''User='' @ sv_user v,
       ''Group='' @ sv_group v,
       ''WorkingDirectory='' @ sv_dir v,
       ''ExecStart='' @ sv_binary v @ '' --name '' @ sv_runner v @ config_flag (sv_config v),
       '''',
       ''# The runner finishes the job it is on when asked to stop, so give it room.'',
       ''KillSignal=SIGTERM'',
       ''TimeoutStopSec='' @ itoa (sv_stop v),
       '''',
       ''# systemd restarts the agent itself; the agent restarts the runner. Both are'',
       ''# needed: the agent handles a crashing runner, this handles a crashing agent.'',
       ''Restart=always'',
       ''RestartSec=5'',
       '''',
       ''NoNewPrivileges=true'',
       ''PrivateTmp=true'',
       ''ProtectSystem=full'',
       ''ProtectHome=read-only'',
       ''ReadWritePaths='' @ sv_dir v,
       '''',
       ''[Install]'',
       ''WantedBy=multi-user.target'']"

definition ephemeral_unit :: "unit_values \<Rightarrow> string list" where
  "ephemeral_unit v =
     [
       ''[Unit]'',
       ''Description=Runnerly ephemeral runner for '' @ sv_scope v,
       ''Documentation=https://github.com/bablilayoub/runnerly'',
       ''After=network-online.target'',
       ''Wants=network-online.target'',
       '''',
       ''[Service]'',
       ''Type=oneshot'',
       ''User='' @ sv_user v,
       ''Group='' @ sv_group v,
       ''ExecStart='' @ sv_binary v @ '' ephemeral run --repo '' @ sv_scope v @ config_flag (sv_config v),
       '''',
       ''# One job, then start another runner. This is the loop: the command returns'',
       ''# when its job is done, and systemd brings up the next one.'',
       ''Restart=always'',
       ''# A pause, so a runner that cannot register does not spin against GitHub'' @ [quote_char] @ ''s'',
       ''# rate limit.'',
       ''RestartSec='' @ itoa (sv_restart v),
       '''',
       ''# The runner finishes the job it is on when asked to stop.'',
       ''KillSignal=SIGTERM'',
       ''TimeoutStopSec='' @ itoa (sv_stop v),
       '''',
       ''NoNewPrivileges=true'',
       ''PrivateTmp=true'',
       ''ProtectSystem=full'',
       ''ProtectHome=read-only'',
       ''ReadWritePaths='' @ sv_dir v @ '' '' @ sv_logs v,
       '''',
       ''[Install]'',
       ''WantedBy=multi-user.target'']"

section \<open>The commands\<close>

definition service_generator :: "string \<Rightarrow> string" where
  "service_generator goos =
     (if goos = ''darwin'' then ''launchd'' else if goos = ''windows'' then ''schtasks'' else ''systemd'')"

definition resolve_installed_runner ::
  "('y, 'w) cli \<Rightarrow> string option \<Rightarrow> ('y, 'w) cli_state \<Rightarrow> (cli_error + installed) \<times> ('y, 'w) cli_state"
where
  "resolve_installed_runner c arg m =
     (case (case arg of
              Some name \<Rightarrow> get_installed (ci_walk c) (state_path c) name (ms_runners m)
            | None \<Rightarrow> only_installed (ci_walk c) (state_path c) (ms_runners m)) of
        (Inl e, d) \<Rightarrow> (Inl (StateFailed e), m\<lparr>ms_runners := d\<rparr>)
      | (Inr r, d) \<Rightarrow> (Inr r, m\<lparr>ms_runners := d\<rparr>))"

definition agent_binary_path :: "('y, 'w) cli \<Rightarrow> binary_env \<Rightarrow> string" where
  "agent_binary_path c be =
     (let name = ''runnerly-agent'';
          beside = (case be_self be of
                      None \<Rightarrow> None
                    | Some self \<Rightarrow>
                        let candidate = path_join [path_dir self, name]
                        in if be_exists be candidate
                           then Some (case ci_abs c candidate of Some a \<Rightarrow> a | None \<Rightarrow> candidate) else None)
      in case beside of
           Some b \<Rightarrow> b
         | None \<Rightarrow> (case be_lookup be name of Some found \<Rightarrow> found | None \<Rightarrow> ''/usr/local/bin/'' @ name))"

text \<open>\<open>agent status\<close>: every runner recorded, in the order of the names, and whether it looks runnable.\<close>

fun preflight_each :: "installed list \<Rightarrow> fsys \<Rightarrow> (installed \<times> (preflight_error + string)) list \<times> fsys" where
  "preflight_each [] fs = ([], fs)"
| "preflight_each (r # rs) fs =
     (let (p, fs) = preflight r fs; (ps, fs) = preflight_each rs fs in ((r, p) # ps, fs))"

definition agent_status ::
  "('y, 'w) cli \<Rightarrow> ('y, 'w) cli_state \<Rightarrow> (cli_error + (installed \<times> (preflight_error + string)) list) \<times> ('y, 'w) cli_state"
where
  "agent_status c m =
     (case list_installed (ci_walk c) (state_path c) (ms_runners m) of
        (Inl e, d) \<Rightarrow> (Inl (StateFailed e), m\<lparr>ms_runners := d\<rparr>)
      | (Inr rs, d) \<Rightarrow> (let (ps, fs) = preflight_each rs (ms_fs m) in (Inr ps, m\<lparr>ms_runners := d, ms_fs := fs\<rparr>)))"

definition three_minutes :: int where "three_minutes = 180"

definition stop_seconds :: "int \<Rightarrow> duration \<Rightarrow> int" where
  "stop_seconds oob grace = (if 0 < grace then to_int64 oob (dur_seconds grace) else three_minutes)"

definition or_default :: "string \<Rightarrow> string \<Rightarrow> string" where
  "or_default value fallback = (if value = '''' then fallback else value)"

text \<open>The values of each file; \<open>None\<close> of a home directory is an error of finding it.\<close>

record service_flags =
  vf_user :: string
  vf_group :: string
  vf_binary :: string
  vf_log :: string
  vf_path :: string
  vf_task :: string
  vf_stop :: duration
  vf_restart :: int
  vf_repo :: string
  vf_org :: string
  vf_output :: string

definition launchd_domain :: string where "launchd_domain = ''dev.runnerly''"

definition launchd_path :: string where
  "launchd_path = ''/opt/homebrew/bin:/opt/homebrew/sbin:/usr/local/bin:/usr/bin:/bin:/usr/sbin:/sbin''"

definition launchd_log_file :: "process \<Rightarrow> string \<Rightarrow> string" where
  "launchd_log_file p name =
     (case ps_home p of
        None \<Rightarrow> path_join [''/tmp'', ''runnerly-'' @ name @ ''.log'']
      | Some home \<Rightarrow> path_join [home, ''Library'', ''Logs'', ''runnerly'', name @ ''.log''])"

definition agent_unit_values :: "int \<Rightarrow> ('y, 'w) cli \<Rightarrow> binary_env \<Rightarrow> service_flags \<Rightarrow> installed \<Rightarrow> unit_values" where
  "agent_unit_values oob c be f r =
     \<lparr> sv_runner = in_name r, sv_scope = '''', sv_user = vf_user f, sv_group = or_default (vf_group f) (vf_user f),
       sv_dir = in_dir r, sv_logs = '''', sv_binary = or_default (vf_binary f) (agent_binary_path c be),
       sv_config = ci_config c, sv_restart = 0, sv_stop = stop_seconds oob (vf_stop f) \<rparr>"

definition ephemeral_unit_values :: "('y, 'w) cli \<Rightarrow> binary_env \<Rightarrow> service_flags \<Rightarrow> config \<Rightarrow> scope \<Rightarrow> unit_values" where
  "ephemeral_unit_values c be f cfg target =
     \<lparr> sv_runner = '''', sv_scope = scope_string target, sv_user = vf_user f, sv_group = or_default (vf_group f) (vf_user f),
       sv_dir = runner_dir (ci_process c) cfg (ephemeral_prefix cfg (ci_hostname c) ''''),
       sv_logs = ephemeral_log_dir cfg (resolved_config_path c),
       sv_binary = or_default (vf_binary f) (binary_path be), sv_config = ci_config c, sv_restart = vf_restart f,
       sv_stop = three_minutes \<rparr>"

definition agent_plist_values :: "int \<Rightarrow> ('y, 'w) cli \<Rightarrow> binary_env \<Rightarrow> service_flags \<Rightarrow> installed \<Rightarrow> launchd_values" where
  "agent_plist_values oob c be f r =
     \<lparr> lv_label = launchd_domain @ ''.agent.'' @ in_name r, lv_runner = in_name r, lv_scope = '''',
       lv_binary = or_default (vf_binary f) (agent_binary_path c be), lv_config = ci_config c, lv_dir = in_dir r,
       lv_log = or_default (vf_log f) (launchd_log_file (ci_process c) (in_name r)),
       lv_path = or_default (vf_path f) launchd_path, lv_restart = 0, lv_stop = stop_seconds oob (vf_stop f) \<rparr>"

definition ephemeral_plist_values :: "('y, 'w) cli \<Rightarrow> binary_env \<Rightarrow> service_flags \<Rightarrow> config \<Rightarrow> scope \<Rightarrow> launchd_values" where
  "ephemeral_plist_values c be f cfg target =
     \<lparr> lv_label = launchd_domain @ ''.ephemeral'', lv_runner = '''', lv_scope = scope_string target,
       lv_binary = or_default (vf_binary f) (binary_path be), lv_config = ci_config c,
       lv_dir = runner_dir (ci_process c) cfg (ephemeral_prefix cfg (ci_hostname c) ''''),
       lv_log = or_default (vf_log f) (path_join [ephemeral_log_dir cfg (resolved_config_path c), ''launchd.log'']),
       lv_path = or_default (vf_path f) launchd_path, lv_restart = vf_restart f, lv_stop = three_minutes \<rparr>"

definition config_argument :: "string \<Rightarrow> string" where
  "config_argument path = (if path = '''' then '''' else '' --config '' @ quote_argument path)"

definition agent_task_values :: "('y, 'w) cli \<Rightarrow> binary_env \<Rightarrow> service_flags \<Rightarrow> installed \<Rightarrow> task_values" where
  "agent_task_values c be f r =
     \<lparr> tv_name = or_default (vf_task f) (''Runnerly'' @ [CHR 0x5C] @ ''runnerly-agent-'' @ in_name r),
       tv_description = ''Runnerly agent for the '' @ in_name r @ '' GitHub Actions runner'',
       tv_binary = or_default (vf_binary f) (agent_binary_path c be),
       tv_arguments = ''--name '' @ quote_argument (in_name r) @ config_argument (ci_config c), tv_dir = in_dir r \<rparr>"

definition ephemeral_task_values :: "('y, 'w) cli \<Rightarrow> binary_env \<Rightarrow> service_flags \<Rightarrow> config \<Rightarrow> scope \<Rightarrow> task_values" where
  "ephemeral_task_values c be f cfg target =
     \<lparr> tv_name = or_default (vf_task f) (''Runnerly'' @ [CHR 0x5C] @ ''runnerly-ephemeral''),
       tv_description = ''Runnerly one-job runner for '' @ scope_string target,
       tv_binary = or_default (vf_binary f) (binary_path be),
       tv_arguments = ''ephemeral run --repo '' @ quote_argument (scope_string target) @ config_argument (ci_config c),
       tv_dir = runner_dir (ci_process c) cfg (ephemeral_prefix cfg (ci_hostname c) '''') \<rparr>"

text \<open>The six commands are two, for a runner and for a scope, with a rendering of their own.\<close>

definition agent_service ::
  "('y, 'w) cli \<Rightarrow> string option \<Rightarrow> (installed \<Rightarrow> string) \<Rightarrow> ('y, 'w) cli_state \<Rightarrow> (cli_error + string) \<times> ('y, 'w) cli_state"
where
  "agent_service c arg render m =
     (case resolve_installed_runner c arg m of
        (Inl e, m) \<Rightarrow> (Inl e, m)
      | (Inr r, m) \<Rightarrow> (Inr (render r), m))"

definition ephemeral_service ::
  "('y, 'w) cli \<Rightarrow> service_flags \<Rightarrow> (config \<Rightarrow> scope \<Rightarrow> string) \<Rightarrow> ('y, 'w) cli_state \<Rightarrow> (cli_error + string) \<times> ('y, 'w) cli_state"
where
  "ephemeral_service c f render m =
     (case cli_config c m of
        (Inl e, m) \<Rightarrow> (Inl e, m)
      | (Inr cfg, m) \<Rightarrow>
          (case resolve_scope c (vf_repo f) (vf_org f) cfg '''' m of
             (Inl e, m) \<Rightarrow> (Inl e, m)
           | (Inr target, m) \<Rightarrow> (Inr (render cfg target), m)))"

definition agent_systemd where
  "agent_systemd oob c be arg f = agent_service c arg (\<lambda>r. text_lines (systemd_unit (agent_unit_values oob c be f r)))"

definition agent_launchd where
  "agent_launchd oob c be arg f = agent_service c arg (\<lambda>r. render_plist agent_plist (agent_plist_values oob c be f r))"

definition agent_schtasks where
  "agent_schtasks c be arg f = agent_service c arg (\<lambda>r. render_task (agent_task_values c be f r))"

definition ephemeral_systemd where
  "ephemeral_systemd c be f = ephemeral_service c f (\<lambda>cfg s. text_lines (ephemeral_unit (ephemeral_unit_values c be f cfg s)))"

definition ephemeral_launchd where
  "ephemeral_launchd c be f = ephemeral_service c f (\<lambda>cfg s. render_plist ephemeral_plist (ephemeral_plist_values c be f cfg s))"

definition ephemeral_schtasks where
  "ephemeral_schtasks c be f = ephemeral_service c f (\<lambda>cfg s. render_task (ephemeral_task_values c be f cfg s))"

text \<open>What \<open>--output\<close> makes the commands write: the unit and the plist as they are, the task in UTF-16.\<close>

definition emit_file :: "('y, 'w) cli \<Rightarrow> service_flags \<Rightarrow> string \<Rightarrow> 32 word \<Rightarrow> ('y, 'w) cli_state \<Rightarrow> cli_error option \<times> ('y, 'w) cli_state" where
  "emit_file c f bytes mode m =
     (if vf_output f = '''' then (None, m)
      else case ci_abs c (vf_output f) of
             None \<Rightarrow> (Some PathFailed, m)
           | Some p \<Rightarrow> (let (ok, fs) = os_write_file (dir_path p) bytes mode (ms_fs m)
                        in (if ok then None else Some PathFailed, m\<lparr>ms_fs := fs\<rparr>)))"

definition emit_task :: "('y, 'w) cli \<Rightarrow> service_flags \<Rightarrow> string \<Rightarrow> ('y, 'w) cli_state \<Rightarrow> cli_error option \<times> ('y, 'w) cli_state" where
  "emit_task c f rendered m = emit_file c f (map char_of (utf16_le rendered)) 0x180 m"

section \<open>Running an agent\<close>

text \<open>
  What a run ends with before an agent is started: an exit code, 2 for flags that make no logger and 1 for
  the rest; or the options the agent is started with.
\<close>

datatype agent_start = StartFailed int | StartWith agent_options

definition agent_options_for :: "installed \<Rightarrow> config \<Rightarrow> string \<Rightarrow> binary_env \<Rightarrow> agent_options" where
  "agent_options_for r cfg cpath be =
     (case configure_executor be cfg cpath False of (hooks, extra) \<Rightarrow> plain_options r hooks extra)"

text \<open>\<open>runnerly-agent\<close>: the configuration is read twice, for the executor and for the control plane.\<close>

definition agent_main ::
  "'p plane \<Rightarrow> machine_facts \<Rightarrow> binary_env \<Rightarrow> ('y, 'w) cli \<Rightarrow> string \<Rightarrow> string \<Rightarrow> string \<Rightarrow> ('y, 'w) cli_state \<Rightarrow> 'p
   \<Rightarrow> agent_start \<times> ('y, 'w) cli_state \<times> 'p"
where
  "agent_main plane mf be c name format level m w =
     (if new_logger format level = None then (StartFailed 2, m, w)
      else case resolve_installed_runner c (if name = '''' then None else Some name) m of
        (Inl e, m) \<Rightarrow> (StartFailed 1, m, w)
      | (Inr r, m) \<Rightarrow>
     (case cli_config c m of
        (Inl e, m) \<Rightarrow> (StartFailed 1, m, w)
      | (Inr cfg, m) \<Rightarrow>
     (case cli_config c m of
        (Inl e, m) \<Rightarrow> (StartFailed 1, m, w)
      | (Inr cfg2, m) \<Rightarrow>
     (case connect_control_plane plane mf c cfg2 r (ms_creds m) w of
        (Inl e, d, w) \<Rightarrow> (StartFailed 1, m\<lparr>ms_creds := d\<rparr>, w)
      | (Inr n, d, w) \<Rightarrow>
          (StartWith (with_reporting n (agent_options_for r cfg (resolved_config_path c) be)), m\<lparr>ms_creds := d\<rparr>, w)))))"

definition agent_exit :: "run_error option \<Rightarrow> int" where
  "agent_exit err = (if err = None then 0 else 1)"

text \<open>\<open>runnerly agent run\<close>: the same, in another order, and the logger is an error like the others.\<close>

definition agent_run_command ::
  "'p plane \<Rightarrow> machine_facts \<Rightarrow> binary_env \<Rightarrow> ('y, 'w) cli \<Rightarrow> string option \<Rightarrow> string \<Rightarrow> string \<Rightarrow> ('y, 'w) cli_state \<Rightarrow> 'p
   \<Rightarrow> agent_start \<times> ('y, 'w) cli_state \<times> 'p"
where
  "agent_run_command plane mf be c arg format level m w =
     (case resolve_installed_runner c arg m of
        (Inl e, m) \<Rightarrow> (StartFailed 1, m, w)
      | (Inr r, m) \<Rightarrow>
     (if new_logger format level = None then (StartFailed 1, m, w)
      else case cli_config c m of
        (Inl e, m) \<Rightarrow> (StartFailed 1, m, w)
      | (Inr cfg, m) \<Rightarrow>
     (case connect_control_plane plane mf c cfg r (ms_creds m) w of
        (Inl e, d, w) \<Rightarrow> (StartFailed 1, m\<lparr>ms_creds := d\<rparr>, w)
      | (Inr n, d, w) \<Rightarrow>
          (StartWith (with_reporting n (agent_options_for r cfg (resolved_config_path c) be)), m\<lparr>ms_creds := d\<rparr>, w))))"

end
