(* ===== verification/Service_Correct.thy ===== *)
theory Service_Correct
  imports Service_Files Github_Correct
begin

text \<open>
  What the service manager reads in the files that are generated is what was put in: the property lists of
  macOS, the tasks of Windows, with their encoding; and what a unit's command makes of the scope it is given.
\<close>

section \<open>Reading XML text\<close>

definition entities :: "(string \<times> char) list" where
  "entities = [(''&#34;'', CHR 0x22), (''&#39;'', quote_char), (''&amp;'', CHR ''&''), (''&lt;'', CHR ''<''), (''&gt;'', CHR ''>''),
     (''&#x9;'', CHR 0x09), (''&#xA;'', CHR 0x0A), (''&#xD;'', CHR 0x0D)]"

fun xml_unescape :: "string \<Rightarrow> string" where
  "xml_unescape [] = []"
| "xml_unescape (c # s) =
     (case find (\<lambda>(e, x). prefix e (c # s)) entities of
        None \<Rightarrow> c # xml_unescape s
      | Some (e, x) \<Rightarrow> x # xml_unescape (drop (length e - 1) s))"

declare xml_unescape.simps(2) [simp del]

lemma unescape_plain: "c \<noteq> CHR ''&'' \<Longrightarrow> xml_unescape (c # s) = c # xml_unescape s"
  by (simp add: xml_unescape.simps(2) entities_def)

lemma unescape_entity:
  "xml_unescape (''&#34;'' @ s) = CHR 0x22 # xml_unescape s" "xml_unescape (''&#39;'' @ s) = quote_char # xml_unescape s"
  "xml_unescape (''&amp;'' @ s) = CHR ''&'' # xml_unescape s" "xml_unescape (''&lt;'' @ s) = CHR ''<'' # xml_unescape s"
  "xml_unescape (''&gt;'' @ s) = CHR ''>'' # xml_unescape s" "xml_unescape (''&#x9;'' @ s) = CHR 0x09 # xml_unescape s"
  "xml_unescape (''&#xA;'' @ s) = CHR 0x0A # xml_unescape s" "xml_unescape (''&#xD;'' @ s) = CHR 0x0D # xml_unescape s"
  by (simp_all add: xml_unescape.simps(2) entities_def)

lemma unescape_append: "CHR ''&'' \<notin> set raw \<Longrightarrow> xml_unescape (raw @ s) = raw @ xml_unescape s"
  by (induction raw) (auto simp: unescape_plain)

text \<open>Text that XML can hold: valid UTF-8 of the characters that it allows.\<close>

definition xml_text :: "string \<Rightarrow> bool" where
  "xml_text s \<longleftrightarrow> list_all (\<lambda>(r, raw). in_char_range r \<and> \<not> (r = bad_rune \<and> length raw = 1)) (runes s)"

lemma code_eq_iff: "code a = code b \<longleftrightarrow> a = b"
  by (simp add: code_def)

lemma code_numerals:
  "code (CHR 0x22) = 34" "code quote_char = 39" "code (CHR ''&'') = 38" "code (CHR ''<'') = 60" "code (CHR ''>'') = 62"
  "code (CHR 0x09) = 9" "code (CHR 0x0A) = 10" "code (CHR 0x0D) = 13"
  by (simp_all add: code_def quote_char_def)

lemma code_is:
  "code c = 34 \<longleftrightarrow> c = CHR 0x22" "code c = 39 \<longleftrightarrow> c = quote_char" "code c = 38 \<longleftrightarrow> c = CHR ''&''"
  "code c = 60 \<longleftrightarrow> c = CHR ''<''" "code c = 62 \<longleftrightarrow> c = CHR ''>''" "code c = 9 \<longleftrightarrow> c = CHR 0x09"
  "code c = 10 \<longleftrightarrow> c = CHR 0x0A" "code c = 13 \<longleftrightarrow> c = CHR 0x0D"
  using code_eq_iff [of c] code_numerals by metis+

lemma unescape_rune:
  assumes "rune_ok (r, raw)" "in_char_range r" "\<not> (r = bad_rune \<and> length raw = 1)"
  shows "xml_unescape (escape_rune (r, raw) @ s) = raw @ xml_unescape s"
proof (cases "\<exists>b. raw = [b] \<and> code b < 0x80 \<and> r = code b")
  case True
  then obtain b where b: "raw = [b]" "r = code b" "code b < 0x80" by blast
  show ?thesis
    using assms(2,3) b by (auto simp: escape_rune_def code_is unescape_plain unescape_entity [simplified])
next
  case False
  then have big: "0x80 \<le> r" "\<forall>b\<in>set raw. 0x80 \<le> code b" using assms(1) by (auto simp: rune_ok_def)
  have "CHR ''&'' \<notin> set raw"
  proof
    assume "CHR ''&'' \<in> set raw"
    then have "0x80 \<le> code (CHR ''&'')" using big(2) by blast
    then show False by (simp add: code_numerals)
  qed
  moreover have "escape_rune (r, raw) = raw" using assms(2,3) big(1) by (auto simp: escape_rune_def)
  ultimately show ?thesis by (simp add: unescape_append)
qed

lemma unescape_escape: "xml_text s \<Longrightarrow> xml_unescape (xml_escape s) = s"
proof -
  assume s: "xml_text s"
  have "xml_unescape (concat (map escape_rune ps) @ t) = concat (map snd ps) @ xml_unescape t"
    if "list_all (\<lambda>(r, raw). in_char_range r \<and> \<not> (r = bad_rune \<and> length raw = 1)) ps" "\<forall>p\<in>set ps. rune_ok p" for ps t
    using that by (induction ps) (auto simp: unescape_rune)
  from this [OF s [unfolded xml_text_def] runes_ok, of "[]"] show ?thesis by (simp add: xml_escape_def runes_bytes)
qed

text \<open>No character of markup, and no end of a line, comes out of the escaping.\<close>

definition markup :: "char set" where
  "markup = {CHR ''<'', CHR ''>'', newline, CHR 0x22, CHR 0x0D, CHR 0x09}"

lemma escape_rune_no_markup: "rune_ok p \<Longrightarrow> set (escape_rune p) \<inter> markup = {}"
proof -
  assume ok: "rune_ok p"
  obtain r raw where p: "p = (r, raw)" by fastforce
  have big: "c \<notin> markup" if "0x80 \<le> code c" for c
    using that by (auto simp: markup_def newline_def code_def)
  have "c \<notin> markup" if "c \<in> set (escape_rune p)" for c
  proof (cases "\<exists>b. raw = [b] \<and> code b < 0x80 \<and> r = code b")
    case True
    then show ?thesis using that
      by (auto simp: p escape_rune_def code_is markup_def newline_def replacement_def quote_char_def split: if_splits)
  next
    case False
    then have "0x80 \<le> r" "\<forall>b\<in>set raw. 0x80 \<le> code b" using ok by (auto simp: p rune_ok_def)
    moreover have "\<forall>b\<in>set replacement. 0x80 \<le> code b" by (simp add: replacement_def code_def)
    ultimately show ?thesis using that big by (auto simp: p escape_rune_def split: if_splits)
  qed
  then show ?thesis by blast
qed

lemma escape_no_markup: "c \<in> markup \<Longrightarrow> c \<notin> set (xml_escape s)"
  using runes_ok [of s] escape_rune_no_markup by (fastforce simp: xml_escape_def)

text \<open>The text of an element that is a line of its own, and of all of them in a document.\<close>

definition element_text :: "string \<Rightarrow> string \<Rightarrow> string option" where
  "element_text tag l =
     (let l = dropWhile (\<lambda>c. c = CHR '' '' \<or> c = CHR 0x09) l; opening = ''<'' @ tag @ ''>''; closing = ''</'' @ tag @ ''>''
      in if prefix opening l \<and> suffix closing l \<and> length opening + length closing \<le> length l
         then Some (xml_unescape (take (length l - length opening - length closing) (drop (length opening) l)))
         else None)"

definition element_texts :: "string \<Rightarrow> string \<Rightarrow> string list" where
  "element_texts tag text = List.map_filter (element_text tag) (split_on newline text)"

lemma split_lines: "\<forall>l\<in>set ls. newline \<notin> set l \<Longrightarrow> split_on newline (text_lines ls) = ls @ [[]]"
proof (induction ls)
  case (Cons l ls)
  then show ?case using split_on_append [of newline l "text_lines ls"] by (simp add: text_lines_def)
qed (simp add: text_lines_def)

lemma element_texts_lines:
  "\<forall>l\<in>set ls. newline \<notin> set l \<Longrightarrow> element_texts tag (text_lines ls) = List.map_filter (element_text tag) ls"
  by (simp add: element_texts_def split_lines map_filter_def element_text_def)

section \<open>The texts of a rendered template\<close>

lemma itoa_plain: "newline \<notin> set (itoa k)"
proof -
  have "newline \<notin> set (digits n)" for n
  proof
    assume "newline \<in> set (digits n)"
    then have "is_digit newline" using digits_ok [of n] by (simp add: list_all_iff)
    then show False by (simp add: is_digit_def newline_def)
  qed
  then show ?thesis by (simp add: itoa_def) (simp add: newline_def)
qed

definition strip_blank :: "string \<Rightarrow> string" where
  "strip_blank = dropWhile (\<lambda>c. c = CHR '' '' \<or> c = CHR 0x09)"

text \<open>
  What can be told of a line from its template alone: a value is the text of an element, or opens another one.
\<close>

fun line_text :: "string \<Rightarrow> line \<Rightarrow> string option" where
  "line_text tag (Text s) = element_text tag s"
| "line_text tag (Value a x b) = (if strip_blank a = ''<'' @ tag @ ''>'' then Some x else None)"
| "line_text tag (Number a k b) = None"

definition other_element :: "string \<Rightarrow> string \<Rightarrow> bool" where
  "other_element tag a \<longleftrightarrow> strip_blank a \<noteq> [] \<and> \<not> prefix (''<'' @ tag @ ''>'') (strip_blank a) \<and> \<not> prefix (strip_blank a) (''<'' @ tag @ ''>'')"

fun line_plain :: "string \<Rightarrow> line \<Rightarrow> bool" where
  "line_plain tag (Text s) \<longleftrightarrow> newline \<notin> set s"
| "line_plain tag (Value a x b) \<longleftrightarrow> newline \<notin> set a \<and> newline \<notin> set b
     \<and> (if strip_blank a = ''<'' @ tag @ ''>'' then b = ''</'' @ tag @ ''>'' else other_element tag a)"
| "line_plain tag (Number a k b) \<longleftrightarrow> newline \<notin> set a \<and> newline \<notin> set b \<and> other_element tag a"

fun line_value :: "line \<Rightarrow> string list" where
  "line_value (Value a x b) = [x]"
| "line_value _ = []"

lemma strip_blank_append: "strip_blank a \<noteq> [] \<Longrightarrow> strip_blank (a @ s) = strip_blank a @ s"
  by (auto simp: strip_blank_def dropWhile_append)

lemma other_element_none: "other_element tag a \<Longrightarrow> element_text tag (a @ s) = None"
proof -
  assume o': "other_element tag a"
  then have "strip_blank (a @ s) = strip_blank a @ s" by (simp add: strip_blank_append other_element_def)
  then show ?thesis using o'
    by (auto simp: element_text_def Let_def strip_blank_def [symmetric] other_element_def prefix_append)
qed

lemma between:
  "prefix u (u @ m @ v)" "suffix v (u @ m @ v)" "length u + length v \<le> length (u @ m @ v)"
  "take (length (u @ m @ v) - length u - length v) (drop (length u) (u @ m @ v)) = m"
  by (simp_all add: suffix_def)

lemma element_text_value:
  assumes "strip_blank a = ''<'' @ tag @ ''>''" "xml_text x"
  shows "element_text tag (a @ xml_escape x @ ''</'' @ tag @ ''>'') = Some x"
proof -
  have "strip_blank (a @ s) = ''<'' @ tag @ ''>'' @ s" for s
    using strip_blank_append [of a s] by (simp only: assms(1)) simp
  then have "strip_blank (a @ xml_escape x @ ''</'' @ tag @ ''>'')
      = (''<'' @ tag @ ''>'') @ xml_escape x @ (''</'' @ tag @ ''>'')" by simp
  then show ?thesis using unescape_escape [OF assms(2)]
    by (simp only: element_text_def Let_def strip_blank_def [symmetric] between if_True simp_thms)
qed

lemma xml_text_ascii: "list_all (\<lambda>c. 0x20 \<le> code c \<and> code c < 0x80 \<or> c = newline) s \<Longrightarrow> xml_text s"
proof (induction s)
  case (Cons c s)
  then have "code c < 0x80" by (auto simp: code_def newline_def)
  moreover have "in_char_range (code c)" using Cons by (auto simp: in_char_range_def code_def newline_def)
  ultimately show ?case using Cons by (simp add: xml_text_def runes_ascii bad_rune_def)
qed (simp add: xml_text_def)

lemma render_line_text:
  "line_plain tag l \<Longrightarrow> list_all xml_text (line_value l) \<Longrightarrow> element_text tag (render_line l) = line_text tag l"
  using element_text_value other_element_none by (cases l) (auto split: if_splits)

lemma render_line_plain: "line_plain tag l \<Longrightarrow> newline \<notin> set (render_line l)"
  using escape_no_markup [of newline] itoa_plain by (cases l) (auto simp: markup_def)

lemma list_all_mono_ascii:
  "list_all (list_all (\<lambda>c. 0x20 \<le> code c \<and> code c < 0x80 \<or> c = newline)) ss \<Longrightarrow> list_all xml_text ss"
  by (induction ss) (auto intro: xml_text_ascii)

lemma rendered_texts:
  assumes "list_all (line_plain tag) ls" "list_all xml_text (concat (map line_value ls))"
  shows "element_texts tag (text_lines (map render_line ls)) = List.map_filter (line_text tag) ls"
proof -
  have "element_texts tag (text_lines (map render_line ls)) = List.map_filter (element_text tag) (map render_line ls)"
    using assms(1) render_line_plain by (intro element_texts_lines) (auto simp: list_all_iff)
  also have "\<dots> = List.map_filter (line_text tag) ls"
    using assms render_line_text by (induction ls) (auto simp: map_filter_simps split: option.splits)
  finally show ?thesis .
qed

section \<open>Property lists\<close>

definition plist_ok :: "launchd_values \<Rightarrow> bool" where
  "plist_ok v \<longleftrightarrow> list_all xml_text [lv_label v, lv_runner v, lv_scope v, lv_binary v, lv_config v, lv_dir v, lv_log v, lv_path v]"

definition config_args :: "string \<Rightarrow> string list" where
  "config_args path = (if path = '''' then [] else [''--config'', path])"

lemma agent_plist_lines:
  "list_all (line_plain ''string'') (agent_plist \<lparr> lv_label = l, lv_runner = r, lv_scope = s, lv_binary = b, lv_config = c, lv_dir = d,
     lv_log = g, lv_path = p, lv_restart = n, lv_stop = k \<rparr>)"
  by (cases c; hypsubst; code_simp)

lemma agent_plist_texts:
  "List.map_filter (line_text ''string'') (agent_plist \<lparr> lv_label = l, lv_runner = r, lv_scope = s, lv_binary = b, lv_config = c,
      lv_dir = d, lv_log = g, lv_path = p, lv_restart = n, lv_stop = k \<rparr>)
    = [l, b, ''--name'', r] @ config_args c @ [d, ''Interactive'', g, g, p]"
  by (cases c; hypsubst; code_simp)

lemma agent_plist_values:
  "concat (map line_value (agent_plist \<lparr> lv_label = l, lv_runner = r, lv_scope = s, lv_binary = b, lv_config = c,
      lv_dir = d, lv_log = g, lv_path = p, lv_restart = n, lv_stop = k \<rparr>))
    = [l, b, r] @ tl (config_args c) @ [d, g, g, p]"
  by (cases c; hypsubst; code_simp)

lemma ephemeral_plist_lines:
  "list_all (line_plain ''string'') (ephemeral_plist \<lparr> lv_label = l, lv_runner = r, lv_scope = s, lv_binary = b, lv_config = c,
     lv_dir = d, lv_log = g, lv_path = p, lv_restart = n, lv_stop = k \<rparr>)"
  by (cases c; hypsubst; code_simp)

lemma ephemeral_plist_texts:
  "List.map_filter (line_text ''string'') (ephemeral_plist \<lparr> lv_label = l, lv_runner = r, lv_scope = s, lv_binary = b, lv_config = c,
      lv_dir = d, lv_log = g, lv_path = p, lv_restart = n, lv_stop = k \<rparr>)
    = [l, b, ''ephemeral'', ''run'', ''--repo'', s] @ config_args c @ [''Interactive'', g, g, p]"
  by (cases c; hypsubst; code_simp)

lemma ephemeral_plist_values:
  "concat (map line_value (ephemeral_plist \<lparr> lv_label = l, lv_runner = r, lv_scope = s, lv_binary = b, lv_config = c,
      lv_dir = d, lv_log = g, lv_path = p, lv_restart = n, lv_stop = k \<rparr>))
    = [l, b, s] @ tl (config_args c) @ [g, g, p]"
  by (cases c; hypsubst; code_simp)


text \<open>A runner and a directory with markup in their names.\<close>

definition odd_values :: launchd_values where
  "odd_values = \<lparr> lv_label = ''dev.runnerly.agent.a<b'', lv_runner = ''a<b'', lv_scope = ''acme/app'', lv_binary = ''/bin/r&d'',
     lv_config = '''', lv_dir = ''</string>'' @ [newline] @ ''x'', lv_log = ''/l'', lv_path = ''/p'', lv_restart = 5, lv_stop = 180 \<rparr>"


section \<open>Tasks\<close>

lemma task_lines:
  "list_all (line_plain ''Command'') (task_xml \<lparr> tv_name = n, tv_description = s, tv_binary = b, tv_arguments = a, tv_dir = d \<rparr>)"
  "list_all (line_plain ''Arguments'') (task_xml \<lparr> tv_name = n, tv_description = s, tv_binary = b, tv_arguments = a, tv_dir = d \<rparr>)"
  "list_all (line_plain ''WorkingDirectory'') (task_xml \<lparr> tv_name = n, tv_description = s, tv_binary = b, tv_arguments = a, tv_dir = d \<rparr>)"
  by code_simp+

lemma task_texts:
  "List.map_filter (line_text ''Command'') (task_xml \<lparr> tv_name = n, tv_description = s, tv_binary = b, tv_arguments = a, tv_dir = d \<rparr>) = [b]"
  "List.map_filter (line_text ''Arguments'') (task_xml \<lparr> tv_name = n, tv_description = s, tv_binary = b, tv_arguments = a, tv_dir = d \<rparr>) = [a]"
  "List.map_filter (line_text ''WorkingDirectory'') (task_xml \<lparr> tv_name = n, tv_description = s, tv_binary = b, tv_arguments = a, tv_dir = d \<rparr>) = [d]"
  by code_simp+

lemma task_line_values:
  "concat (map line_value (task_xml \<lparr> tv_name = n, tv_description = s, tv_binary = b, tv_arguments = a, tv_dir = d \<rparr>)) = [s, n, b, a, d]"
  by code_simp

definition task_ok :: "task_values \<Rightarrow> bool" where
  "task_ok v \<longleftrightarrow> list_all xml_text [tv_name v, tv_description v, tv_binary v, tv_arguments v, tv_dir v]"

lemma task_elements:
  assumes "task_ok v"
  shows "element_texts ''Command'' (render_task v) = [tv_binary v]"
    and "element_texts ''Arguments'' (render_task v) = [tv_arguments v]"
    and "element_texts ''WorkingDirectory'' (render_task v) = [tv_dir v]"
proof -
  obtain n s b a d where fields: "v = \<lparr> tv_name = n, tv_description = s, tv_binary = b, tv_arguments = a, tv_dir = d \<rparr>"
    by (cases v)
  have "list_all xml_text [s, n, b, a, d]" using assms by (simp add: fields task_ok_def)
  note texts = rendered_texts [OF _ this [folded task_line_values [of n s b a d]]]
  show "element_texts ''Command'' (render_task v) = [tv_binary v]"
    "element_texts ''Arguments'' (render_task v) = [tv_arguments v]"
    "element_texts ''WorkingDirectory'' (render_task v) = [tv_dir v]"
    unfolding render_task_def fields
    using texts [OF task_lines(1)] texts [OF task_lines(2)] texts [OF task_lines(3)] by (simp_all only: task_texts task_values.simps fields)
qed

text \<open>The units of the bytes, the low byte first.\<close>

fun units_of :: "nat list \<Rightarrow> nat list" where
  "units_of (a # b # r) = (a + 256 * b) # units_of r"
| "units_of _ = []"

lemma units_of_bytes: "units_of (concat (map (\<lambda>u. [u mod 256, u div 256]) us)) = us"
  by (induction us) simp_all

text \<open>
  What the Task Scheduler reads in the file of a task is what was meant: after the byte order mark the bytes,
  all of them bytes, decode as UTF-16 to the characters of the XML, and its elements are the program, the
  arguments and the directory as they were.
\<close>

theorem task_file_roundtrip:
  assumes "task_ok v"
  shows "(\<exists>body. utf16_le (render_task v) = 0xFF # 0xFE # body \<and> (\<forall>b\<in>set body. b < 256)
        \<and> utf16_read (units_of body) = map fst (runes (render_task v)))
    \<and> element_texts ''Command'' (render_task v) = [tv_binary v]
    \<and> element_texts ''Arguments'' (render_task v) = [tv_arguments v]
    \<and> element_texts ''WorkingDirectory'' (render_task v) = [tv_dir v]"
proof -
  let ?us = "concat (map (utf16_units \<circ> fst) (runes (render_task v)))"
  let ?body = "concat (map (\<lambda>u. [u mod 256, u div 256]) ?us)"
  have points: "\<forall>r\<in>set (map fst (runes (render_task v))). code_point r" using runes_points [of "render_task v"] by auto
  then have "\<forall>u\<in>set ?us. u < 0x10000" using utf16_units_small by fastforce
  then have "\<forall>b\<in>set ?body. b < 256" by (auto simp: less_mult_imp_div_less)
  moreover have "utf16_read (units_of ?body) = map fst (runes (render_task v))"
    using utf16_roundtrip [OF points] by (simp only: units_of_bytes map_map)
  moreover have "utf16_le (render_task v) = 0xFF # 0xFE # ?body" by (simp add: utf16_le_def)
  ultimately show ?thesis using task_elements [OF assms] by blast
qed

definition odd_task :: task_values where
  "odd_task = \<lparr> tv_name = ''R'', tv_description = ''d'', tv_binary = ''C:/r&d.exe'', tv_arguments = ''--name '' @ quote_argument ''a <b'',
     tv_dir = ''D:/x'' \<rparr>"

theorem task_file_roundtrip_witness:
  "element_texts ''Arguments'' (render_task odd_task) = [''--name '' @ [CHR 0x22] @ ''a <b'' @ [CHR 0x22]]"
proof -
  have "list_all (list_all (\<lambda>c. 0x20 \<le> code c \<and> code c < 0x80 \<or> c = newline))
      [tv_name odd_task, tv_description odd_task, tv_binary odd_task, tv_arguments odd_task, tv_dir odd_task]" by code_simp
  then have "task_ok odd_task" unfolding task_ok_def by (rule list_all_mono_ascii)
  then show ?thesis using task_file_roundtrip [of odd_task] by (simp add: odd_task_def quote_argument_def)
qed

section \<open>The scope in a unit\<close>

lemma organization_not_parsed:
  assumes "owner_pattern a"
  shows "parse_repository a = Inl NotARepository"
proof -
  have c: "is_alnum c \<or> c = CHR ''-''" if "c \<in> set a" for c
    using assms that unfolding owner_pattern_def list_all_iff by blast
  have no: "x \<notin> set a" if "\<not> is_alnum x" "x \<noteq> CHR ''-''" for x using c that by blast
  have n: "\<not> is_alnum (CHR ''.'')" "\<not> is_alnum (CHR '':'')" "\<not> is_alnum slash_char"
    by (simp_all add: is_alnum_def is_letter_def is_digit_def slash_char_def)
  have a: "a \<noteq> []" "\<not> is_space (hd a)" "\<not> is_space (last a)" "slash_char \<notin> set a"
    using owner_plain [OF assms] by (auto simp: list_all_iff plain_char_def)
  have "\<not> suffix ''.git'' a"
  proof
    assume "suffix ''.git'' a"
    then have "CHR ''.'' \<in> set a" by (auto simp: suffix_def)
    then show False using no n(1) by simp
  qed
  moreover have "CHR '':'' \<notin> set a" using no n(2) by simp
  moreover have "hd a \<noteq> slash_char" "last a \<noteq> slash_char" using a(1,4) hd_in_set [of a] last_in_set [of a] by metis+
  ultimately show ?thesis using a
    by (simp add: parse_repository_def Let_def trim_space_id trim_suffix_none strip_plain trim_both_def trim_left_id trim_right_id cut_at_none)
qed

text \<open>
  The three files of an ephemeral runner name its scope with \<open>--repo\<close>. Started with what they hold for a
  repository, the command serves that repository whatever the configuration says. For an organization it fails
  each time before it asks anything of GitHub, and the service manager starts it again: \<open>--org\<close> is what it needed.
\<close>

theorem service_scope:
  assumes "validate_scope s = None" "\<not> suffix ''.git'' (sp_repo s)"
  shows "resolve_scope c (scope_string s) '''' cfg '''' m
    = (if sp_kind s = KindRepository then Inr s else Inl (ScopeFailed NotARepository), m)"
proof (cases "sp_kind s = KindRepository")
  case True
  then have "scope_string s \<noteq> ''''" "parse_repository (scope_string s) = Inr s"
    using parsed_repository(1) [OF True assms] scope_string_text [OF True] by (simp_all add: repository_text_def)
  then show ?thesis using True by (simp add: resolve_scope_def parsed_def)
next
  case False
  then have "owner_pattern (sp_owner s)" "scope_string s = sp_owner s"
    using assms(1) by (auto simp: validate_scope_def scope_string_def split: scope_kind.splits if_splits)
  then show ?thesis using organization_not_parsed [of "sp_owner s"] owner_plain [of "sp_owner s"] False
    by (simp add: resolve_scope_def parsed_def)
qed

theorem service_scope_witness:
  "fst (resolve_scope sample_cli (scope_string (for_organization ''acme'')) '''' default_config '''' sample_state)
    = Inl (ScopeFailed NotARepository)"
proof -
  have "validate_scope (for_organization ''acme'') = None" by code_simp
  moreover have "for_organization ''acme'' = \<lparr> sp_kind = KindOrganization, sp_owner = ''acme'', sp_repo = '''' \<rparr>" by code_simp
  ultimately show ?thesis
    using service_scope [of "for_organization ''acme''" sample_cli default_config sample_state] by simp
qed

end
