(* ===== verification/Store_Admin.thy ===== *)
theory Store_Admin
  imports Store_Runners Secret "HOL-Library.List_Lexorder" "HOL-Library.Char_ord"
begin

text \<open>
  The rest of \<open>internal/store\<close>: opening the database and its checks (\<open>store.go\<close>), the identifiers of new rows,
  and the migrations (\<open>migrate.go\<close>). What PostgreSQL makes of a connection string, and of the SQL of a
  migration, are parameters.
\<close>

section \<open>Opening\<close>

datatype open_error = NoDatabaseURL | BadDatabaseURL | BadSchemaName | CannotConnect | NoAnswer

record open_options =
  oo_url :: string
  oo_schema :: string
  oo_max_conns :: int
  oo_timeout :: duration

text \<open>The pool that is asked for: where, how many connections when that is set, and the search path of each.\<close>

record pool_config =
  pc_url :: string
  pc_max_conns :: "int option"
  pc_search_path :: "string option"
  pc_timeout :: duration

definition default_connect_timeout :: duration where "default_connect_timeout = 10 * second"

definition schema_first :: "char \<Rightarrow> bool" where
  "schema_first c \<longleftrightarrow> c \<in> set ''abcdefghijklmnopqrstuvwxyz_''"

definition schema_name_pattern :: "string \<Rightarrow> bool" where
  "schema_name_pattern s =
     (case s of [] \<Rightarrow> False
      | c # cs \<Rightarrow> schema_first c \<and> list_all (\<lambda>x. schema_first x \<or> x \<in> set ''0123456789'') cs)"

definition validate_schema_name :: "string \<Rightarrow> open_error option" where
  "validate_schema_name name = (if schema_name_pattern name then None else Some BadSchemaName)"

text \<open>\<open>parses\<close>, \<open>connects\<close> and \<open>answers\<close> are pgx's.\<close>

definition open_store ::
  "(string \<Rightarrow> bool) \<Rightarrow> (pool_config \<Rightarrow> bool) \<Rightarrow> (pool_config \<Rightarrow> bool) \<Rightarrow> open_options \<Rightarrow> open_error + pool_config"
where
  "open_store parses connects answers o' =
     (if oo_url o' = '''' then Inl NoDatabaseURL
      else if \<not> parses (oo_url o') then Inl BadDatabaseURL
      else if oo_schema o' \<noteq> '''' \<and> validate_schema_name (oo_schema o') \<noteq> None then Inl BadSchemaName
      else
        let p = \<lparr> pc_url = oo_url o', pc_max_conns = (if 0 < oo_max_conns o' then Some (oo_max_conns o') else None),
                  pc_search_path = (if oo_schema o' \<noteq> '''' then Some (oo_schema o') else None),
                  pc_timeout = (if oo_timeout o' \<le> 0 then default_connect_timeout else oo_timeout o') \<rparr>
        in if \<not> connects p then Inl CannotConnect
           else if \<not> answers p then Inl NoAnswer
           else Inr p)"

text \<open>The statement that is sent for a schema; its name is part of the text.\<close>

definition create_schema_sql :: "string \<Rightarrow> open_error + string" where
  "create_schema_sql name =
     (case validate_schema_name name of Some e \<Rightarrow> Inl e | None \<Rightarrow> Inr (''CREATE SCHEMA IF NOT EXISTS '' @ name))"

definition drop_schema_sql :: "string \<Rightarrow> open_error + string" where
  "drop_schema_sql name =
     (case validate_schema_name name of
        Some e \<Rightarrow> Inl e
      | None \<Rightarrow> Inr (''DROP SCHEMA IF EXISTS '' @ name @ '' CASCADE''))"

lemma schema_sql_valid: "create_schema_sql name = Inr sql \<Longrightarrow> schema_name_pattern name \<and> sql = ''CREATE SCHEMA IF NOT EXISTS '' @ name"
  by (auto simp: create_schema_sql_def validate_schema_name_def split: option.splits if_splits)

section \<open>Identifiers\<close>

text \<open>Sixteen random bytes, of which six bits are fixed, in the five groups of a UUID.\<close>

definition stamp_version :: "bytes \<Rightarrow> bytes" where
  "stamp_version b = b[6 := (b ! 6) mod 16 + 64, 8 := (b ! 8) mod 64 + 128]"

definition new_id :: "bytes \<Rightarrow> string" where
  "new_id random =
     (let b = stamp_version random
      in hex_encode (take 4 b) @ ''-'' @ hex_encode (take 2 (drop 4 b)) @ ''-'' @ hex_encode (take 2 (drop 6 b)) @ ''-''
         @ hex_encode (take 2 (drop 8 b)) @ ''-'' @ hex_encode (drop 10 b))"

section \<open>Migrations\<close>

record migration =
  mg_name :: string
  mg_sql :: string

text \<open>
  The database: the names in \<open>schema_migrations\<close>, \<open>None\<close> before that table is there, and the schema the
  migrations have made. Every statement, the beginning and the end of a transaction included, can fail.
\<close>

record 's schema_db =
  sd_applied :: "string list option"
  sd_schema :: 's
  sd_faults :: "bool list"

definition sd_stmt :: "'s schema_db \<Rightarrow> bool \<times> 's schema_db" where
  "sd_stmt d = (case sd_faults d of [] \<Rightarrow> (True, d) | f # fs \<Rightarrow> (\<not> f, d\<lparr>sd_faults := fs\<rparr>))"

text \<open>The files embedded in the program: name, whether a directory, contents.\<close>

definition migrations :: "(string \<times> bool \<times> string) list \<Rightarrow> migration list" where
  "migrations files =
     sort_key mg_name (map (\<lambda>(n, d, sql). \<lparr> mg_name = n, mg_sql = sql \<rparr>)
       (filter (\<lambda>(n, d, sql). \<not> d \<and> suffix ''.sql'' n) files))"

definition create_migrations_table :: "'s schema_db \<Rightarrow> bool \<times> 's schema_db" where
  "create_migrations_table d =
     (let (ok, d) = sd_stmt d
      in (ok, if ok \<and> sd_applied d = None then d\<lparr>sd_applied := Some []\<rparr> else d))"

definition applied_migrations :: "'s schema_db \<Rightarrow> string list option \<times> 's schema_db" where
  "applied_migrations d = (let (ok, d) = sd_stmt d in (if ok then sd_applied d else None, d))"

text \<open>One transaction: what it has done is there when all of it succeeds, and undone otherwise.\<close>

definition apply_migration :: "(string \<Rightarrow> 's \<Rightarrow> 's option) \<Rightarrow> migration \<Rightarrow> 's schema_db \<Rightarrow> bool \<times> 's schema_db" where
  "apply_migration run m d =
     (case sd_stmt d of
        (False, d) \<Rightarrow> (False, d)
      | (True, d) \<Rightarrow>
     (case sd_stmt d of
        (False, d) \<Rightarrow> (False, d)
      | (True, d) \<Rightarrow>
     (case run (mg_sql m) (sd_schema d) of
        None \<Rightarrow> (False, d)
      | Some s \<Rightarrow>
     (case sd_stmt d of
        (False, d) \<Rightarrow> (False, d)
      | (True, d) \<Rightarrow>
     (case sd_applied d of
        None \<Rightarrow> (False, d)
      | Some names \<Rightarrow>
          if mg_name m \<in> set names then (False, d)
          else case sd_stmt d of
                 (False, d) \<Rightarrow> (False, d)
               | (True, d) \<Rightarrow> (True, d\<lparr>sd_schema := s, sd_applied := Some (names @ [mg_name m])\<rparr>))))))"

text \<open>The result: the names that done_now, and whether all did.\<close>

fun run_migrations ::
  "(string \<Rightarrow> 's \<Rightarrow> 's option) \<Rightarrow> string list \<Rightarrow> migration list \<Rightarrow> 's schema_db \<Rightarrow> (string list \<times> bool) \<times> 's schema_db"
where
  "run_migrations run applied [] d = (([], True), d)"
| "run_migrations run applied (m # ms) d =
     (if mg_name m \<in> set applied then run_migrations run applied ms d
      else case apply_migration run m d of
             (False, d) \<Rightarrow> (([], False), d)
           | (True, d) \<Rightarrow> (case run_migrations run applied ms d of ((done_now, ok), d) \<Rightarrow> ((mg_name m # done_now, ok), d)))"

definition migrate ::
  "(string \<Rightarrow> 's \<Rightarrow> 's option) \<Rightarrow> (string \<times> bool \<times> string) list \<Rightarrow> 's schema_db \<Rightarrow> (string list \<times> bool) \<times> 's schema_db"
where
  "migrate run files d =
     (case create_migrations_table d of
        (False, d) \<Rightarrow> (([], False), d)
      | (True, d) \<Rightarrow>
          (case applied_migrations d of
             (None, d) \<Rightarrow> (([], False), d)
           | (Some applied, d) \<Rightarrow> run_migrations run applied (migrations files) d))"

section \<open>A new identifier is a UUID\<close>

lemma hex_digit_hex: "n < 16 \<Longrightarrow> is_hex (hex_digit n)"
proof -
  have "list_all (\<lambda>n. is_hex (hex_digit n)) [0..<16]" by code_simp
  then show "n < 16 \<Longrightarrow> is_hex (hex_digit n)" by (simp add: list_all_iff)
qed

lemma hex_encode_hex: "\<forall>b\<in>set bs. b < 256 \<Longrightarrow> list_all is_hex (hex_encode bs)"
  by (induction bs) (auto intro!: hex_digit_hex)

lemma hex_encode_length: "length (hex_encode bs) = 2 * length bs"
  by (induction bs) simp_all

lemma uuid_group:
  "length h = n \<Longrightarrow> list_all is_hex h \<Longrightarrow> uuid_shape (n # m # ns) (h @ ''-'' @ r) = uuid_shape (m # ns) r"
  by (auto simp: nth_append)

lemma uuid_of_groups:
  assumes "length a = 8" "length b = 4" "length c = 4" "length d = 4" "length e = 12"
    and "list_all is_hex a" "list_all is_hex b" "list_all is_hex c" "list_all is_hex d" "list_all is_hex e"
  shows "is_uuid (a @ ''-'' @ b @ ''-'' @ c @ ''-'' @ d @ ''-'' @ e)"
  by (simp only: is_uuid_def uuid_group assms) (simp add: assms)

lemma stamp_version_bytes:
  assumes "length b = 16" "\<forall>x\<in>set b. x < 256"
  shows "length (stamp_version b) = 16" "\<forall>x\<in>set (stamp_version b). x < 256"
proof -
  have "set (stamp_version b) \<subseteq> insert ((b ! 8) mod 64 + 128) (insert ((b ! 6) mod 16 + 64) (set b))"
    unfolding stamp_version_def by (meson insert_mono order_trans set_update_subset_insert)
  moreover have "(b ! 8) mod 64 + 128 < 256" "(b ! 6) mod 16 + 64 < 256"
    using mod_less_divisor [of 64 "b ! 8"] mod_less_divisor [of 16 "b ! 6"] by linarith+
  ultimately show "\<forall>x\<in>set (stamp_version b). x < 256" using assms(2) by (smt (verit) insertE subsetD)
qed (simp add: stamp_version_def assms(1))

text \<open>
  What the store generates as an identifier is a UUID, for whatever the random source gives: it has the
  form that the columns and the routes accept, and the version and variant of a random one.
\<close>

theorem new_ids_are_uuids:
  assumes "length b = 16" "\<forall>x\<in>set b. x < 256"
  shows "is_uuid (new_id b) \<and> new_id b ! 14 = CHR ''4'' \<and> new_id b ! 19 \<in> set ''89ab''"
proof -
  let ?b = "stamp_version b"
  note s = stamp_version_bytes [OF assms]
  have hex: "list_all is_hex (hex_encode (take i (drop j ?b)))" "list_all is_hex (hex_encode (drop j ?b))"
      "list_all is_hex (hex_encode (take i ?b))" for i j
    using s(2) by (auto intro!: hex_encode_hex dest: in_set_takeD in_set_dropD)
  have "is_uuid (new_id b)"
    unfolding new_id_def Let_def by (rule uuid_of_groups) (use s(1) hex in \<open>simp_all add: hex_encode_length\<close>)
  moreover have split: "drop 6 ?b = ?b ! 6 # drop 7 ?b" "drop 8 ?b = ?b ! 8 # drop 9 ?b"
    using s(1) by (simp_all add: Cons_nth_drop_Suc [symmetric])
  have b6: "?b ! 6 = (b ! 6) mod 16 + 64" and b8: "?b ! 8 = (b ! 8) mod 64 + 128"
    using assms(1) by (simp_all add: stamp_version_def)
  have "new_id b ! 14 = hex_digit (?b ! 6 div 16)"
    using s(1) by (simp add: new_id_def Let_def nth_append hex_encode_length split)
  moreover have "new_id b ! 19 = hex_digit (?b ! 8 div 16)"
    using s(1) by (simp add: new_id_def Let_def nth_append hex_encode_length split)
  moreover have "?b ! 6 div 16 = 4" unfolding b6 by simp
  moreover have "?b ! 8 div 16 \<in> {8, 9, 10, 11}"
    unfolding b8 using mod_less_divisor [of 64 "b ! 8"] by auto
  moreover have "hex_digit 4 = CHR ''4''" "hex_digit 8 = CHR ''8''" "hex_digit 9 = CHR ''9''" "hex_digit 10 = CHR ''a''"
      "hex_digit 11 = CHR ''b''"
    by code_simp+
  ultimately show ?thesis by auto
qed

theorem new_ids_are_uuids_witness:
  "is_uuid (new_id (replicate 16 255)) \<and> new_id (replicate 16 255) = ''ffffffff-ffff-4fff-bfff-ffffffffffff''"
proof
  show "is_uuid (new_id (replicate 16 255))"
    using new_ids_are_uuids [of "replicate 16 255"] by simp
  show "new_id (replicate 16 255) = ''ffffffff-ffff-4fff-bfff-ffffffffffff''" by code_simp
qed

section \<open>Migrations run once, in order\<close>

fun run_all :: "(string \<Rightarrow> 's \<Rightarrow> 's option) \<Rightarrow> migration list \<Rightarrow> 's \<Rightarrow> 's option" where
  "run_all run [] s = Some s"
| "run_all run (m # ms) s = (case run (mg_sql m) s of None \<Rightarrow> None | Some s \<Rightarrow> run_all run ms s)"

definition applied_names :: "'s schema_db \<Rightarrow> string list" where
  "applied_names d = (case sd_applied d of None \<Rightarrow> [] | Some ns \<Rightarrow> ns)"

definition at_version :: "(string \<Rightarrow> 's \<Rightarrow> 's option) \<Rightarrow> 's \<Rightarrow> migration list \<Rightarrow> nat \<Rightarrow> 's schema_db \<Rightarrow> bool" where
  "at_version run s0 ms k d \<longleftrightarrow> k \<le> length ms \<and> applied_names d = map mg_name (take k ms)
     \<and> run_all run (take k ms) s0 = Some (sd_schema d)"

lemma sd_stmt_same: "sd_stmt d = (ok, d') \<Longrightarrow> sd_applied d' = sd_applied d \<and> sd_schema d' = sd_schema d"
  by (auto simp: sd_stmt_def split: list.splits)

lemma at_version_same:
  "sd_applied d' = sd_applied d \<Longrightarrow> sd_schema d' = sd_schema d \<Longrightarrow> at_version run s0 ms k d' = at_version run s0 ms k d"
  by (simp add: at_version_def applied_names_def)

lemma run_all_append:
  "run_all run (xs @ ys) s = (case run_all run xs s of None \<Rightarrow> None | Some s \<Rightarrow> run_all run ys s)"
  by (induction xs arbitrary: s) (auto split: option.splits)

lemma apply_migration_failed:
  "apply_migration run m d = (False, d') \<Longrightarrow> sd_applied d' = sd_applied d \<and> sd_schema d' = sd_schema d"
  by (auto simp: apply_migration_def split: prod.splits bool.splits option.splits if_splits dest!: sd_stmt_same)

lemma apply_migration_done:
  "apply_migration run m d = (True, d') \<Longrightarrow> sd_applied d' = Some (applied_names d @ [mg_name m])
     \<and> run (mg_sql m) (sd_schema d) = Some (sd_schema d') \<and> mg_name m \<notin> set (applied_names d)"
  by (auto simp: apply_migration_def applied_names_def split: prod.splits bool.splits option.splits if_splits dest!: sd_stmt_same)

lemma at_version_step:
  assumes "at_version run s0 ms k d" "k < length ms" "apply_migration run (ms ! k) d = (True, d')"
  shows "at_version run s0 ms (Suc k) d'"
  using assms(1,2) apply_migration_done [OF assms(3)]
  by (simp add: at_version_def applied_names_def take_Suc_conv_app_nth run_all_append)

lemma run_migrations_skip:
  "\<forall>m\<in>set xs. mg_name m \<in> set applied \<Longrightarrow> run_migrations run applied (xs @ ys) d = run_migrations run applied ys d"
  by (induction xs) auto

lemma run_migrations_from:
  assumes "run_migrations run applied (drop k ms) d = ((done_now, ok), d')" "at_version run s0 ms k d"
    and "\<forall>m\<in>set (drop k ms). mg_name m \<notin> set applied"
  shows "at_version run s0 ms (k + length done_now) d' \<and> applied_names d' = applied_names d @ done_now
    \<and> (ok \<longrightarrow> k + length done_now = length ms)"
  using assms
proof (induction "length ms - k" arbitrary: k d done_now)
  case 0
  then have "length ms = k" by (simp add: at_version_def)
  then show ?case using 0 by simp
next
  case (Suc n)
  then have k: "k < length ms" by simp
  then have d: "drop k ms = ms ! k # drop (Suc k) ms" by (simp add: Cons_nth_drop_Suc)
  obtain r d1 where a: "apply_migration run (ms ! k) d = (r, d1)" by fastforce
  show ?case
  proof (cases r)
    case False
    then have "done_now = []" "\<not> ok" "d' = d1" using Suc.prems(1,3) d a by auto
    moreover have "sd_applied d1 = sd_applied d \<and> sd_schema d1 = sd_schema d"
      using a False apply_migration_failed [of run "ms ! k" d d1] by simp
    ultimately show ?thesis using Suc.prems(2) at_version_same [of d1 d] by (simp add: applied_names_def)
  next
    case True
    then obtain rest where rest: "run_migrations run applied (drop (Suc k) ms) d1 = ((rest, ok), d')" "done_now = mg_name (ms ! k) # rest"
      using Suc.prems(1,3) d a by (auto split: prod.splits)
    have "applied_names d1 = applied_names d @ [mg_name (ms ! k)]"
      using apply_migration_done [of run "ms ! k" d d1] a True by (simp add: applied_names_def)
    moreover have "at_version run s0 ms (Suc k) d1" using at_version_step [OF Suc.prems(2) k] a True by simp
    moreover have "\<forall>m\<in>set (drop (Suc k) ms). mg_name m \<notin> set applied" using Suc.prems(3) d by simp
    moreover have "n = length ms - Suc k" using Suc.hyps(2) by simp
    ultimately show ?thesis using Suc.hyps(1) [OF _ rest(1)] rest(2) by simp
  qed
qed

lemma migrations_distinct: "distinct (map fst files) \<Longrightarrow> distinct (map mg_name (migrations files))"
proof -
  assume "distinct (map fst files)"
  then have "distinct (map mg_name (map (\<lambda>(n, d, sql). \<lparr> mg_name = n, mg_sql = sql \<rparr>) (filter P files)))" for P
    by (induction files) (auto simp: image_iff split: prod.splits)
  from this [of "\<lambda>(n, d, sql). \<not> d \<and> suffix ''.sql'' n"] show ?thesis unfolding migrations_def
    by (simp add: distinct_map del: map_map)
qed

text \<open>
  C32: a database is always at one version: the migrations that are recorded are the first so many in the order
  of the names, each was run once, in that order, and nothing else was. Migrating moves it forward by what it
  reports as applied, from whatever version it was at and wherever it fails; when it does not fail, the database
  is at the last one.
\<close>

theorem migrations_in_order:
  assumes "distinct (map fst files)" "at_version run s0 (migrations files) k d"
    and "migrate run files d = ((done_now, ok), d')"
  shows "at_version run s0 (migrations files) (k + length done_now) d' \<and> applied_names d' = applied_names d @ done_now
    \<and> (ok \<longrightarrow> k + length done_now = length (migrations files))"
proof -
  let ?ms = "migrations files"
  obtain t d1 where t: "create_migrations_table d = (t, d1)" by fastforce
  have d1: "applied_names d1 = applied_names d" "sd_schema d1 = sd_schema d"
    using t by (auto simp: create_migrations_table_def applied_names_def Let_def split: prod.splits if_splits dest!: sd_stmt_same)
  obtain names d2 where n: "applied_migrations d1 = (names, d2)" by fastforce
  have d2: "sd_applied d2 = sd_applied d1" "sd_schema d2 = sd_schema d1" "\<forall>ns. names = Some ns \<longrightarrow> ns = applied_names d1"
    using n by (cases "sd_applied d1"; auto simp: applied_migrations_def applied_names_def split: prod.splits if_splits dest!: sd_stmt_same)+
  have v: "at_version run s0 ?ms k d2" "applied_names d2 = applied_names d"
    using assms(2) d1 d2 by (simp_all add: at_version_def applied_names_def)
  have v1: "at_version run s0 ?ms k d1" using assms(2) d1 by (simp add: at_version_def)
  show ?thesis
  proof (cases "t \<and> names \<noteq> None")
    case False
    then have "done_now = []" "\<not> ok" "d' = d1 \<or> d' = d2" using assms(3) t n by (auto simp: migrate_def split: bool.splits)
    then show ?thesis using v v1 d1 by auto
  next
    case True
    then have names: "names = Some (applied_names d)" using d2(3) d1(1) by auto
    have ns: "applied_names d = map mg_name (take k ?ms)" using assms(2) by (simp add: at_version_def)
    have run: "run_migrations run (applied_names d) ?ms d2 = ((done_now, ok), d')" using True assms(3) t n names by (simp add: migrate_def)
    have "\<forall>m\<in>set (take k ?ms). mg_name m \<in> set (applied_names d)" by (simp add: ns)
    from run_migrations_skip [OF this, of run "drop k ?ms"] run
    have "run_migrations run (applied_names d) (drop k ?ms) d2 = ((done_now, ok), d')" by simp
    moreover have "\<forall>m\<in>set (drop k ?ms). mg_name m \<notin> set (applied_names d)"
    proof -
      have "distinct (map mg_name (take k ?ms @ drop k ?ms))" using migrations_distinct [OF assms(1)] by simp
      then show ?thesis unfolding ns by (auto simp del: append_take_drop_id)
    qed
    ultimately show ?thesis using run_migrations_from [of run "applied_names d" k ?ms d2 done_now ok d' s0] v by simp
  qed
qed

definition sample_migrations :: "(string \<times> bool \<times> string) list" where
  "sample_migrations = [(''0002_b.sql'', False, ''b''), (''notes.txt'', False, ''x''), (''0001_a.sql'', False, ''a'')]"

definition fresh_schema :: "string list schema_db" where
  "fresh_schema = \<lparr> sd_applied = None, sd_schema = [], sd_faults = [False, False, False, False, False, False, True] \<rparr>"

text \<open>The first run is cut short in the second migration.\<close>

theorem migrations_in_order_witness:
  "case migrate (\<lambda>sql s. Some (s @ [sql])) sample_migrations fresh_schema of ((done_now, ok), d) \<Rightarrow>
     done_now = [''0001_a.sql''] \<and> \<not> ok
     \<and> at_version (\<lambda>sql s. Some (s @ [sql])) [] (migrations sample_migrations) 1 d
     \<and> fst (migrate (\<lambda>sql s. Some (s @ [sql])) sample_migrations d) = ([''0002_b.sql''], True)"
proof -
  let ?run = "\<lambda>sql s. Some (s @ [sql])"
  have v: "at_version ?run [] (migrations sample_migrations) 0 fresh_schema"
    by (simp add: at_version_def applied_names_def fresh_schema_def)
  obtain done_now ok d where m: "migrate ?run sample_migrations fresh_schema = ((done_now, ok), d)" by (metis prod.collapse)
  have "fst (migrate ?run sample_migrations fresh_schema) = ([''0001_a.sql''], False)" by code_simp
  then have r: "done_now = [''0001_a.sql'']" "\<not> ok" using m by simp_all
  have "fst (migrate ?run sample_migrations (snd (migrate ?run sample_migrations fresh_schema))) = ([''0002_b.sql''], True)"
    by code_simp
  then have "fst (migrate ?run sample_migrations d) = ([''0002_b.sql''], True)" using m by simp
  moreover have "distinct (map fst sample_migrations)" by code_simp
  ultimately show ?thesis using migrations_in_order [OF _ v m] m r by simp
qed

end
