(* ===== verification/Server_Admin.thy ===== *)
theory Server_Admin
  imports Cli Store_Tokens Store_Admin
begin

text \<open>
  The commands an operator runs on the machine of the control plane: \<open>internal/cli/server.go\<close>. They talk to the
  database directly. What is printed is the result of the function; the notes for people are left out.
\<close>

section \<open>The commands\<close>

datatype admin_error =
    AdminConfig cli_error
  | NoDatabaseSet
  | AdminOpen open_error
  | NegativeUses
  | AdminStore db_error
  | NoUsableToken string
  | MigrateFailed
  | NoRandomKey

definition env_database_url :: string where "env_database_url = ''RUNNERLY_DATABASE_URL''"

text \<open>\<open>connect\<close> is \<open>store.Open\<close> with what it needs of PostgreSQL.\<close>

definition admin_store ::
  "(open_options \<Rightarrow> open_error + pool_config) \<Rightarrow> ('y, 'w) cli \<Rightarrow> ('y, 'w) cli_state
   \<Rightarrow> (admin_error + pool_config) \<times> ('y, 'w) cli_state"
where
  "admin_store connect c m =
     (case cli_config c m of
        (Inl e, m) \<Rightarrow> (Inl (AdminConfig e), m)
      | (Inr cfg, m) \<Rightarrow>
          let from_env = ps_env (ci_process c) env_database_url;
              url = (if from_env = '''' then cs_database (cf_server cfg) else from_env)
          in (if url = '''' then Inl NoDatabaseSet
              else case connect \<lparr> oo_url = url, oo_schema = '''', oo_max_conns = 0, oo_timeout = 0 \<rparr> of
                     Inl e \<Rightarrow> Inl (AdminOpen e)
                   | Inr p \<Rightarrow> Inr p, m))"

definition server_keygen :: "bytes option \<Rightarrow> admin_error + string" where
  "server_keygen random = (case generate_key random of None \<Rightarrow> Inl NoRandomKey | Some k \<Rightarrow> Inr k)"

definition server_migrate ::
  "(open_options \<Rightarrow> open_error + pool_config) \<Rightarrow> (string \<Rightarrow> 's \<Rightarrow> 's option) \<Rightarrow> (string \<times> bool \<times> string) list
   \<Rightarrow> ('y, 'w) cli \<Rightarrow> ('y, 'w) cli_state \<Rightarrow> 's schema_db \<Rightarrow> (admin_error + string list) \<times> ('y, 'w) cli_state \<times> 's schema_db"
where
  "server_migrate connect run files c m d =
     (case admin_store connect c m of
        (Inl e, m) \<Rightarrow> (Inl e, m, d)
      | (Inr _, m) \<Rightarrow>
          (case migrate run files d of
             ((done_now, ok), d) \<Rightarrow> (if ok then Inr done_now else Inl MigrateFailed, m, d)))"

record token_flags =
  tf_description :: string
  tf_max_uses :: int
  tf_expires_in :: duration

text \<open>What \<open>create\<close> shows: the id, the secret, and whether the token has no limit.\<close>

definition token_create ::
  "(open_options \<Rightarrow> open_error + pool_config) \<Rightarrow> (string \<Rightarrow> string) \<Rightarrow> string \<Rightarrow> string option \<Rightarrow> go_time \<Rightarrow> ('y, 'w) cli
   \<Rightarrow> token_flags \<Rightarrow> ('y, 'w) cli_state \<Rightarrow> db \<Rightarrow> (admin_error + string \<times> string \<times> bool) \<times> ('y, 'w) cli_state \<times> db"
where
  "token_create connect hash newid rnd now c f m db =
     (if tf_max_uses f < 0 then (Inl NegativeUses, m, db)
      else case admin_store connect c m of
        (Inl e, m) \<Rightarrow> (Inl e, m, db)
      | (Inr _, m) \<Rightarrow>
          let uses = (if 0 < tf_max_uses f then Some (tf_max_uses f) else None);
              expires = (if 0 < tf_expires_in f then Some (now + tf_expires_in f) else None)
          in case create_enrollment_token hash newid rnd now (tf_description f) uses expires db of
               (Inl e, db) \<Rightarrow> (Inl (AdminStore e), m, db)
             | (Inr (t, secret), db) \<Rightarrow> (Inr (et_id t, secret, uses = None), m, db))"

definition token_state :: "enrollment_token \<Rightarrow> go_time \<Rightarrow> string" where
  "token_state t now =
     (if et_revoked t \<noteq> None then ''revoked''
      else if (case et_expires t of None \<Rightarrow> False | Some e \<Rightarrow> \<not> now < e) then ''expired''
      else if (case et_max_uses t of None \<Rightarrow> False | Some n \<Rightarrow> n \<le> et_uses t) then ''used up''
      else ''usable'')"

definition or_dash :: "string \<Rightarrow> string" where
  "or_dash s = (if trim_space s = '''' then ''-'' else s)"

definition token_row :: "go_time \<Rightarrow> enrollment_token \<Rightarrow> string list \<times> go_time" where
  "token_row now t =
     ([et_id t, or_dash (et_description t),
       itoa (et_uses t) @ (case et_max_uses t of None \<Rightarrow> '''' | Some n \<Rightarrow> ''/'' @ itoa n), token_state t now], et_created t)"

definition token_list ::
  "(open_options \<Rightarrow> open_error + pool_config) \<Rightarrow> go_time \<Rightarrow> ('y, 'w) cli \<Rightarrow> ('y, 'w) cli_state \<Rightarrow> db
   \<Rightarrow> (admin_error + (string list \<times> go_time) list) \<times> ('y, 'w) cli_state \<times> db"
where
  "token_list connect now c m db =
     (case admin_store connect c m of
        (Inl e, m) \<Rightarrow> (Inl e, m, db)
      | (Inr _, m) \<Rightarrow>
          (case list_enrollment_tokens db of
             (Inl e, db) \<Rightarrow> (Inl (AdminStore e), m, db)
           | (Inr ts, db) \<Rightarrow> (Inr (map (token_row now) ts), m, db)))"

definition token_revoke ::
  "(open_options \<Rightarrow> open_error + pool_config) \<Rightarrow> go_time \<Rightarrow> ('y, 'w) cli \<Rightarrow> string \<Rightarrow> ('y, 'w) cli_state \<Rightarrow> db
   \<Rightarrow> admin_error option \<times> ('y, 'w) cli_state \<times> db"
where
  "token_revoke connect now c i m db =
     (case admin_store connect c m of
        (Inl e, m) \<Rightarrow> (Some e, m, db)
      | (Inr _, m) \<Rightarrow>
          (case revoke_enrollment_token now i db of
             (Inl e, db) \<Rightarrow> (Some (if e = ErrNotFound then NoUsableToken i else AdminStore e), m, db)
           | (Inr _, db) \<Rightarrow> (None, m, db)))"

section \<open>What is listed is what enrols\<close>

lemma redeemable_listed: "redeemable h now t \<longleftrightarrow> et_hash t = h \<and> token_state t now = ''usable''"
  by (auto simp: redeemable_def token_state_def split: option.splits)

lemma token_state_model: "token_state t now = ''usable'' \<longleftrightarrow> usable t now"
  by (auto simp: usable_def token_state_def split: option.splits)

text \<open>
  C33: what an operator is shown is what the server does: a token is listed as usable exactly when a machine
  that presents it is enrolled, at that moment and with a database that works.
\<close>

theorem listed_usable_enrols:
  assumes "tokens_ok db" "db_faults db = []" "t \<in> set (db_enroll db)" "et_hash t = hash token"
    and "prefix enrollment_prefix token" "et_uses t < 2147483647"
  shows "is_ok (fst (redeem_enrollment_token hash now token db)) \<longleftrightarrow> token_state t now = ''usable''"
proof -
  have one: "u = t" if "u \<in> set (db_enroll db)" "et_hash u = hash token" for u
  proof -
    have "inj_on et_hash (set (db_enroll db))" using assms(1) by (simp add: tokens_ok_def distinct_map)
    then show ?thesis using assms(3,4) that by (metis inj_onD)
  qed
  show ?thesis
  proof (cases "token_state t now = ''usable''")
    case True
    then have "find (redeemable (hash token) now) (db_enroll db) \<noteq> None"
      using assms(3,4) by (auto simp: find_None_iff redeemable_listed)
    then obtain u where u: "find (redeemable (hash token) now) (db_enroll db) = Some u" by blast
    then have "u = t" using one by (auto simp: find_Some_iff redeemable_listed)
    then show ?thesis using u True assms(2,5,6)
      by (simp add: redeem_enrollment_token_def stmt_no_fault)
  next
    case False
    then have "find (redeemable (hash token) now) (db_enroll db) = None"
      using one by (auto simp: find_None_iff redeemable_listed)
    then show ?thesis using False assms(2,5)
      by (simp add: redeem_enrollment_token_def stmt_no_fault)
  qed
qed

text \<open>A token of one use that lasts a day, on the day and after it.\<close>

definition day_token :: enrollment_token where
  "day_token = \<lparr> et_id = sample_id, et_hash = ''rnr_enroll_x'', et_description = '' '', et_max_uses = Some 1, et_uses = 0,
     et_expires = Some 100, et_revoked = None, et_created = 0 \<rparr>"

definition day_db :: db where
  "day_db = empty_db\<lparr>db_enroll := [day_token]\<rparr>"

theorem listed_usable_enrols_witness:
  "is_ok (fst (redeem_enrollment_token id 99 ''rnr_enroll_x'' day_db))
    \<and> \<not> is_ok (fst (redeem_enrollment_token id 100 ''rnr_enroll_x'' day_db))"
proof -
  have "tokens_ok day_db" using is_uuid_sample by (simp add: tokens_ok_def day_db_def empty_db_def day_token_def)
  moreover have "db_faults day_db = []" "day_token \<in> set (db_enroll day_db)" by (simp_all add: day_db_def empty_db_def)
  moreover have "et_hash day_token = id ''rnr_enroll_x''" "prefix enrollment_prefix ''rnr_enroll_x''" "et_uses day_token < 2147483647"
    by (simp_all add: day_token_def enrollment_prefix_def)
  ultimately have "is_ok (fst (redeem_enrollment_token id now ''rnr_enroll_x'' day_db)) \<longleftrightarrow> token_state day_token now = ''usable''" for now
    by (rule listed_usable_enrols)
  then show ?thesis by (simp add: token_state_def day_token_def)
qed

text \<open>The two ways a machine stops being let in: the revocation, and the last use.\<close>

lemma token_revoked:
  assumes "token_revoke connect now c i m db = (None, m', db')"
  shows "\<forall>t\<in>set (db_enroll db'). et_id t = i \<longrightarrow> token_state t now' = ''revoked''"
proof -
  obtain u where "revoke_enrollment_token now i db = (Inr u, db')"
    using assms by (auto simp: token_revoke_def split: prod.splits sum.splits)
  then obtain rows where rows: "db_enroll db' = update_where (\<lambda>t. et_id t = i \<and> et_revoked t = None) (\<lambda>t. t\<lparr>et_revoked := Some now\<rparr>) rows"
    by (fastforce simp: revoke_enrollment_token_def Let_def split: prod.splits if_splits)
  have "et_revoked t \<noteq> None" if "t \<in> set (db_enroll db')" "et_id t = i" for t
    using that(1) that(2) unfolding rows set_update_where by (elim UnE imageE) simp_all
  then show ?thesis by (simp add: token_state_def)
qed

lemma token_create_usable:
  assumes "token_create connect hash newid rnd now c f m db = (Inr (i, secret, free), m', db')" "now \<le> later"
    and "0 < tf_expires_in f \<Longrightarrow> later < now + tf_expires_in f"
  shows "\<exists>t\<in>set (db_enroll db'). et_id t = i \<and> et_hash t = hash secret \<and> token_state t later = ''usable''"
proof -
  obtain p m1 where "admin_store connect c m = (Inr p, m1)" "0 \<le> tf_max_uses f"
    using assms(1) by (auto simp: token_create_def split: prod.splits sum.splits if_splits)
  then show ?thesis using assms
    by (auto simp: token_create_def create_enrollment_token_def Let_def token_state_def
        split: sum.splits prod.splits if_splits)
qed

end
