(* ===== verification/Upgrade.thy ===== *)
theory Upgrade
  imports Ephemeral
begin

text \<open>
  \<open>runnerly upgrade\<close>: \<open>internal/cli/upgrade.go\<close>. What is out of date is reported; with \<open>--runners\<close> the runners
  of the machine are emptied, unpacked again at the release that GitHub expects, and registered again.
\<close>

section \<open>Versions\<close>

text \<open>The pattern \<open>-(\d+\.\d+\.\d+)\.(?:tar\.gz|zip)$\<close>; a version holds no hyphen.\<close>

definition version_text :: "string \<Rightarrow> bool" where
  "version_text s \<longleftrightarrow> (let ps = split_on CHR ''.'' s in length ps = 3 \<and> list_all (\<lambda>p. p \<noteq> '''' \<and> list_all is_digit p) ps)"

definition release_version :: "string \<Rightarrow> string" where
  "release_version filename =
     (case (if suffix ''.tar.gz'' filename then Some (trim_suffix ''.tar.gz'' filename)
            else if suffix ''.zip'' filename then Some (trim_suffix ''.zip'' filename) else None) of
        None \<Rightarrow> ''''
      | Some base \<Rightarrow>
          (case last_at CHR ''-'' base of
             None \<Rightarrow> ''''
           | Some (_, v) \<Rightarrow> if version_text v then v else ''''))"

definition runner_release_for ::
  "'w github \<Rightarrow> gh_client \<Rightarrow> scope \<Rightarrow> string \<Rightarrow> string \<Rightarrow> 'w \<Rightarrow> (install_error + string) \<times> 'w"
where
  "runner_release_for gh client s goos goarch w =
     (case platform_for goos goarch of
        None \<Rightarrow> (Inl UnsupportedPlatform, w)
      | Some p \<Rightarrow>
          (case find_download gh client s (pf_os p) (pf_arch p) w of
             (Inl e, w) \<Rightarrow> (Inl (GitHubFailed e), w)
           | (Inr d, w) \<Rightarrow>
               (let v = release_version (dl_filename d) in (Inr (if v \<noteq> '''' then v else dl_filename d), w))))"

definition latest_runnerly_release :: "'w github \<Rightarrow> gh_client \<Rightarrow> 'w \<Rightarrow> (gh_error + string) \<times> 'w" where
  "latest_runnerly_release gh client w =
     (case latest_release gh client ''bablilayoub'' ''runnerly'' w of
        (Inl e, w) \<Rightarrow> (if e = NoRelease then Inr '''' else Inl e, w)
      | (Inr release, w) \<Rightarrow> (Inr (trim_prefix ''v'' release), w))"

datatype self_status = CheckFailed | NonePublished | IsCurrent | IsBehind string

definition self_status :: "string \<Rightarrow> gh_error + string \<Rightarrow> self_status" where
  "self_status current latest =
     (case latest of
        Inl _ \<Rightarrow> CheckFailed
      | Inr v \<Rightarrow> if v = '''' then NonePublished else if v = current then IsCurrent else IsBehind v)"

datatype release_status = Current | UpdateAvailable | UnknownRelease

definition release_status :: "string \<Rightarrow> installed \<Rightarrow> release_status" where
  "release_status available r =
     (let have' = release_version (in_release r)
      in if have' = '''' then UnknownRelease else if have' \<noteq> available then UpdateAvailable else Current)"

definition stale_runners :: "string \<Rightarrow> installed list \<Rightarrow> installed list" where
  "stale_runners available = filter (\<lambda>r. release_status available r = UpdateAvailable)"

section \<open>Upgrading\<close>

datatype upgrade_result =
    SkippedBusy string
  | NoNewToken gh_error
  | NotCleared
  | NotUpgraded install_error
  | Upgraded installed bool    \<comment> \<open>and whether the record of it could be written\<close>

text \<open>The job files are read only; \<open>j\<close> is the disk they are on.\<close>

definition upgrade_options :: "installed \<Rightarrow> string \<Rightarrow> install_options" where
  "upgrade_options r token =
     \<lparr> io_dir = in_dir r, io_name = in_name r, io_labels = in_labels r, io_url = scope_web_url (in_host r) (in_scope r),
       io_token = token, io_group = '''', io_work = '''', io_ephemeral = in_ephemeral r, io_replace = True \<rparr>"

definition upgrade_runner ::
  "('y, 'w) cli \<Rightarrow> gh_client \<Rightarrow> installed \<Rightarrow> ('y, 'w) cli_state \<Rightarrow> job_state disk
   \<Rightarrow> upgrade_result \<times> ('y, 'w) cli_state \<times> job_state disk"
where
  "upgrade_runner c client r m j =
     (case read_job (job_path (in_dir r)) j of
        ((job, err), j) \<Rightarrow>
          if err = None \<and> job_running job then (SkippedBusy (describe_job job), m, j)
          else case create_registration_token (ci_github c) client (in_scope r) (ms_world m) of
            (Inl e, w) \<Rightarrow> (NoNewToken e, m\<lparr>ms_world := w\<rparr>, j)
          | (Inr t, w) \<Rightarrow>
          (case remove_unpacked_runner (in_dir r) (ms_fs m) of
            (False, fs) \<Rightarrow> (NotCleared, m\<lparr>ms_world := w, ms_fs := fs\<rparr>, j)
          | (True, fs) \<Rightarrow>
          (case install (ci_install c) (ci_github c) client (in_scope r) (upgrade_options r (rt_token t)) fs w of
            (Inl e, fs, w) \<Rightarrow> (NotUpgraded e, m\<lparr>ms_world := w, ms_fs := fs\<rparr>, j)
          | (Inr res, fs, w) \<Rightarrow>
              let r = r\<lparr>in_release := ir_filename res, in_labels := ir_labels res\<rparr>;
                  (put, d) = put_installed (state_path c) (ci_now c) r (ms_runners m)
              in (Upgraded r (is_ok put), m\<lparr>ms_world := w, ms_fs := fs, ms_runners := d\<rparr>, j))))"

fun upgrade_each ::
  "('y, 'w) cli \<Rightarrow> gh_client \<Rightarrow> installed list \<Rightarrow> ('y, 'w) cli_state \<Rightarrow> job_state disk
   \<Rightarrow> upgrade_result list \<times> ('y, 'w) cli_state \<times> job_state disk"
where
  "upgrade_each c client [] m j = ([], m, j)"
| "upgrade_each c client (r # rs) m j =
     (case upgrade_runner c client r m j of
        (res, m, j) \<Rightarrow> (case upgrade_each c client rs m j of (ress, m, j) \<Rightarrow> (res # ress, m, j)))"

text \<open>\<open>None\<close>: the operator said no.\<close>

definition upgrade_runners ::
  "('y, 'w) cli \<Rightarrow> gh_client \<Rightarrow> installed list \<Rightarrow> bool \<Rightarrow> ('y, 'w) cli_state \<Rightarrow> job_state disk
   \<Rightarrow> (cli_error + upgrade_result list option) \<times> ('y, 'w) cli_state \<times> job_state disk"
where
  "upgrade_runners c client stale yes m j =
     (case (if yes then Inr True else confirm (ci_interactive c) (ci_answer c)) of
        Inl e \<Rightarrow> (Inl e, m, j)
      | Inr False \<Rightarrow> (Inr None, m, j)
      | Inr True \<Rightarrow> (case upgrade_each c client stale m j of (ress, m, j) \<Rightarrow> (Inr (Some ress), m, j)))"

text \<open>What the command shows; \<open>ur_available\<close> is \<open>None\<close> when GitHub could not be asked, which ends it without an error.\<close>

record upgrade_report =
  ur_self :: self_status
  ur_available :: "string option"
  ur_rows :: "(installed \<times> release_status) list"
  ur_results :: "upgrade_result list option"

definition upgrade_command ::
  "('y, 'w) cli \<Rightarrow> string \<Rightarrow> string \<Rightarrow> string \<Rightarrow> bool \<Rightarrow> bool \<Rightarrow> ('y, 'w) cli_state \<Rightarrow> job_state disk
   \<Rightarrow> (cli_error + upgrade_report) \<times> ('y, 'w) cli_state \<times> job_state disk"
where
  "upgrade_command c current repo org do_runners yes m j =
     (case cli_config c m of
        (Inl e, m) \<Rightarrow> (Inl e, m, j)
      | (Inr cfg, m) \<Rightarrow>
     (case github_client c m of
        (Inl e, m) \<Rightarrow> (Inl e, m, j)
      | (Inr (client, _), m) \<Rightarrow>
     (case resolve_scope c repo org cfg '''' m of
        (Inl e, m) \<Rightarrow> (Inl e, m, j)
      | (Inr target, m) \<Rightarrow>
     (case latest_runnerly_release (ci_github c) client (ms_world m) of
        (latest, w) \<Rightarrow>
     (case runner_release_for (ci_github c) client target (ie_goos (ci_install c)) (ie_goarch (ci_install c)) w of
        (Inl e, w) \<Rightarrow>
          (Inr \<lparr> ur_self = self_status current latest, ur_available = None, ur_rows = [], ur_results = None \<rparr>, m\<lparr>ms_world := w\<rparr>, j)
      | (Inr available, w) \<Rightarrow>
     (case list_installed (ci_walk c) (state_path c) (ms_runners m) of
        (Inl e, d) \<Rightarrow> (Inl (StateFailed e), m\<lparr>ms_world := w, ms_runners := d\<rparr>, j)
      | (Inr rs, d) \<Rightarrow>
          let m = m\<lparr>ms_world := w, ms_runners := d\<rparr>;
              report = \<lparr> ur_self = self_status current latest, ur_available = Some available,
                ur_rows = map (\<lambda>r. (r, release_status available r)) rs, ur_results = None \<rparr>;
              stale = stale_runners available rs
          in if stale = [] \<or> \<not> do_runners then (Inr report, m, j)
             else case upgrade_runners c client stale yes m j of
                    (Inl e, m, j) \<Rightarrow> (Inl e, m, j)
                  | (Inr ress, m, j) \<Rightarrow> (Inr (report\<lparr>ur_results := ress\<rparr>), m, j)))))))"

section \<open>Guarantees\<close>

definition has_running_job :: "job_state disk \<Rightarrow> installed \<Rightarrow> bool" where
  "has_running_job j r \<longleftrightarrow> (\<exists>s. dk_files j (job_path (in_dir r)) = Some (Doc s) \<and> job_running s)"

lemma upgrade_runner_jobs:
  assumes "upgrade_runner c client r m j = (res, m', j')" "dk_faults j = []"
  shows "dk_files j' = dk_files j" "dk_faults j' = []"
    and "(\<exists>why. res = SkippedBusy why) \<longleftrightarrow> has_running_job j r" "has_running_job j r \<Longrightarrow> m' = m"
proof -
  obtain job err j1 where read: "read_job (job_path (in_dir r)) j = ((job, err), j1)" by (metis prod.collapse)
  have j1: "j1 = next_call j"
    using read by (auto simp: read_job_def split: prod.splits sum.splits file_error.splits dest!: read_fileD)
  have "j' = j1" using assms(1) read
    by (auto simp: upgrade_runner_def Let_def split: prod.splits sum.splits bool.splits if_splits)
  then show "dk_files j' = dk_files j" "dk_faults j' = []" using j1 assms(2) by (simp_all add: next_call_def)
  have busy: "err = None \<and> job_running job \<longleftrightarrow> has_running_job j r"
    using read assms(2)
    by (cases "dk_files j (job_path (in_dir r))"; auto simp: read_job_def read_file_def faulty_def has_running_job_def
        job_running_def idle_job_def status_running_def status_idle_def Let_def split: contents.splits if_splits)
  show "(\<exists>why. res = SkippedBusy why) \<longleftrightarrow> has_running_job j r" "has_running_job j r \<Longrightarrow> m' = m"
    using assms(1) read busy
    by (auto simp: upgrade_runner_def Let_def split: prod.splits sum.splits bool.splits if_splits)
qed


definition busy_runner :: installed where
  "busy_runner = \<lparr> in_name = ''n'', in_scope = sample_target, in_host = ''github.com'', in_dir = ''/r'', in_labels = [],
     in_ephemeral = False, in_release = ''actions-runner-linux-x64-2.300.0.tar.gz'', in_at = 0 \<rparr>"

definition busy_jobs :: "job_state disk" where
  "busy_jobs = \<lparr> dk_files = (\<lambda>_. None)(job_path ''/r'' := Some (Doc (idle_job\<lparr>js_status := status_running, js_started := 5\<rparr>))),
     dk_faults = [], dk_seen = [] \<rparr>"


end
