(* ===== verification/Metrics.thy ===== *)
theory Metrics
  imports Docker "HOL-Library.Word" "HOL-Library.Multiset" "HOL-Library.List_Lexorder" "HOL-Library.Char_ord"
begin

text \<open>
  \<open>internal/metrics/metrics.go\<close>: counters that several goroutines increase, and the text that Prometheus reads.
  A counter keeps a pointer for each label; \<open>cv_cells\<close> is what they point to. Go walks a map in any order: the
  parameter \<open>walk\<close> arranges the entries. Formatting a float is a parameter too.
\<close>

section \<open>Counters\<close>

record counter_vec =
  cv_name :: string
  cv_help :: string
  cv_label :: string
  cv_values :: "(string \<times> nat) list"
  cv_cells :: "64 word list"

definition new_counter :: "string \<Rightarrow> string \<Rightarrow> string \<Rightarrow> counter_vec" where
  "new_counter name help label = \<lparr> cv_name = name, cv_help = help, cv_label = label, cv_values = [], cv_cells = [] \<rparr>"

definition counter_value :: "counter_vec \<Rightarrow> string \<Rightarrow> 64 word" where
  "counter_value c l = (case map_of (cv_values c) l of Some p \<Rightarrow> cv_cells c ! p | None \<Rightarrow> 0)"

definition bump :: "nat \<Rightarrow> 64 word \<Rightarrow> counter_vec \<Rightarrow> counter_vec" where
  "bump p d c = c\<lparr>cv_cells := (cv_cells c)[p := cv_cells c ! p + d]\<rparr>"

text \<open>
  A goroutine in \<open>Add\<close>: before the first lock; with the pointer it found there; or without one, before the
  second. What is done under one lock is one step, and so is the atomic addition.
\<close>

datatype adder = Looking string "64 word" | Adding nat "64 word" | Creating string "64 word" | Added

definition add_step :: "adder \<Rightarrow> counter_vec \<Rightarrow> adder \<times> counter_vec" where
  "add_step a c =
     (case a of
        Looking l d \<Rightarrow> (case map_of (cv_values c) l of Some p \<Rightarrow> (Adding p d, c) | None \<Rightarrow> (Creating l d, c))
      | Adding p d \<Rightarrow> (Added, bump p d c)
      | Creating l d \<Rightarrow>
          (case map_of (cv_values c) l of
             Some p \<Rightarrow> (Added, bump p d c)
           | None \<Rightarrow> (Added, c\<lparr>cv_values := cv_values c @ [(l, length (cv_cells c))], cv_cells := cv_cells c @ [d]\<rparr>))
      | Added \<Rightarrow> (Added, c))"

text \<open>A run of several goroutines: the number of the one that takes the next step.\<close>

fun run_adders :: "nat list \<Rightarrow> adder list \<Rightarrow> counter_vec \<Rightarrow> adder list \<times> counter_vec" where
  "run_adders [] as c = (as, c)"
| "run_adders (i # is') as c =
     (if i < length as then let (a, c) = add_step (as ! i) c in run_adders is' (as[i := a]) c
      else run_adders is' as c)"

definition counter_add :: "string \<Rightarrow> 64 word \<Rightarrow> counter_vec \<Rightarrow> counter_vec" where
  "counter_add l d c = snd (run_adders [0, 0] [Looking l d] c)"

definition counter_inc :: "string \<Rightarrow> counter_vec \<Rightarrow> counter_vec" where
  "counter_inc l = counter_add l 1"

section \<open>The text\<close>

record 'f gauge =
  gg_name :: string
  gg_help :: string
  gg_read :: 'f

record 'f registry =
  rg_counters :: "counter_vec list"
  rg_gauges :: "'f gauge list"

definition backslash :: char where "backslash = CHR 0x5C"
definition double_quote :: char where "double_quote = CHR 0x22"

definition escape_label :: "string \<Rightarrow> string" where
  "escape_label v =
     replace_char newline [backslash, CHR ''n''] (replace_char double_quote [backslash, double_quote]
       (replace_char backslash [backslash, backslash] v))"

definition write_header :: "string \<Rightarrow> string \<Rightarrow> string \<Rightarrow> string" where
  "write_header name help t =
     ''# HELP '' @ name @ '' '' @ replace_char newline '' '' help @ [newline] @ ''# TYPE '' @ name @ '' '' @ t @ [newline]"

definition signed_text :: "64 word \<Rightarrow> string" where
  "signed_text w = itoa (sint w)"

definition write_sample :: "counter_vec \<Rightarrow> string \<Rightarrow> string" where
  "write_sample c l =
     (let value = signed_text (counter_value c l)
      in if cv_label c = '''' then cv_name c @ '' '' @ value @ [newline]
         else cv_name c @ ''{'' @ cv_label c @ ''='' @ [double_quote] @ escape_label l @ [double_quote] @ ''} '' @ value @ [newline])"

definition write_counter :: "(string list \<Rightarrow> string list) \<Rightarrow> counter_vec \<Rightarrow> string" where
  "write_counter walk c =
     (let labels = sort (walk (map fst (cv_values c)))
      in write_header (cv_name c) (cv_help c) ''counter''
         @ (if labels = [] \<and> cv_label c = '''' then cv_name c @ '' 0'' @ [newline] else [])
         @ concat (map (write_sample c) labels))"

definition write_gauge :: "('f \<Rightarrow> string) \<Rightarrow> 'f gauge \<Rightarrow> string" where
  "write_gauge format g = write_header (gg_name g) (gg_help g) ''gauge'' @ gg_name g @ '' '' @ format (gg_read g) @ [newline]"

definition write_registry :: "(string list \<Rightarrow> string list) \<Rightarrow> ('f \<Rightarrow> string) \<Rightarrow> 'f registry \<Rightarrow> string" where
  "write_registry walk format r =
     concat (map (write_counter walk) (rg_counters r)) @ concat (map (write_gauge format) (rg_gauges r))"

section \<open>No increment is lost\<close>

text \<open>Pointers are to cells, each label's to its own.\<close>

definition counter_ok :: "counter_vec \<Rightarrow> bool" where
  "counter_ok c \<longleftrightarrow> distinct (map fst (cv_values c)) \<and> distinct (map snd (cv_values c))
     \<and> (\<forall>p\<in>set (map snd (cv_values c)). p < length (cv_cells c))"

definition adder_ok :: "counter_vec \<Rightarrow> adder \<Rightarrow> bool" where
  "adder_ok c a \<longleftrightarrow> (case a of Adding p d \<Rightarrow> p \<in> set (map snd (cv_values c)) | _ \<Rightarrow> True)"

text \<open>What a goroutine still has to add to the count of a label.\<close>

definition pending :: "counter_vec \<Rightarrow> string \<Rightarrow> adder \<Rightarrow> 64 word" where
  "pending c l a =
     (case a of
        Looking k d \<Rightarrow> if k = l then d else 0
      | Creating k d \<Rightarrow> if k = l then d else 0
      | Adding p d \<Rightarrow> if map_of (cv_values c) l = Some p then d else 0
      | Added \<Rightarrow> 0)"

lemma new_counter_ok: "counter_ok (new_counter n h l)"
  by (simp add: counter_ok_def new_counter_def)

lemma pointer_unique:
  "counter_ok c \<Longrightarrow> map_of (cv_values c) l = Some p \<Longrightarrow> map_of (cv_values c) k = Some p \<Longrightarrow> l = k"
  by (auto simp: counter_ok_def distinct_map inj_on_def dest!: map_of_SomeD) fastforce

lemma pointer_ok: "counter_ok c \<Longrightarrow> map_of (cv_values c) l = Some p \<Longrightarrow> p < length (cv_cells c)"
  by (auto simp: counter_ok_def dest!: map_of_SomeD)

lemma bump_value:
  assumes "counter_ok c" "p \<in> set (map snd (cv_values c))"
  shows "counter_value (bump p d c) l = counter_value c l + (if map_of (cv_values c) l = Some p then d else 0)"
proof -
  have "p < length (cv_cells c)" using assms by (auto simp: counter_ok_def)
  then show ?thesis
    by (cases "map_of (cv_values c) l") (simp_all add: counter_value_def bump_def nth_list_update)
qed

lemma pointer_in: "map_of (cv_values c) l = Some p \<Longrightarrow> p \<in> snd ` set (cv_values c)"
  by (drule map_of_SomeD) force

lemma sum_list_swap: "k < length xs \<Longrightarrow> sum_list (xs[k := x]) = sum_list xs + x - xs ! k" for xs :: "64 word list"
  by (induction xs arbitrary: k) (auto split: nat.splits simp: algebra_simps)

lemma shift_total: "x = v1 + t \<Longrightarrow> t = s + p1 - p \<Longrightarrow> v1 + p1 = v + p \<Longrightarrow> x = v + s" for x :: "64 word"
proof -
  assume a: "x = v1 + t" "t = s + p1 - p" "v1 + p1 = v + p"
  have "v1 + (s + p1 - p) = (v1 + p1) + (s - p)" by simp
  then show ?thesis using a by simp
qed

lemma drop_head: "drop (length h + 1) (h @ c # x) = x"
  by simp

lemma bump_ok: "counter_ok c \<Longrightarrow> counter_ok (bump p d c)"
  by (simp add: counter_ok_def bump_def)

lemma bump_same: "cv_values (bump p d c) = cv_values c"
  by (simp add: bump_def)

lemma pending_values: "cv_values c' = cv_values c \<Longrightarrow> pending c' = pending c \<and> adder_ok c' = adder_ok c"
  by (auto simp: pending_def adder_ok_def fun_eq_iff split: adder.splits)

lemma add_step_keeps:
  assumes "counter_ok c" "adder_ok c a" "add_step a c = (a', c')"
  shows "counter_ok c' \<and> adder_ok c' a' \<and> counter_value c' l + pending c' l a' = counter_value c l + pending c l a
    \<and> (\<forall>b. adder_ok c b \<longrightarrow> adder_ok c' b \<and> pending c' l b = pending c l b)"
proof (cases "a' = Added \<and> (\<exists>p d. c' = bump p d c \<and> p \<in> set (map snd (cv_values c)) \<and> pending c l a = (if map_of (cv_values c) l = Some p then d else 0))")
  case True
  then obtain p d where p: "a' = Added" "c' = bump p d c" "p \<in> set (map snd (cv_values c))"
    "pending c l a = (if map_of (cv_values c) l = Some p then d else 0)" by blast
  then show ?thesis
    using bump_value [OF assms(1) p(3)] bump_ok [OF assms(1)] pending_values [of c' c] bump_same
    by (simp add: adder_ok_def pending_def)
next
  case other: False
  show ?thesis
  proof (cases a)
    case (Looking k d)
    then have c: "c' = c" using assms(3) by (auto simp: add_step_def split: option.splits)
    have "adder_ok c a'" using assms(3) Looking
      by (auto simp: add_step_def adder_ok_def split: option.splits dest: pointer_in)
    moreover have "pending c l a' = pending c l a"
      using assms(3) Looking pointer_unique [OF assms(1)]
      by (auto simp: add_step_def pending_def split: option.splits)
    ultimately show ?thesis using c assms(1) by simp
  next
    case (Adding p d)
    then show ?thesis using other assms by (auto simp: add_step_def adder_ok_def pending_def)
  next
    case Added
    then show ?thesis using assms by (simp add: add_step_def)
  next
    case (Creating k d)
    show ?thesis
    proof (cases "map_of (cv_values c) k")
      case (Some p)
      then have "pending c l a = (if map_of (cv_values c) l = Some p then d else 0)"
        using Creating pointer_unique [OF assms(1) Some, of l] by (auto simp: pending_def)
      moreover have "p \<in> set (map snd (cv_values c))" using map_of_SomeD [OF Some] by force
      ultimately show ?thesis using other Creating Some assms(3) by (auto simp: add_step_def)
    next
      case None
      let ?p = "length (cv_cells c)"
      have c': "a' = Added" "cv_values c' = cv_values c @ [(k, ?p)]" "cv_cells c' = cv_cells c @ [d]"
        using assms(3) Creating None by (auto simp: add_step_def)
      have fresh: "?p \<notin> set (map snd (cv_values c))" using assms(1) by (auto simp: counter_ok_def)
      then have fresh': "(x, ?p) \<notin> set (cv_values c)" for x by force
      have "k \<notin> set (map fst (cv_values c))" using None by (simp add: map_of_eq_None_iff)
      then have ok: "counter_ok c'" using assms(1) fresh c' by (auto simp: counter_ok_def less_Suc_eq)
      have old: "map_of (cv_values c') x = (case map_of (cv_values c) x of Some q \<Rightarrow> Some q | None \<Rightarrow> if x = k then Some ?p else None)" for x
        using c'(2) by (simp add: map_add_def split: option.splits)
      have "counter_value c' l = counter_value c l + (if k = l then d else 0)"
        using None c'(3) pointer_ok [OF assms(1), of l] by (auto simp: counter_value_def old nth_append split: option.splits)
      moreover have "adder_ok c' b \<and> pending c' l b = pending c l b" if "adder_ok c b" for b
        using that fresh fresh' c'(2) by (auto simp: adder_ok_def pending_def old split: adder.splits option.splits if_splits)
      ultimately show ?thesis using ok c'(1) Creating by (auto simp: adder_ok_def pending_def)
    qed
  qed
qed

lemma run_adders_keeps:
  "run_adders is' as c = (as', c') \<Longrightarrow> counter_ok c \<Longrightarrow> \<forall>a\<in>set as. adder_ok c a
   \<Longrightarrow> counter_ok c' \<and> counter_value c' l + sum_list (map (pending c' l) as') = counter_value c l + sum_list (map (pending c l) as)"
proof (induction is' arbitrary: as c)
  case (Cons i is')
  show ?case
  proof (cases "i < length as")
    case True
    obtain a c1 where s: "add_step (as ! i) c = (a, c1)" by fastforce
    have run: "run_adders is' (as[i := a]) c1 = (as', c')" using Cons.prems(1) True s by simp
    have ok: "adder_ok c (as ! i)" using Cons.prems(3) True by simp
    note k = add_step_keeps [OF Cons.prems(2) ok s]
    have "\<forall>b\<in>set (as[i := a]). adder_ok c1 b"
      using k Cons.prems(3) set_update_subset_insert [of as i a] by blast
    from Cons.IH [OF run _ this] k
    have "counter_ok c'" "counter_value c' l + sum_list (map (pending c' l) as')
      = counter_value c1 l + sum_list (map (pending c1 l) (as[i := a]))" by simp_all
    moreover have "map (pending c1 l) (as[i := a]) = (map (pending c l) as)[i := pending c1 l a]"
      using k Cons.prems(3) True by (intro nth_equalityI) (auto simp: nth_list_update)
    moreover have "sum_list ((map (pending c l) as)[i := pending c1 l a])
      = sum_list (map (pending c l) as) + pending c1 l a - pending c l (as ! i)"
      using True by (subst sum_list_swap) simp_all
    moreover have "counter_value c1 l + pending c1 l a = counter_value c l + pending c l (as ! i)" using k [of l] by blast
    ultimately show ?thesis using shift_total by metis
  qed (use Cons in simp)
qed simp

text \<open>
  C35: no increment of a counter is lost and none counts twice: however many goroutines add to a counter at once,
  and however their steps fall between one another, also when several create the same label, once all are done
  each label has grown by the sum of what was added to it, modulo \<open>2\<^sup>6\<^sup>4\<close>.
\<close>

theorem increments_never_lost:
  assumes "counter_ok c" "\<forall>a\<in>set as. \<exists>k d. a = Looking k d" "run_adders is' as c = (as', c')" "\<forall>a\<in>set as'. a = Added"
  shows "counter_value c' l
    = counter_value c l + sum_list (map (\<lambda>a. case a of Looking k d \<Rightarrow> if k = l then d else 0 | _ \<Rightarrow> 0) as)"
proof -
  have "\<forall>a\<in>set as. adder_ok c a" using assms(2) by (auto simp: adder_ok_def)
  from run_adders_keeps [OF assms(3,1) this, of l]
  have sum: "counter_value c' l + sum_list (map (pending c' l) as') = counter_value c l + sum_list (map (pending c l) as)" by simp
  have "map (pending c' l) as' = map (\<lambda>_. 0) as'" using assms(4) by (intro map_cong) (auto simp: pending_def)
  then have "sum_list (map (pending c' l) as') = 0" by (simp only:) simp
  moreover have "map (pending c l) as = map (\<lambda>a. case a of Looking k d \<Rightarrow> if k = l then d else 0 | _ \<Rightarrow> 0) as"
    using assms(2) by (auto simp: pending_def)
  ultimately show ?thesis using sum by (metis add.right_neutral)
qed

text \<open>Two goroutines that both find no entry for the label, and create it one after the other.\<close>

theorem increments_never_lost_witness:
  "counter_value (snd (run_adders [0, 1, 1, 0] [Looking ''2xx'' 1, Looking ''2xx'' 1] (new_counter ''n'' ''h'' ''status''))) ''2xx'' = 2"
proof -
  let ?as = "[Looking ''2xx'' 1, Looking ''2xx'' (1 :: 64 word)]" and ?c = "new_counter ''n'' ''h'' ''status''"
  obtain as' c' where run: "run_adders [0, 1, 1, 0] ?as ?c = (as', c')" by fastforce
  have "fst (run_adders [0, 1, 1, 0] ?as ?c) = [Added, Added]" by (simp add: add_step_def new_counter_def Let_def)
  then have "as' = [Added, Added]" using run by simp
  then have all_done: "\<forall>a\<in>set as'. a = Added" by simp
  have starts: "\<forall>a\<in>set ?as. \<exists>k d. a = Looking k d" by simp
  have "counter_value c' ''2xx'' = counter_value ?c ''2xx'' + 2"
    using increments_never_lost [OF new_counter_ok starts run all_done, of "''2xx''"] by simp
  then show ?thesis using run by (simp add: counter_value_def new_counter_def)
qed

section \<open>The text can be read back\<close>

definition escape_char :: "char \<Rightarrow> string" where
  "escape_char c =
     (if c = backslash then [backslash, backslash] else if c = double_quote then [backslash, double_quote]
      else if c = newline then [backslash, CHR ''n''] else [c])"

lemma special_chars: "backslash \<noteq> double_quote" "backslash \<noteq> newline" "double_quote \<noteq> newline" "newline \<noteq> CHR ''n''"
    "backslash \<noteq> CHR ''n''" "double_quote \<noteq> CHR ''n''"
  by (simp_all add: backslash_def double_quote_def newline_def)

lemma replace_char_Cons: "replace_char c r (x # s) = (if x = c then r else [x]) @ replace_char c r s"
  and replace_char_Nil: "replace_char c r [] = []"
  by (simp_all add: replace_char_def)

lemma escape_label_chars: "escape_label v = concat (map escape_char v)"
  using special_chars special_chars [symmetric]
  by (induction v) (auto simp: escape_label_def escape_char_def replace_char_Cons replace_char_Nil)

text \<open>What Prometheus reads after the opening quote: the value up to the closing one, and the rest.\<close>

fun read_label :: "string \<Rightarrow> (string \<times> string) option" where
  "read_label [] = None"
| "read_label [c] = (if c = double_quote then Some ([], []) else None)"
| "read_label (c # x # s) =
     (if c = double_quote then Some ([], x # s)
      else if c = backslash then map_option (apfst (Cons (if x = CHR ''n'' then newline else x))) (read_label s)
      else map_option (apfst (Cons c)) (read_label (x # s)))"

lemma read_label_plain:
  "c \<noteq> double_quote \<Longrightarrow> c \<noteq> backslash \<Longrightarrow> s \<noteq> [] \<Longrightarrow> read_label (c # s) = map_option (apfst (Cons c)) (read_label s)"
  by (cases s) simp_all

lemma read_escaped: "read_label (escape_label v @ double_quote # rest) = Some (v, rest)"
proof -
  have "read_label (concat (map escape_char v) @ double_quote # rest) = Some (v, rest)"
  proof (induction v)
    case Nil
    then show ?case by (cases rest) simp_all
  next
    case (Cons c v)
    then show ?case using special_chars special_chars [symmetric]
      by (auto simp: escape_char_def read_label_plain)
  qed
  then show ?thesis by (simp add: escape_label_chars)
qed

lemma escaped_one_line: "newline \<notin> set (escape_label v)"
  using special_chars special_chars [symmetric] by (induction v) (auto simp: escape_label_chars escape_char_def)

text \<open>
  C36: a label can hold anything: the line of a sample is one line, and what follows the opening quote reads back
  as the label and then the count, whatever quotes, backslashes and line ends the label has. And a scrape does
  not depend on the order in which Go walks the map.
\<close>

theorem labels_survive_scrape:
  assumes "cv_label c \<noteq> ''''" "mset (walk (map fst (cv_values c))) = mset (map fst (cv_values c))"
    and "newline \<notin> set (cv_name c)" "newline \<notin> set (cv_label c)"
  shows "(\<exists>line. write_sample c l = line @ [newline] \<and> newline \<notin> set line
        \<and> read_label (drop (length (cv_name c @ ''{'' @ cv_label c @ ''='') + 1) line)
          = Some (l, ''} '' @ signed_text (counter_value c l)))
    \<and> write_counter walk c = write_counter id c"
proof -
  let ?head = "cv_name c @ ''{'' @ cv_label c @ ''=''"
  let ?line = "?head @ double_quote # escape_label l @ double_quote # ''} '' @ signed_text (counter_value c l)"
  have "is_digit x \<Longrightarrow> x \<noteq> newline" for x by (auto simp: is_digit_def newline_def)
  then have "newline \<notin> set (digits n)" for n using digits_ok [of n] by (auto simp: list_all_iff)
  then have "newline \<notin> set (signed_text w)" for w by (simp add: signed_text_def itoa_def) (simp add: newline_def)
  then have "newline \<notin> set ?line" using assms(3,4) escaped_one_line special_chars by (simp add: newline_def [symmetric]) (simp add: newline_def)
  moreover have "write_sample c l = ?line @ [newline]" using assms(1) by (simp add: write_sample_def Let_def)
  moreover have "read_label (drop (length ?head + 1) ?line) = Some (l, ''} '' @ signed_text (counter_value c l))"
    by (simp only: drop_head read_escaped)
  moreover have "sort (walk (map fst (cv_values c))) = sort (map fst (cv_values c))"
    using assms(2) by (metis mset_sort properties_for_sort sorted_sort)
  ultimately show ?thesis by (simp only: write_counter_def id_apply) blast
qed

theorem labels_survive_scrape_witness:
  "\<exists>line. write_sample (counter_inc [double_quote, newline] (new_counter ''n'' ''h'' ''status'')) [double_quote, newline] = line @ [newline]
     \<and> newline \<notin> set line"
proof -
  let ?c = "counter_inc [double_quote, newline] (new_counter ''n'' ''h'' ''status'')"
  have "cv_label ?c = ''status''" "cv_name ?c = ''n''"
    by (simp_all add: counter_inc_def counter_add_def add_step_def new_counter_def)
  then show ?thesis using labels_survive_scrape [where c = ?c and walk = id and l = "[double_quote, newline]"]
    by (auto simp: newline_def)
qed

end
