(* ===== verification/Machine.thy ===== *)
theory Machine
  imports Go_Float Docker "HOL-Library.Word"
begin

text \<open>
  \<open>internal/machine\<close>: what a computer is and how hard it is working, as read on Linux
  (\<open>machine_linux.go\<close>, \<open>machine_unix.go\<close>) and from the commands of macOS (\<open>machine_darwin.go\<close>), and the
  sampler that keeps the last reading (\<open>machine.go\<close>). The files of \<open>/proc\<close> and \<open>/sys\<close>, the file system's
  statistics and the output of commands are arguments; \<open>None\<close> is what cannot be read. Floats are rationals
  that each operation rounds; that a parsed float is a number is assumed of iostat.
\<close>

section \<open>Numbers\<close>

text \<open>64-bit arithmetic wraps.\<close>

definition wrap64 :: "int \<Rightarrow> int" where
  "wrap64 k = (k + 9223372036854775808) mod 18446744073709551616 - 9223372036854775808"

definition clamp :: "rat \<Rightarrow> rat" where
  "clamp v = (if v < 0 then 0 else if 100 < v then 100 else v)"

definition percent_used :: "rat \<Rightarrow> rat \<Rightarrow> rat option" where
  "percent_used used all = (if all \<le> 0 \<or> used < 0 then None else Some (f64 (f64 (used / all) * 100)))"

text \<open>\<open>strings.Fields\<close>, \<open>strings.Cut\<close> with a text, and the first line that a function takes something from.\<close>

fun split_fields :: "string \<Rightarrow> string list" where
  "split_fields [] = [[]]"
| "split_fields (c # s) = (if is_space c then [] # split_fields s else (case split_fields s of [] \<Rightarrow> [[c]] | w # ws \<Rightarrow> (c # w) # ws))"

definition go_fields :: "string \<Rightarrow> string list" where
  "go_fields s = filter (\<lambda>w. w \<noteq> []) (split_fields s)"

definition cut_text :: "string \<Rightarrow> string \<Rightarrow> (string \<times> string) option" where
  "cut_text s p = (case index_of s p of None \<Rightarrow> None | Some i \<Rightarrow> Some (take i s, drop (i + length p) s))"

section \<open>Linux\<close>

type_synonym proc_files = "string \<Rightarrow> string option"

text \<open>The lines are \<open>strings.Lines\<close>, without their ends: the line after the last end, empty, holds no key.\<close>

fun meminfo_lines :: "string \<Rightarrow> string list \<Rightarrow> int option" where
  "meminfo_lines key [] = None"
| "meminfo_lines key (l # ls) =
     (if prefix key l
      then case go_fields (drop (length key) l) of
             [] \<Rightarrow> None
           | f # _ \<Rightarrow> map_option (\<lambda>kb. wrap64 (kb * 1024)) (atoi f)
      else meminfo_lines key ls)"

definition parse_meminfo :: "string \<Rightarrow> string \<Rightarrow> int option" where
  "parse_meminfo text key = meminfo_lines key (split_on newline text)"

definition meminfo :: "proc_files \<Rightarrow> string \<Rightarrow> int option" where
  "meminfo files key = (case files ''/proc/meminfo'' of None \<Rightarrow> None | Some text \<Rightarrow> parse_meminfo text key)"

definition cgroup_root :: string where "cgroup_root = ''/sys/fs/cgroup''"

definition cgroup_value :: "proc_files \<Rightarrow> string \<Rightarrow> int option" where
  "cgroup_value files path = (case files path of None \<Rightarrow> None | Some text \<Rightarrow> atoi (trim_space text))"

definition cgroup_memory_limit :: "proc_files \<Rightarrow> int option" where
  "cgroup_memory_limit files = cgroup_value files (cgroup_root @ ''/memory.max'')"

fun stat_lines :: "string \<Rightarrow> string list \<Rightarrow> int" where
  "stat_lines key [] = 0"
| "stat_lines key (l # ls) =
     (case cut_at CHR '' '' (trim_space l) of
        (name, val, found) \<Rightarrow>
          if \<not> found \<or> name \<noteq> key then stat_lines key ls
          else case atoi val of None \<Rightarrow> 0 | Some n \<Rightarrow> n)"

definition cgroup_stat :: "proc_files \<Rightarrow> string \<Rightarrow> int" where
  "cgroup_stat files key =
     (case files (cgroup_root @ ''/memory.stat'') of None \<Rightarrow> 0 | Some text \<Rightarrow> stat_lines key (split_on newline text))"

definition cgroup_memory_usage :: "proc_files \<Rightarrow> (int \<times> int) option" where
  "cgroup_memory_usage files =
     (case cgroup_memory_limit files of
        None \<Rightarrow> None
      | Some limit \<Rightarrow>
          if limit \<le> 0 then None
          else case cgroup_value files (cgroup_root @ ''/memory.current'') of
                 None \<Rightarrow> None
               | Some current \<Rightarrow>
                   let reclaimable = wrap64 (cgroup_stat files ''inactive_file'' + cgroup_stat files ''slab_reclaimable'');
                       used = wrap64 (current - reclaimable)
                   in Some (if used < 0 then 0 else used, limit))"

definition memory_total :: "proc_files \<Rightarrow> int" where
  "memory_total files =
     (let ram = (case meminfo files ''MemTotal:'' of None \<Rightarrow> 0 | Some n \<Rightarrow> n)
      in case cgroup_memory_limit files of
           Some limit \<Rightarrow> if ram = 0 \<or> limit < ram then limit else ram
         | None \<Rightarrow> ram)"

definition memory_used_percent :: "proc_files \<Rightarrow> rat option" where
  "memory_used_percent files =
     (case cgroup_memory_usage files of
        Some (used, limit) \<Rightarrow> percent_used (f64 (of_int used)) (f64 (of_int limit))
      | None \<Rightarrow>
          (case meminfo files ''MemTotal:'' of
             None \<Rightarrow> None
           | Some ram \<Rightarrow>
               if ram = 0 then None
               else case meminfo files ''MemAvailable:'' of
                      None \<Rightarrow> None
                    | Some available \<Rightarrow> percent_used (f64 (of_int (wrap64 (ram - available)))) (f64 (of_int ram))))"

text \<open>The fields after the name, the number of each, and the sums so far.\<close>

fun add_ticks :: "nat \<Rightarrow> string list \<Rightarrow> int \<Rightarrow> int \<Rightarrow> (int \<times> int) option" where
  "add_ticks i [] busy all = Some (busy, all)"
| "add_ticks i (f # fs) busy all =
     (if 8 \<le> i then Some (busy, all)
      else case atoi f of
             None \<Rightarrow> None
           | Some ticks \<Rightarrow>
               add_ticks (Suc i) fs (if i \<noteq> 3 \<and> i \<noteq> 4 then wrap64 (busy + ticks) else busy) (wrap64 (all + ticks)))"

definition parse_proc_stat :: "string \<Rightarrow> (int \<times> int) option" where
  "parse_proc_stat text =
     (let fields = go_fields (fst (cut_at newline text))
      in if length fields < 5 \<or> hd fields \<noteq> ''cpu'' then None else add_ticks 0 (tl fields) 0 0)"

record stat_meter =
  pm_busy :: int
  pm_all :: int
  pm_primed :: bool

definition meter_percent :: "proc_files \<Rightarrow> stat_meter \<Rightarrow> rat option \<times> stat_meter" where
  "meter_percent files m =
     (case (case files ''/proc/stat'' of None \<Rightarrow> None | Some text \<Rightarrow> parse_proc_stat text) of
        None \<Rightarrow> (None, m)
      | Some (busy, all) \<Rightarrow>
          let passed = wrap64 (all - pm_all m)
          in (if \<not> pm_primed m then None
              else if passed \<le> 0 then None
              else percent_used (f64 (of_int (wrap64 (busy - pm_busy m)))) (f64 (of_int passed)),
              \<lparr> pm_busy = busy, pm_all = all, pm_primed = True \<rparr>))"

definition new_meter :: "proc_files \<Rightarrow> stat_meter" where
  "new_meter files = snd (meter_percent files \<lparr> pm_busy = 0, pm_all = 0, pm_primed = False \<rparr>)"

section \<open>Disks\<close>

record fs_stat =
  st_size :: "64 word"
  st_blocks :: "64 word"
  st_free :: "64 word"
  st_avail :: "64 word"

definition disk_total :: "fs_stat option \<Rightarrow> int" where
  "disk_total st =
     (case st of
        None \<Rightarrow> 0
      | Some s \<Rightarrow> let all = uint (st_blocks s * st_size s) in if 4611686018427387904 < all then 0 else all)"

definition disk_used_percent :: "fs_stat option \<Rightarrow> rat option" where
  "disk_used_percent st =
     (case st of
        None \<Rightarrow> None
      | Some s \<Rightarrow>
          if st_blocks s = 0 \<or> st_blocks s < st_free s then None
          else let used = st_blocks s - st_free s
               in percent_used (f64 (of_int (uint used))) (f64 (of_int (uint (used + st_avail s)))))"

section \<open>macOS\<close>

fun vm_lines :: "string list \<Rightarrow> (string \<times> int) list \<Rightarrow> int \<Rightarrow> (string \<times> int) list \<times> int" where
  "vm_lines [] pages sz = (pages, sz)"
| "vm_lines (l # ls) pages sz =
     (case cut_text l ''(page size of '' of
        Some (_, rest) \<Rightarrow> vm_lines ls pages (case atoi (fst (cut_at CHR '' '' rest)) of Some n \<Rightarrow> n | None \<Rightarrow> 0)
      | None \<Rightarrow>
          (case cut_at CHR '':'' l of
             (key, val, found) \<Rightarrow>
               if \<not> found then vm_lines ls pages sz
               else case atoi (trim_both (\<lambda>c. c = CHR ''.'') (trim_space val)) of
                      None \<Rightarrow> vm_lines ls pages sz
                    | Some n \<Rightarrow> vm_lines ls ((trim_space key, n) # pages) sz))"

definition parse_vm_stat :: "string \<Rightarrow> ((string \<times> int) list \<times> int) option" where
  "parse_vm_stat text =
     (let (pages, sz) = vm_lines (split_on newline text) [] 0
      in if sz \<le> 0 \<or> map_of pages ''Pages wired down'' = None then None else Some (pages, sz))"

definition page_count :: "(string \<times> int) list \<Rightarrow> string \<Rightarrow> int" where
  "page_count pages key = (case map_of pages key of Some n \<Rightarrow> n | None \<Rightarrow> 0)"

definition mac_memory_total :: "string option \<Rightarrow> int" where
  "mac_memory_total sysctl =
     (case sysctl of None \<Rightarrow> 0 | Some text \<Rightarrow> (case atoi (trim_space text) of Some n \<Rightarrow> n | None \<Rightarrow> 0))"

definition mac_memory_percent :: "string option \<Rightarrow> string option \<Rightarrow> rat option" where
  "mac_memory_percent sysctl vm_stat =
     (let ram = mac_memory_total sysctl
      in if ram \<le> 0 then None
         else case (case vm_stat of None \<Rightarrow> None | Some text \<Rightarrow> parse_vm_stat text) of
                None \<Rightarrow> None
              | Some (pages, sz) \<Rightarrow>
                  let anonymous = wrap64 (page_count pages ''Anonymous pages'' - page_count pages ''Pages purgeable'');
                      anonymous = (if anonymous < 0 then 0 else anonymous);
                      used = wrap64 (wrap64 (wrap64 (anonymous + page_count pages ''Pages wired down'')
                        + page_count pages ''Pages occupied by compressor'') * sz)
                  in percent_used (f64 (of_int used)) (f64 (of_int ram)))"

fun column_of :: "string \<Rightarrow> string list \<Rightarrow> nat option" where
  "column_of want [] = None"
| "column_of want (f # fs) = (if f = want then Some 0 else map_option Suc (column_of want fs))"

fun iostat_lines :: "string list \<Rightarrow> nat option \<Rightarrow> string list \<Rightarrow> nat option \<times> string list" where
  "iostat_lines [] idle row = (idle, row)"
| "iostat_lines (l # ls) idle row =
     (let fields = go_fields l
      in if fields = [] then iostat_lines ls idle row
         else case column_of ''id'' fields of
                Some i \<Rightarrow> iostat_lines ls (Some i) row
              | None \<Rightarrow> iostat_lines ls idle fields)"

definition parse_iostat :: "(string \<Rightarrow> rat option) \<Rightarrow> string \<Rightarrow> rat option" where
  "parse_iostat parse_float text =
     (case iostat_lines (split_on newline text) None [] of
        (None, _) \<Rightarrow> None
      | (Some i, row) \<Rightarrow> if length row \<le> i then None else map_option (\<lambda>idle. f64 (100 - idle)) (parse_float (row ! i)))"

section \<open>The sampler\<close>

record machine_load =
  ml_cpu :: rat
  ml_memory :: rat
  ml_disk :: rat

definition no_load :: machine_load where "no_load = \<lparr> ml_cpu = 0, ml_memory = 0, ml_disk = 0 \<rparr>"

record sampler =
  sp_meter :: stat_meter
  sp_last :: machine_load

definition reading :: "rat option \<Rightarrow> rat" where
  "reading v = (case v of Some v \<Rightarrow> clamp v | None \<Rightarrow> 0)"

definition new_sampler :: "proc_files \<Rightarrow> sampler" where
  "new_sampler files = \<lparr> sp_meter = new_meter files, sp_last = no_load \<rparr>"

definition refresh_sampler :: "proc_files \<Rightarrow> fs_stat option \<Rightarrow> sampler \<Rightarrow> sampler" where
  "refresh_sampler files st s =
     (case meter_percent files (sp_meter s) of
        (cpu, meter) \<Rightarrow>
          \<lparr> sp_meter = meter, sp_last = \<lparr> ml_cpu = reading cpu, ml_memory = reading (memory_used_percent files),
              ml_disk = reading (disk_used_percent st) \<rparr> \<rparr>)"

text \<open>\<open>Run\<close>: the times between readings, given the interval, and the readings one after the other.\<close>

definition sampler_waits :: "int \<Rightarrow> int \<times> int" where
  "sampler_waits interval =
     (let interval = (if interval \<le> 0 then 20000000000 else interval)
      in (if interval < 3000000000 then interval else 3000000000, interval))"

fun run_sampler :: "(proc_files \<times> fs_stat option) list \<Rightarrow> sampler \<Rightarrow> sampler" where
  "run_sampler [] s = s"
| "run_sampler ((files, st) # rest) s = run_sampler rest (refresh_sampler files st s)"

section \<open>Guarantees\<close>

definition in_percent :: "rat \<Rightarrow> bool" where "in_percent v \<longleftrightarrow> 0 \<le> v \<and> v \<le> 100"

definition load_ok :: "machine_load \<Rightarrow> bool" where
  "load_ok l \<longleftrightarrow> in_percent (ml_cpu l) \<and> in_percent (ml_memory l) \<and> in_percent (ml_disk l)"

lemma reading_percent: "in_percent (reading v)"
  by (simp add: in_percent_def reading_def clamp_def split: option.splits)

lemma percent_used_whole:
  assumes "0 \<le> u" "u \<le> t" "0 < t"
  shows "\<exists>v. percent_used (f64 (of_int u)) (f64 (of_int t)) = Some v \<and> in_percent v"
proof -
  have le: "f64 (of_int u) \<le> f64 (of_int t)" using assms by (intro f64_mono) simp
  have zero: "f64 0 = 0" using f64_int [of 0] by simp
  have u: "0 \<le> f64 (of_int u)" using f64_mono [of 0 "of_int u"] assms(1) zero by simp
  have t: "0 < f64 (of_int t)"
  proof -
    have "f64 1 \<le> f64 (of_int t)" using assms(3) by (intro f64_mono) simp
    then show ?thesis using f64_int [of 1] by simp
  qed
  have q: "0 \<le> f64 (of_int u) / f64 (of_int t)" "f64 (of_int u) / f64 (of_int t) \<le> 1" using le u t by simp_all
  have "0 \<le> f64 (f64 (of_int u) / f64 (of_int t))" "f64 (f64 (of_int u) / f64 (of_int t)) \<le> 1"
    using f64_mono [OF q(1)] f64_mono [OF q(2)] zero f64_int [of 1] by simp_all
  then have "0 \<le> f64 (f64 (of_int u) / f64 (of_int t)) * 100" "f64 (f64 (of_int u) / f64 (of_int t)) * 100 \<le> 100" by simp_all
  then have "in_percent (f64 (f64 (f64 (of_int u) / f64 (of_int t)) * 100))"
    using f64_mono [of 0 "f64 (f64 (of_int u) / f64 (of_int t)) * 100"] f64_mono [of "f64 (f64 (of_int u) / f64 (of_int t)) * 100" 100]
      zero f64_int [of 100] by (simp add: in_percent_def)
  then show ?thesis using u t by (simp add: percent_used_def)
qed

lemma refresh_ok: "load_ok (sp_last (refresh_sampler files st s))"
  by (simp add: refresh_sampler_def load_ok_def reading_percent split: prod.splits)

lemma run_sampler_ok: "load_ok (sp_last s) \<Longrightarrow> load_ok (sp_last (run_sampler rs s))"
proof (induction rs arbitrary: s)
  case (Cons r rs)
  obtain files st where "r = (files, st)" by fastforce
  then show ?case using Cons.IH [OF refresh_ok] by simp
qed simp

lemma new_sampler_ok: "load_ok (sp_last (new_sampler files))"
  by (simp add: new_sampler_def no_load_def load_ok_def in_percent_def)

lemma disk_percent_measured:
  assumes "st_free s < st_blocks s" "st_avail s \<le> st_free s"
  shows "\<exists>v. disk_used_percent (Some s) = Some v \<and> in_percent v"
proof -
  let ?b = "uint (st_blocks s)" and ?f = "uint (st_free s)" and ?a = "uint (st_avail s)"
  have le: "?f < ?b" "?a \<le> ?f" using assms by (simp_all add: word_le_def word_less_def)
  have used: "uint (st_blocks s - st_free s) = ?b - ?f"
    using assms(1) by (simp add: uint_minus_simple_alt [THEN iffD1])
  have small: "?b - ?f + ?a < 2 ^ LENGTH(64)" using le uint_lt2p [of "st_blocks s"] by simp
  have sum: "uint (st_blocks s - st_free s + st_avail s) = ?b - ?f + ?a"
    using small used by (simp add: uint_add_lem [THEN iffD1])
  have "0 \<le> ?a" by (rule uint_ge_0)
  then have "0 < ?b - ?f + ?a" using le by linarith
  then have "\<exists>v. percent_used (f64 (of_int (?b - ?f))) (f64 (of_int (?b - ?f + ?a))) = Some v \<and> in_percent v"
    using le \<open>0 \<le> ?a\<close> by (intro percent_used_whole) linarith+
  moreover have "\<not> (st_blocks s = 0 \<or> st_blocks s < st_free s)" using assms(1) by auto
  then have "disk_used_percent (Some s)
      = percent_used (f64 (of_int (uint (st_blocks s - st_free s)))) (f64 (of_int (uint (st_blocks s - st_free s + st_avail s))))"
    by (simp only: disk_used_percent_def option.case if_False Let_def)
  ultimately show ?thesis by (simp only: used sum)
qed

text \<open>
  What is reported of a machine is a percentage: after any sequence of readings, of files with whatever contents,
  each of the three numbers is between 0 and 100. For a disk in use whose counts are consistent it is a measurement,
  which nothing had to clamp, in the unsigned arithmetic of 64 bits.
\<close>

theorem readings_bounded:
  "load_ok (sp_last (run_sampler rs (new_sampler files)))
    \<and> (\<forall>s. st_free s < st_blocks s \<longrightarrow> st_avail s \<le> st_free s
          \<longrightarrow> (\<exists>v. disk_used_percent (Some s) = Some v \<and> reading (disk_used_percent (Some s)) = v \<and> in_percent v))"
  using run_sampler_ok [OF new_sampler_ok] disk_percent_measured
  by (fastforce simp: reading_def clamp_def in_percent_def)

theorem readings_bounded_witness:
  "\<exists>v. disk_used_percent (Some \<lparr> st_size = 4096, st_blocks = 100, st_free = 40, st_avail = 30 \<rparr>) = Some v \<and> in_percent v"
  using conjunct2 [OF readings_bounded [of "[]" "\<lambda>_. None"], rule_format,
      of "\<lparr> st_size = 4096, st_blocks = 100, st_free = 40, st_avail = 30 \<rparr>"] by force

text \<open>Under a limit larger than the memory of the machine, the total is of one and the percentage of the other.\<close>

definition loose_files :: proc_files where
  "loose_files = map_of [(''/proc/meminfo'', ''MemTotal: 4 kB''), (cgroup_root @ ''/memory.max'', ''8192''),
     (cgroup_root @ ''/memory.current'', ''2048'')]"

lemma loose_limit: "memory_total loose_files = 4096" "cgroup_memory_usage loose_files = Some (2048, 8192)"
  by code_simp+

end
