(* ===== verification/Machine_Windows.thy ===== *)
theory Machine_Windows
  imports Machine
begin

text \<open>
  The readings of \<open>internal/machine/machine_windows.go\<close>. What the three calls of \<open>kernel32\<close> fill in is an argument,
  \<open>None\<close> a call that fails. The counters are 64-bit words and wrap.
\<close>

section \<open>Memory and disks\<close>

record memory_status =
  ms_load :: "32 word"
  ms_total_phys :: "64 word"

definition win_memory_total :: "memory_status option \<Rightarrow> int" where
  "win_memory_total st =
     (case st of
        None \<Rightarrow> 0
      | Some s \<Rightarrow> if 4611686018427387904 < uint (ms_total_phys s) then 0 else uint (ms_total_phys s))"

definition win_memory_percent :: "memory_status option \<Rightarrow> rat option" where
  "win_memory_percent st = map_option (\<lambda>s. f64 (of_int (uint (ms_load s)))) st"

record disk_space =
  dp_available :: "64 word"
  dp_total :: "64 word"
  dp_free :: "64 word"

text \<open>The call, of a path cleaned: an empty path, and one with a NUL, fail before it.\<close>

definition disk_space_of :: "(string \<Rightarrow> disk_space option) \<Rightarrow> (string \<Rightarrow> string) \<Rightarrow> string \<Rightarrow> disk_space option" where
  "disk_space_of call clean path =
     (if path = '''' then None else if CHR 0x00 \<in> set (clean path) then None else call (clean path))"

definition win_disk_total :: "disk_space option \<Rightarrow> int" where
  "win_disk_total st =
     (case st of
        None \<Rightarrow> 0
      | Some s \<Rightarrow> if 4611686018427387904 < uint (dp_total s) then 0 else uint (dp_total s))"

definition win_disk_percent :: "disk_space option \<Rightarrow> rat option" where
  "win_disk_percent st =
     (case st of
        None \<Rightarrow> None
      | Some s \<Rightarrow>
          if dp_total s = 0 \<or> dp_total s < dp_free s then None
          else let used = dp_total s - dp_free s
               in percent_used (f64 (of_int (uint used))) (f64 (of_int (uint (used + dp_available s)))))"

section \<open>The processor\<close>

record file_time =
  fd_high :: "32 word"
  fd_low :: "32 word"

unbundle bit_operations_syntax

definition filetime_ticks :: "file_time \<Rightarrow> 64 word" where
  "filetime_ticks t = push_bit 32 (ucast (fd_high t)) OR ucast (fd_low t)"

text \<open>Idle, kernel and user; the kernel's time includes the idle one.\<close>

definition system_times :: "(file_time \<times> file_time \<times> file_time) option \<Rightarrow> (64 word \<times> 64 word) option" where
  "system_times st =
     map_option (\<lambda>(idle, kernel, user). (filetime_ticks idle, filetime_ticks kernel + filetime_ticks user)) st"

record times_meter =
  wm_idle :: "64 word"
  wm_all :: "64 word"
  wm_primed :: bool

definition times_percent :: "(file_time \<times> file_time \<times> file_time) option \<Rightarrow> times_meter \<Rightarrow> rat option \<times> times_meter" where
  "times_percent st m =
     (case system_times st of
        None \<Rightarrow> (None, m)
      | Some (idle, all) \<Rightarrow>
          let passed = all - wm_all m; rested = idle - wm_idle m
          in (if \<not> wm_primed m \<or> all \<le> wm_all m then None
              else if passed < rested then None
              else percent_used (f64 (of_int (uint (passed - rested)))) (f64 (of_int (uint passed))),
              \<lparr> wm_idle = idle, wm_all = all, wm_primed = True \<rparr>))"

definition new_times_meter :: "(file_time \<times> file_time \<times> file_time) option \<Rightarrow> times_meter" where
  "new_times_meter st = snd (times_percent st \<lparr> wm_idle = 0, wm_all = 0, wm_primed = False \<rparr>)"

section \<open>Guarantees\<close>

text \<open>
  The load of the processor needs no clamping: whatever the counters do, wrap around, go backwards or stand
  still, a reading is a percentage or there is none.
\<close>

theorem windows_cpu_bounded:
  "case fst (times_percent st m) of None \<Rightarrow> True | Some v \<Rightarrow> in_percent v"
proof (cases "system_times st")
  case (Some t)
  obtain idle all where t: "t = (idle, all)" by fastforce
  let ?p = "all - wm_all m" and ?r = "idle - wm_idle m"
  show ?thesis
  proof (cases "wm_primed m \<and> wm_all m < all \<and> ?r \<le> ?p")
    case True
    have "?p \<noteq> 0" using True by auto
    then have "0 < uint ?p" by (metis order_le_less uint_0_iff uint_ge_0)
    moreover have "uint (?p - ?r) = uint ?p - uint ?r" using True by (simp add: uint_minus_simple_alt [THEN iffD1])
    moreover have "uint ?r \<le> uint ?p" using True by (simp add: word_le_def)
    ultimately have "\<exists>v. percent_used (f64 (of_int (uint (?p - ?r)))) (f64 (of_int (uint ?p))) = Some v \<and> in_percent v"
      using uint_ge_0 [of ?r] by (intro percent_used_whole) linarith+
    moreover have "fst (times_percent st m) = percent_used (f64 (of_int (uint (?p - ?r)))) (f64 (of_int (uint ?p)))"
    proof -
      have "\<not> (\<not> wm_primed m \<or> all \<le> wm_all m)" "\<not> ?p < ?r" using True by auto
      then show ?thesis by (simp only: times_percent_def Some t option.case prod.case Let_def if_False fst_conv)
    qed
    ultimately show ?thesis by (metis option.case(2))
  next
    case False
    then have "fst (times_percent st m) = None" using Some t by (auto simp: times_percent_def Let_def not_le not_less)
    then show ?thesis by simp
  qed
qed (simp add: times_percent_def)

end
