(* ===== verification/Doctor.thy ===== *)
theory Doctor
  imports Cli Docker
begin

text \<open>
  \<open>internal/doctor\<close>: the checks of a machine and their report. Of a check its name, its status and the remedy
  are modelled; the sentences that explain it are not. The world is a parameter (\<open>doctor_env\<close>), as it is in the
  code: commands and paths are read, and what goes over the network is threaded through \<open>'w\<close>. The time limit
  of a check is not modelled: a check that runs into it is one whose command or connection fails.
\<close>

section \<open>Checks and reports\<close>

datatype check_status = Pass | Warn | Fail | Skip

record check =
  ck_name :: string
  ck_status :: check_status
  ck_remedy :: string

record summary =
  sm_pass :: nat
  sm_warn :: nat
  sm_fail :: nat
  sm_skip :: nat

record report =
  rt_checks :: "check list"
  rt_summary :: summary

definition report_ok :: "report \<Rightarrow> bool" where
  "report_ok r \<longleftrightarrow> sm_fail (rt_summary r) = 0"

fun count_check :: "summary \<Rightarrow> check \<Rightarrow> summary" where
  "count_check s c =
     (case ck_status c of
        Pass \<Rightarrow> s\<lparr>sm_pass := sm_pass s + 1\<rparr>
      | Warn \<Rightarrow> s\<lparr>sm_warn := sm_warn s + 1\<rparr>
      | Fail \<Rightarrow> s\<lparr>sm_fail := sm_fail s + 1\<rparr>
      | Skip \<Rightarrow> s\<lparr>sm_skip := sm_skip s + 1\<rparr>)"

definition new_report :: "check list \<Rightarrow> report" where
  "new_report cs = \<lparr> rt_checks = cs,
     rt_summary = foldl count_check \<lparr> sm_pass = 0, sm_warn = 0, sm_fail = 0, sm_skip = 0 \<rparr> cs \<rparr>"

record 'w doctor_env =
  de_goos :: string
  de_goarch :: string
  de_look :: "string \<Rightarrow> string option"
  de_run :: "string \<Rightarrow> string list \<Rightarrow> bool \<times> string"
  de_glob :: "string \<Rightarrow> string list option"
  de_disk :: "string \<Rightarrow> (nat \<times> nat) option"
  de_home :: "string option"
  de_self :: "string option"
  de_abs :: "string \<Rightarrow> string option"
  de_links :: "string \<Rightarrow> string option"
  de_dial :: "string \<Rightarrow> 'w \<Rightarrow> bool \<times> 'w"
  de_get :: "string \<Rightarrow> 'w \<Rightarrow> int option \<times> 'w"
  de_github :: "'w github"

record doctor_options =
  do_config :: config
  do_token :: string
  do_offline :: bool

section \<open>What is read on the machine\<close>

definition passing :: "string \<Rightarrow> check" where
  "passing name = \<lparr> ck_name = name, ck_status = Pass, ck_remedy = '''' \<rparr>"

definition skipped :: "string \<Rightarrow> check" where
  "skipped name = \<lparr> ck_name = name, ck_status = Skip, ck_remedy = '''' \<rparr>"

definition failing :: "string \<Rightarrow> string \<Rightarrow> check" where
  "failing name remedy = \<lparr> ck_name = name, ck_status = Fail, ck_remedy = remedy \<rparr>"

definition warning :: "string \<Rightarrow> string \<Rightarrow> check" where
  "warning name remedy = \<lparr> ck_name = name, ck_status = Warn, ck_remedy = remedy \<rparr>"

definition check_configuration :: "doctor_options \<Rightarrow> check" where
  "check_configuration o' =
     (if validate_config (do_config o') \<noteq> None then failing ''configuration'' ''runnerly config edit'' else passing ''configuration'')"

definition check_os :: "string \<Rightarrow> check" where
  "check_os goos =
     (if goos = ''linux'' then passing ''operating system''
      else if goos = ''darwin'' then passing ''operating system''
      else warning ''operating system'' '''')"

definition supported_arch :: "string \<Rightarrow> string option" where
  "supported_arch = map_of [(''amd64'', ''x64''), (''arm64'', ''arm64'')]"

definition check_arch :: "string \<Rightarrow> check" where
  "check_arch goarch =
     (if supported_arch goarch \<noteq> None then passing ''architecture''
      else failing ''architecture'' ''Use an x86_64 or arm64 machine.'')"

definition check_runner_runtime :: "'w doctor_env \<Rightarrow> check" where
  "check_runner_runtime de =
     (if de_goos de \<noteq> ''linux'' then skipped ''runner runtime''
      else
        let warn = warning ''runner runtime'' (''sudo apt-get update && sudo apt-get install -y libicu-dev'' @ [newline]
              @ ''# or, on the unpacked runner: sudo ./bin/installdependencies.sh'')
        in case de_run de ''ldconfig'' [''-p''] of
             (True, out) \<Rightarrow> if contains out ''libicuuc.so'' then passing ''runner runtime'' else warn
           | (False, _) \<Rightarrow>
               (case de_glob de ''/usr/lib/*/libicuuc.so*'' of
                  Some found \<Rightarrow> if found \<noteq> [] then passing ''runner runtime'' else warn
                | None \<Rightarrow> warn))"

definition check_binary :: "'w doctor_env \<Rightarrow> string \<Rightarrow> check_status \<Rightarrow> string \<Rightarrow> check" where
  "check_binary de name missing remedy =
     (case de_look de name of
        None \<Rightarrow> \<lparr> ck_name = name, ck_status = missing, ck_remedy = remedy \<rparr>
      | Some _ \<Rightarrow> passing name)"

definition tcc_protected :: "string list" where
  "tcc_protected = [''Desktop'', ''Documents'', ''Downloads'', ''Library/Mobile Documents'']"

definition protected_folder :: "'w doctor_env \<Rightarrow> string \<Rightarrow> string \<Rightarrow> string option" where
  "protected_folder de home path =
     (case de_abs de path of
        None \<Rightarrow> None
      | Some full \<Rightarrow>
          let full = (case de_links de full of Some r \<Rightarrow> r | None \<Rightarrow> full);
              real_home = (case de_links de home of Some r \<Rightarrow> r | None \<Rightarrow> home)
          in find (\<lambda>folder. let guarded = path_join [real_home, folder] in full = guarded \<or> prefix (guarded @ ''/'') full) tcc_protected)"

definition check_protected_paths :: "'w doctor_env \<Rightarrow> doctor_options \<Rightarrow> check" where
  "check_protected_paths de o' =
     (if de_goos de \<noteq> ''darwin'' then skipped ''protected folders''
      else case de_home de of
             None \<Rightarrow> skipped ''protected folders''
           | Some home \<Rightarrow>
               let candidates = cr_dir (cf_runner (do_config o')) # (case de_self de of Some self \<Rightarrow> [self] | None \<Rightarrow> []);
                   found = List.map_filter (\<lambda>p. if p = '''' then None else protected_folder de home p) candidates
               in if found = [] then passing ''protected folders''
                  else warning ''protected folders'' ''move them somewhere else, for example ~/.runnerly and /usr/local/bin'')"

definition check_docker :: "'w doctor_env \<Rightarrow> doctor_options \<Rightarrow> check" where
  "check_docker de o' =
     (if ce_type (cf_executor (do_config o')) = executor_host then skipped ''docker''
      else check_binary de ''docker'' Fail ''curl -fsSL https://get.docker.com | sh'')"

definition check_docker_daemon :: "'w doctor_env \<Rightarrow> check_status \<Rightarrow> check" where
  "check_docker_daemon de docker =
     (if docker \<noteq> Pass then skipped ''docker daemon''
      else case de_run de ''docker'' [''info'', ''--format'', ''{{.ServerVersion}}''] of
             (False, _) \<Rightarrow> failing ''docker daemon'' ''sudo systemctl start docker''
           | (True, _) \<Rightarrow> passing ''docker daemon'')"

definition disk_fail_below :: nat where "disk_fail_below = 2147483648"
definition disk_warn_below :: nat where "disk_warn_below = 10737418240"

definition check_docker_disk :: "'w doctor_env \<Rightarrow> check_status \<Rightarrow> check" where
  "check_docker_disk de daemon =
     (if daemon \<noteq> Pass then skipped ''docker disk space''
      else case de_run de ''docker'' [''info'', ''--format'', ''{{.DockerRootDir}}''] of
             (ok, out) \<Rightarrow>
               let root = first_line (trim_space out)
               in if \<not> ok \<or> root = '''' \<or> root = ''no output'' then skipped ''docker disk space''
                  else case de_disk de root of
                         None \<Rightarrow> skipped ''docker disk space''
                       | Some (free, _) \<Rightarrow>
                           if free < disk_fail_below then failing ''docker disk space'' ''docker system prune --all --volumes''
                           else if free < disk_warn_below then warning ''docker disk space'' ''docker system prune''
                           else passing ''docker disk space'')"

text \<open>\<open>humanBytes\<close>; \<open>tenths\<close> formats a quotient to one decimal, \<open>None\<close> is an index out of range.\<close>

function bytes_loop :: "nat \<Rightarrow> nat \<Rightarrow> nat \<Rightarrow> nat \<times> nat" where
  "bytes_loop n ex d = (if 1024 \<le> n \<and> ex < 4 then bytes_loop (n div 1024) (Suc ex) (d * 1024) else (ex, d))"
  by pat_completeness auto
termination by (relation "measure (\<lambda>(n, ex, d). 4 - ex)") auto

declare bytes_loop.simps [simp del]

definition human_bytes :: "(nat \<Rightarrow> nat \<Rightarrow> string) \<Rightarrow> nat \<Rightarrow> string option" where
  "human_bytes tenths value =
     (if value < 1024 then Some (digits value @ '' B'')
      else let (ex, d) = bytes_loop (value div 1024) 0 1024
           in if ex < length ''KMGTP'' then Some (tenths value d @ '' '' @ [''KMGTP'' ! ex] @ ''iB'') else None)"

section \<open>What goes over the network\<close>

text \<open>\<open>URL.Hostname\<close> and \<open>net.JoinHostPort\<close>.\<close>

definition strip_port :: "string \<Rightarrow> string" where
  "strip_port h =
     (if CHR '':'' \<notin> set h then h
      else if CHR '']'' \<in> set h then trim_prefix ''['' (takeWhile (\<lambda>c. c \<noteq> CHR '']'') h)
      else takeWhile (\<lambda>c. c \<noteq> CHR '':'') h)"

definition join_host_port :: "string \<Rightarrow> string \<Rightarrow> string" where
  "join_host_port h port =
     (if CHR '':'' \<in> set h \<or> CHR ''%'' \<in> set h then ''['' @ h @ '']:'' @ port else h @ '':'' @ port)"

definition api_host :: "string \<Rightarrow> string" where
  "api_host host =
     (case url_parse (api_base_url host) of
        None \<Rightarrow> ''api.github.com''
      | Some (_, h) \<Rightarrow> if strip_port h = '''' then ''api.github.com'' else strip_port h)"

definition check_outbound_https :: "'w doctor_env \<Rightarrow> doctor_options \<Rightarrow> 'w \<Rightarrow> check \<times> 'w" where
  "check_outbound_https de o' w =
     (if do_offline o' then (skipped ''outbound HTTPS'', w)
      else case de_dial de (join_host_port (api_host (cg_host (cf_github (do_config o')))) ''443'') w of
             (ok, w) \<Rightarrow> (if ok then passing ''outbound HTTPS''
               else failing ''outbound HTTPS''
                 (''Check the machine'' @ [quote_char] @ ''s firewall and proxy settings; runners need outbound port 443.''), w))"

definition check_github_api :: "'w doctor_env \<Rightarrow> doctor_options \<Rightarrow> 'w \<Rightarrow> check \<times> 'w" where
  "check_github_api de o' w =
     (if do_offline o' then (skipped ''GitHub API'', w)
      else case de_get de (api_base_url (cg_host (cf_github (do_config o')))) w of
             (None, w) \<Rightarrow> (failing ''GitHub API'' ''Check DNS and outbound HTTPS, then retry.'', w)
           | (Some status, w) \<Rightarrow>
               (if 500 \<le> status then failing ''GitHub API'' ''Check https://www.githubstatus.com and retry.''
                else passing ''GitHub API'', w))"

definition check_github_credentials :: "'w doctor_env \<Rightarrow> doctor_options \<Rightarrow> 'w \<Rightarrow> check \<times> 'w" where
  "check_github_credentials de o' w =
     (let name = ''GitHub credentials''; g = cf_github (do_config o')
      in if do_token o' = '''' then (warning name ''runnerly login'', w)
         else if do_offline o' then (skipped name, w)
         else case identify (de_github de) (new_for_host (cg_host g) (do_token o')) w of
                (Inl e, w) \<Rightarrow> (failing name (if has_status 401 e then ''runnerly login'' else ''''), w)
              | (Inr i, w) \<Rightarrow>
                  let kind = (if cg_scope g = scope_organization then KindOrganization else KindRepository);
                      missing = missing_scope kind (id_scopes i)
                  in (if missing \<noteq> ''''
                      then warning name (''Create a token with the '' @ missing @ '' scope, then run `runnerly login`'')
                      else passing name, w))"

definition check_server :: "'w doctor_env \<Rightarrow> doctor_options \<Rightarrow> 'w \<Rightarrow> check \<times> 'w" where
  "check_server de o' w =
     (let name = ''Runnerly server''; url = cs_url (cf_server (do_config o'))
      in if url = '''' then (skipped name, w)
         else if do_offline o' then (skipped name, w)
         else case de_get de (trim_right (\<lambda>c. c = slash_char) url @ ''/api/v1/health'') w of
                (None, w) \<Rightarrow> (failing name ''Confirm server.url in the configuration and that runnerly-server is running.'', w)
              | (Some status, w) \<Rightarrow>
                  (if status \<noteq> 200 then failing name ''Check the Runnerly server logs.'' else passing name, w))"

definition doctor_run :: "'w doctor_env \<Rightarrow> doctor_options \<Rightarrow> 'w \<Rightarrow> report \<times> 'w" where
  "doctor_run de o' w =
     (let docker = check_docker de o';
          daemon = check_docker_daemon de (ck_status docker);
          machine = [check_configuration o', check_os (de_goos de), check_arch (de_goarch de),
            check_binary de ''git'' Fail ''sudo apt-get update && sudo apt-get install -y git'',
            check_binary de ''curl'' Warn ''sudo apt-get update && sudo apt-get install -y curl'',
            check_runner_runtime de, check_protected_paths de o'];
          (https, w) = check_outbound_https de o' w;
          (api, w) = check_github_api de o' w;
          (creds, w) = check_github_credentials de o' w;
          (server, w) = check_server de o' w
      in (new_report (machine @ [docker, daemon, check_docker_disk de (ck_status daemon), https, api, creds, server]), w))"

section \<open>Guarantees\<close>

lemma foldl_count_check:
  "sm_fail (foldl count_check s cs) = sm_fail s + length (filter (\<lambda>c. ck_status c = Fail) cs)"
  "sm_pass (foldl count_check s cs) = sm_pass s + length (filter (\<lambda>c. ck_status c = Pass) cs)"
  "sm_warn (foldl count_check s cs) = sm_warn s + length (filter (\<lambda>c. ck_status c = Warn) cs)"
  "sm_skip (foldl count_check s cs) = sm_skip s + length (filter (\<lambda>c. ck_status c = Skip) cs)"
  by (induction cs arbitrary: s) (auto split: check_status.splits)

lemma report_ok_iff: "report_ok (new_report cs) \<longleftrightarrow> list_all (\<lambda>c. ck_status c \<noteq> Fail) cs"
  by (simp add: report_ok_def new_report_def foldl_count_check filter_empty_conv list_all_iff)

lemma summary_total:
  "case rt_summary (new_report cs) of s \<Rightarrow> sm_pass s + sm_warn s + sm_fail s + sm_skip s = length cs"
  by (induction cs rule: rev_induct) (auto simp: new_report_def foldl_count_check split: check_status.splits)

lemma made_status [simp]:
  "ck_status (passing n) = Pass" "ck_status (skipped n) = Skip" "ck_status (failing n r) = Fail" "ck_status (warning n r) = Warn"
  by (simp_all add: passing_def skipped_def failing_def warning_def)

text \<open>What Docker has to be for the machine to be ready.\<close>

definition docker_ready :: "'w doctor_env \<Rightarrow> bool" where
  "docker_ready de \<longleftrightarrow> de_look de ''docker'' \<noteq> None
     \<and> fst (de_run de ''docker'' [''info'', ''--format'', ''{{.ServerVersion}}''])
     \<and> (case de_run de ''docker'' [''info'', ''--format'', ''{{.DockerRootDir}}''] of
          (ok, out) \<Rightarrow> \<not> ok \<or> first_line (trim_space out) = '''' \<or> first_line (trim_space out) = ''no output''
            \<or> (case de_disk de (first_line (trim_space out)) of None \<Rightarrow> True | Some (free, _) \<Rightarrow> 2147483648 \<le> free))"

lemma docker_checks:
  assumes "ce_type (cf_executor (do_config o')) \<noteq> executor_host"
  shows "(ck_status (check_docker de o') \<noteq> Fail \<and> ck_status (check_docker_daemon de (ck_status (check_docker de o'))) \<noteq> Fail
      \<and> ck_status (check_docker_disk de (ck_status (check_docker_daemon de (ck_status (check_docker de o'))))) \<noteq> Fail)
    \<longleftrightarrow> docker_ready de"
  using assms
  by (auto simp: check_docker_def check_binary_def check_docker_daemon_def check_docker_disk_def docker_ready_def Let_def
      disk_fail_below_def split: option.splits prod.splits bool.splits)

text \<open>
  C37: without the network \<open>doctor\<close> asks nothing of anyone, and calls the machine ready exactly when the
  configuration is valid, the processor is one that it knows, git is there, and, unless jobs run on the host,
  Docker is installed, its daemon answers, and its disk, if that can be told, has two gibibytes left. No
  warning and nothing else stands in the way.
\<close>

theorem doctor_offline_verdict:
  assumes "do_offline o'" "doctor_run de o' w = (r, w')"
  shows "w' = w \<and> (report_ok r \<longleftrightarrow> validate_config (do_config o') = None \<and> de_goarch de \<in> {''amd64'', ''arm64''}
    \<and> de_look de ''git'' \<noteq> None \<and> (ce_type (cf_executor (do_config o')) = executor_host \<or> docker_ready de))"
proof -
  have net: "check_outbound_https de o' w = (skipped ''outbound HTTPS'', w)" "check_github_api de o' w = (skipped ''GitHub API'', w)"
    using assms(1) by (simp_all add: check_outbound_https_def check_github_api_def)
  obtain creds where creds: "check_github_credentials de o' w = (creds, w)" "ck_status creds \<noteq> Fail"
    using assms(1) by (cases "do_token o' = ''''") (auto simp: check_github_credentials_def Let_def)
  have server: "check_server de o' w = (skipped ''Runnerly server'', w)" using assms(1) by (simp add: check_server_def Let_def)
  let ?docker = "check_docker de o'"
  let ?daemon = "check_docker_daemon de (ck_status ?docker)"
  have "w' = w" and r: "r = new_report ([check_configuration o', check_os (de_goos de), check_arch (de_goarch de),
      check_binary de ''git'' Fail ''sudo apt-get update && sudo apt-get install -y git'',
      check_binary de ''curl'' Warn ''sudo apt-get update && sudo apt-get install -y curl'',
      check_runner_runtime de, check_protected_paths de o'] @ [?docker, ?daemon, check_docker_disk de (ck_status ?daemon),
      skipped ''outbound HTTPS'', skipped ''GitHub API'', creds, skipped ''Runnerly server''])"
    using assms(2) by (simp_all add: doctor_run_def Let_def net creds(1) server)
  have conf: "ck_status (check_configuration o') \<noteq> Fail \<longleftrightarrow> validate_config (do_config o') = None"
    by (simp add: check_configuration_def)
  have os: "ck_status (check_os (de_goos de)) \<noteq> Fail" by (simp add: check_os_def)
  have arch: "ck_status (check_arch (de_goarch de)) \<noteq> Fail \<longleftrightarrow> de_goarch de \<in> {''amd64'', ''arm64''}"
    by (simp add: check_arch_def supported_arch_def)
  have git: "ck_status (check_binary de ''git'' Fail x) \<noteq> Fail \<longleftrightarrow> de_look de ''git'' \<noteq> None"
    and curl: "ck_status (check_binary de ''curl'' Warn x) \<noteq> Fail" for x
    by (simp_all add: check_binary_def split: option.splits)
  have runtime: "ck_status (check_runner_runtime de) \<noteq> Fail"
    by (simp add: check_runner_runtime_def Let_def split: prod.splits bool.splits option.splits)
  have paths: "ck_status (check_protected_paths de o') \<noteq> Fail"
    by (simp add: check_protected_paths_def Let_def split: option.splits)
  have host: "ck_status ?docker \<noteq> Fail \<and> ck_status ?daemon \<noteq> Fail \<and> ck_status (check_docker_disk de (ck_status ?daemon)) \<noteq> Fail"
    if "ce_type (cf_executor (do_config o')) = executor_host"
    using that by (simp add: check_docker_def check_docker_daemon_def check_docker_disk_def)
  show ?thesis
  proof (cases "ce_type (cf_executor (do_config o')) = executor_host")
    case True
    show ?thesis using \<open>w' = w\<close> conf os arch git curl runtime paths host [OF True] creds(2) True
      by (simp add: r report_ok_iff)
  next
    case False
    show ?thesis using \<open>w' = w\<close> conf os arch git curl runtime paths docker_checks [OF False, of de] creds(2) False
      by (simp add: r report_ok_iff)
  qed
qed

definition sample_doctor :: "gh_request list doctor_env" where
  "sample_doctor = \<lparr> de_goos = ''linux'', de_goarch = ''arm'', de_look = (\<lambda>n. Some n), de_run = (\<lambda>_ _. (True, ''/var'')),
     de_glob = (\<lambda>_. None), de_disk = (\<lambda>_. Some (5000000000, 9000000000)), de_home = None, de_self = None, de_abs = Some, de_links = Some,
     de_dial = (\<lambda>_ w. (True, w)), de_get = (\<lambda>_ w. (Some 200, w)), de_github = public_github \<rparr>"

text \<open>On a 32-bit ARM machine, for which GitHub does publish a runner, it fails; on an AMD one it does not.\<close>

theorem doctor_offline_verdict_witness:
  "let o' = \<lparr> do_config = default_config, do_token = '''', do_offline = True \<rparr>
   in \<not> report_ok (fst (doctor_run sample_doctor o' [])) \<and> report_ok (fst (doctor_run (sample_doctor\<lparr>de_goarch := ''amd64''\<rparr>) o' []))
      \<and> platform_for ''linux'' ''arm'' \<noteq> None"
proof -
  let ?o = "\<lparr> do_config = default_config, do_token = '''', do_offline = True \<rparr>"
  have v: "report_ok (fst (doctor_run de ?o w)) \<longleftrightarrow> validate_config default_config = None \<and> de_goarch de \<in> {''amd64'', ''arm64''}
    \<and> de_look de ''git'' \<noteq> None \<and> (ce_type (cf_executor default_config) = executor_host \<or> docker_ready de)" for de :: "gh_request list doctor_env" and w
    using doctor_offline_verdict [of ?o de w] by (metis (no_types, lifting) doctor_options.simps prod.collapse)
  have "first_line (trim_space ''/var'') = ''/var''" by code_simp
  then have "docker_ready (sample_doctor\<lparr>de_goarch := ''amd64''\<rparr>)" by (simp add: docker_ready_def sample_doctor_def)
  moreover have "validate_config default_config = None" by code_simp
  moreover have "platform_for ''linux'' ''arm'' \<noteq> None" by code_simp
  moreover have "de_goarch sample_doctor = ''arm''" "de_look (sample_doctor\<lparr>de_goarch := ''amd64''\<rparr>) ''git'' \<noteq> None"
    by (simp_all add: sample_doctor_def)
  ultimately show ?thesis unfolding Let_def v by simp
qed

text \<open>Sizes are shown with a letter for each: here, unlike in \<open>human_size\<close>, the loop stops at the last one.\<close>

lemma bytes_loop_bound: "ex \<le> 4 \<Longrightarrow> fst (bytes_loop n ex d) \<le> 4"
  by (induction n ex d rule: bytes_loop.induct) (subst bytes_loop.simps, simp)

lemma human_bytes_total: "human_bytes tenths value \<noteq> None"
  using bytes_loop_bound [of 0 "value div 1024" 1024] by (auto simp: human_bytes_def Let_def split: prod.splits)

end
