(* ===== verification/Setup.thy ===== *)
theory Setup
  imports Doctor
begin

text \<open>
  \<open>runnerly setup\<close>: \<open>internal/cli/setup.go\<close>. The lines that the operator types are a list, from which every
  question takes the first; at its end nothing more can be read. The token is typed without echo, apart from
  them. What is printed between the questions is left out.
\<close>

section \<open>The steps\<close>

record setup_flags =
  sf_repo :: string
  sf_org :: string
  sf_name :: string
  sf_labels :: string
  sf_dir :: string
  sf_yes :: bool
  sf_allow_public :: bool
  sf_skip_doctor :: bool

datatype secret_read = NoSecretPrompt | SecretFailed | Secret string

datatype setup_error =
    SetupFailed cli_error
  | NotReady report
  | StoredTokenRefused gh_error
  | NoTokenFound
  | NoPrompt
  | CannotReadSecret
  | EmptySecret
  | TokenRefused gh_error
  | NotStored file_error
  | NoRepositoryGiven
  | NoneToAdminister
  | NothingChosen
  | NoAnswerRead
  | TemplateFailed file_error

definition check_machine ::
  "'w doctor_env \<Rightarrow> ('y, 'w) cli \<Rightarrow> setup_flags \<Rightarrow> config \<Rightarrow> ('y, 'w) cli_state \<Rightarrow> setup_error option \<times> ('y, 'w) cli_state"
where
  "check_machine de c f cfg m =
     (if sf_skip_doctor f then (None, m)
      else case resolve_token (credentials_path c) (cg_host (cf_github cfg)) (ci_token c) (ps_env (ci_process c)) (ms_creds m) of
        (t, d) \<Rightarrow>
          (case doctor_run de \<lparr> do_config = cfg, do_token = (case t of Inr t \<Rightarrow> tk_value t | Inl _ \<Rightarrow> ''''), do_offline = False \<rparr> (ms_world m) of
             (r, w) \<Rightarrow> (if report_ok r then None else Some (NotReady r), m\<lparr>ms_creds := d, ms_world := w\<rparr>)))"

definition ensure_token ::
  "('y, 'w) cli \<Rightarrow> setup_flags \<Rightarrow> config \<Rightarrow> secret_read \<Rightarrow> ('y, 'w) cli_state
   \<Rightarrow> (setup_error + gh_client) \<times> ('y, 'w) cli_state"
where
  "ensure_token c f cfg secret m =
     (let host = cg_host (cf_github cfg)
      in case resolve_token (credentials_path c) host (ci_token c) (ps_env (ci_process c)) (ms_creds m) of
           (t, d) \<Rightarrow>
             let m = m\<lparr>ms_creds := d\<rparr>;
                 found = (case t of Inr t \<Rightarrow> tk_value t | Inl _ \<Rightarrow> '''')
             in if found \<noteq> ''''
                then case identify (ci_github c) (new_for_host host found) (ms_world m) of
                       (Inl e, w) \<Rightarrow> (Inl (StoredTokenRefused e), m\<lparr>ms_world := w\<rparr>)
                     | (Inr _, w) \<Rightarrow> (Inr (new_for_host host found), m\<lparr>ms_world := w\<rparr>)
                else if sf_yes f then (Inl NoTokenFound, m)
                else case secret of
                       NoSecretPrompt \<Rightarrow> (Inl NoPrompt, m)
                     | SecretFailed \<Rightarrow> (Inl CannotReadSecret, m)
                     | Secret s \<Rightarrow>
                         if s = '''' then (Inl EmptySecret, m)
                         else case identify (ci_github c) (new_for_host host s) (ms_world m) of
                                (Inl e, w) \<Rightarrow> (Inl (TokenRefused e), m\<lparr>ms_world := w\<rparr>)
                              | (Inr i, w) \<Rightarrow>
                                  (case store_host (credentials_path c) (ci_now c) host
                                      \<lparr> gh_token = s, gh_user = ga_login (id_user i), gh_scopes = id_scopes i, gh_created = zero_time \<rparr>
                                      (ms_creds m) of
                                     (Inl e, d) \<Rightarrow> (Inl (NotStored e), m\<lparr>ms_world := w, ms_creds := d\<rparr>)
                                   | (Inr _, d) \<Rightarrow> (Inr (new_for_host host s), m\<lparr>ms_world := w, ms_creds := d\<rparr>)))"

definition ask :: "bool \<Rightarrow> string list \<Rightarrow> (setup_error + string) \<times> string list" where
  "ask interactive answers =
     (if \<not> interactive then (Inl NoAnswerRead, answers)
      else case answers of [] \<Rightarrow> (Inl NoAnswerRead, []) | a # as \<Rightarrow> (Inr a, as))"

definition says_yes :: "string \<Rightarrow> bool" where
  "says_yes line \<longleftrightarrow> (let l = to_lower (trim_space line) in l = ''y'' \<or> l = ''yes'')"

definition setup_confirm :: "bool \<Rightarrow> string list \<Rightarrow> (setup_error + bool) \<times> string list" where
  "setup_confirm interactive answers =
     (if \<not> interactive then (Inl (SetupFailed NotConfirmed), answers)
      else case ask interactive answers of
             (Inl e, as) \<Rightarrow> (Inl e, as)
           | (Inr a, as) \<Rightarrow> (Inr (says_yes a), as))"

definition is_number :: "string \<Rightarrow> bool" where
  "is_number s \<longleftrightarrow> s \<noteq> '''' \<and> list_all is_digit s"

definition filter_repositories :: "repository list \<Rightarrow> string \<Rightarrow> repository list" where
  "filter_repositories repos q = filter (\<lambda>r. contains (to_lower (rp_full_name r)) (to_lower q)) repos"

definition max_picker_repositories :: nat where "max_picker_repositories = 20"

text \<open>What an answer means, given the repositories shown.\<close>

datatype pick = PickNothing | PickOutOfRange | PickScope "scope_error + scope" | PickSearch

definition pick_meaning :: "repository list \<Rightarrow> string \<Rightarrow> pick" where
  "pick_meaning shown answer =
     (if answer = '''' then PickNothing
      else if is_number answer
      then (case atoi answer of
              None \<Rightarrow> PickOutOfRange
            | Some n \<Rightarrow> if n < 1 \<or> int (length shown) < n then PickOutOfRange
                        else PickScope (parse_repository (rp_full_name (shown ! (nat n - 1)))))
      else if contains answer ''/'' then PickScope (parse_repository answer)
      else PickSearch)"

text \<open>\<open>acceptScope\<close>, with the answer to its question; \<open>Inr False\<close> sends the operator back to the list.\<close>

definition accept_scope ::
  "('y, 'w) cli \<Rightarrow> gh_client \<Rightarrow> config \<Rightarrow> setup_flags \<Rightarrow> scope \<Rightarrow> string list \<Rightarrow> 'w \<Rightarrow> (setup_error + bool) \<times> string list \<times> 'w"
where
  "accept_scope c client cfg f s answers w =
     (case check_runner_policy (ci_github c) client cfg s (sf_allow_public f) w of
        (None, w) \<Rightarrow> (Inr True, answers, w)
      | (Some e, w) \<Rightarrow>
          if \<not> ci_interactive c \<or> sf_yes f then (Inl (SetupFailed e), answers, w)
          else (case setup_confirm (ci_interactive c) answers of (r, as) \<Rightarrow> (r, as, w)))"

lemma accept_scope_rest: "accept_scope c client cfg f s answers w = (r, as, w') \<Longrightarrow> length as \<le> length answers \<and> set as \<subseteq> set answers"
  by (auto simp: accept_scope_def setup_confirm_def ask_def split: prod.splits option.splits if_splits list.splits sum.splits)

function pick_repository ::
  "('y, 'w) cli \<Rightarrow> gh_client \<Rightarrow> config \<Rightarrow> setup_flags \<Rightarrow> repository list \<Rightarrow> repository list \<Rightarrow> string list \<Rightarrow> 'w
   \<Rightarrow> (setup_error + scope) \<times> string list \<times> 'w"
where
  "pick_repository c client cfg f repos matches answers w =
     (let matches = (if matches = [] then repos else matches);
          shown = take max_picker_repositories matches
      in if \<not> ci_interactive c then (Inl NoAnswerRead, answers, w)
         else case answers of
           [] \<Rightarrow> (Inl NoAnswerRead, [], w)
         | a # as \<Rightarrow>
             (case pick_meaning shown (trim_space a) of
                PickNothing \<Rightarrow> (Inl NothingChosen, as, w)
              | PickOutOfRange \<Rightarrow> pick_repository c client cfg f repos matches as w
              | PickSearch \<Rightarrow> pick_repository c client cfg f repos (filter_repositories repos (trim_space a)) as w
              | PickScope (Inl e) \<Rightarrow> (Inl (SetupFailed (ScopeFailed e)), as, w)
              | PickScope (Inr s) \<Rightarrow>
                  (case accept_scope c client cfg f s as w of
                     (Inl e, as, w) \<Rightarrow> (Inl e, as, w)
                   | (Inr True, as, w) \<Rightarrow> (Inr s, as, w)
                   | (Inr False, as, w) \<Rightarrow> pick_repository c client cfg f repos matches as w)))"
  by pat_completeness auto
termination pick_repository
  by (relation "measure (\<lambda>(c, client, cfg, f, repos, matches, answers, w). length answers)")
    (auto dest!: accept_scope_rest [OF sym])

declare pick_repository.simps [simp del]

definition choose_scope ::
  "('y, 'w) cli \<Rightarrow> gh_client \<Rightarrow> config \<Rightarrow> setup_flags \<Rightarrow> string list \<Rightarrow> ('y, 'w) cli_state
   \<Rightarrow> (setup_error + scope) \<times> string list \<times> ('y, 'w) cli_state"
where
  "choose_scope c client cfg f answers m =
     (case resolve_scope c (sf_repo f) (sf_org f) cfg '''' m of
        (Inr target, m) \<Rightarrow>
          (case check_runner_policy (ci_github c) client cfg target (sf_allow_public f) (ms_world m) of
             (Some e, w) \<Rightarrow> (Inl (SetupFailed e), answers, m\<lparr>ms_world := w\<rparr>)
           | (None, w) \<Rightarrow> (Inr target, answers, m\<lparr>ms_world := w\<rparr>))
      | (Inl _, m) \<Rightarrow>
          if sf_yes f then (Inl NoRepositoryGiven, answers, m)
          else if \<not> ci_interactive c then (Inl NoRepositoryGiven, answers, m)
          else case list_repositories (ci_github c) client default_repository_limit True (ms_world m) of
                 (Inl e, w) \<Rightarrow> (Inl (SetupFailed (GitHubError e)), answers, m\<lparr>ms_world := w\<rparr>)
               | (Inr repos, w) \<Rightarrow>
                   if repos = [] then (Inl NoneToAdminister, answers, m\<lparr>ms_world := w\<rparr>)
                   else case pick_repository c client cfg f repos repos answers w of
                          (r, as, w) \<Rightarrow> (r, as, m\<lparr>ms_world := w\<rparr>))"

definition install_dir :: "('y, 'w) cli \<Rightarrow> config \<Rightarrow> setup_flags \<Rightarrow> string \<Rightarrow> string option" where
  "install_dir c cfg f name = ci_abs c (if sf_dir f = '''' then runner_dir (ci_process c) cfg name else sf_dir f)"

definition planned_labels :: "('y, 'w) cli \<Rightarrow> config \<Rightarrow> setup_flags \<Rightarrow> string list option" where
  "planned_labels c cfg f =
     (case platform_for (ie_goos (ci_install c)) (ie_goarch (ci_install c)) of
        None \<Rightarrow> None
      | Some p \<Rightarrow> Some (merge_labels p (split_labels (sf_labels f) cfg)))"

definition confirm_plan ::
  "('y, 'w) cli \<Rightarrow> config \<Rightarrow> setup_flags \<Rightarrow> string \<Rightarrow> string list \<Rightarrow> (setup_error + bool) \<times> string list"
where
  "confirm_plan c cfg f name answers =
     (case install_dir c cfg f name of
        None \<Rightarrow> (Inl (SetupFailed PathFailed), answers)
      | Some _ \<Rightarrow> if sf_yes f then (Inr True, answers) else setup_confirm (ci_interactive c) answers)"

text \<open>The template is a file that decodes to the defaults; here it is an argument.\<close>

definition write_template :: "'y \<Rightarrow> ('y, 'w) cli \<Rightarrow> ('y, 'w) cli_state \<Rightarrow> (setup_error + unit) \<times> ('y, 'w) cli_state" where
  "write_template template c m =
     (case save_file (resolved_config_path c) template (ms_config m) of
        (Inl e, d) \<Rightarrow> (Inl (TemplateFailed e), m\<lparr>ms_config := d\<rparr>)
      | (Inr _, d) \<Rightarrow> (Inr (), m\<lparr>ms_config := d\<rparr>))"

definition register_runner ::
  "('y, 'w) cli \<Rightarrow> gh_client \<Rightarrow> config \<Rightarrow> setup_flags \<Rightarrow> string \<Rightarrow> scope \<Rightarrow> ('y, 'w) cli_state
   \<Rightarrow> (setup_error + installed \<times> bool) \<times> ('y, 'w) cli_state"
where
  "register_runner c client cfg f name target m =
     (case install_dir c cfg f name of
        None \<Rightarrow> (Inl (SetupFailed PathFailed), m)
      | Some dir \<Rightarrow>
          (case register_at c client cfg target
              \<lparr> io_dir = dir, io_name = name, io_labels = split_labels (sf_labels f) cfg,
                io_url = scope_web_url (cg_host (cf_github cfg)) target, io_token = '''', io_group = '''', io_work = '''',
                io_ephemeral = False, io_replace = False \<rparr> m of
             (Inl e, m) \<Rightarrow> (Inl (SetupFailed e), m)
           | (Inr r, m) \<Rightarrow> (Inr r, m)))"

text \<open>\<open>Inr None\<close>: the operator said no to the plan.\<close>

definition setup_run ::
  "'w doctor_env \<Rightarrow> 'y \<Rightarrow> ('y, 'w) cli \<Rightarrow> setup_flags \<Rightarrow> secret_read \<Rightarrow> string list \<Rightarrow> ('y, 'w) cli_state
   \<Rightarrow> (setup_error + (installed \<times> bool) option) \<times> ('y, 'w) cli_state"
where
  "setup_run de template c f secret answers m =
     (case load_config (ci_decode c) (ci_process c) (resolved_config_path c) (ms_config m) of
        ((cfg, found, err), d) \<Rightarrow>
     (case err of
        Some e \<Rightarrow> (Inl (SetupFailed (ConfigError e)), m\<lparr>ms_config := d\<rparr>)
      | None \<Rightarrow>
     (case check_machine de c f cfg (m\<lparr>ms_config := d\<rparr>) of
        (Some e, m) \<Rightarrow> (Inl e, m)
      | (None, m) \<Rightarrow>
     (case ensure_token c f cfg secret m of
        (Inl e, m) \<Rightarrow> (Inl e, m)
      | (Inr client, m) \<Rightarrow>
     (case choose_scope c client cfg f answers m of
        (Inl e, as, m) \<Rightarrow> (Inl e, m)
      | (Inr target, as, m) \<Rightarrow>
          let name = (if sf_name f = '''' then default_runner_name cfg (ci_hostname c) else sf_name f)
          in (case validate_runner_name name of
                Some e \<Rightarrow> (Inl (SetupFailed e), m)
              | None \<Rightarrow>
             (case confirm_plan c cfg f name as of
                (Inl e, _) \<Rightarrow> (Inl e, m)
              | (Inr False, _) \<Rightarrow> (Inr None, m)
              | (Inr True, _) \<Rightarrow>
             (case (if found then (Inr (), m) else write_template template c m) of
                (Inl e, m) \<Rightarrow> (Inl e, m)
              | (Inr _, m) \<Rightarrow>
             (case register_runner c client cfg f name target m of
                (Inl e, m) \<Rightarrow> (Inl e, m)
              | (Inr r, m) \<Rightarrow> (Inr (Some r), m))))))))))"

section \<open>Nothing without consent\<close>

lemma resolve_token_files: "resolve_token path host flag getenv d = (t, d') \<Longrightarrow> dk_files d' = dk_files d"
  by (auto simp: resolve_token_def load_credentials_def next_call_def
      split: if_splits option.splits prod.splits sum.splits file_error.splits dest!: read_fileD)

lemma check_machine_state:
  "check_machine de c f cfg m = (r, m') \<Longrightarrow> ms_fs m' = ms_fs m \<and> ms_config m' = ms_config m \<and> ms_runners m' = ms_runners m
     \<and> dk_files (ms_creds m') = dk_files (ms_creds m)"
  by (auto simp: check_machine_def split: if_splits prod.splits dest!: resolve_token_files)

lemma ensure_token_state:
  "ensure_token c f cfg secret m = (r, m') \<Longrightarrow> ms_fs m' = ms_fs m \<and> ms_config m' = ms_config m \<and> ms_runners m' = ms_runners m
     \<and> ((\<forall>s. secret \<noteq> Secret s) \<longrightarrow> dk_files (ms_creds m') = dk_files (ms_creds m))"
  by (auto simp: ensure_token_def Let_def split: if_splits prod.splits sum.splits secret_read.splits dest!: resolve_token_files)

lemma resolve_scope_other:
  "resolve_scope c repo org cfg name m = (r, m') \<Longrightarrow> ms_config m' = ms_config m \<and> ms_creds m' = ms_creds m"
  by (auto simp: resolve_scope_def recorded_scope_def split: prod.splits sum.splits option.splits if_splits)

lemma pick_repository_rest:
  "pick_repository c client cfg f repos matches answers w = (r, as, w') \<Longrightarrow> set as \<subseteq> set answers"
proof (induction answers arbitrary: matches w r as w' rule: measure_induct_rule [of length])
  case (less answers)
  let ?ms = "if matches = [] then repos else matches"
  show ?case
  proof (cases answers)
    case Nil
    then show ?thesis using less.prems by (auto simp: pick_repository.simps [of c client cfg f repos matches "[]" w] Let_def split: if_splits)
  next
    case (Cons a rest)
    let ?again = "\<lambda>ms rest w. pick_repository c client cfg f repos ms rest w"
    have again: "set as \<subseteq> set answers" if "?again ms rest' w1 = (r, as, w')" "length rest' \<le> length rest" "set rest' \<subseteq> set rest"
      for ms rest' w1
    proof -
      have "length rest' < length answers" using that(2) Cons by simp
      from less.IH [OF this that(1)] show ?thesis using that(3) Cons by auto
    qed
    show ?thesis
    proof (cases "ci_interactive c")
      case False
      then show ?thesis using less.prems by (simp add: pick_repository.simps [of c client cfg f repos matches answers w] Let_def)
    next
      case True
      define meaning where "meaning = pick_meaning (take max_picker_repositories ?ms) (trim_space a)"
      have step: "(case meaning of
            PickNothing \<Rightarrow> (Inl NothingChosen, rest, w)
          | PickOutOfRange \<Rightarrow> ?again ?ms rest w
          | PickSearch \<Rightarrow> ?again (filter_repositories repos (trim_space a)) rest w
          | PickScope (Inl e) \<Rightarrow> (Inl (SetupFailed (ScopeFailed e)), rest, w)
          | PickScope (Inr s) \<Rightarrow>
              (case accept_scope c client cfg f s rest w of
                 (Inl e, as, w) \<Rightarrow> (Inl e, as, w)
               | (Inr True, as, w) \<Rightarrow> (Inr s, as, w)
               | (Inr False, as, w) \<Rightarrow> ?again ?ms as w)) = (r, as, w')"
        using less.prems [unfolded Cons pick_repository.simps [of c client cfg f repos matches "a # rest" w] Let_def] True
        by (simp only: meaning_def list.case not_True_eq_False if_False)
      show ?thesis
      proof (cases meaning)
        case (PickScope parsed_scope)
        show ?thesis
        proof (cases parsed_scope)
          case (Inr s)
          obtain ok rest' w1 where acc: "accept_scope c client cfg f s rest w = (ok, rest', w1)" by (metis prod.collapse)
          note shrink = accept_scope_rest [OF acc]
          show ?thesis
          proof (cases "ok = Inr False")
            case True
            then show ?thesis using step PickScope Inr acc shrink again by simp
          next
            case False
            then have "as = rest'" using step PickScope Inr acc by (auto split: sum.splits bool.splits)
            then show ?thesis using shrink Cons by auto
          qed
        qed (use step PickScope Cons in auto)
      qed (use step again Cons in auto)
    qed
  qed
qed

lemma choose_scope_state:
  assumes "choose_scope c client cfg f answers m = (r, as, m')"
  shows "ms_fs m' = ms_fs m \<and> ms_config m' = ms_config m \<and> ms_creds m' = ms_creds m
    \<and> dk_files (ms_runners m') = dk_files (ms_runners m) \<and> set as \<subseteq> set answers"
proof -
  obtain s m1 where s: "resolve_scope c (sf_repo f) (sf_org f) cfg '''' m = (s, m1)" by fastforce
  have same: "ms_fs m1 = ms_fs m" "ms_config m1 = ms_config m" "ms_creds m1 = ms_creds m" "dk_files (ms_runners m1) = dk_files (ms_runners m)"
    using resolve_scope_state [OF s] resolve_scope_other [OF s] by simp_all
  have "\<exists>w. m' = m1\<lparr>ms_world := w\<rparr> \<or> m' = m1" "set as \<subseteq> set answers"
    using assms s by (auto simp: choose_scope_def split: sum.splits prod.splits option.splits if_splits dest!: pick_repository_rest)
  then show ?thesis using same by auto
qed

lemma confirm_plan_unasked:
  assumes "\<not> sf_yes f" "\<forall>a\<in>set answers. \<not> says_yes a"
  shows "fst (confirm_plan c cfg f name answers) \<noteq> Inr True"
  using assms by (auto simp: confirm_plan_def setup_confirm_def ask_def split: option.splits list.splits)

lemma load_config_files: "load_config dec p path d = (r, d') \<Longrightarrow> dk_files d' = dk_files d"
  by (auto simp: load_config_def next_call_def split: prod.splits sum.splits file_error.splits option.splits dest!: read_fileD)

text \<open>
  C38: nothing is installed, registered, recorded or written unless the operator says yes to the plan: without
  \<open>--yes\<close>, and when none of the lines typed is a yes, \<open>setup\<close> ends without a runner and leaves the files, the
  configuration and the record of runners as they were. The credentials too, unless a token was typed: that is
  stored before the plan is shown.
\<close>

theorem setup_needs_consent:
  assumes "\<not> sf_yes f" "\<forall>a\<in>set answers. \<not> says_yes a" "setup_run de template c f secret answers m = (res, m')"
  shows "(\<forall>r. res \<noteq> Inr (Some r)) \<and> ms_fs m' = ms_fs m \<and> dk_files (ms_config m') = dk_files (ms_config m)
    \<and> dk_files (ms_runners m') = dk_files (ms_runners m)
    \<and> ((\<forall>s. secret \<noteq> Secret s) \<longrightarrow> dk_files (ms_creds m') = dk_files (ms_creds m))"
proof -
  obtain cfg found err d where l: "load_config (ci_decode c) (ci_process c) (resolved_config_path c) (ms_config m) = ((cfg, found, err), d)"
    by (metis prod.collapse)
  note d = load_config_files [OF l]
  show ?thesis
  proof (cases err)
    case (Some e)
    then show ?thesis using assms(3) l d by (auto simp: setup_run_def)
  next
    case None
    obtain e1 m1 where 1: "check_machine de c f cfg (m\<lparr>ms_config := d\<rparr>) = (e1, m1)" by fastforce
    note s1 = check_machine_state [OF 1]
    obtain e2 m2 where 2: "ensure_token c f cfg secret m1 = (e2, m2)" by fastforce
    note s2 = ensure_token_state [OF 2]
    show ?thesis
    proof (cases "e1 = None \<and> (\<exists>client. e2 = Inr client)")
      case False
      then have "(\<exists>e. res = Inl e) \<and> (m' = m1 \<or> m' = m2)"
        using assms(3) None by (auto simp: setup_run_def l 1 2 split: option.splits sum.splits)
      then show ?thesis using s1 s2 d by auto
    next
      case True
      then obtain client where client: "e1 = None" "e2 = Inr client" by blast
      obtain t as m3 where 3: "choose_scope c client cfg f answers m2 = (t, as, m3)" by (metis prod.collapse)
      note s3 = choose_scope_state [OF 3]
      let ?name = "if sf_name f = '''' then default_runner_name cfg (ci_hostname c) else sf_name f"
      have no: "fst (confirm_plan c cfg f ?name as) \<noteq> Inr True"
        using confirm_plan_unasked [OF assms(1), of as] assms(2) s3 by blast
      have "(\<forall>r. res \<noteq> Inr (Some r)) \<and> m' = m3"
        using assms(3) None client no
        by (auto simp: setup_run_def l 1 2 3 Let_def split: option.splits sum.splits prod.splits bool.splits)
      then show ?thesis using s1 s2 s3 d by auto
    qed
  qed
qed

text \<open>A machine with a token in the environment, and an operator who says no.\<close>

definition setup_github :: "gh_request list github" where
  "setup_github rq w =
     (if take 5 (rev (gq_url rq)) = rev ''/user''
      then (Inr \<lparr> gs_status = 200, gs_headers = [], gs_body = GUser (no_user\<lparr>ga_login := ''ann''\<rparr>) \<rparr>, w @ [rq])
      else registering_github rq w)"

definition setup_cli :: "(unit, gh_request list) cli" where
  "setup_cli = create_cli\<lparr>ci_github := setup_github, ci_interactive := True\<rparr>"

definition setup_here :: setup_flags where
  "setup_here = \<lparr> sf_repo = ''acme/app'', sf_org = '''', sf_name = ''n'', sf_labels = ''gpu'', sf_dir = ''/r'', sf_yes = False,
     sf_allow_public = True, sf_skip_doctor = True \<rparr>"

lemma setup_answers:
  "case setup_run de () setup_cli setup_here NoSecretPrompt [''n''] create_state of (Inr None, _) \<Rightarrow> True | _ \<Rightarrow> False"
  "case setup_run de () setup_cli setup_here NoSecretPrompt [''y''] create_state of (Inr (Some (_, ok)), _) \<Rightarrow> ok | _ \<Rightarrow> False"
  by code_simp+

theorem setup_needs_consent_witness:
  "fst (setup_run sample_doctor () setup_cli setup_here NoSecretPrompt [''n''] create_state) = Inr None
    \<and> ms_fs (snd (setup_run sample_doctor () setup_cli setup_here NoSecretPrompt [''n''] create_state)) = ms_fs create_state"
proof -
  obtain res m' where run: "setup_run sample_doctor () setup_cli setup_here NoSecretPrompt [''n''] create_state = (res, m')"
    by fastforce
  have "\<not> sf_yes setup_here" by (simp add: setup_here_def)
  moreover have "\<forall>a\<in>set [''n'']. \<not> says_yes a" by code_simp
  moreover have "res = Inr None" using setup_answers(1) [of sample_doctor] run by (auto split: sum.splits option.splits)
  ultimately show ?thesis using setup_needs_consent [OF _ _ run] run by simp
qed

section \<open>The plan is what happens\<close>

lemma install_labels:
  assumes "install env gh client s opts fs w = (Inr res, fs', w')"
  shows "\<exists>p. platform_for (ie_goos env) (ie_goarch env) = Some p \<and> ir_labels res = merge_labels p (io_labels opts)"
    and "ir_dir res = io_dir opts"
  using assms
  by (auto simp: install_def Let_def split: option.splits if_splits prod.splits sum.splits bool.splits)



text \<open>A typed token is stored whatever the answer to the plan is.\<close>

definition bare_cli :: "(unit, gh_request list) cli" where
  "bare_cli = setup_cli\<lparr>ci_token := ''''\<rparr>"

lemma setup_stores_token_early:
  "case setup_run de () bare_cli setup_here (Secret ''ghp'') [''n''] create_state of (res, m') \<Rightarrow>
     (case res of Inr None \<Rightarrow> True | _ \<Rightarrow> False)
     \<and> (case dk_files (ms_creds m') (credentials_path bare_cli) of
          Some (Doc d) \<Rightarrow> map (gh_token \<circ> snd) (cd_hosts d) = [''ghp''] | _ \<Rightarrow> False)"
  by code_simp

end
