(* ===== verification/Cli_Auth.thy ===== *)
theory Cli_Auth
  imports Doctor
begin

text \<open>
  The small commands: \<open>internal/cli/auth.go\<close> (login, logout, auth status), \<open>repo.go\<close>, \<open>config.go\<close> and
  \<open>doctor.go\<close>. A command that sets the exit code without a message of its own is \<open>ExitOne\<close>.
\<close>

section \<open>Signing in and out\<close>

datatype auth_error =
    AuthCli cli_error
  | NoTokenSupplied
  | NoTokenRead
  | NotAccepted gh_error
  | AuthFile file_error
  | ExitOne

definition or_config_host :: "string \<Rightarrow> config \<Rightarrow> string" where
  "or_config_host host cfg = (if host = '''' then cg_host (cf_github cfg) else host)"

text \<open>\<open>input\<close> is the first line of standard input, as \<open>auth.ReadToken\<close> takes it.\<close>

definition login_command ::
  "('y, 'w) cli \<Rightarrow> bool \<Rightarrow> string \<Rightarrow> string option \<Rightarrow> ('y, 'w) cli_state \<Rightarrow> (auth_error + identity) \<times> ('y, 'w) cli_state"
where
  "login_command c with_token host input m =
     (case cli_config c m of
        (Inl e, m) \<Rightarrow> (Inl (AuthCli e), m)
      | (Inr cfg, m) \<Rightarrow>
          let host = or_config_host host cfg
          in if \<not> with_token then (Inl NoTokenSupplied, m)
             else case input of
                    None \<Rightarrow> (Inl NoTokenRead, m)
                  | Some token \<Rightarrow>
                      (case identify (ci_github c) (new_for_host host token) (ms_world m) of
                         (Inl e, w) \<Rightarrow> (Inl (NotAccepted e), m\<lparr>ms_world := w\<rparr>)
                       | (Inr i, w) \<Rightarrow>
                           (case store_host (credentials_path c) (ci_now c) host
                               \<lparr> gh_token = token, gh_user = ga_login (id_user i), gh_scopes = id_scopes i, gh_created = zero_time \<rparr>
                               (ms_creds m) of
                              (Inl e, d) \<Rightarrow> (Inl (AuthFile e), m\<lparr>ms_world := w, ms_creds := d\<rparr>)
                            | (Inr _, d) \<Rightarrow> (Inr i, m\<lparr>ms_world := w, ms_creds := d\<rparr>))))"

text \<open>\<open>Inr None\<close>: the operator said no; \<open>Inr (Some b)\<close>: whether there was a token to remove.\<close>

definition logout_command ::
  "('y, 'w) cli \<Rightarrow> string \<Rightarrow> bool \<Rightarrow> ('y, 'w) cli_state \<Rightarrow> (auth_error + bool option) \<times> ('y, 'w) cli_state"
where
  "logout_command c host yes m =
     (case cli_config c m of
        (Inl e, m) \<Rightarrow> (Inl (AuthCli e), m)
      | (Inr cfg, m) \<Rightarrow>
          (case (if yes then Inr True else confirm (ci_interactive c) (ci_answer c)) of
             Inl e \<Rightarrow> (Inl (AuthCli e), m)
           | Inr False \<Rightarrow> (Inr None, m)
           | Inr True \<Rightarrow>
               (case delete_host (credentials_path c) (or_config_host host cfg) (ms_creds m) of
                  (Inl e, d) \<Rightarrow> (Inl (AuthFile e), m\<lparr>ms_creds := d\<rparr>)
                | (Inr b, d) \<Rightarrow> (Inr (Some b), m\<lparr>ms_creds := d\<rparr>))))"

record auth_status =
  as_host :: string
  as_authenticated :: bool
  as_user :: string
  as_source :: "token_source option"
  as_origin :: string
  as_scopes :: "string list"
  as_fine_grained :: bool

definition no_status :: "string \<Rightarrow> auth_status" where
  "no_status host = \<lparr> as_host = host, as_authenticated = False, as_user = '''', as_source = None, as_origin = '''',
     as_scopes = [], as_fine_grained = False \<rparr>"

definition render_auth_status :: "auth_status \<Rightarrow> auth_error option" where
  "render_auth_status s = (if as_authenticated s then None else Some ExitOne)"

definition auth_status_command ::
  "('y, 'w) cli \<Rightarrow> bool \<Rightarrow> ('y, 'w) cli_state \<Rightarrow> (auth_error + auth_status \<times> auth_error option) \<times> ('y, 'w) cli_state"
where
  "auth_status_command c offline m =
     (case cli_config c m of
        (Inl e, m) \<Rightarrow> (Inl (AuthCli e), m)
      | (Inr cfg, m) \<Rightarrow>
          let host = cg_host (cf_github cfg); shown = (\<lambda>s. Inr (s, render_auth_status s))
          in case resolve_token (credentials_path c) host (ci_token c) (ps_env (ci_process c)) (ms_creds m) of
               (Inl e, d) \<Rightarrow> (shown (no_status host), m\<lparr>ms_creds := d\<rparr>)
             | (Inr t, d) \<Rightarrow>
                 let s = (no_status host)\<lparr>as_source := Some (tk_source t), as_origin := tk_origin t, as_user := tk_user t\<rparr>;
                     m = m\<lparr>ms_creds := d\<rparr>
                 in if offline then (shown (s\<lparr>as_authenticated := True\<rparr>), m)
                    else case identify (ci_github c) (new_for_host host (tk_value t)) (ms_world m) of
                           (Inl e, w) \<Rightarrow> (shown s, m\<lparr>ms_world := w\<rparr>)
                         | (Inr i, w) \<Rightarrow>
                             (shown (s\<lparr>as_authenticated := True, as_user := ga_login (id_user i), as_scopes := id_scopes i,
                                as_fine_grained := id_fine_grained i\<rparr>), m\<lparr>ms_world := w\<rparr>))"

section \<open>Repositories\<close>

definition yes_no :: "bool \<Rightarrow> string" where "yes_no b = (if b then ''yes'' else ''no'')"

definition join_labels :: "string list \<Rightarrow> string" where
  "join_labels names = (if names = [] then ''-'' else join_on CHR '','' names)"

definition repository_row :: "repository \<Rightarrow> string list" where
  "repository_row r =
     [rp_full_name r, (if rp_private r then ''private'' else ''public'') @ (if rp_archived r then '', archived'' else ''''),
      yes_no (rp_admin r)]"

definition repo_list_command ::
  "('y, 'w) cli \<Rightarrow> string option \<Rightarrow> bool \<Rightarrow> int \<Rightarrow> ('y, 'w) cli_state \<Rightarrow> (auth_error + repository list) \<times> ('y, 'w) cli_state"
where
  "repo_list_command c arg all' limit m =
     (case github_client c m of
        (Inl e, m) \<Rightarrow> (Inl (AuthCli e), m)
      | (Inr (client, _), m) \<Rightarrow>
          (case search_repositories (ci_github c) client (case arg of Some q \<Rightarrow> q | None \<Rightarrow> '''') limit (\<not> all') (ms_world m) of
             (Inl e, w) \<Rightarrow> (Inl (AuthCli (GitHubError e)), m\<lparr>ms_world := w\<rparr>)
           | (Inr rs, w) \<Rightarrow> (Inr rs, m\<lparr>ms_world := w\<rparr>)))"

section \<open>The configuration\<close>

datatype config_command_error = ConfigCli cli_error | AlreadyThere | WriteFailed file_error | NotValid config_error

definition config_path_command :: "('y, 'w) cli \<Rightarrow> string" where
  "config_path_command c = (if ci_config c = '''' then config_path (ci_process c) else ci_config c)"

text \<open>What is printed as YAML: the configuration in force, its secrets included, and whether there is a file.\<close>

definition config_show_command ::
  "('y, 'w) cli \<Rightarrow> ('y, 'w) cli_state \<Rightarrow> (config_command_error + config) \<times> ('y, 'w) cli_state"
where
  "config_show_command c m =
     (case cli_config c m of (Inl e, m) \<Rightarrow> (Inl (ConfigCli e), m) | (Inr cfg, m) \<Rightarrow> (Inr cfg, m))"

text \<open>\<open>os.Stat\<close>: that it fails, for whatever reason, counts as no file.\<close>

definition stat_file :: "string \<Rightarrow> 'y disk \<Rightarrow> bool \<times> 'y disk" where
  "stat_file path d = (\<not> faulty d \<and> dk_files d path \<noteq> None, next_call d)"

definition config_init_command ::
  "'y \<Rightarrow> ('y, 'w) cli \<Rightarrow> bool \<Rightarrow> ('y, 'w) cli_state \<Rightarrow> (config_command_error + unit) \<times> ('y, 'w) cli_state"
where
  "config_init_command template c force m =
     (case stat_file (config_path_command c) (ms_config m) of
        (there, d) \<Rightarrow>
          if there \<and> \<not> force then (Inl AlreadyThere, m\<lparr>ms_config := d\<rparr>)
          else case save_file (config_path_command c) template d of
                 (Inl e, d) \<Rightarrow> (Inl (WriteFailed e), m\<lparr>ms_config := d\<rparr>)
               | (Inr _, d) \<Rightarrow> (Inr (), m\<lparr>ms_config := d\<rparr>))"

definition config_validate_command ::
  "('y, 'w) cli \<Rightarrow> ('y, 'w) cli_state \<Rightarrow> config_command_error option \<times> ('y, 'w) cli_state"
where
  "config_validate_command c m =
     (case cli_config c m of
        (Inl e, m) \<Rightarrow> (Some (ConfigCli e), m)
      | (Inr cfg, m) \<Rightarrow> (map_option NotValid (validate_config cfg), m))"

section \<open>The machine\<close>

definition doctor_command ::
  "'w doctor_env \<Rightarrow> ('y, 'w) cli \<Rightarrow> bool \<Rightarrow> ('y, 'w) cli_state \<Rightarrow> (auth_error + report \<times> auth_error option) \<times> ('y, 'w) cli_state"
where
  "doctor_command de c offline m =
     (case cli_config c m of
        (Inl e, m) \<Rightarrow> (Inl (AuthCli e), m)
      | (Inr cfg, m) \<Rightarrow>
          (case resolve_token (credentials_path c) (cg_host (cf_github cfg)) (ci_token c) (ps_env (ci_process c)) (ms_creds m) of
             (t, d) \<Rightarrow>
               (case doctor_run de \<lparr> do_config = cfg, do_token = (case t of Inr t \<Rightarrow> tk_value t | Inl _ \<Rightarrow> ''''), do_offline = offline \<rparr> (ms_world m) of
                  (r, w) \<Rightarrow> (Inr (r, if report_ok r then None else Some ExitOne), m\<lparr>ms_creds := d, ms_world := w\<rparr>))))"

section \<open>Guarantees\<close>

lemma resolve_token_at:
  assumes "\<forall>n\<in>set env_vars. trim_space (getenv n) = ''''" "dk_files d path = Some (Doc cd)"
  shows "fst (resolve_token path host '''' getenv (d\<lparr>dk_faults := []\<rparr>)) =
    (case host_at path host d of
       Some h \<Rightarrow> if gh_token h \<noteq> '''' then Inr \<lparr> tk_value = gh_token h, tk_source = SourceFile, tk_origin = path, tk_user = gh_user h \<rparr>
                else Inl (NoToken (normalize_host host))
     | None \<Rightarrow> Inl (NoToken (normalize_host host)))"
proof -
  have "find (\<lambda>n. trim_space (getenv n) \<noteq> '''') env_vars = None" using assms(1) by (auto simp: find_None_iff)
  moreover have "load_credentials path (d\<lparr>dk_faults := []\<rparr>) = (Inr cd, next_call (d\<lparr>dk_faults := []\<rparr>))"
    using load_doc [of "d\<lparr>dk_faults := []\<rparr>" path cd] assms(2) by simp
  moreover have "trim_space '''' = ''''" by code_simp
  ultimately show ?thesis
    using assms(2) by (auto simp: resolve_token_def host_at_def creds_at_def split: option.splits)
qed

lemma login_stores:
  assumes "login_command c True host (Some t) m = (Inr i, m')" "host \<noteq> ''''"
  shows "\<exists>d. store_host (credentials_path c) (ci_now c) host
      \<lparr> gh_token = t, gh_user = ga_login (id_user i), gh_scopes = id_scopes i, gh_created = zero_time \<rparr> d = (Inr (), ms_creds m')"
proof -
  obtain r m1 where 1: "cli_config c m = (r, m1)" by fastforce
  obtain cfg where r: "r = Inr cfg" using assms(1) 1 by (cases r) (simp_all add: login_command_def)
  obtain q w where 2: "identify (ci_github c) (new_for_host host t) (ms_world m1) = (q, w)" by fastforce
  obtain k where q: "q = Inr k" using assms 1 r 2 by (cases q) (simp_all add: login_command_def or_config_host_def)
  obtain u d where 3: "store_host (credentials_path c) (ci_now c) host
      \<lparr> gh_token = t, gh_user = ga_login (id_user k), gh_scopes = id_scopes k, gh_created = zero_time \<rparr> (ms_creds m1) = (u, d)" by fastforce
  have "u = Inr () \<and> i = k \<and> ms_creds m' = d"
    using assms 1 r 2 q 3 by (cases u) (auto simp: login_command_def or_config_host_def)
  then show ?thesis using 3 by blast
qed

lemma logout_deletes:
  assumes "logout_command c host True m = (Inr b, m')" "host \<noteq> ''''"
  shows "\<exists>r. b = Some r \<and> delete_host (credentials_path c) host (ms_creds m) = (Inr r, ms_creds m')"
proof -
  obtain r m1 where 1: "cli_config c m = (r, m1)" by fastforce
  obtain cfg where r: "r = Inr cfg" using assms(1) 1 by (cases r) (simp_all add: logout_command_def)
  have creds: "ms_creds m1 = ms_creds m" using 1 by (auto simp: cli_config_def split: prod.splits)
  obtain q d where 2: "delete_host (credentials_path c) host (ms_creds m1) = (q, d)" by fastforce
  show ?thesis using assms 1 r 2 creds by (cases q) (auto simp: logout_command_def or_config_host_def)
qed

lemma store_host_file: "store_host path now host h d = (Inr u, d') \<Longrightarrow> \<exists>cd. dk_files d' path = Some (Doc cd)"
  by (auto simp: store_host_def split: prod.splits sum.splits dest!: save_file_ok)


text \<open>A machine with nothing on it, and a GitHub that knows the token.\<close>

definition ann_github :: "gh_request list github" where
  "ann_github rq w = (Inr \<lparr> gs_status = 200, gs_headers = [], gs_body = GUser (no_user\<lparr>ga_login := ''ann''\<rparr>) \<rparr>, w @ [rq])"

definition ann_cli :: "(unit, gh_request list) cli" where
  "ann_cli = sample_cli\<lparr>ci_github := ann_github\<rparr>"


end
