(* ===== verification/Web.thy ===== *)
theory Web
  imports Go_Path
begin

text \<open>
  \<open>internal/web/web.go\<close>: the handler of the dashboard, with \<open>http.FileServer\<close> as far as it serves what the handler
  hands it: the redirects between \<open>index.html\<close>, directories and files, and the listing of a directory without an
  index. The names of the embedded file system have no leading slash; its root is the name \<open>.\<close>. Byte ranges and
  conditional requests are left out: they answer with a part of the same file, or with none.
\<close>

section \<open>The files\<close>

datatype asset = Page string | Folder

text \<open>\<open>Broken\<close> is a name that cannot be read, for another reason than that it is not there.\<close>

datatype look_up = Found asset | Missing | Broken

type_synonym assets = "string \<Rightarrow> look_up"

definition index_html :: string where "index_html = ''index.html''"

definition web_available :: "assets \<Rightarrow> bool" where
  "web_available files \<longleftrightarrow> (case files index_html of Found _ \<Rightarrow> True | _ \<Rightarrow> False)"

section \<open>Answers\<close>

datatype caching = NoHeader | NoCache | Immutable

text \<open>The name of the file, \<open>Listing\<close> the names of a directory, and where a redirect leads.\<close>

datatype web_body = NotBuilt | File string string | Listing string | Redirect string | WebError

record web_reply =
  wr_status :: nat
  wr_caching :: caching
  wr_body :: "web_body option"

definition serve_index :: "assets \<Rightarrow> string \<Rightarrow> web_reply" where
  "serve_index files mth =
     (case files index_html of
        Found (Page body) \<Rightarrow>
          \<lparr> wr_status = 200, wr_caching = NoCache,
             wr_body = (if mth \<noteq> ''HEAD'' then Some (File index_html body) else None) \<rparr>
      | _ \<Rightarrow> \<lparr> wr_status = 500, wr_caching = NoHeader, wr_body = Some WebError \<rparr>)"

text \<open>
  \<open>http.FileServer\<close>, given the caching that the handler has set, which stays on a redirect and leaves an error.
  The name looked up is the path, cleaned as a rooted one.
\<close>

definition rooted :: "string \<Rightarrow> string" where
  "rooted p = (if prefix ''/'' p then p else ''/'' @ p)"

definition fs_name :: "string \<Rightarrow> string" where
  "fs_name p = (let n = trim_prefix ''/'' (path_clean (rooted p)) in if n = '''' then ''.'' else n)"

definition wants_index :: "string \<Rightarrow> bool" where
  "wants_index p \<longleftrightarrow> suffix ''/index.html'' (rooted p)"

definition index_in :: "string \<Rightarrow> string" where
  "index_in name = (if name = ''.'' then index_html else name @ ''/'' @ index_html)"

definition ends_in_slash :: "string \<Rightarrow> bool" where
  "ends_in_slash p \<longleftrightarrow> p \<noteq> [] \<and> last p = CHR ''/''"

definition file_body :: "string \<Rightarrow> string \<Rightarrow> string \<Rightarrow> web_body option" where
  "file_body mth name body = (if mth = ''HEAD'' then None else Some (File name body))"

definition serve_file :: "assets \<Rightarrow> string \<Rightarrow> string \<Rightarrow> caching \<Rightarrow> web_reply" where
  "serve_file files mth path cache =
     (let redirect = (\<lambda>target. \<lparr> wr_status = 301, wr_caching = cache, wr_body = Some (Redirect target) \<rparr>)
      in if wants_index path then redirect ''./''
         else case files (fs_name path) of
                Missing \<Rightarrow> \<lparr> wr_status = 404, wr_caching = NoHeader, wr_body = Some WebError \<rparr>
              | Broken \<Rightarrow> \<lparr> wr_status = 500, wr_caching = NoHeader, wr_body = Some WebError \<rparr>
              | Found (Page body) \<Rightarrow>
                  if ends_in_slash (rooted path) then redirect (''../'' @ path_base (rooted path))
                  else \<lparr> wr_status = 200, wr_caching = cache, wr_body = file_body mth (fs_name path) body \<rparr>
              | Found Folder \<Rightarrow>
                  if \<not> ends_in_slash (rooted path) then redirect (path_base (rooted path) @ ''/'')
                  else (case files (index_in (fs_name path)) of
                          Found (Page body) \<Rightarrow>
                            \<lparr> wr_status = 200, wr_caching = cache, wr_body = file_body mth (index_in (fs_name path)) body \<rparr>
                        | Found Folder \<Rightarrow>
                            \<lparr> wr_status = 200, wr_caching = cache, wr_body = Some (Listing (index_in (fs_name path))) \<rparr>
                        | _ \<Rightarrow> \<lparr> wr_status = 200, wr_caching = cache, wr_body = Some (Listing (fs_name path)) \<rparr>))"

text \<open>\<open>Handler\<close>.\<close>

definition web_name :: "string \<Rightarrow> string" where
  "web_name path = (let n = trim_prefix ''/'' (path_clean path) in if n = '''' \<or> n = ''.'' then index_html else n)"

definition web_handler :: "assets \<Rightarrow> string \<Rightarrow> string \<Rightarrow> web_reply" where
  "web_handler files mth path =
     (if \<not> web_available files then \<lparr> wr_status = 200, wr_caching = NoHeader, wr_body = Some NotBuilt \<rparr>
      else case files (web_name path) of
             Missing \<Rightarrow> serve_index files mth
           | Broken \<Rightarrow> \<lparr> wr_status = 500, wr_caching = NoHeader, wr_body = Some WebError \<rparr>
           | Found _ \<Rightarrow> serve_file files mth path (if prefix ''assets/'' (web_name path) then Immutable else NoCache))"

section \<open>Guarantees\<close>

lemma names_agree:
  assumes "prefix ''/'' path"
  shows "web_name path = (if fs_name path = ''.'' then index_html else fs_name path)"
  using assms by (simp add: web_name_def fs_name_def rooted_def Let_def)

lemma served_page:
  assumes "wr_body (serve_file files mth path cache) = Some (File n body)"
  shows "wr_caching (serve_file files mth path cache) = cache
    \<and> (n = fs_name path \<or> n = index_in (fs_name path))"
  using assms by (auto simp: serve_file_def file_body_def Let_def split: look_up.splits asset.splits if_splits)

lemma served_status:
  assumes "files (fs_name path) = Found a"
  shows "wr_status (serve_file files mth path cache) \<in> {200, 301} \<and> wr_caching (serve_file files mth path cache) = cache"
  using assms by (auto simp: serve_file_def Let_def split: look_up.splits asset.splits)

lemma index_not_asset: "\<not> prefix ''assets/'' index_html"
  by (simp add: index_html_def)

text \<open>
  C28: an upgrade of the server reaches every browser: for any request and any set of built files, the page itself is
  sent so that it is asked for again each time, and only what lies under \<open>assets/\<close> may be kept for good; a path that
  is no file gets the page, with status 200, for the browser's router to decide on, and nothing is ever a 404.
\<close>

theorem dashboard_shell_fresh:
  assumes "prefix ''/'' path" "files ''.'' = Found Folder" "files index_html = Found (Page page)"
  shows "let r = web_handler files mth path
    in wr_status r \<in> {200, 301, 500}
      \<and> (\<forall>body. wr_body r = Some (File index_html body) \<longrightarrow> wr_caching r = NoCache)
      \<and> (wr_caching r = Immutable \<longrightarrow> prefix ''assets/'' (web_name path) \<and> (\<exists>a. files (web_name path) = Found a))
      \<and> (files (web_name path) = Missing \<and> mth \<noteq> ''HEAD'' \<longrightarrow>
          r = \<lparr> wr_status = 200, wr_caching = NoCache, wr_body = Some (File index_html page) \<rparr>)"
proof -
  have here: "web_available files" using assms(3) by (simp add: web_available_def)
  show ?thesis
  proof (cases "files (web_name path)")
    case (Found a)
    define cache where "cache = (if prefix ''assets/'' (web_name path) then Immutable else NoCache)"
    have r: "web_handler files mth path = serve_file files mth path cache"
      using here Found by (simp add: web_handler_def cache_def)
    obtain b where "files (fs_name path) = Found b"
      using Found assms(2) names_agree [OF assms(1)] by (auto split: if_splits)
    then have status: "wr_status (serve_file files mth path cache) \<in> {200, 301} \<and> wr_caching (serve_file files mth path cache) = cache"
      by (rule served_status)
    have "cache = NoCache" if "wr_body (serve_file files mth path cache) = Some (File index_html body)" for body
    proof -
      have "fs_name path = index_html \<or> fs_name path = ''.''"
        using served_page [OF that] by (auto simp: index_in_def split: if_splits)
      then have "web_name path = index_html" using names_agree [OF assms(1)] by (auto simp: index_html_def)
      then show ?thesis using index_not_asset by (simp add: cache_def)
    qed
    then show ?thesis using status Found by (auto simp: r Let_def cache_def split: if_splits)
  qed (use here assms(3) in \<open>auto simp: web_handler_def serve_index_def Let_def\<close>)
qed

definition built_files :: assets where
  "built_files n =
     (if n = ''.'' \<or> n = ''assets'' then Found Folder
      else if n = index_html then Found (Page ''shell'')
      else if n = ''assets/a.js'' then Found (Page ''code'') else Missing)"

theorem dashboard_shell_fresh_witness:
  "web_handler built_files ''GET'' ''/runners/7'' = \<lparr> wr_status = 200, wr_caching = NoCache, wr_body = Some (File index_html ''shell'') \<rparr>
   \<and> web_handler built_files ''GET'' ''/assets/a.js''
      = \<lparr> wr_status = 200, wr_caching = Immutable, wr_body = Some (File ''assets/a.js'' ''code'') \<rparr>"
proof -
  have "built_files (web_name ''/runners/7'') = Missing" by code_simp
  moreover have "web_handler built_files ''GET'' ''/assets/a.js''
      = \<lparr> wr_status = 200, wr_caching = Immutable, wr_body = Some (File ''assets/a.js'' ''code'') \<rparr>" by code_simp
  ultimately show ?thesis
    using dashboard_shell_fresh [of "''/runners/7''" built_files "''shell''" "''GET''"]
    by (simp add: built_files_def index_html_def Let_def)
qed

text \<open>The names under \<open>assets/\<close> can be listed.\<close>

lemma assets_listed: "wr_body (web_handler built_files ''GET'' ''/assets/'') = Some (Listing ''assets'')"
  by code_simp

end
