(* ===== verification/Ui.thy ===== *)
theory Ui
  imports Go_Runes
begin

text \<open>
  Terminal output: \<open>internal/ui/ui.go\<close> and \<open>table.go\<close>. A string is its UTF-8 bytes, and what a printer writes is the
  string of each call. The width of a cell is its number of runes.
\<close>

section \<open>Styles\<close>

datatype color = Reset | Bold | Dim | Red | Green | Yellow | NoColor

definition escape_code :: "color \<Rightarrow> string" where
  "escape_code c =
     (case c of
        Reset \<Rightarrow> CHR 0x1B # ''[0m'' | Bold \<Rightarrow> CHR 0x1B # ''[1m'' | Dim \<Rightarrow> CHR 0x1B # ''[2m'' | Red \<Rightarrow> CHR 0x1B # ''[31m''
      | Green \<Rightarrow> CHR 0x1B # ''[32m'' | Yellow \<Rightarrow> CHR 0x1B # ''[33m'' | NoColor \<Rightarrow> [])"

record printer =
  pr_color :: bool

definition paint :: "printer \<Rightarrow> color \<Rightarrow> string \<Rightarrow> string" where
  "paint p c s = (if \<not> pr_color p \<or> c = NoColor then s else escape_code c @ s @ escape_code Reset)"

text \<open>Whether the environment and the writer allow color.\<close>

definition color_enabled :: "(string \<Rightarrow> string) \<Rightarrow> bool \<Rightarrow> bool" where
  "color_enabled getenv terminal =
     (if getenv ''NO_COLOR'' \<noteq> '''' then False else if getenv ''TERM'' = ''dumb'' then False else terminal)"

definition new_printer :: "(string \<Rightarrow> string) \<Rightarrow> bool \<Rightarrow> printer" where
  "new_printer getenv terminal = \<lparr> pr_color = color_enabled getenv terminal \<rparr>"

section \<open>Lines\<close>

definition end_line :: char where "end_line = CHR 0x0A"

definition symbol_pass :: string where "symbol_pass = [CHR 0xE2, CHR 0x9C, CHR 0x93]"
definition symbol_fail :: string where "symbol_fail = [CHR 0xE2, CHR 0x9C, CHR 0x97]"
definition symbol_warn :: string where "symbol_warn = ''!''"
definition symbol_skip :: string where "symbol_skip = [CHR 0xE2, CHR 0x97, CHR 0x8B]"

definition status_line :: "printer \<Rightarrow> color \<Rightarrow> string \<Rightarrow> string \<Rightarrow> string" where
  "status_line p c symbol msg = paint p c symbol @ '' '' @ msg @ [end_line]"

definition pass_line :: "printer \<Rightarrow> string \<Rightarrow> string" where "pass_line p = status_line p Green symbol_pass"
definition fail_line :: "printer \<Rightarrow> string \<Rightarrow> string" where "fail_line p = status_line p Red symbol_fail"
definition warn_line :: "printer \<Rightarrow> string \<Rightarrow> string" where "warn_line p = status_line p Yellow symbol_warn"
definition skip_line :: "printer \<Rightarrow> string \<Rightarrow> string" where "skip_line p = status_line p Dim symbol_skip"

definition heading :: "printer \<Rightarrow> string \<Rightarrow> string" where "heading p s = paint p Bold s @ [end_line, end_line]"
definition dim_line :: "printer \<Rightarrow> string \<Rightarrow> string" where "dim_line p s = paint p Dim s @ [end_line]"

definition split_lines :: "string \<Rightarrow> string list" where
  "split_lines s =
     (let s = trim_right (\<lambda>c. c = end_line) s in if trim_space s = '''' then [] else split_on end_line s)"

definition indent_pad :: string where "indent_pad = ''  ''"

definition detail :: "printer \<Rightarrow> string \<Rightarrow> string" where
  "detail p s = concat (map (\<lambda>l. indent_pad @ paint p Dim l @ [end_line]) (split_lines s))"

definition remedy :: "printer \<Rightarrow> string \<Rightarrow> string" where
  "remedy p s =
     (if split_lines s = [] then ''''
      else indent_pad @ ''Try:'' @ [end_line]
        @ concat (map (\<lambda>l. indent_pad @ indent_pad @ paint p Bold l @ [end_line]) (split_lines s)))"

section \<open>Tables\<close>

definition column_gap :: string where "column_gap = ''  ''"

record table =
  tb_headers :: "string list"
  tb_rows :: "string list list"

definition new_table :: "string list \<Rightarrow> table" where
  "new_table headers = \<lparr> tb_headers = headers, tb_rows = [] \<rparr>"

definition add_row :: "string list \<Rightarrow> table \<Rightarrow> table" where
  "add_row cells t = t\<lparr>tb_rows := tb_rows t @ [cells]\<rparr>"

definition rune_count :: "string \<Rightarrow> nat" where
  "rune_count s = length (runes s)"

definition column_count :: "table \<Rightarrow> nat" where
  "column_count t = foldl (\<lambda>n r. if n < length r then length r else n) (length (tb_headers t)) (tb_rows t)"

text \<open>The widths raised by the cells of one row.\<close>

fun widen :: "nat list \<Rightarrow> string list \<Rightarrow> nat list" where
  "widen ws [] = ws"
| "widen [] (c # cs) = []"
| "widen (w # ws) (c # cs) = (if w < rune_count c then rune_count c else w) # widen ws cs"

definition widths :: "table \<Rightarrow> nat list" where
  "widths t =
     foldl widen (map rune_count (tb_headers t) @ replicate (column_count t - length (tb_headers t)) 0) (tb_rows t)"

text \<open>\<open>None\<close> is the panic of \<open>strings.Repeat\<close> with a negative count.\<close>

definition spaces :: "nat \<Rightarrow> nat \<Rightarrow> string option" where
  "spaces w n = (if w < n then None else Some (replicate (w - n) CHR '' ''))"

text \<open>The cells from the \<open>i\<close>th on; the last is not padded, and one beyond the widths neither.\<close>

fun row_from :: "nat \<Rightarrow> string list \<Rightarrow> nat list \<Rightarrow> string option" where
  "row_from i [] ws = Some ''''"
| "row_from i (c # cs) ws =
     (case (if cs \<noteq> [] \<and> i < length ws then spaces (ws ! i) (rune_count c) else Some '''') of
        None \<Rightarrow> None
      | Some pad \<Rightarrow> map_option (\<lambda>rest. (if 0 < i then column_gap else '''') @ c @ pad @ rest) (row_from (Suc i) cs ws))"

definition render_row :: "string list \<Rightarrow> nat list \<Rightarrow> string option" where
  "render_row cells ws = row_from 0 cells ws"

fun render_rows :: "string list list \<Rightarrow> nat list \<Rightarrow> string option" where
  "render_rows [] ws = Some ''''"
| "render_rows (r # rs) ws =
     (case render_row r ws of
        None \<Rightarrow> None
      | Some line \<Rightarrow> map_option (\<lambda>rest. line @ end_line # rest) (render_rows rs ws))"

definition print_table :: "printer \<Rightarrow> table \<Rightarrow> string option" where
  "print_table p t =
     (if tb_rows t = [] then Some ''''
      else let ws = widths t
           in case (if tb_headers t = [] then Some ''''
                    else map_option (\<lambda>line. paint p Dim line @ [end_line]) (render_row (tb_headers t) ws)) of
                None \<Rightarrow> None
              | Some header \<Rightarrow> map_option (\<lambda>rows. header @ rows) (render_rows (tb_rows t) ws))"

section \<open>Widths\<close>

definition fits :: "string list \<Rightarrow> nat list \<Rightarrow> bool" where
  "fits cells ws \<longleftrightarrow> length cells \<le> length ws \<and> (\<forall>i<length cells. rune_count (cells ! i) \<le> ws ! i)"

lemma widen_length [simp]: "length (widen ws cs) = length ws"
  by (induction ws cs rule: widen.induct) auto

lemma widen_grows: "i < length ws \<Longrightarrow> ws ! i \<le> widen ws cs ! i"
proof (induction ws cs arbitrary: i rule: widen.induct)
  case (3 w ws c cs)
  then show ?case by (cases i) auto
qed auto

lemma widen_fits: "length cs \<le> length ws \<Longrightarrow> fits cs (widen ws cs)"
proof (induction ws cs rule: widen.induct)
  case (3 w ws c cs)
  then show ?case by (auto simp: fits_def nth_Cons split: nat.splits)
qed (auto simp: fits_def)

lemma foldl_widen:
  "length (foldl widen ws rs) = length ws"
  "i < length ws \<Longrightarrow> ws ! i \<le> foldl widen ws rs ! i"
proof -
  show len: "length (foldl widen ws rs) = length ws" for ws rs
    by (induction rs arbitrary: ws) auto
  show "i < length ws \<Longrightarrow> ws ! i \<le> foldl widen ws rs ! i"
  proof (induction rs arbitrary: ws)
    case (Cons r rs)
    have "ws ! i \<le> widen ws r ! i" using Cons.prems by (rule widen_grows)
    also have "\<dots> \<le> foldl widen (widen ws r) rs ! i" using Cons.prems by (intro Cons.IH) simp
    finally show ?case by simp
  qed simp
qed

lemma fits_more: "fits cs ws \<Longrightarrow> length ws = length vs \<Longrightarrow> (\<And>i. i < length ws \<Longrightarrow> ws ! i \<le> vs ! i) \<Longrightarrow> fits cs vs"
  unfolding fits_def by (metis order_less_le_trans le_trans)

lemma foldl_fits:
  assumes "\<forall>r\<in>set rs. length r \<le> length ws" "r \<in> set rs"
  shows "fits r (foldl widen ws rs)"
  using assms
proof (induction rs arbitrary: ws)
  case (Cons q rs)
  show ?case
  proof (cases "r \<in> set rs")
    case True
    then show ?thesis using Cons by simp
  next
    case False
    then have "r = q" using Cons.prems by simp
    then have "fits r (widen ws q)" using Cons.prems widen_fits by simp
    then show ?thesis by (rule fits_more) (simp_all add: foldl_widen)
  qed
qed simp

lemma count_bounds:
  fixes n :: nat and rs :: "'a list list"
  defines "m \<equiv> foldl (\<lambda>n r. if n < length r then length r else n) n rs"
  shows "n \<le> m" "r \<in> set rs \<Longrightarrow> length r \<le> m"
proof -
  have grow: "n \<le> foldl (\<lambda>n r. if n < length r then length r else n) n rs" for n and rs :: "'a list list"
  proof (induction rs arbitrary: n)
    case (Cons r rs)
    have "n \<le> (if n < length r then length r else n)" by simp
    also note Cons.IH [of "if n < length r then length r else n"]
    finally show ?case by simp
  qed simp
  then show "n \<le> m" by (simp add: m_def)
  show "r \<in> set rs \<Longrightarrow> length r \<le> m"
    unfolding m_def
  proof (induction rs arbitrary: n)
    case (Cons q rs)
    then show ?case
      using grow [of "if n < length q then length q else n" rs] by (cases "r = q") (auto split: if_splits)
  qed simp
qed

lemma widths_fit:
  "r \<in> set (tb_rows t) \<Longrightarrow> fits r (widths t)"
  "fits (tb_headers t) (widths t)"
proof -
  let ?ws = "map rune_count (tb_headers t) @ replicate (column_count t - length (tb_headers t)) 0"
  have "length (tb_headers t) \<le> column_count t" unfolding column_count_def by (rule count_bounds(1))
  then have len: "length ?ws = column_count t" by simp
  show "r \<in> set (tb_rows t) \<Longrightarrow> fits r (widths t)"
    unfolding widths_def using count_bounds(2) len by (intro foldl_fits) (auto simp: column_count_def)
  have "fits (tb_headers t) ?ws" by (simp add: fits_def nth_append)
  then show "fits (tb_headers t) (widths t)"
    unfolding widths_def by (rule fits_more) (simp_all add: foldl_widen)
qed

section \<open>Offsets\<close>

lemma rune_at_ascii: "code x < 0x80 \<Longrightarrow> rune_at c (rest @ x # b) = rune_at c rest"
proof -
  assume x: "code x < 0x80"
  consider "rest = []" | b1 where "rest = [b1]" | b1 b2 where "rest = [b1, b2]" | b1 b2 b3 r where "rest = b1 # b2 # b3 # r"
    by (metis list.exhaust)
  then show ?thesis using x
    by cases (auto simp: rune_at_def follows_def Let_def split: list.splits)
qed

lemma runes_before_ascii: "code x < 0x80 \<Longrightarrow> runes (a @ x # b) = runes a @ runes (x # b)"
proof (induction a rule: runes.induct)
  case (2 c rest)
  obtain r w where w: "rune_at c rest = (r, w)" by fastforce
  have le: "1 \<le> w" "w \<le> Suc (length rest)" using rune_width [OF w] by simp_all
  have w': "rune_at c (rest @ x # b) = (r, w)" using rune_at_ascii [OF 2(2)] w by simp
  have "runes (drop w (c # rest) @ x # b) = runes (drop w (c # rest)) @ runes (x # b)"
    using 2(1) [OF w [symmetric] refl 2(2)] .
  moreover have "take w (c # rest @ x # b) = take w (c # rest)" "drop w (c # rest @ x # b) = drop w (c # rest) @ x # b"
    using le by (cases w; simp)+
  ultimately show ?case by (simp add: runes.simps(2) [of c] w w')
qed simp

lemma space_ascii: "code CHR '' '' < 0x80"
  by (simp add: code_def)

lemma rune_count_space: "rune_count (a @ CHR '' '' # b) = rune_count a + 1 + rune_count b"
  by (simp add: rune_count_def runes_before_ascii [OF space_ascii] runes_ascii [OF space_ascii])

lemma rune_count_pad: "rune_count (a @ replicate n CHR '' '' @ CHR '' '' # b) = rune_count a + n + 1 + rune_count b"
proof (induction n arbitrary: a)
  case (Suc n)
  have "rune_count (a @ replicate (Suc n) CHR '' '' @ CHR '' '' # b) = rune_count (a @ CHR '' '' # replicate n CHR '' '' @ CHR '' '' # b)"
    by simp
  also have "\<dots> = rune_count a + 1 + rune_count ([] @ replicate n CHR '' '' @ CHR '' '' # b)"
    by (simp add: rune_count_space)
  also note Suc.IH [of "[]"]
  finally show ?case by (simp add: rune_count_def)
qed (simp add: rune_count_space)

definition column_start :: "nat list \<Rightarrow> nat \<Rightarrow> nat" where
  "column_start ws k = (\<Sum>j<k. ws ! j + 2)"

lemma row_from_cells:
  assumes "\<forall>k<length cells. rune_count (cells ! k) \<le> ws ! (i + k)" "i + length cells \<le> length ws"
  shows "\<exists>line. row_from i cells ws = Some line \<and> (\<forall>k<length cells. \<exists>b a. line = b @ cells ! k @ a
    \<and> rune_count b = (if 0 < i then 2 else 0) + (\<Sum>j<k. ws ! (i + j) + 2) \<and> (0 < i \<longrightarrow> (\<exists>b'. b = CHR '' '' # b')))"
  using assms
proof (induction cells arbitrary: i)
  case (Cons c cs)
  let ?gap = "if 0 < i then column_gap else ''''"
  have c: "rune_count c \<le> ws ! i" using Cons.prems(1) by (metis add_0_right length_greater_0_conv list.distinct(1) nth_Cons_0)
  have tail: "\<forall>k<length cs. rune_count (cs ! k) \<le> ws ! (Suc i + k)" "Suc i + length cs \<le> length ws"
    using Cons.prems by fastforce+
  obtain rest where rest: "row_from (Suc i) cs ws = Some rest"
    and offs: "\<forall>k<length cs. \<exists>b a. rest = b @ cs ! k @ a
      \<and> rune_count b = 2 + (\<Sum>j<k. ws ! (Suc i + j) + 2) \<and> (\<exists>b'. b = CHR '' '' # b')"
    using Cons.IH [OF tail] by auto
  have gap: "rune_count ?gap = (if 0 < i then 2 else 0)" "0 < i \<longrightarrow> (\<exists>b'. ?gap = CHR '' '' # b')"
    by (auto simp: column_gap_def rune_count_def runes_ascii [OF space_ascii])
  show ?case
  proof (cases "cs = []")
    case True
    then have "row_from i (c # cs) ws = Some (?gap @ c)" by simp
    moreover have "\<forall>k<length (c # cs). \<exists>b a. ?gap @ c = b @ (c # cs) ! k @ a
        \<and> rune_count b = (if 0 < i then 2 else 0) + (\<Sum>j<k. ws ! (i + j) + 2) \<and> (0 < i \<longrightarrow> (\<exists>b'. b = CHR '' '' # b'))"
      using True gap by (intro allI impI, rule_tac x = ?gap in exI, rule_tac x = "[]" in exI) simp
    ultimately show ?thesis by blast
  next
    case False
    let ?pad = "replicate (ws ! i - rune_count c) CHR '' ''"
    have "row_from i (c # cs) ws = Some (?gap @ c @ ?pad @ rest)"
      using False c tail(2) rest by (simp add: spaces_def)
    moreover have "\<exists>b a. ?gap @ c @ ?pad @ rest = b @ (c # cs) ! k @ a
      \<and> rune_count b = (if 0 < i then 2 else 0) + (\<Sum>j<k. ws ! (i + j) + 2) \<and> (0 < i \<longrightarrow> (\<exists>b'. b = CHR '' '' # b'))"
      if k: "k < length (c # cs)" for k
    proof (cases k)
      case 0
      then show ?thesis using gap by (intro exI [of _ ?gap] exI [of _ "?pad @ rest"] conjI) simp_all
    next
      case (Suc l)
      then obtain b a b' where b: "rest = b @ cs ! l @ a" "rune_count b = 2 + (\<Sum>j<l. ws ! (Suc i + j) + 2)" "b = CHR '' '' # b'"
        using offs k by auto
      have "rune_count (?gap @ c @ ?pad @ b) = rune_count ?gap + rune_count c + (ws ! i - rune_count c) + rune_count b"
      proof -
        have "rune_count (c @ ?pad @ b) = rune_count c + (ws ! i - rune_count c) + rune_count b"
          unfolding b(3) using rune_count_pad [of c _ b'] rune_count_space [of "[]" b'] by (simp add: rune_count_def)
        moreover have "rune_count (?gap @ s) = rune_count ?gap + rune_count s" for s
          by (simp add: column_gap_def rune_count_def runes_ascii [OF space_ascii])
        ultimately show ?thesis by simp
      qed
      also have "\<dots> = (if 0 < i then 2 else 0) + (\<Sum>j<Suc l. ws ! (i + j) + 2)"
        using c gap(1) b(2) by (simp add: sum.lessThan_Suc_shift del: sum.lessThan_Suc)
      finally have "rune_count (?gap @ c @ ?pad @ b) = (if 0 < i then 2 else 0) + (\<Sum>j<k. ws ! (i + j) + 2)" using Suc by simp
      moreover have "?gap @ c @ ?pad @ rest = (?gap @ c @ ?pad @ b) @ (c # cs) ! k @ a" using Suc b(1) by simp
      moreover have "0 < i \<longrightarrow> (\<exists>b'. ?gap @ c @ ?pad @ b = CHR '' '' # b')" by (simp add: column_gap_def)
      ultimately show ?thesis by (rule_tac x = "?gap @ c @ ?pad @ b" in exI, rule_tac x = a in exI) simp
    qed
    ultimately show ?thesis by blast
  qed
qed simp

lemma render_fits:
  assumes "fits cells ws"
  shows "\<exists>line. render_row cells ws = Some line
    \<and> (\<forall>k<length cells. \<exists>b a. line = b @ cells ! k @ a \<and> rune_count b = column_start ws k)"
  using row_from_cells [of cells ws 0] assms by (simp add: fits_def render_row_def column_start_def)

text \<open>
  A table is printed whatever its cells hold, short and long rows and bytes that are no text included, and its
  columns line up: in every line, that of the headers too, the cell of a column begins after the same number of runes.
\<close>

theorem table_columns_aligned:
  "print_table p t \<noteq> None
   \<and> (\<forall>r\<in>set (tb_headers t # tb_rows t). \<exists>line. render_row r (widths t) = Some line
        \<and> (\<forall>k<length r. \<exists>b a. line = b @ r ! k @ a \<and> rune_count b = column_start (widths t) k))"
proof -
  have all: "\<forall>r\<in>set (tb_headers t # tb_rows t). \<exists>line. render_row r (widths t) = Some line
        \<and> (\<forall>k<length r. \<exists>b a. line = b @ r ! k @ a \<and> rune_count b = column_start (widths t) k)"
    using render_fits widths_fit by auto
  have "render_rows rs (widths t) \<noteq> None" if "set rs \<subseteq> set (tb_rows t)" for rs
    using that
  proof (induction rs)
    case (Cons r rs)
    then show ?case using all by fastforce
  qed simp
  then have "render_rows (tb_rows t) (widths t) \<noteq> None" by simp
  moreover have "render_row (tb_headers t) (widths t) \<noteq> None" using all by auto
  ultimately have "print_table p t \<noteq> None" by (auto simp: print_table_def Let_def)
  then show ?thesis using all by blast
qed

definition sample_table :: table where
  "sample_table = add_row [''a'', symbol_pass] (add_row [''longer'', ''b'', ''c''] (new_table [''NAME'', ''STATE'']))"

theorem table_columns_aligned_witness:
  "\<exists>line b a. render_row [''a'', symbol_pass] (widths sample_table) = Some line
     \<and> line = b @ symbol_pass @ a \<and> rune_count b = column_start (widths sample_table) 1"
proof -
  have "[''a'', symbol_pass] \<in> set (tb_headers sample_table # tb_rows sample_table)"
    by (simp add: sample_table_def add_row_def new_table_def)
  then obtain line where "render_row [''a'', symbol_pass] (widths sample_table) = Some line"
    "\<forall>k<length [''a'', symbol_pass]. \<exists>b a. line = b @ [''a'', symbol_pass] ! k @ a \<and> rune_count b = column_start (widths sample_table) k"
    using conjunct2 [OF table_columns_aligned [of "\<lparr> pr_color = False \<rparr>" sample_table]] by blast
  then show ?thesis by (fastforce dest: spec [of _ 1])
qed

end
