(* ===== verification/Server_Wire.thy ===== *)
theory Server_Wire
  imports Server_Handlers Metrics Github
begin

text \<open>
  What lies between the handlers and the connection: the recorder of statuses, the recovery from panics and the
  request log of \<open>internal/server/server.go\<close>, the metrics of \<open>observability.go\<close>, and the exchange of an
  authorization code (\<open>oauth.go\<close>). A handler is the calls it makes on its \<open>ResponseWriter\<close> and whether it panics
  after them; \<open>net/http\<close> sends the first status that is final, or 200, and panics on one that is no status.
\<close>

section \<open>Writing a response\<close>

datatype write_call = WriteHeader int | WriteBody string

record wire =
  wi_sent :: "int option"
  wi_body :: string

record recorder =
  rc_status :: int
  rc_written :: bool

definition new_wire :: wire where "new_wire = \<lparr> wi_sent = None, wi_body = '''' \<rparr>"
definition new_recorder :: recorder where "new_recorder = \<lparr> rc_status = 200, rc_written = False \<rparr>"

definition informational :: "int \<Rightarrow> bool" where
  "informational status \<longleftrightarrow> 100 \<le> status \<and> status \<le> 199 \<and> status \<noteq> 101"

definition send_header :: "int \<Rightarrow> wire \<Rightarrow> wire option" where
  "send_header status w =
     (if wi_sent w \<noteq> None then Some w
      else if status < 100 \<or> 999 < status then None
      else if informational status then Some w
      else Some (w\<lparr>wi_sent := Some status\<rparr>))"

definition send_body :: "string \<Rightarrow> wire \<Rightarrow> wire" where
  "send_body b w =
     w\<lparr>wi_sent := Some (case wi_sent w of None \<Rightarrow> 200 | Some c \<Rightarrow> c), wi_body := wi_body w @ b\<rparr>"

text \<open>\<open>statusRecorder\<close>: its own fields first, then the writer under it; \<open>None\<close> is a panic there.\<close>

definition record_call :: "write_call \<Rightarrow> recorder \<Rightarrow> wire \<Rightarrow> recorder \<times> wire option" where
  "record_call call r w =
     (case call of
        WriteHeader status \<Rightarrow>
          (if rc_written r then r else \<lparr> rc_status = status, rc_written = True \<rparr>, send_header status w)
      | WriteBody b \<Rightarrow> (r\<lparr>rc_written := True\<rparr>, Some (send_body b w)))"

text \<open>The calls of a handler up to its end or a panic; whether it panicked.\<close>

fun run_calls :: "write_call list \<Rightarrow> bool \<Rightarrow> recorder \<Rightarrow> wire \<Rightarrow> bool \<times> recorder \<times> wire" where
  "run_calls [] panics r w = (panics, r, w)"
| "run_calls (c # cs) panics r w =
     (case record_call c r w of
        (r, None) \<Rightarrow> (True, r, w)
      | (r, Some w) \<Rightarrow> run_calls cs panics r w)"

section \<open>The request log and the recovery\<close>

definition count_request :: "int \<Rightarrow> (string \<Rightarrow> int) \<Rightarrow> string \<Rightarrow> int" where
  "count_request status requests = requests(status_class status := requests (status_class status) + 1)"

text \<open>\<open>withRequestLog\<close>: a panic passes through it before the request is counted.\<close>

definition log_request :: "write_call list \<Rightarrow> bool \<Rightarrow> (string \<Rightarrow> int) \<Rightarrow> wire \<Rightarrow> bool \<times> (string \<Rightarrow> int) \<times> wire" where
  "log_request calls panics requests w =
     (case run_calls calls panics new_recorder w of
        (panicked, r, w) \<Rightarrow> (panicked, if panicked then requests else count_request (rc_status r) requests, w))"

text \<open>\<open>withRecovery\<close> writes its error on the connection, and \<open>net/http\<close> the status of a handler that wrote none.\<close>

definition internal_error :: string where "internal_error = ''internal_error''"

definition recover_request :: "bool \<Rightarrow> wire \<Rightarrow> wire" where
  "recover_request panicked w =
     (if panicked
      then send_body internal_error (case send_header 500 w of Some w \<Rightarrow> w | None \<Rightarrow> w)
      else w)"

definition final_status :: "wire \<Rightarrow> int" where
  "final_status w = (case wi_sent w of None \<Rightarrow> 200 | Some c \<Rightarrow> c)"

definition answer_request :: "write_call list \<Rightarrow> bool \<Rightarrow> (string \<Rightarrow> int) \<Rightarrow> (string \<Rightarrow> int) \<times> wire" where
  "answer_request calls panics requests =
     (case log_request calls panics requests new_wire of
        (panicked, requests, w) \<Rightarrow> (requests, recover_request panicked w))"

text \<open>\<open>writeJSON\<close>, given the encoding of the body; an empty reply has none, and neither has a 204.\<close>

definition json_calls :: "response \<Rightarrow> string \<Rightarrow> write_call list" where
  "json_calls r encoded =
     WriteHeader (rs_status r) # (if rs_reply r = REmpty \<or> rs_status r = 204 then [] else [WriteBody encoded])"

section \<open>Metrics\<close>

definition fixed_counter :: "string \<Rightarrow> string \<Rightarrow> int \<Rightarrow> counter_vec" where
  "fixed_counter name help n =
     (if n = 0 then new_counter name help '''' else counter_add '''' (word_of_int n) (new_counter name help ''''))"

definition status_classes :: "string list" where
  "status_classes = [''1xx'', ''2xx'', ''3xx'', ''4xx'', ''5xx'']"

definition request_counter :: "(string \<Rightarrow> int) \<Rightarrow> counter_vec" where
  "request_counter requests =
     fold (\<lambda>c v. if requests c = 0 then v else counter_add c (word_of_int (requests c)) v) status_classes
       (new_counter ''runnerly_http_requests_total'' ''HTTP requests handled, by status class.'' ''status'')"

definition register_metrics :: "server \<Rightarrow> int registry" where
  "register_metrics s =
     \<lparr> rg_counters =
         [fixed_counter ''runnerly_runner_heartbeats_total'' ''Heartbeats accepted from agents.'' (sv_heartbeats s),
          fixed_counter ''runnerly_runner_restarts_total'' ''Runner restarts reported by agents.'' (sv_restarts s),
          fixed_counter ''runnerly_agent_errors_total'' ''Error-severity events reported by agents.'' (sv_agent_errors s),
          request_counter (sv_requests s),
          fixed_counter ''runnerly_rate_limited_total'' ''Requests refused for exceeding a rate limit.'' (sv_rate_limited s)],
       rg_gauges =
         [\<lparr> gg_name = ''runnerly_runners_total'', gg_help = ''Runners in service, excluding retired ones.'',
             gg_read = ct_total (sv_fleet s) \<rparr>,
          \<lparr> gg_name = ''runnerly_runners_online'', gg_help = ''Runners currently online or starting.'',
             gg_read = ct_online (sv_fleet s) \<rparr>,
          \<lparr> gg_name = ''runnerly_runners_busy'', gg_help = ''Runners currently running a job.'',
             gg_read = ct_busy (sv_fleet s) \<rparr>,
          \<lparr> gg_name = ''runnerly_runners_offline'', gg_help = ''Runners that have stopped reporting.'',
             gg_read = ct_offline (sv_fleet s) \<rparr>,
          \<lparr> gg_name = ''runnerly_runners_retired'',
             gg_help = ''Runners that finished for good, which is how an ephemeral run ends.'',
             gg_read = ct_retired (sv_fleet s) \<rparr>] \<rparr>"

text \<open>What a scrape reads, and \<open>RunBackground\<close>: one refresh at the start and one for each tick before the end.\<close>

definition scrape :: "(string list \<Rightarrow> string list) \<Rightarrow> (int \<Rightarrow> string) \<Rightarrow> server \<Rightarrow> string" where
  "scrape walk format s = write_registry walk format (register_metrics s)"

definition metrics_refresh :: int where "metrics_refresh = 15 * second"

fun run_background :: "env list \<Rightarrow> server_config \<Rightarrow> server \<Rightarrow> server" where
  "run_background [] cfg s = s"
| "run_background (env # ticks) cfg s = run_background ticks cfg (refresh_metrics env cfg s)"

section \<open>The exchange of a code\<close>

text \<open>What GitHub answers; \<open>None\<close> as a body is one that cannot be read or is no JSON within the limit.\<close>

record token_payload =
  tp_access_token :: string
  tp_error :: string
  tp_description :: string

datatype exchange_body = Unreadable | NoJson | Payload token_payload

datatype exchange_error = NotBuildable | NotReached | NotRead | BadStatus int | NotJson | Refused string | NoAccessToken

definition callback_url :: "server_config \<Rightarrow> string" where
  "callback_url cfg =
     (if sc_public_url cfg = '''' then ''<server.url>/api/v1/auth/github/callback''
      else sc_public_url cfg @ ''/api/v1/auth/github/callback'')"

definition cmp_first :: "string list \<Rightarrow> string" where
  "cmp_first vs = (case find (\<lambda>v. v \<noteq> '''') vs of Some v \<Rightarrow> v | None \<Rightarrow> '''')"

definition exchange_form :: "server_config \<Rightarrow> string \<Rightarrow> (string \<times> string) list" where
  "exchange_form cfg c =
     [(''client_id'', sc_client_id cfg), (''client_secret'', sc_client_secret cfg), (''code'', c), (''redirect_uri'', callback_url cfg)]"

text \<open>\<open>post\<close> is the request of a form to an address: whether it can be built, and what comes back.\<close>

definition exchange_code ::
  "(string \<Rightarrow> (string \<times> string) list \<Rightarrow> (int \<times> exchange_body) option option) \<Rightarrow> string \<Rightarrow> server_config \<Rightarrow> string
   \<Rightarrow> exchange_error + string"
where
  "exchange_code post host cfg c =
     (case post (web_url host @ ''/login/oauth/access_token'') (exchange_form cfg c) of
        None \<Rightarrow> Inl NotBuildable
      | Some None \<Rightarrow> Inl NotReached
      | Some (Some (status, body)) \<Rightarrow>
          if body = Unreadable then Inl NotRead
          else if status \<noteq> 200 then Inl (BadStatus status)
          else (case body of
                  Payload p \<Rightarrow>
                    if tp_error p \<noteq> '''' then Inl (Refused (cmp_first [tp_description p, tp_error p]))
                    else if tp_access_token p = '''' then Inl NoAccessToken
                    else Inr (tp_access_token p)
                | _ \<Rightarrow> Inl NotJson))"

section \<open>Guarantees\<close>

text \<open>As long as no informational status is written, the recorder says what is sent.\<close>

definition says_sent :: "recorder \<Rightarrow> wire \<Rightarrow> bool" where
  "says_sent r w \<longleftrightarrow> (rc_written r \<longleftrightarrow> wi_sent w \<noteq> None) \<and> rc_status r = final_status w"

definition plain_call :: "write_call \<Rightarrow> bool" where
  "plain_call c = (case c of WriteHeader status \<Rightarrow> \<not> informational status | WriteBody _ \<Rightarrow> True)"

lemma record_call_says:
  assumes "says_sent r w" "plain_call c" "record_call c r w = (r', Some w')"
  shows "says_sent r' w'"
  using assms
  by (cases c) (auto simp: says_sent_def plain_call_def record_call_def send_header_def send_body_def final_status_def
      split: if_splits option.splits)

lemma run_calls_says:
  assumes "says_sent r w" "list_all plain_call cs" "run_calls cs panics r w = (False, r', w')"
  shows "says_sent r' w'"
  using assms
proof (induction cs arbitrary: r w)
  case (Cons c cs)
  obtain r1 o1 where c: "record_call c r w = (r1, o1)" by fastforce
  obtain w1 where w1: "o1 = Some w1" using Cons.prems(3) c by (cases o1) simp_all
  have "says_sent r1 w1" using record_call_says [of r w c r1 w1] Cons.prems c w1 by simp
  then show ?case using Cons.IH [of r1 w1] Cons.prems c w1 by simp
qed simp

lemma new_says: "says_sent new_recorder new_wire"
  by (simp add: says_sent_def new_recorder_def new_wire_def final_status_def)

lemma recover_status:
  "final_status (recover_request panicked w) = (if panicked \<and> wi_sent w = None then 500 else final_status w)"
  by (auto simp: recover_request_def send_header_def send_body_def final_status_def informational_def split: option.splits)

text \<open>
  C19: the log tells the truth and every request is answered: a handler that returns is counted once, under the class of
  the status that its client was sent; one that panics before writing anything is answered with 500, and after
  writing with what it wrote. A panic, though, is counted nowhere. For the replies of the handlers of this server
  the count is that of the model of requests, \<open>with_request_log\<close>.
\<close>

theorem request_log_true:
  "(case run_calls calls panics new_recorder new_wire of (panicked, r, w) \<Rightarrow>
     (case answer_request calls panics requests of (requests', w') \<Rightarrow>
        final_status w' = (if panicked \<and> wi_sent w = None then 500 else final_status w)
        \<and> (panicked \<longrightarrow> requests' = requests)
        \<and> (\<not> panicked \<and> list_all plain_call calls \<longrightarrow> requests' = count_request (final_status w') requests)))
   \<and> (100 \<le> rs_status reply \<and> rs_status reply \<le> 999 \<and> \<not> informational (rs_status reply) \<longrightarrow>
      fst (answer_request (json_calls reply encoded) False (sv_requests s))
        = sv_requests (snd (with_request_log (\<lambda>_ _ _ s. (reply, s)) env cfg rq s)))"
proof
  obtain panicked r w where run: "run_calls calls panics new_recorder new_wire = (panicked, r, w)" by (metis prod.collapse)
  have ans: "answer_request calls panics requests =
      (if panicked then requests else count_request (rc_status r) requests, recover_request panicked w)"
    by (simp add: answer_request_def log_request_def run)
  have "rc_status r = final_status w" if "\<not> panicked" "list_all plain_call calls"
    using run_calls_says [OF new_says that(2), of panics r w] run that(1) by (simp add: says_sent_def)
  then show "case run_calls calls panics new_recorder new_wire of (panicked, r, w) \<Rightarrow>
     (case answer_request calls panics requests of (requests', w') \<Rightarrow>
        final_status w' = (if panicked \<and> wi_sent w = None then 500 else final_status w)
        \<and> (panicked \<longrightarrow> requests' = requests)
        \<and> (\<not> panicked \<and> list_all plain_call calls \<longrightarrow> requests' = count_request (final_status w') requests))"
    by (simp add: run ans recover_status)
next
  show "100 \<le> rs_status reply \<and> rs_status reply \<le> 999 \<and> \<not> informational (rs_status reply) \<longrightarrow>
      fst (answer_request (json_calls reply encoded) False (sv_requests s))
        = sv_requests (snd (with_request_log (\<lambda>_ _ _ s. (reply, s)) env cfg rq s))"
    by (auto simp: answer_request_def log_request_def json_calls_def record_call_def send_header_def new_recorder_def
        new_wire_def with_request_log_def count_request_def Let_def split: option.splits)
qed

theorem request_log_true_witness:
  "final_status (snd (answer_request [WriteBody ''a'', WriteHeader 404] False (\<lambda>_. 0))) = 200
   \<and> final_status (snd (answer_request [] True (\<lambda>_. 0))) = 500
   \<and> fst (answer_request [] True (\<lambda>_. 0)) = (\<lambda>_. 0)"
proof -
  have 1: "run_calls [WriteBody ''a'', WriteHeader 404] False new_recorder new_wire
      = (False, \<lparr> rc_status = 200, rc_written = True \<rparr>, \<lparr> wi_sent = Some 200, wi_body = ''a'' \<rparr>)"
    by code_simp
  have 2: "run_calls [] True new_recorder new_wire = (True, new_recorder, new_wire)" by simp
  obtain q1 w1 where a1: "answer_request [WriteBody ''a'', WriteHeader 404] False (\<lambda>_. 0) = (q1, w1)" by fastforce
  obtain q2 w2 where a2: "answer_request [] True (\<lambda>_. 0) = (q2, w2)" by fastforce
  show ?thesis
    using conjunct1 [OF request_log_true [where calls = "[WriteBody ''a'', WriteHeader 404]" and panics = False and requests = "\<lambda>_. 0"],
        unfolded 1 a1 prod.case]
      conjunct1 [OF request_log_true [where calls = "[]" and panics = True and requests = "\<lambda>_. 0"], unfolded 2 a2 prod.case]
    by (simp add: a1 a2 final_status_def new_wire_def)
qed

text \<open>A code is only ever exchanged for what GitHub sent as a token, in an answer without an error.\<close>

lemma exchange_code_ok:
  "exchange_code post host cfg c = Inr t \<longleftrightarrow>
     t \<noteq> '''' \<and> (\<exists>d. post (web_url host @ ''/login/oauth/access_token'') (exchange_form cfg c)
       = Some (Some (200, Payload \<lparr> tp_access_token = t, tp_error = '''', tp_description = d \<rparr>)))"
  by (auto simp: exchange_code_def split: option.splits exchange_body.splits if_splits)
    (metis (full_types) token_payload.surjective old.unit.exhaust)+

text \<open>The gauges are those of the last count that succeeded.\<close>

lemma run_background_append: "run_background (xs @ ys) cfg s = run_background ys cfg (run_background xs cfg s)"
  by (induction xs arbitrary: s) simp_all

lemma gauges_last_count:
  assumes "on_db (count_runners (en_now env) (sc_thresholds cfg)) (run_background ticks cfg s) = (Inr c, s')"
  shows "map gg_read (rg_gauges (register_metrics (run_background (ticks @ [env]) cfg s)))
    = [ct_total c, ct_online c, ct_busy c, ct_offline c, ct_retired c]"
  using assms by (simp add: run_background_append refresh_metrics_def register_metrics_def)

end
